(* ===== verification/Prelude.thy ===== *)
theory Prelude
  imports Main "HOL-Library.Word" "HOL-Library.AList"
begin

text \<open>
  The shared vocabulary of the development: Go's fixed-width integers and byte strings,
  results with an error value, the functions of Go's packages \<open>strings\<close>, \<open>strconv\<close> and
  \<open>cmp\<close> that the modelled code calls, and the general lemmas on them that the component
  theories use.

  Go strings are byte sequences: a \<^typ>\<open>string\<close> is a list of \<^typ>\<open>char\<close>, and a
  \<^typ>\<open>char\<close> is one byte. The functions below work byte by byte, as Go's do for the ASCII
  arguments the code passes. \<open>int\<close> of Go is a 64-bit word read with \<^term>\<open>sint\<close>,
  \<open>uint64\<close> one read with \<^term>\<open>uint\<close>.
\<close>

named_theorems go_simps \<open>equations of the modelled library functions\<close>

section \<open>Integers and results\<close>

type_synonym go_int = "64 word"
type_synonym u64 = "64 word"
type_synonym byte = "8 word"

lemma unat_of_nat_small: "n < 2 ^ 64 \<Longrightarrow> unat (of_nat n :: u64) = n"
  by (simp add: unat_of_nat)

lemma sint_word_of_int_small:
  "- (2 ^ 63) \<le> i \<Longrightarrow> i < 2 ^ 63 \<Longrightarrow> sint (word_of_int i :: go_int) = i"
  by (simp add: signed_of_int signed_take_bit_int_eq_self)

text \<open>\<open>(T, error)\<close> results where the value is only used without an error.\<close>

abbreviation Ok :: "'a \<Rightarrow> 'e + 'a" where
  "Ok \<equiv> Inr"

abbreviation Err :: "'e \<Rightarrow> 'e + 'a" where
  "Err \<equiv> Inl"

definition is_ok :: "'e + 'a \<Rightarrow> bool" where
  "is_ok r = (case r of Inl _ \<Rightarrow> False | Inr _ \<Rightarrow> True)"

lemma is_ok_simps [simp]: "is_ok (Inr x)" "\<not> is_ok (Inl e)"
  by (simp_all add: is_ok_def)

text \<open>\<open>cmp.Compare\<close> on an ordered type.\<close>

definition cmp_Compare :: "'a::linorder \<Rightarrow> 'a \<Rightarrow> int" where
  "cmp_Compare a b = (if a < b then -1 else if b < a then 1 else 0)"

lemma cmp_Compare_less_iff [simp]: "cmp_Compare a b < 0 \<longleftrightarrow> a < b"
  by (auto simp: cmp_Compare_def)

lemma cmp_Compare_greater_iff [simp]: "0 < cmp_Compare a b \<longleftrightarrow> b < a"
  by (auto simp: cmp_Compare_def)

lemma cmp_Compare_eq_iff [simp]: "cmp_Compare a b = 0 \<longleftrightarrow> a = b"
  by (auto simp: cmp_Compare_def)

lemma cmp_Compare_swap: "cmp_Compare a b = - cmp_Compare b a"
  by (auto simp: cmp_Compare_def)

section \<open>Bytes and characters\<close>

definition char_between :: "char \<Rightarrow> nat \<Rightarrow> nat \<Rightarrow> bool" where
  "char_between c lo hi \<longleftrightarrow> lo \<le> of_char c \<and> of_char c \<le> hi"

definition is_digit :: "char \<Rightarrow> bool" where
  "is_digit c = char_between c 48 57"

definition is_upper :: "char \<Rightarrow> bool" where
  "is_upper c = char_between c 65 90"

definition is_lower :: "char \<Rightarrow> bool" where
  "is_lower c = char_between c 97 122"

definition is_alnum :: "char \<Rightarrow> bool" where
  "is_alnum c \<longleftrightarrow> is_digit c \<or> is_upper c \<or> is_lower c"

text \<open>The ASCII part of \<open>unicode.ToLower\<close>.\<close>

definition to_lower :: "char \<Rightarrow> char" where
  "to_lower c = (if is_upper c then char_of (of_char c + 32 :: nat) else c)"

definition ToLower :: "string \<Rightarrow> string" where
  "ToLower s = map to_lower s"

lemma of_char_to_lower:
  "(of_char (to_lower c) :: nat) = (if is_upper c then of_char c + 32 else of_char c)"
  by (auto simp: to_lower_def is_upper_def char_between_def)

lemma to_lower_not_upper: "\<not> is_upper (to_lower c)"
  using of_char_to_lower [of c] by (auto simp: is_upper_def char_between_def split: if_splits)

lemma is_alnum_to_lower: "is_alnum (to_lower c) = is_alnum c"
  using of_char_to_lower [of c]
  by (auto simp: is_alnum_def is_digit_def is_upper_def is_lower_def char_between_def
      split: if_splits)

lemma to_lower_fixed: "\<not> is_upper c \<Longrightarrow> to_lower c = c"
  by (simp add: to_lower_def)

section \<open>Decimal numerals\<close>

text \<open>\<open>strconv.Itoa\<close>: the decimal digits of an integer.\<close>

definition digit_char :: "nat \<Rightarrow> char" where
  "digit_char d = char_of (48 + d)"

definition digit_val :: "char \<Rightarrow> nat" where
  "digit_val c = of_char c - 48"

fun utoa :: "nat \<Rightarrow> string" where
  "utoa n = (if n < 10 then [digit_char n] else utoa (n div 10) @ [digit_char (n mod 10)])"

declare utoa.simps [simp del]

definition Itoa :: "int \<Rightarrow> string" where
  "Itoa i = (if i < 0 then CHR ''-'' # utoa (nat (- i)) else utoa (nat i))"

text \<open>
  \<open>strconv.Atoi\<close>, \<open>ParseInt(s, 10, 64)\<close> and \<open>ParseUint(s, 10, 64)\<close>. A numeral that is out
  of range yields the nearest bound together with the error, as the library documents.
\<close>

datatype num_error = ErrSyntax | ErrRange

definition digits_val :: "string \<Rightarrow> nat" where
  "digits_val s = foldl (\<lambda>n c. 10 * n + digit_val c) 0 s"

definition all_digits :: "string \<Rightarrow> bool" where
  "all_digits s \<longleftrightarrow> s \<noteq> [] \<and> list_all is_digit s"

definition ParseUint :: "string \<Rightarrow> nat \<times> num_error option" where
  "ParseUint s =
     (if \<not> all_digits s then (0, Some ErrSyntax)
      else if digits_val s < 2 ^ 64 then (digits_val s, None)
      else (2 ^ 64 - 1, Some ErrRange))"

definition sign_split :: "string \<Rightarrow> bool \<times> string" where
  "sign_split s =
     (case s of
        [] \<Rightarrow> (False, [])
      | c # cs \<Rightarrow> if c = CHR ''-'' then (True, cs) else if c = CHR ''+'' then (False, cs) else (False, s))"

definition Atoi :: "string \<Rightarrow> int \<times> num_error option" where
  "Atoi s =
     (let (neg, ds) = sign_split s; n = int (digits_val ds)
      in if \<not> all_digits ds then (0, Some ErrSyntax)
         else if neg then (if n \<le> 2 ^ 63 then (- n, None) else (- (2 ^ 63), Some ErrRange))
         else (if n < 2 ^ 63 then (n, None) else (2 ^ 63 - 1, Some ErrRange)))"

lemma of_char_digit_char: "d < 10 \<Longrightarrow> (of_char (digit_char d) :: nat) = 48 + d"
  by (simp add: digit_char_def)

lemma is_digit_digit_char: "d < 10 \<Longrightarrow> is_digit (digit_char d)"
  by (simp add: is_digit_def char_between_def of_char_digit_char)

lemma digit_val_digit_char: "d < 10 \<Longrightarrow> digit_val (digit_char d) = d"
  by (simp add: digit_val_def of_char_digit_char)

lemma utoa_digits: "list_all is_digit (utoa n)"
proof (induction n rule: utoa.induct)
  case (1 n)
  then show ?case
    by (cases "n < 10") (simp_all add: utoa.simps [of n] is_digit_digit_char)
qed

lemma utoa_not_Nil [simp]: "utoa n \<noteq> []"
  by (subst utoa.simps) simp

lemma utoa_is_digit: "c \<in> set (utoa n) \<Longrightarrow> is_digit c"
  using utoa_digits [of n] by (simp add: list_all_iff)

lemma digits_val_utoa: "digits_val (utoa n) = n"
proof (induction n rule: utoa.induct)
  case (1 n)
  then show ?case
    by (cases "n < 10") (simp_all add: utoa.simps [of n] digits_val_def digit_val_digit_char)
qed

lemma all_digits_utoa [simp]: "all_digits (utoa n)"
  by (simp add: all_digits_def utoa_digits)

lemma is_digit_chars [simp]:
  "\<not> is_digit (CHR ''-'')" "\<not> is_digit (CHR ''+'')" "\<not> is_digit (CHR ''.'')"
  "\<not> is_digit (CHR ''/'')" "\<not> is_digit (CHR '','')" "\<not> is_digit (CHR '' '')"
  by (simp_all add: is_digit_def char_between_def)

lemma sign_split_utoa: "sign_split (utoa n) = (False, utoa n)"
proof -
  obtain c cs where u: "utoa n = c # cs"
    by (meson neq_Nil_conv utoa_not_Nil)
  then have "is_digit c"
    using utoa_is_digit [of c n] by simp
  then have "c \<noteq> CHR ''-''" "c \<noteq> CHR ''+''"
    by auto
  with u show ?thesis
    by (simp add: sign_split_def)
qed

text \<open>Parsing what \<open>Itoa\<close> printed gives the number back, for every 64-bit signed value.\<close>

lemma Atoi_Itoa:
  assumes "- (2 ^ 63) \<le> i" "i < 2 ^ 63"
  shows "Atoi (Itoa i) = (i, None)"
proof (cases "i < 0")
  case True
  then have "Itoa i = CHR ''-'' # utoa (nat (- i))"
    by (simp add: Itoa_def)
  then have "Atoi (Itoa i) = (if - i \<le> 2 ^ 63 then (i, None) else (- (2 ^ 63), Some ErrRange))"
    using True by (simp add: Atoi_def sign_split_def digits_val_utoa)
  with assms show ?thesis by simp
next
  case False
  then have "Atoi (Itoa i) = (if i < 2 ^ 63 then (i, None) else (2 ^ 63 - 1, Some ErrRange))"
    by (simp add: Atoi_def Itoa_def sign_split_utoa digits_val_utoa)
  with assms show ?thesis by simp
qed

lemma sint_range: "- (2 ^ 63) \<le> sint (w :: go_int) \<and> sint w < 2 ^ 63"
  using sint_ge [of w] sint_lt [of w] by simp

lemma Atoi_Itoa_sint [simp]: "Atoi (Itoa (sint (w :: go_int))) = (sint w, None)"
  using sint_range [of w] by (simp add: Atoi_Itoa)

lemma Atoi_range: "- (2 ^ 63) \<le> fst (Atoi s) \<and> fst (Atoi s) < 2 ^ 63"
  by (auto simp: Atoi_def Let_def split: prod.splits)

lemma Itoa_not_Nil [simp]: "Itoa i \<noteq> []"
  by (simp add: Itoa_def)

lemma Itoa_chars: "c \<in> set (Itoa i) \<Longrightarrow> is_digit c \<or> c = CHR ''-''"
  by (auto simp: Itoa_def utoa_is_digit split: if_splits)

section \<open>Association lists\<close>

lemma set_update_subset: "set (AList.update k v m) \<subseteq> insert (k, v) (set m)"
  by (induction m) auto

lemma set_delete_subset: "set (AList.delete k m) \<subseteq> set m"
  by (auto simp: AList.delete_eq)

end
