(* ===== verification/GoStrings.thy ===== *)
theory GoStrings
  imports Prelude
begin

text \<open>
  The functions of Go's package \<open>strings\<close> that the modelled code calls, as executable
  functions on byte strings, with the lemmas on them that the components share.
\<close>

section \<open>Prefixes, suffixes and search\<close>

definition HasPrefix :: "string \<Rightarrow> string \<Rightarrow> bool" where
  "HasPrefix s p \<longleftrightarrow> take (length p) s = p"

definition HasSuffix :: "string \<Rightarrow> string \<Rightarrow> bool" where
  "HasSuffix s p \<longleftrightarrow> length p \<le> length s \<and> drop (length s - length p) s = p"

definition TrimSuffix :: "string \<Rightarrow> string \<Rightarrow> string" where
  "TrimSuffix s p = (if HasSuffix s p then take (length s - length p) s else s)"

primrec Index :: "string \<Rightarrow> string \<Rightarrow> nat option" where
  "Index [] sub = (if sub = [] then Some 0 else None)"
| "Index (c # cs) sub = (if HasPrefix (c # cs) sub then Some 0 else map_option Suc (Index cs sub))"

primrec LastIndex :: "string \<Rightarrow> string \<Rightarrow> nat option" where
  "LastIndex [] sub = (if sub = [] then Some 0 else None)"
| "LastIndex (c # cs) sub =
     (case LastIndex cs sub of
        Some i \<Rightarrow> Some (Suc i)
      | None \<Rightarrow> if HasPrefix (c # cs) sub then Some 0 else None)"

definition Contains :: "string \<Rightarrow> string \<Rightarrow> bool" where
  "Contains s sub \<longleftrightarrow> Index s sub \<noteq> None"

lemma HasPrefix_append [simp]: "HasPrefix (p @ s) p"
  by (simp add: HasPrefix_def)

lemma HasPrefix_Nil [simp]: "HasPrefix s []"
  by (simp add: HasPrefix_def)

lemma HasPrefix_empty [simp]: "HasPrefix [] p \<longleftrightarrow> p = []"
  by (simp add: HasPrefix_def eq_commute)

lemma HasPrefix_Cons [simp]:
  "HasPrefix (c # s) (d # p) \<longleftrightarrow> c = d \<and> HasPrefix s p"
  by (simp add: HasPrefix_def)

lemma HasPrefix_iff: "HasPrefix s p \<longleftrightarrow> (\<exists>r. s = p @ r)"
  by (metis HasPrefix_append HasPrefix_def append_take_drop_id)

lemma HasSuffix_append [simp]: "HasSuffix (s @ p) p"
  by (simp add: HasSuffix_def)

lemma HasSuffix_iff: "HasSuffix s p \<longleftrightarrow> (\<exists>r. s = r @ p)"
  by (metis HasSuffix_append HasSuffix_def append_take_drop_id)

lemma HasSuffix_after:
  assumes "HasSuffix (s @ c # t) p" "c \<notin> set p"
  shows "HasSuffix t p"
proof -
  obtain r where r: "s @ c # t = r @ p"
    using assms(1) by (auto simp: HasSuffix_iff)
  then obtain us where "(s = r @ us \<and> us @ c # t = p) \<or> (s @ us = r \<and> c # t = us @ p)"
    by (auto simp: append_eq_append_conv2)
  then show ?thesis
  proof
    assume "s = r @ us \<and> us @ c # t = p"
    then have "c \<in> set p" by force
    with assms(2) show ?thesis by simp
  next
    assume "s @ us = r \<and> c # t = us @ p"
    then show ?thesis
      using assms(2) by (cases us) (auto simp: HasSuffix_iff)
  qed
qed

lemma TrimSuffix_append [simp]: "TrimSuffix (s @ p) p = s"
  by (simp add: TrimSuffix_def)

lemma Index_Some_prefix: "Index s sub = Some i \<Longrightarrow> HasPrefix (drop i s) sub"
  by (induction s arbitrary: i) (auto split: if_splits)

lemma LastIndex_Some_prefix: "LastIndex s sub = Some i \<Longrightarrow> HasPrefix (drop i s) sub"
  by (induction s arbitrary: i) (auto split: if_splits option.splits)

lemma LastIndex_None_if_missing:
  assumes "sub \<noteq> []" "hd sub \<notin> set s"
  shows "LastIndex s sub = None"
  using assms
proof (induction s)
  case (Cons c cs)
  then have "\<not> HasPrefix (c # cs) sub"
    by (cases sub) auto
  with Cons show ?case by simp
qed simp

lemma LastIndex_append:
  assumes "LastIndex t sub = Some i"
  shows "LastIndex (s @ t) sub = Some (length s + i)"
  using assms by (induction s) auto

lemma Index_append_None:
  assumes "sub \<noteq> []" "hd sub \<notin> set s"
  shows "Index (s @ t) sub = map_option (\<lambda>i. length s + i) (Index t sub)"
  using assms(2)
proof (induction s)
  case Nil
  then show ?case by (simp add: option.map_id0 option.map_ident)
next
  case (Cons c cs)
  have "\<not> HasPrefix (c # cs @ t) sub"
    using assms(1) Cons.prems by (cases sub) auto
  with Cons show ?case
    by (cases "Index t sub") auto
qed

section \<open>Splitting and joining\<close>

text \<open>\<open>strings.Split\<close> with a one-byte separator; the result is never empty.\<close>

fun Split :: "char \<Rightarrow> string \<Rightarrow> string list" where
  "Split sep [] = [[]]"
| "Split sep (c # cs) =
     (if c = sep then [] # Split sep cs
      else (case Split sep cs of [] \<Rightarrow> [[c]] | w # ws \<Rightarrow> (c # w) # ws))"

fun Join :: "string list \<Rightarrow> string \<Rightarrow> string" where
  "Join [] sep = []"
| "Join [w] sep = w"
| "Join (w # ws) sep = w @ sep @ Join ws sep"

text \<open>\<open>strings.Cut\<close> and \<open>strings.SplitN(s, sep, 2)\<close> at a one-byte separator.\<close>

definition Cut :: "char \<Rightarrow> string \<Rightarrow> string \<times> string \<times> bool" where
  "Cut sep s =
     (let l = takeWhile (\<lambda>c. c \<noteq> sep) s
      in if sep \<in> set s then (l, drop (Suc (length l)) s, True) else (s, [], False))"

definition SplitN2 :: "char \<Rightarrow> string \<Rightarrow> string list" where
  "SplitN2 sep s = (case Cut sep s of (l, r, found) \<Rightarrow> if found then [l, r] else [s])"

lemma Split_not_Nil [simp]: "Split sep s \<noteq> []"
  by (induction s) (auto split: list.splits)

lemma Join_Cons: "ws \<noteq> [] \<Longrightarrow> Join (w # ws) sep = w @ sep @ Join ws sep"
  by (cases ws) auto

lemma Join_Split: "Join (Split sep s) [sep] = s"
proof (induction s)
  case (Cons c cs)
  show ?case
  proof (cases "Split sep cs")
    case Nil
    then show ?thesis by simp
  next
    case (Cons w ws)
    with Cons.IH show ?thesis
      by (cases ws) (auto simp: Join_Cons)
  qed
qed simp

lemma Split_no_sep: "w \<in> set (Split sep s) \<Longrightarrow> sep \<notin> set w"
proof (induction s arbitrary: w)
  case (Cons c cs)
  show ?case
  proof (cases "Split sep cs")
    case Nil
    then show ?thesis by simp
  next
    case (Cons v vs)
    with Cons.IH Cons.prems show ?thesis
      by (auto split: if_splits)
  qed
qed simp

lemma Split_single: "sep \<notin> set s \<Longrightarrow> Split sep s = [s]"
  by (induction s) auto

lemma Split_append_sep: "sep \<notin> set w \<Longrightarrow> Split sep (w @ sep # s) = w # Split sep s"
  by (induction w) auto

lemma Split_Join:
  assumes "ws \<noteq> []" "\<forall>w \<in> set ws. sep \<notin> set w"
  shows "Split sep (Join ws [sep]) = ws"
  using assms
proof (induction ws)
  case (Cons w ws)
  then show ?case
    by (cases "ws = []") (auto simp: Join_Cons Split_single Split_append_sep)
qed simp

section \<open>Trimming and replacing\<close>

text \<open>ASCII white space: tab, line feed, vertical tab, form feed, carriage return, space.\<close>

definition is_space :: "char \<Rightarrow> bool" where
  "is_space c \<longleftrightarrow> char_between c 9 13 \<or> of_char c = (32 :: nat)"

definition TrimLeftFunc :: "(char \<Rightarrow> bool) \<Rightarrow> string \<Rightarrow> string" where
  "TrimLeftFunc p s = dropWhile p s"

definition TrimRightFunc :: "(char \<Rightarrow> bool) \<Rightarrow> string \<Rightarrow> string" where
  "TrimRightFunc p s = rev (dropWhile p (rev s))"

definition TrimSpace :: "string \<Rightarrow> string" where
  "TrimSpace s = TrimRightFunc is_space (TrimLeftFunc is_space s)"

definition TrimRight :: "string \<Rightarrow> string \<Rightarrow> string" where
  "TrimRight s cutset = TrimRightFunc (\<lambda>c. c \<in> set cutset) s"

definition Trim :: "string \<Rightarrow> string \<Rightarrow> string" where
  "Trim s cutset = TrimRight (TrimLeftFunc (\<lambda>c. c \<in> set cutset) s) cutset"

text \<open>\<open>strings.ReplaceAll\<close> with a non-empty pattern: leftmost, non-overlapping, in one pass.\<close>

function ReplaceAll :: "string \<Rightarrow> string \<Rightarrow> string \<Rightarrow> string" where
  "ReplaceAll s old new =
     (if s = [] then []
      else if old \<noteq> [] \<and> HasPrefix s old then new @ ReplaceAll (drop (length old) s) old new
      else hd s # ReplaceAll (tl s) old new)"
  by pat_completeness auto
termination
  by (relation "measure (\<lambda>(s, old, new). length s)") (auto simp: neq_Nil_conv)

declare ReplaceAll.simps [simp del]

text \<open>\<open>strings.Fields\<close>: the maximal runs of non-space bytes.\<close>

function Fields :: "string \<Rightarrow> string list" where
  "Fields s =
     (let t = dropWhile is_space s
      in if t = [] then []
         else takeWhile (\<lambda>c. \<not> is_space c) t # Fields (dropWhile (\<lambda>c. \<not> is_space c) t))"
  by pat_completeness auto
termination
proof (relation "measure length", goal_cases)
  case (2 s t)
  then obtain c cs where t: "t = c # cs" and "\<not> is_space c"
    by (metis hd_dropWhile list.collapse)
  then have "length (dropWhile (\<lambda>c. \<not> is_space c) t) \<le> length cs"
    by (simp add: length_dropWhile_le)
  also have "\<dots> < length t"
    by (simp add: t)
  also have "\<dots> \<le> length s"
    unfolding 2(1) by (rule length_dropWhile_le)
  finally show ?case by simp
qed simp

declare Fields.simps [simp del]

lemma TrimRightFunc_append:
  "TrimRightFunc p (s @ t) = (if list_all p t then TrimRightFunc p s else s @ TrimRightFunc p t)"
  by (auto simp: TrimRightFunc_def list_all_iff dropWhile_append)

lemma TrimRightFunc_prefix: "\<exists>r. s = TrimRightFunc p s @ r"
  by (metis TrimRightFunc_def rev_append rev_rev_ident takeWhile_dropWhile_id)

lemma TrimRightFunc_length: "length (TrimRightFunc p s) \<le> length s"
  by (simp add: TrimRightFunc_def) (metis length_dropWhile_le length_rev)

lemma TrimRightFunc_last: "TrimRightFunc p s \<noteq> [] \<Longrightarrow> \<not> p (last (TrimRightFunc p s))"
  by (metis TrimRightFunc_def hd_dropWhile last_rev rev_is_Nil_conv)

lemma TrimRightFunc_set: "set (TrimRightFunc p s) \<subseteq> set s"
  by (simp add: TrimRightFunc_def) (metis set_dropWhileD set_rev subsetI)

lemma TrimRightFunc_idem [simp]: "TrimRightFunc p (TrimRightFunc p s) = TrimRightFunc p s"
  by (simp add: TrimRightFunc_def)

lemma TrimRightFunc_hd: "TrimRightFunc p s \<noteq> [] \<Longrightarrow> hd (TrimRightFunc p s) = hd s"
  by (metis TrimRightFunc_prefix hd_append2)

lemma TrimRightFunc_dropWhile_nil:
  assumes "TrimRightFunc p (dropWhile p s) = []"
  shows "dropWhile p s = []"
proof (rule ccontr)
  assume ne: "dropWhile p s \<noteq> []"
  then have "\<not> p (hd (dropWhile p s))"
    by (rule hd_dropWhile)
  moreover have "\<forall>c \<in> set (dropWhile p s). p c"
    using assms by (simp add: TrimRightFunc_def)
  ultimately show False
    using ne by (metis hd_in_set)
qed

lemma TrimSpace_idem [simp]: "TrimSpace (TrimSpace s) = TrimSpace s"
proof -
  have "dropWhile is_space (TrimSpace s) = TrimSpace s"
  proof (cases "TrimSpace s = []")
    case False
    then have ne: "dropWhile is_space s \<noteq> []"
      by (auto simp: TrimSpace_def TrimLeftFunc_def TrimRightFunc_def simp del: dropWhile_eq_Nil_conv)
    from False have "hd (TrimSpace s) = hd (dropWhile is_space s)"
      by (simp add: TrimSpace_def TrimLeftFunc_def TrimRightFunc_hd)
    with hd_dropWhile [OF ne] have "\<not> is_space (hd (TrimSpace s))"
      by simp
    then show ?thesis
      by (cases "TrimSpace s") auto
  qed simp
  then show ?thesis
    by (metis TrimLeftFunc_def TrimRightFunc_idem TrimSpace_def)
qed

lemma ReplaceAll_Nil [simp]: "ReplaceAll [] old new = []"
  by (simp add: ReplaceAll.simps)

lemma ReplaceAll_not_occurring:
  assumes "Index s old = None"
  shows "ReplaceAll s old new = s"
  using assms
proof (induction s)
  case (Cons c cs)
  then show ?case
    by (auto simp: ReplaceAll.simps [of "c # cs"] split: if_splits)
qed simp

section \<open>Ordering of strings\<close>

text \<open>\<open>strings.Compare\<close>: lexicographic in the byte values.\<close>

fun strings_Compare :: "string \<Rightarrow> string \<Rightarrow> int" where
  "strings_Compare [] [] = 0"
| "strings_Compare [] (d # ds) = -1"
| "strings_Compare (c # cs) [] = 1"
| "strings_Compare (c # cs) (d # ds) =
     (if c = d then strings_Compare cs ds else cmp_Compare (of_char c :: nat) (of_char d))"

lemma of_char_eq_nat [simp]: "(of_char c :: nat) = of_char d \<longleftrightarrow> c = d"
  by (metis char_of_char)

lemma strings_Compare_refl [simp]: "strings_Compare s s = 0"
  by (induction s) auto

lemma strings_Compare_eq_iff: "strings_Compare s t = 0 \<longleftrightarrow> s = t"
  by (induction s t rule: strings_Compare.induct) auto

lemma strings_Compare_swap: "strings_Compare s t = - strings_Compare t s"
  by (induction s t rule: strings_Compare.induct)
     (auto simp: cmp_Compare_swap [of "of_char _"] cmp_Compare_def)

lemma strings_Compare_trans:
  "strings_Compare s t \<le> 0 \<Longrightarrow> strings_Compare t u \<le> 0 \<Longrightarrow> strings_Compare s u \<le> 0"
proof (induction s t arbitrary: u rule: strings_Compare.induct)
  case (4 c cs d ds)
  then show ?case
    by (cases u) (auto simp: cmp_Compare_def split: if_splits)
next
  case (1)
  then show ?case by simp
next
  case (2 d ds)
  then show ?case by (cases u) auto
next
  case (3 c cs)
  then show ?case by (cases u) auto
qed

text \<open>
  \<open>bufio.Scanner\<close>: lines without their line feed and one trailing carriage return; a last line
  without a line feed counts when it is not empty.
\<close>

definition drop_cr :: "string \<Rightarrow> string" where
  "drop_cr l = (if l \<noteq> [] \<and> last l = CHR 0x0D then butlast l else l)"

definition ScanLines :: "string \<Rightarrow> string list" where
  "ScanLines s =
     (let parts = Split (CHR 0x0A) s
      in map drop_cr (if last parts = [] then butlast parts else parts))"

end
