(* ===== verification/GoFloat.thy ===== *)
theory GoFloat
  imports Prelude
begin

text \<open>
  Go's \<open>float64\<close>. Every finite double is a multiple of the least subnormal \<open>2^-1074\<close>, so
  \<open>Fin k\<close> stands for the double \<open>k * 2^-1074\<close>; the arithmetic is exact integer arithmetic
  followed by IEEE rounding to nearest, ties to even, and overflow to an infinity. The two
  zeros are identified: no modelled code tells them apart. The linear order is the one of
  \<open>cmp.Compare\<close>, which puts NaN below everything.
\<close>

datatype f64 = NaN | NInf | Fin int | PInf

section \<open>Rounding\<close>

fun bitlen :: "nat \<Rightarrow> nat" where
  "bitlen n = (if n = 0 then 0 else Suc (bitlen (n div 2)))"

declare bitlen.simps [simp del]

definition rnd_even :: "nat \<Rightarrow> nat \<Rightarrow> nat" where
  "rnd_even n d =
     (let q = n div d; r = n mod d
      in if d < 2 * r \<or> (2 * r = d \<and> odd q) then Suc q else q)"

text \<open>The double nearest to the rational \<open>n / d\<close>, in units of \<open>2^-1074\<close>.\<close>

definition f64_rnd :: "nat \<Rightarrow> nat \<Rightarrow> nat" where
  "f64_rnd n d = (let e = bitlen (n div d) - 53 in rnd_even n (d * 2 ^ e) * 2 ^ e)"

definition f64_max :: nat where
  "f64_max = (2 ^ 53 - 1) * 2 ^ 2045"

definition f64_make :: "bool \<Rightarrow> nat \<Rightarrow> nat \<Rightarrow> f64" where
  "f64_make neg n d =
     (let k = f64_rnd n d
      in if f64_max < k then (if neg then NInf else PInf)
         else Fin (if neg then - int k else int k))"

definition f64_round :: "int \<Rightarrow> f64" where
  "f64_round i = f64_make (i < 0) (nat \<bar>i\<bar>) 1"

section \<open>Conversions, arithmetic and comparison\<close>

definition f64_unit :: int where
  "f64_unit = 2 ^ 1074"

definition f64_of_int :: "int \<Rightarrow> f64" where
  "f64_of_int i = f64_round (i * f64_unit)"

fun f64_neg :: "f64 \<Rightarrow> f64" where
  "f64_neg NaN = NaN"
| "f64_neg NInf = PInf"
| "f64_neg PInf = NInf"
| "f64_neg (Fin a) = Fin (- a)"

fun f64_add :: "f64 \<Rightarrow> f64 \<Rightarrow> f64" where
  "f64_add NaN y = NaN"
| "f64_add x NaN = NaN"
| "f64_add PInf NInf = NaN"
| "f64_add NInf PInf = NaN"
| "f64_add PInf y = PInf"
| "f64_add NInf y = NInf"
| "f64_add x PInf = PInf"
| "f64_add x NInf = NInf"
| "f64_add (Fin a) (Fin b) = f64_round (a + b)"

definition f64_sub :: "f64 \<Rightarrow> f64 \<Rightarrow> f64" where
  "f64_sub x y = f64_add x (f64_neg y)"

definition f64_inf :: "bool \<Rightarrow> f64" where
  "f64_inf neg = (if neg then NInf else PInf)"

fun f64_mul :: "f64 \<Rightarrow> f64 \<Rightarrow> f64" where
  "f64_mul NaN y = NaN"
| "f64_mul x NaN = NaN"
| "f64_mul (Fin a) (Fin b) =
     f64_make ((a < 0) \<noteq> (b < 0)) (nat \<bar>a\<bar> * nat \<bar>b\<bar>) (nat f64_unit)"
| "f64_mul (Fin a) y = (if a = 0 then NaN else f64_inf ((a < 0) \<noteq> (y = NInf)))"
| "f64_mul x (Fin b) = (if b = 0 then NaN else f64_inf ((x = NInf) \<noteq> (b < 0)))"
| "f64_mul x y = f64_inf ((x = NInf) \<noteq> (y = NInf))"

text \<open>Division; a zero divisor is \<open>+0\<close>, the only zero the modelled code divides by.\<close>

fun f64_div :: "f64 \<Rightarrow> f64 \<Rightarrow> f64" where
  "f64_div NaN y = NaN"
| "f64_div x NaN = NaN"
| "f64_div (Fin a) (Fin b) =
     (if b = 0 then (if a = 0 then NaN else f64_inf (a < 0))
      else f64_make ((a < 0) \<noteq> (b < 0)) (nat \<bar>a\<bar> * nat f64_unit) (nat \<bar>b\<bar>))"
| "f64_div (Fin a) y = Fin 0"
| "f64_div x (Fin b) = f64_inf ((x = NInf) \<noteq> (b < 0))"
| "f64_div x y = NaN"

text \<open>The order of \<open>cmp.Compare\<close>.\<close>

definition f64_rank :: "f64 \<Rightarrow> int" where
  "f64_rank x = (case x of NaN \<Rightarrow> 0 | NInf \<Rightarrow> 1 | Fin _ \<Rightarrow> 2 | PInf \<Rightarrow> 3)"

instantiation f64 :: linorder
begin

fun less_eq_f64 :: "f64 \<Rightarrow> f64 \<Rightarrow> bool" where
  "less_eq_f64 (Fin a) (Fin b) \<longleftrightarrow> a \<le> b"
| "less_eq_f64 x y \<longleftrightarrow> f64_rank x \<le> f64_rank y"

definition less_f64 :: "f64 \<Rightarrow> f64 \<Rightarrow> bool" where
  "less_f64 x y \<longleftrightarrow> x \<le> y \<and> \<not> y \<le> (x :: f64)"

instance
proof
  fix x y z :: f64
  show "(x < y) = (x \<le> y \<and> \<not> y \<le> x)"
    by (simp add: less_f64_def)
  show "x \<le> x"
    by (cases x) (auto simp: f64_rank_def)
  show "x \<le> y \<Longrightarrow> y \<le> z \<Longrightarrow> x \<le> z"
    by (cases x; cases y; cases z) (auto simp: f64_rank_def)
  show "x \<le> y \<Longrightarrow> y \<le> x \<Longrightarrow> x = y"
    by (cases x; cases y) (auto simp: f64_rank_def)
  show "x \<le> y \<or> y \<le> x"
    by (cases x; cases y) (auto simp: f64_rank_def)
qed

end

text \<open>Go's \<open>>=\<close> on doubles: false when an operand is NaN.\<close>

definition f64_ge :: "f64 \<Rightarrow> f64 \<Rightarrow> bool" where
  "f64_ge x y \<longleftrightarrow> x \<noteq> NaN \<and> y \<noteq> NaN \<and> y \<le> x"

definition f64_gt :: "f64 \<Rightarrow> f64 \<Rightarrow> bool" where
  "f64_gt x y \<longleftrightarrow> x \<noteq> NaN \<and> y \<noteq> NaN \<and> y < x"

section \<open>Rounding is exact on small integers and monotone\<close>

lemma bitlen_lower: "n \<noteq> 0 \<Longrightarrow> 2 ^ (bitlen n - 1) \<le> n"
proof (induction n rule: bitlen.induct)
  case (1 n)
  show ?case
  proof (cases "n div 2 = 0")
    case True
    with 1 show ?thesis by (simp add: bitlen.simps [of n] bitlen.simps [of 0])
  next
    case False
    with 1 have "2 ^ (bitlen (n div 2) - 1) \<le> n div 2" by simp
    moreover have "bitlen (n div 2) \<noteq> 0"
      using False by (simp add: bitlen.simps [of "n div 2"])
    ultimately have "2 ^ bitlen (n div 2) \<le> n"
      by (cases "bitlen (n div 2)") auto
    with 1(2) show ?thesis by (simp add: bitlen.simps [of n])
  qed
qed

lemma bitlen_upper: "n < 2 ^ bitlen n"
proof (induction n rule: bitlen.induct)
  case (1 n)
  then show ?case
    by (cases "n = 0") (auto simp: bitlen.simps [of n])
qed

lemma bitlen_le_iff: "bitlen n \<le> k \<longleftrightarrow> n < 2 ^ k"
proof
  assume "bitlen n \<le> k"
  then have "(2::nat) ^ bitlen n \<le> 2 ^ k" by (simp add: power_increasing)
  with bitlen_upper [of n] show "n < 2 ^ k" by linarith
next
  assume n: "n < 2 ^ k"
  show "bitlen n \<le> k"
  proof (cases "n = 0")
    case True
    then show ?thesis by (simp add: bitlen.simps)
  next
    case False
    then have "(2::nat) ^ (bitlen n - 1) < 2 ^ k"
      using bitlen_lower n le_less_trans by blast
    then have "bitlen n - 1 < k" by (simp add: power_strict_increasing_iff)
    then show ?thesis by simp
  qed
qed

lemma bitlen_mono: "m \<le> n \<Longrightarrow> bitlen m \<le> bitlen n"
  using bitlen_le_iff bitlen_upper le_less_trans by blast

lemma rnd_even_mono: "m \<le> n \<Longrightarrow> rnd_even m d \<le> rnd_even n d"
proof -
  assume mn: "m \<le> n"
  then have q: "m div d \<le> n div d" by (rule div_le_mono)
  show ?thesis
  proof (cases "m div d = n div d")
    case True
    have "m mod d \<le> n mod d"
    proof -
      have "m = d * (n div d) + m mod d" by (metis True mult_div_mod_eq)
      moreover have "n = d * (n div d) + n mod d" by simp
      ultimately show ?thesis using mn by linarith
    qed
    with True show ?thesis by (auto simp: rnd_even_def Let_def)
  next
    case False
    with q show ?thesis by (auto simp: rnd_even_def Let_def)
  qed
qed

lemma rnd_even_upper: "rnd_even n d \<le> Suc (n div d)"
  by (auto simp: rnd_even_def Let_def)

lemma rnd_even_lower: "n div d \<le> rnd_even n d"
  by (auto simp: rnd_even_def Let_def)

lemma rnd_even_one [simp]: "rnd_even n (Suc 0) = n"
  by (simp add: rnd_even_def)

lemma f64_rnd_mono:
  assumes "m \<le> n"
  shows "f64_rnd m d \<le> f64_rnd n d"
proof -
  let ?e = "\<lambda>k. bitlen (k div d) - 53"
  have le: "?e m \<le> ?e n"
    using bitlen_mono [OF div_le_mono [OF assms]] by (rule diff_le_mono)
  show ?thesis
  proof (cases "?e m = ?e n")
    case True
    then show ?thesis
      using rnd_even_mono [OF assms, of "d * 2 ^ ?e n"] by (simp add: f64_rnd_def Let_def)
  next
    case False
    with le have lt: "Suc (?e m) \<le> ?e n" by simp
    have "bitlen (m div d) \<le> 53 + ?e m" by simp
    then have "m div d < 2 ^ (53 + ?e m)" by (simp only: bitlen_le_iff)
    then have "m div (d * 2 ^ ?e m) < 2 ^ 53"
      by (simp add: div_mult2_eq power_add less_mult_imp_div_less)
    then have "rnd_even m (d * 2 ^ ?e m) \<le> 2 ^ 53"
      using rnd_even_upper [of m "d * 2 ^ ?e m"] by linarith
    then have "f64_rnd m d \<le> 2 ^ 53 * 2 ^ ?e m"
      by (simp add: f64_rnd_def Let_def)
    also have "\<dots> \<le> (2::nat) ^ 52 * 2 ^ ?e n"
    proof -
      have "(2::nat) ^ Suc (?e m) \<le> 2 ^ ?e n"
        using lt by (rule power_increasing) simp
      then show ?thesis by simp
    qed
    also have "\<dots> \<le> f64_rnd n d"
    proof -
      have "n div d \<noteq> 0" using False le
        by (metis bitlen.simps diff_0_eq_0 le_zero_eq)
      then have "2 ^ (bitlen (n div d) - 1) \<le> n div d" by (rule bitlen_lower)
      moreover have "bitlen (n div d) - 1 = 52 + ?e n" using lt by simp
      ultimately have "2 ^ 52 * 2 ^ ?e n \<le> n div d" by (metis power_add)
      then have "2 ^ 52 \<le> n div (d * 2 ^ ?e n)"
        by (simp add: div_mult2_eq less_eq_div_iff_mult_less_eq)
      then have "2 ^ 52 \<le> rnd_even n (d * 2 ^ ?e n)"
        using rnd_even_lower le_trans by blast
      then show ?thesis by (simp add: f64_rnd_def Let_def)
    qed
    finally show ?thesis .
  qed
qed

lemma f64_make_mono: "m \<le> n \<Longrightarrow> f64_make False m d \<le> f64_make False n d"
  using f64_rnd_mono [of m n d] by (auto simp: f64_make_def Let_def f64_rank_def)

lemma f64_make_anti: "m \<le> n \<Longrightarrow> f64_make True n d \<le> f64_make True m d"
  using f64_rnd_mono [of m n d] by (auto simp: f64_make_def Let_def f64_rank_def)

lemma f64_make_signs: "f64_make True m d \<le> f64_make False n d"
  by (auto simp: f64_make_def Let_def f64_rank_def)

lemma f64_round_mono: "i \<le> j \<Longrightarrow> f64_round i \<le> f64_round j"
  using f64_make_mono [of "nat i" "nat j" 1] f64_make_anti [of "nat (- j)" "nat (- i)" 1]
    f64_make_signs [of "nat (- i)" 1 "nat j"]
  by (cases "i < 0"; cases "j < 0") (simp_all add: f64_round_def)

lemma f64_round_not_NaN [simp]: "f64_round i \<noteq> NaN"
  by (simp add: f64_round_def f64_make_def Let_def)

lemma f64_order_bounds [simp]:
  "NaN \<le> x" "x \<le> PInf" "NInf \<le> x \<longleftrightarrow> x \<noteq> NaN" "x \<le> NaN \<longleftrightarrow> x = NaN"
  "PInf \<le> x \<longleftrightarrow> x = PInf" "Fin i \<le> NInf \<longleftrightarrow> False"
  by (cases x; simp add: f64_rank_def)+

declare less_eq_f64.simps [simp del]

lemma Fin_le_Fin [simp]: "Fin i \<le> Fin j \<longleftrightarrow> i \<le> j"
  by (simp add: less_eq_f64.simps)

lemma f64_add_mono:
  assumes "x \<le> x'" "y \<le> y'" "f64_add x' y' \<noteq> NaN"
  shows "f64_add x y \<le> f64_add x' y'"
proof (cases "f64_add x y = NaN")
  case False
  then show ?thesis
    using assms by (cases x; cases y; simp; cases x'; cases y'; simp add: f64_round_mono)
qed simp

section \<open>Small integers are exact\<close>

text \<open>Integers below \<open>2^53\<close> are doubles, so conversion, sum and difference are exact on them.\<close>

definition small :: "int \<Rightarrow> bool" where
  "small i \<longleftrightarrow> \<bar>i\<bar> < 2 ^ 53"

lemma rnd_even_exact: "d dvd n \<Longrightarrow> d \<noteq> 0 \<Longrightarrow> rnd_even n d * d = n"
  by (auto simp: rnd_even_def Let_def)

lemma f64_rnd_exact:
  assumes "m < 2 ^ 53"
  shows "f64_rnd (m * 2 ^ k) 1 = m * 2 ^ k"
proof -
  let ?e = "bitlen (m * 2 ^ k) - 53"
  have "m * 2 ^ k < 2 ^ (53 + k)"
    using assms by (simp add: power_add)
  then have "bitlen (m * 2 ^ k) \<le> 53 + k"
    by (simp only: bitlen_le_iff)
  then have "?e \<le> k" by simp
  then have "(2::nat) ^ ?e dvd m * 2 ^ k"
    by (simp add: le_imp_power_dvd)
  then show ?thesis
    by (simp add: f64_rnd_def Let_def rnd_even_exact)
qed

lemma f64_of_int_small:
  assumes "small i"
  shows "f64_of_int i = Fin (i * f64_unit)"
proof -
  have n: "nat \<bar>i * f64_unit\<bar> = nat \<bar>i\<bar> * 2 ^ 1074"
    by (simp add: f64_unit_def abs_mult nat_mult_distrib nat_power_eq)
  have b: "nat \<bar>i\<bar> < 2 ^ 53"
    using assms by (simp add: small_def nat_less_iff)
  then have e: "f64_rnd (nat \<bar>i * f64_unit\<bar>) 1 = nat \<bar>i\<bar> * 2 ^ 1074"
    by (simp only: n f64_rnd_exact)
  have "nat \<bar>i\<bar> \<le> 2 ^ 53 - 1" using b by simp
  then have "nat \<bar>i\<bar> * 2 ^ 1074 \<le> (2 ^ 53 - 1) * 2 ^ 1074"
    by (rule mult_le_mono1)
  also have "\<dots> \<le> f64_max"
    unfolding f64_max_def by (rule mult_le_mono2) (rule power_increasing, simp_all)
  finally have m: "\<not> f64_max < nat \<bar>i\<bar> * 2 ^ 1074" by simp
  have s: "(i * f64_unit < 0) = (i < 0)"
    by (simp add: f64_unit_def mult_less_0_iff)
  have v: "int (nat \<bar>i\<bar> * 2 ^ 1074) = \<bar>i\<bar> * f64_unit"
    by (simp add: f64_unit_def)
  show ?thesis
    unfolding f64_of_int_def f64_round_def f64_make_def Let_def e s
    using m v by (simp only: if_False v) (cases "i < 0"; simp)
qed

lemma f64_round_unit: "f64_round (i * f64_unit) = f64_of_int i"
  by (simp add: f64_of_int_def)

lemma f64_add_small:
  assumes "small i" "small j"
  shows "f64_add (f64_of_int i) (f64_of_int j) = f64_of_int (i + j)"
  using assms by (simp add: f64_of_int_small f64_round_unit flip: distrib_right)

lemma f64_sub_small:
  assumes "small i" "small j"
  shows "f64_sub (f64_of_int i) (f64_of_int j) = f64_of_int (i - j)"
proof -
  have "i * f64_unit + - (j * f64_unit) = (i - j) * f64_unit"
    by (simp add: algebra_simps)
  with assms show ?thesis
    by (simp add: f64_sub_def f64_of_int_small [of i] f64_of_int_small [of j] f64_round_unit)
qed

lemma f64_of_int_le_small:
  assumes "small i" "small j"
  shows "f64_of_int i \<le> f64_of_int j \<longleftrightarrow> i \<le> j"
  using assms by (simp add: f64_of_int_small f64_unit_def)

lemma f64_of_int_eq_small:
  assumes "small i" "small j"
  shows "f64_of_int i = f64_of_int j \<longleftrightarrow> i = j"
  using assms by (simp add: f64_of_int_small f64_unit_def)

lemma f64_of_int_less_small:
  assumes "small i" "small j"
  shows "f64_of_int i < f64_of_int j \<longleftrightarrow> i < j"
  using f64_of_int_le_small [OF assms(2,1)] by (simp add: not_le [symmetric])

lemma f64_of_int_not_NaN [simp]: "f64_of_int i \<noteq> NaN"
  by (simp add: f64_of_int_def)

lemma f64_ge_small:
  assumes "small i" "small j"
  shows "f64_ge (f64_of_int i) (f64_of_int j) \<longleftrightarrow> j \<le> i"
  using assms by (simp add: f64_ge_def f64_of_int_le_small)

lemmas f64_small_simps =
  f64_add_small f64_sub_small f64_of_int_le_small f64_of_int_eq_small f64_of_int_less_small
  f64_ge_small small_def

end
