(* ===== verification/Placement.thy ===== *)
theory Placement
  imports GoStrings GoFloat "HOL-Library.Multiset"
begin

text \<open>
  The scheduler's placement algorithms: the shared abstractions of
  \<open>scheduler/calculate/schedulers/placement/placement.go\<close>, the best-fit algorithm of
  \<open>cpumemfit/cpumemfit.go\<close> and the random one of \<open>random/random.go\<close>. A job and a candidate
  share one type, as in the code. The sorting routine (\<open>slices.SortFunc\<close>, not stable) and the
  random generator (\<open>rand.IntN\<close>) are arguments; the locale \<open>sort_func\<close> states what
  \<open>slices.SortFunc\<close> promises.
\<close>

section \<open>Decoded JSON values\<close>

datatype json = JNull | JBool bool | JNum f64 | JStr string | JArr "json list"
  | JObj "(string \<times> json) list"

section \<open>Scheduling errors\<close>

datatype NegativeSchedulingStatus =
    TargetClusterNotFound | TargetClusterNotActive | NoActiveClusterWithCapacity
  | NoWorkerCapacity | NoQualifiedWorkerFound | NoNodeFound

fun NegativeSchedulingStatusName :: "NegativeSchedulingStatus \<Rightarrow> string" where
  "NegativeSchedulingStatusName TargetClusterNotFound = ''TargetClusterNotFound''"
| "NegativeSchedulingStatusName TargetClusterNotActive = ''TargetClusterNotActive''"
| "NegativeSchedulingStatusName NoActiveClusterWithCapacity = ''NoActiveClusterWithCapacity''"
| "NegativeSchedulingStatusName NoWorkerCapacity = ''NO_WORKER_CAPACITY''"
| "NegativeSchedulingStatusName NoQualifiedWorkerFound = ''NO_QUALIFIED_WORKER_FOUND''"
| "NegativeSchedulingStatusName NoNodeFound = ''NO_NODE_FOUND''"

text \<open>An error of \<open>Calculate\<close>: a \<open>SchedulingError\<close> or any other error.\<close>

datatype calc_error = SchedulingError NegativeSchedulingStatus | OtherError string

definition Error :: "NegativeSchedulingStatus \<Rightarrow> string" where
  "Error e = NegativeSchedulingStatusName e"

lemma Error_inject [simp]: "Error a = Error b \<longleftrightarrow> a = b"
  by (cases a; cases b) (simp_all add: Error_def)

section \<open>Resources\<close>

record GenericConstraints =
  gc_Type :: string
  gc_Node :: string
  gc_Cluster :: string

record BaseResources =
  br_ID :: string
  br_Virtualization :: "string list"
  br_AvailableMem :: f64
  br_AvailableCPU :: f64
  br_CPUPercent :: f64

definition MeetsBasicRequirements :: "BaseResources \<Rightarrow> BaseResources \<Rightarrow> bool" where
  "MeetsBasicRequirements job candidate =
     (case br_Virtualization job of
        [] \<Rightarrow> False
      | v # _ \<Rightarrow>
          List.member (br_Virtualization candidate) v
          \<and> f64_ge (br_AvailableCPU candidate) (br_AvailableCPU job)
          \<and> f64_ge (br_AvailableMem candidate) (br_AvailableMem job))"

primrec Filter :: "'c list \<Rightarrow> ('c \<Rightarrow> bool) \<Rightarrow> 'c list" where
  "Filter [] keep = []"
| "Filter (c # cs) keep = (if keep c then c # Filter cs keep else Filter cs keep)"

lemma Filter_filter [simp]: "Filter cs keep = filter keep cs"
  by (induction cs) auto

text \<open>The polymorphic field \<open>virtualization\<close>: a string, an array of strings, or null.\<close>

fun strings_of :: "json list \<Rightarrow> string + string list" where
  "strings_of [] = Ok []"
| "strings_of (JStr s # js) = (case strings_of js of Err e \<Rightarrow> Err e | Ok ss \<Rightarrow> Ok (s # ss))"
| "strings_of (_ # js) = Err ''invalid type in virtualization array''"

fun NormalizeVirtualization :: "json \<Rightarrow> string + string list" where
  "NormalizeVirtualization (JStr v) = Ok [v]"
| "NormalizeVirtualization (JArr v) = strings_of v"
| "NormalizeVirtualization JNull = Ok []"
| "NormalizeVirtualization _ = Err ''unexpected type for virtualization''"

lemma strings_of_JStr [simp]: "strings_of (map JStr ss) = Ok ss"
  by (induction ss) auto

lemma strings_of_OkD: "strings_of js = Ok ss \<Longrightarrow> js = map JStr ss"
  by (induction js arbitrary: ss rule: strings_of.induct) (auto split: sum.splits)

lemma strings_of_map: "strings_of js = Ok ss \<longleftrightarrow> js = map JStr ss"
  using strings_of_OkD by auto

section \<open>The best-fit algorithm\<close>

record VolumeSpec =
  vs_VolumeID :: string
  vs_CSIDriver :: string
  vs_MountPath :: string
  vs_Config :: "string \<rightharpoonup> string"

record CResources =
  cr_Base :: BaseResources
  cr_Constraints :: "GenericConstraints list"
  cr_CSIDrivers :: "string list"
  cr_Volumes :: "VolumeSpec list"

definition cr_ID :: "CResources \<Rightarrow> string" where
  "cr_ID r = br_ID (cr_Base r)"

text \<open>
  The constraints sent to the resource abstractor, a Go map as an association list;
  \<open>plane\<close> is the environment variable \<open>ORCHESTRATION_PLANE\<close>.
\<close>

primrec set_key :: "'k \<Rightarrow> 'v \<Rightarrow> ('k \<times> 'v) list \<Rightarrow> ('k \<times> 'v) list" where
  "set_key k v [] = [(k, v)]"
| "set_key k v (p # ps) = (if fst p = k then (k, v) # ps else p # set_key k v ps)"

definition cr_ResourceConstraints :: "string \<Rightarrow> CResources \<Rightarrow> (string \<times> string) list" where
  "cr_ResourceConstraints plane r =
     foldl (\<lambda>constraints c.
              if gc_Type c = ''direct''
              then set_key ''candidate_name''
                     (if plane = ''cluster'' then gc_Node c else gc_Cluster c) constraints
              else constraints)
       [] (cr_Constraints r)"

text \<open>The polymorphic field \<open>csi_drivers\<close>: names, or objects that hold a name.\<close>

definition csi_item_name :: "json \<Rightarrow> string" where
  "csi_item_name item =
     (case item of
        JStr v \<Rightarrow> v
      | JObj v \<Rightarrow> (case map_of v ''csi_driver_name'' of Some (JStr n) \<Rightarrow> n | _ \<Rightarrow> [])
      | _ \<Rightarrow> [])"

primrec csi_loop :: "json list \<Rightarrow> string set \<Rightarrow> string list \<Rightarrow> string list" where
  "csi_loop [] seen result = result"
| "csi_loop (item # items) seen result =
     (let name = csi_item_name item
      in if name = [] then csi_loop items seen result
         else if name \<notin> seen then csi_loop items (insert name seen) (result @ [name])
         else csi_loop items seen result)"

definition normaliseCsiDrivers :: "json \<Rightarrow> string list" where
  "normaliseCsiDrivers raw = (case raw of JArr items \<Rightarrow> csi_loop items {} [] | _ \<Rightarrow> [])"

text \<open>
  \<open>UnmarshalJSON\<close> after the standard decoder has filled the alias struct: \<open>raw_virt\<close> and
  \<open>raw_csi\<close> are the raw values of the two polymorphic fields.
\<close>

definition cr_UnmarshalJSON ::
    "(string \<Rightarrow> string + CResources \<times> json \<times> json) \<Rightarrow> string \<Rightarrow> string + CResources" where
  "cr_UnmarshalJSON decode data =
     (case decode data of
        Err e \<Rightarrow> Err e
      | Ok (r, raw_virt, raw_csi) \<Rightarrow>
          (case NormalizeVirtualization raw_virt of
             Err e \<Rightarrow> Err e
           | Ok virt \<Rightarrow>
               Ok (r\<lparr>cr_Base := (cr_Base r)\<lparr>br_Virtualization := virt\<rparr>,
                     cr_CSIDrivers := normaliseCsiDrivers raw_csi\<rparr>)))"

definition hasRequiredCSIDrivers :: "CResources \<Rightarrow> CResources \<Rightarrow> bool" where
  "hasRequiredCSIDrivers job candidate =
     list_all (\<lambda>vol. vs_CSIDriver vol = [] \<or> List.member (cr_CSIDrivers candidate) (vs_CSIDriver vol))
       (cr_Volumes job)"

definition filterRequirements :: "CResources \<Rightarrow> CResources list \<Rightarrow> CResources list" where
  "filterRequirements job candidates =
     Filter candidates (\<lambda>c. MeetsBasicRequirements (cr_Base job) (cr_Base c)
                            \<and> hasRequiredCSIDrivers job c)"

definition score :: "CResources \<Rightarrow> f64" where
  "score r = f64_add (f64_sub (f64_of_int 100) (br_CPUPercent (cr_Base r)))
               (br_AvailableMem (cr_Base r))"

definition cmpMemCPU :: "CResources \<Rightarrow> CResources \<Rightarrow> int" where
  "cmpMemCPU a b = cmp_Compare (score a) (score b)"

definition cm_Calculate ::
    "((CResources \<Rightarrow> CResources \<Rightarrow> int) \<Rightarrow> CResources list \<Rightarrow> CResources list) \<Rightarrow>
     CResources \<Rightarrow> CResources list \<Rightarrow> calc_error + CResources" where
  "cm_Calculate SortFunc job candidates =
     (if candidates = [] then Err (SchedulingError TargetClusterNotActive)
      else let filtered = filterRequirements job candidates
           in if filtered = [] then Err (SchedulingError NoActiveClusterWithCapacity)
              else Ok (last (SortFunc cmpMemCPU filtered)))"

section \<open>The random algorithm\<close>

record RResources =
  rr_Base :: BaseResources
  rr_Constraints :: "GenericConstraints list"

definition rr_ID :: "RResources \<Rightarrow> string" where
  "rr_ID r = br_ID (rr_Base r)"

definition rr_ResourceConstraints :: "RResources \<Rightarrow> (string \<times> string) list" where
  "rr_ResourceConstraints r =
     foldl (\<lambda>constraints c.
              if gc_Type c = ''direct''
              then set_key ''node_name'' (gc_Node c) (set_key ''cluster_name'' (gc_Cluster c) constraints)
              else constraints)
       [] (rr_Constraints r)"

definition rr_UnmarshalJSON ::
    "(string \<Rightarrow> string + RResources \<times> json) \<Rightarrow> string \<Rightarrow> string + RResources" where
  "rr_UnmarshalJSON decode data =
     (case decode data of
        Err e \<Rightarrow> Err e
      | Ok (r, raw_virt) \<Rightarrow>
          (case NormalizeVirtualization raw_virt of
             Err e \<Rightarrow> Err e
           | Ok virt \<Rightarrow> Ok (r\<lparr>rr_Base := (rr_Base r)\<lparr>br_Virtualization := virt\<rparr>\<rparr>)))"

definition rr_filterRequirements :: "RResources \<Rightarrow> RResources list \<Rightarrow> RResources list" where
  "rr_filterRequirements job candidates =
     Filter candidates (\<lambda>c. MeetsBasicRequirements (rr_Base job) (rr_Base c))"

definition rr_Calculate ::
    "(nat \<Rightarrow> nat) \<Rightarrow> RResources \<Rightarrow> RResources list \<Rightarrow> calc_error + RResources" where
  "rr_Calculate IntN job candidates =
     (if candidates = [] then Err (SchedulingError TargetClusterNotActive)
      else let filtered = rr_filterRequirements job candidates
           in if filtered = [] then Err (SchedulingError NoActiveClusterWithCapacity)
              else Ok (filtered ! IntN (length filtered)))"

section \<open>What the sorting routine promises\<close>

definition total_preorder :: "('a \<Rightarrow> 'a \<Rightarrow> int) \<Rightarrow> bool" where
  "total_preorder c \<longleftrightarrow>
     (\<forall>x y. c x y < 0 \<longleftrightarrow> 0 < c y x) \<and> (\<forall>x y z. c x y \<le> 0 \<and> c y z \<le> 0 \<longrightarrow> c x z \<le> 0)"

text \<open>The documented contract: a permutation, in ascending order for a strict weak ordering.\<close>

definition sorts :: "(('a \<Rightarrow> 'a \<Rightarrow> int) \<Rightarrow> 'a list \<Rightarrow> 'a list) \<Rightarrow> bool" where
  "sorts srt \<longleftrightarrow>
     (\<forall>c xs. mset (srt c xs) = mset xs \<and>
             (total_preorder c \<longrightarrow> sorted_wrt (\<lambda>x y. c x y \<le> 0) (srt c xs)))"

locale sort_func =
  fixes srt :: "('a \<Rightarrow> 'a \<Rightarrow> int) \<Rightarrow> 'a list \<Rightarrow> 'a list"
  assumes sort_mset: "mset (srt c xs) = mset xs"
    and sort_sorted: "total_preorder c \<Longrightarrow> sorted_wrt (\<lambda>x y. c x y \<le> 0) (srt c xs)"
begin

lemma set_sort [simp]: "set (srt c xs) = set xs"
  by (metis sort_mset set_mset_mset)

lemma length_sort [simp]: "length (srt c xs) = length xs"
  by (metis sort_mset size_mset)

lemma srt_Nil_iff [simp]: "srt c xs = [] \<longleftrightarrow> xs = []"
  by (metis length_sort length_0_conv)

lemma last_sort_mem: "xs \<noteq> [] \<Longrightarrow> last (srt c xs) \<in> set xs"
  using last_in_set [of "srt c xs"] by simp

lemma last_sort_max:
  assumes c: "total_preorder c" and x: "x \<in> set xs"
  shows "c x (last (srt c xs)) \<le> 0"
proof -
  let ?ys = "srt c xs"
  from x have ne: "?ys \<noteq> []" by auto
  then have ys: "?ys = butlast ?ys @ [last ?ys]" by simp
  from x have "x \<in> set (butlast ?ys @ [last ?ys])" using ne by simp
  then consider "x \<in> set (butlast ?ys)" | "x = last ?ys" by auto
  then show ?thesis
  proof cases
    case 1
    moreover have "sorted_wrt (\<lambda>x y. c x y \<le> 0) (butlast ?ys @ [last ?ys])"
      using sort_sorted [OF c, of xs] ys by simp
    ultimately show ?thesis by (simp only: sorted_wrt_append) auto
  next
    case 2
    have "\<not> c x x < 0" "\<not> 0 < c x x"
      using c by (auto simp: total_preorder_def) (meson less_asym)+
    with 2 show ?thesis by simp
  qed
qed

end

text \<open>Go's insertion sort (\<open>insertionSortCmpFunc\<close>, what \<open>SortFunc\<close> runs up to 12 elements).\<close>

primrec sift :: "('a \<Rightarrow> 'a \<Rightarrow> int) \<Rightarrow> 'a \<Rightarrow> 'a list \<Rightarrow> 'a list" where
  "sift c x [] = [x]"
| "sift c x (y # ys) = (if c x y < 0 then y # sift c x ys else x # y # ys)"

definition insertion_sort :: "('a \<Rightarrow> 'a \<Rightarrow> int) \<Rightarrow> 'a list \<Rightarrow> 'a list" where
  "insertion_sort c xs = rev (foldl (\<lambda>acc x. sift c x acc) [] xs)"

lemma mset_sift: "mset (sift c x ys) = add_mset x (mset ys)"
  by (induction ys) auto

lemma set_sift: "set (sift c x ys) = insert x (set ys)"
  by (metis mset_sift set_mset_add_mset_insert set_mset_mset)

lemma sorted_sift:
  assumes c: "total_preorder c"
  shows "sorted_wrt (\<lambda>x y. c y x \<le> 0) ys \<Longrightarrow> sorted_wrt (\<lambda>x y. c y x \<le> 0) (sift c x ys)"
proof (induction ys)
  case (Cons y ys)
  have swap: "c a b < 0 \<longleftrightarrow> 0 < c b a" for a b
    using c unfolding total_preorder_def by blast
  have trans: "c a b \<le> 0 \<Longrightarrow> c b d \<le> 0 \<Longrightarrow> c a d \<le> 0" for a b d
    using c unfolding total_preorder_def by blast
  show ?case
  proof (cases "c x y < 0")
    case True
    then show ?thesis using Cons by (auto simp: set_sift)
  next
    case False
    then have "c y x \<le> 0" using swap [of x y] by linarith
    then show ?thesis using Cons.prems False by (auto intro: trans)
  qed
qed simp

lemma insertion_sort_props:
  "mset (insertion_sort c xs) = mset xs \<and>
   (total_preorder c \<longrightarrow> sorted_wrt (\<lambda>x y. c x y \<le> 0) (insertion_sort c xs))"
proof -
  have "mset (foldl (\<lambda>acc x. sift c x acc) ys xs) = mset xs + mset ys" for ys
    by (induction xs arbitrary: ys) (auto simp: mset_sift)
  moreover have "sorted_wrt (\<lambda>x y. c y x \<le> 0) (foldl (\<lambda>acc x. sift c x acc) ys xs)"
    if "total_preorder c" "sorted_wrt (\<lambda>x y. c y x \<le> 0) ys" for ys
    using that by (induction xs arbitrary: ys) (auto simp: sorted_sift)
  ultimately show ?thesis
    by (simp add: insertion_sort_def sorted_wrt_rev)
qed

lemma sorts_insertion_sort [simp]: "sorts insertion_sort"
  using insertion_sort_props unfolding sorts_def by blast

interpretation isort: sort_func insertion_sort
  by unfold_locales (use insertion_sort_props in blast)+

lemma sorts_sort_func: "sorts srt \<longleftrightarrow> sort_func srt"
  by (auto simp: sorts_def sort_func_def)

section \<open>Correctness of the placement decision\<close>

definition feasible :: "CResources \<Rightarrow> CResources \<Rightarrow> bool" where
  "feasible job c \<longleftrightarrow> MeetsBasicRequirements (cr_Base job) (cr_Base c) \<and> hasRequiredCSIDrivers job c"

lemma filterRequirements_eq: "filterRequirements job cs = filter (feasible job) cs"
  by (simp add: filterRequirements_def feasible_def [abs_def])

lemma total_preorder_cmpMemCPU: "total_preorder cmpMemCPU"
  by (auto simp: total_preorder_def cmpMemCPU_def cmp_Compare_def split: if_splits)

lemma cmpMemCPU_le [simp]: "cmpMemCPU a b \<le> 0 \<longleftrightarrow> score a \<le> score b"
  by (auto simp: cmpMemCPU_def cmp_Compare_def)

lemma cm_Calculate_decides:
  assumes "sorts SortFunc"
  shows "case cm_Calculate SortFunc job candidates of
           Ok c \<Rightarrow> c \<in> set candidates \<and> feasible job c \<and>
                   (\<forall>c' \<in> set candidates. feasible job c' \<longrightarrow> score c' \<le> score c)
         | Err e \<Rightarrow> (\<forall>c \<in> set candidates. \<not> feasible job c) \<and>
                    e = SchedulingError (if candidates = [] then TargetClusterNotActive
                                         else NoActiveClusterWithCapacity)"
proof -
  have sf: "sort_func SortFunc"
    using assms by (simp add: sorts_sort_func)
  let ?f = "filter (feasible job) candidates"
  show ?thesis
  proof (cases "?f = []")
    case True
    then show ?thesis
      by (auto simp: cm_Calculate_def filterRequirements_eq filter_empty_conv)
  next
    case False
    have "last (SortFunc cmpMemCPU ?f) \<in> set ?f"
      using sort_func.last_sort_mem [OF sf False] .
    moreover have "\<forall>c' \<in> set ?f. score c' \<le> score (last (SortFunc cmpMemCPU ?f))"
      using sort_func.last_sort_max [OF sf total_preorder_cmpMemCPU] by fastforce
    ultimately show ?thesis
      using False by (auto simp: cm_Calculate_def filterRequirements_eq)
  qed
qed

text \<open>
  C4: The best-fit scheduler decides correctly whatever sorting routine with the documented
  contract it uses: it returns a candidate exactly when some candidate has the job's
  virtualization, CPU, memory and CSI drivers; the one it returns is such a candidate and no
  feasible candidate has a higher score; otherwise the error tells an empty candidate list
  from a lack of capacity.
\<close>

theorem cm_Calculate_best_fit:
  assumes "sorts SortFunc"
  shows "case cm_Calculate SortFunc job candidates of
           Ok c \<Rightarrow> c \<in> set candidates \<and> feasible job c \<and>
                   (\<forall>c' \<in> set candidates. feasible job c' \<longrightarrow> score c' \<le> score c)
         | Err e \<Rightarrow> (\<forall>c \<in> set candidates. \<not> feasible job c) \<and>
                    e = SchedulingError (if candidates = [] then TargetClusterNotActive
                                         else NoActiveClusterWithCapacity)"
  using assms by (rule cm_Calculate_decides)

text \<open>The scenario of \<open>TestCalculateConstraints\<close>: two docker clusters, 10 and 20 percent busy.\<close>

definition base_resources :: "string \<Rightarrow> string list \<Rightarrow> int \<Rightarrow> int \<Rightarrow> int \<Rightarrow> BaseResources" where
  "base_resources i virt mem cpu pct =
     \<lparr>br_ID = i, br_Virtualization = virt, br_AvailableMem = f64_of_int mem,
      br_AvailableCPU = f64_of_int cpu, br_CPUPercent = f64_of_int pct\<rparr>"

definition plain_resources :: "BaseResources \<Rightarrow> CResources" where
  "plain_resources b = \<lparr>cr_Base = b, cr_Constraints = [], cr_CSIDrivers = [], cr_Volumes = []\<rparr>"

definition test_job :: CResources where
  "test_job = plain_resources (base_resources ''1'' [''docker''] 500 1 0)"

definition test_cluster1 :: CResources where
  "test_cluster1 = plain_resources (base_resources ''1'' [''docker''] 2000 4 10)"

definition test_cluster2 :: CResources where
  "test_cluster2 = plain_resources (base_resources ''2'' [''docker''] 2000 4 20)"

lemmas test_defs =
  test_job_def test_cluster1_def test_cluster2_def plain_resources_def base_resources_def

lemma test_feasible: "feasible test_job test_cluster1" "feasible test_job test_cluster2"
  by (simp_all add: feasible_def MeetsBasicRequirements_def hasRequiredCSIDrivers_def test_defs
      f64_small_simps)

lemma test_scores: "score test_cluster1 = f64_of_int 2090" "score test_cluster2 = f64_of_int 2080"
  by (simp_all add: score_def test_defs f64_small_simps)

lemma test_Calculate:
  "cm_Calculate insertion_sort test_job [test_cluster1, test_cluster2] = Ok test_cluster1"
  by (simp add: cm_Calculate_def filterRequirements_eq test_feasible insertion_sort_def
      cmpMemCPU_def test_scores cmp_Compare_def f64_small_simps)

theorem cm_Calculate_best_fit_witness:
  "cm_Calculate insertion_sort test_job [test_cluster1, test_cluster2] = Ok test_cluster1 \<and>
   feasible test_job test_cluster1 \<and> score test_cluster2 \<le> score test_cluster1"
  using cm_Calculate_best_fit [OF sorts_insertion_sort, of "[test_cluster1, test_cluster2]" test_job]
  by (simp add: test_Calculate test_feasible)

text \<open>
  A candidate that is at most as busy and has at least as much free memory as another
  never has the lower score, in spite of the rounding of the two floating-point operations:
  the decision never prefers a dominated candidate.
\<close>

theorem score_dominates:
  assumes "br_CPUPercent (cr_Base a) \<le> br_CPUPercent (cr_Base b)"
    and "br_CPUPercent (cr_Base a) \<noteq> NaN"
    and "br_AvailableMem (cr_Base b) \<le> br_AvailableMem (cr_Base a)"
    and "score a \<noteq> NaN"
  shows "score b \<le> score a"
proof -
  have "f64_neg (br_CPUPercent (cr_Base b)) \<le> f64_neg (br_CPUPercent (cr_Base a))"
    using assms(1,2)
    by (cases "br_CPUPercent (cr_Base a)"; cases "br_CPUPercent (cr_Base b)") auto
  moreover have "f64_sub (f64_of_int 100) (br_CPUPercent (cr_Base a)) \<noteq> NaN"
    using assms(4) by (auto simp: score_def)
  ultimately have
    "f64_sub (f64_of_int 100) (br_CPUPercent (cr_Base b)) \<le>
     f64_sub (f64_of_int 100) (br_CPUPercent (cr_Base a))"
    unfolding f64_sub_def by (intro f64_add_mono) auto
  with assms(3,4) show ?thesis
    unfolding score_def by (intro f64_add_mono)
qed

theorem score_dominates_witness: "score test_cluster2 \<le> score test_cluster1"
  by (rule score_dominates) (simp_all add: test_defs f64_small_simps test_scores [unfolded test_defs])

section \<open>The CSI driver list\<close>

text \<open>Specification of the deduplication: each name where it first occurs.\<close>

primrec first_occurrences :: "'a list \<Rightarrow> 'a list" where
  "first_occurrences [] = []"
| "first_occurrences (x # xs) = x # filter (\<lambda>y. y \<noteq> x) (first_occurrences xs)"

lemma set_first_occurrences [simp]: "set (first_occurrences xs) = set xs"
  by (induction xs) auto

lemma distinct_first_occurrences [simp]: "distinct (first_occurrences xs)"
  by (induction xs) auto

lemma first_occurrences_distinct: "distinct xs \<Longrightarrow> first_occurrences xs = xs"
  by (induction xs) (auto simp: filter_id_conv)

lemma csi_loop_eq:
  "csi_loop items seen result =
     result @ filter (\<lambda>n. n \<notin> seen)
       (first_occurrences (filter (\<lambda>n. n \<noteq> []) (map csi_item_name items)))"
proof (induction items arbitrary: seen result)
  case (Cons item items)
  let ?n = "csi_item_name item"
  let ?rest = "first_occurrences (filter (\<lambda>n. n \<noteq> []) (map csi_item_name items))"
  have "filter (\<lambda>n. n \<notin> seen) (filter (\<lambda>y. y \<noteq> ?n) ?rest) =
        filter (\<lambda>n. n \<notin> insert ?n seen) ?rest"
    by (auto intro: filter_cong)
  moreover have "filter (\<lambda>n. n \<notin> insert ?n seen) ?rest = filter (\<lambda>n. n \<notin> seen) ?rest"
    if "?n \<in> seen"
    using that by (auto intro: filter_cong)
  ultimately show ?case
    by (auto simp: Cons.IH Let_def)
qed simp

lemma normaliseCsiDrivers_eq:
  "normaliseCsiDrivers (JArr items) =
     first_occurrences (filter (\<lambda>n. n \<noteq> []) (map csi_item_name items))"
  by (simp add: normaliseCsiDrivers_def csi_loop_eq)

lemma normaliseCsiDrivers_props:
  "distinct (normaliseCsiDrivers raw) \<and> [] \<notin> set (normaliseCsiDrivers raw)"
  by (cases raw) (auto simp: normaliseCsiDrivers_eq, auto simp: normaliseCsiDrivers_def)

text \<open>
  C36: The normalised CSI driver list is independent of the wire format: for an array of names
  or of driver objects it holds each non-empty name once, in the order of first occurrence,
  and normalising the flat array of the names again (what the root scheduler receives from a
  cluster) changes nothing.
\<close>

theorem normaliseCsiDrivers_spec:
  "normaliseCsiDrivers (JArr items) =
     first_occurrences (filter (\<lambda>n. n \<noteq> []) (map csi_item_name items)) \<and>
   normaliseCsiDrivers (JArr (map JStr (normaliseCsiDrivers raw))) = normaliseCsiDrivers raw"
proof -
  let ?names = "normaliseCsiDrivers raw"
  have "map csi_item_name (map JStr ?names) = ?names"
    by (simp add: csi_item_name_def comp_def)
  moreover have "filter (\<lambda>n. n \<noteq> []) ?names = ?names"
    using normaliseCsiDrivers_props [of raw] by (auto simp: filter_id_conv)
  ultimately show ?thesis
    using normaliseCsiDrivers_props [of raw]
    by (simp only: normaliseCsiDrivers_eq) (simp add: first_occurrences_distinct)
qed

section \<open>The random algorithm and the constraints\<close>

text \<open>
  C37: The random scheduler returns a candidate that meets the job's virtualization, CPU and
  memory requirements whenever one exists, for any generator that honours its range, and
  otherwise the same two errors as the best-fit scheduler.
\<close>

theorem rr_Calculate_feasible:
  assumes "\<And>n. 0 < n \<Longrightarrow> IntN n < n"
  shows "case rr_Calculate IntN job candidates of
           Ok c \<Rightarrow> c \<in> set candidates \<and> MeetsBasicRequirements (rr_Base job) (rr_Base c)
         | Err e \<Rightarrow> (\<forall>c \<in> set candidates. \<not> MeetsBasicRequirements (rr_Base job) (rr_Base c)) \<and>
                    e = SchedulingError (if candidates = [] then TargetClusterNotActive
                                         else NoActiveClusterWithCapacity)"
proof -
  let ?f = "filter (\<lambda>c. MeetsBasicRequirements (rr_Base job) (rr_Base c)) candidates"
  have "?f ! IntN (length ?f) \<in> set ?f" if "?f \<noteq> []"
    using assms [of "length ?f"] that by (intro nth_mem) simp
  then show ?thesis
    by (auto simp: rr_Calculate_def rr_filterRequirements_def Let_def filter_empty_conv)
qed

definition random_resources :: "BaseResources \<Rightarrow> RResources" where
  "random_resources b = \<lparr>rr_Base = b, rr_Constraints = []\<rparr>"

theorem rr_Calculate_feasible_witness:
  "rr_Calculate (\<lambda>n. n - 1) (random_resources (cr_Base test_job))
     [random_resources (cr_Base test_cluster1), random_resources (cr_Base test_cluster2)] =
   Ok (random_resources (cr_Base test_cluster2)) \<and>
   MeetsBasicRequirements (cr_Base test_job) (cr_Base test_cluster2)"
proof -
  have "rr_Calculate (\<lambda>n. n - 1) (random_resources (cr_Base test_job))
     [random_resources (cr_Base test_cluster1), random_resources (cr_Base test_cluster2)] =
   Ok (random_resources (cr_Base test_cluster2))"
    using test_feasible
    by (simp add: rr_Calculate_def rr_filterRequirements_def random_resources_def feasible_def)
  then show ?thesis
    using rr_Calculate_feasible [of "\<lambda>n. n - 1"
        "[random_resources (cr_Base test_cluster1), random_resources (cr_Base test_cluster2)]"
        "random_resources (cr_Base test_job)"]
    by (simp add: random_resources_def)
qed

text \<open>The last direct constraint wins; without one nothing is sent.\<close>

lemma map_of_set_key: "map_of (set_key k v ps) = (map_of ps)(k \<mapsto> v)"
  by (induction ps) auto

lemma cr_ResourceConstraints_eq:
  "cr_ResourceConstraints plane r =
     (case rev (filter (\<lambda>c. gc_Type c = ''direct'') (cr_Constraints r)) of
        [] \<Rightarrow> []
      | c # _ \<Rightarrow> [(''candidate_name'', if plane = ''cluster'' then gc_Node c else gc_Cluster c)])"
proof -
  let ?name = "\<lambda>c. if plane = ''cluster'' then gc_Node c else gc_Cluster c"
  let ?step = "\<lambda>constraints c. if gc_Type c = ''direct''
      then set_key ''candidate_name'' (?name c) constraints else constraints"
  have "foldl ?step acc cs =
      (case rev (filter (\<lambda>c. gc_Type c = ''direct'') cs) of
         [] \<Rightarrow> acc | c # _ \<Rightarrow> [(''candidate_name'', ?name c)])"
    if "acc = [] \<or> (\<exists>n. acc = [(''candidate_name'', n)])" for acc cs
    using that
  proof (induction cs rule: rev_induct)
    case (snoc c cs)
    then show ?case
      by (auto split: list.splits)
  qed simp
  then show ?thesis
    unfolding cr_ResourceConstraints_def by blast
qed

end
