(* ===== verification/Scheduling.thy ===== *)
theory Scheduling
  imports Placement
begin

text \<open>
  A scheduling request end to end (\<open>scheduler/calculate/scheduling.go\<close>,
  \<open>cmd/tasks.go\<close>, \<open>requests/resource/resource.go\<close>, \<open>requests/manager/manager.go\<close>): the field
  names taken from the candidate type by reflection, the query sent to the resource
  abstractor, the placement decision and the one notification sent to the manager. The HTTP
  client and the JSON decoder are arguments; the posts made are part of the result.
\<close>

section \<open>Reflection: the field names of a candidate type\<close>

text \<open>
  A Go type as reflection shows it. A struct field has a name, the flag \<open>Anonymous\<close> and the
  \<open>json\<close> key of its tag, empty when there is none.
\<close>

datatype gotype = TStruct "gofield list" | TPtr gotype | TBasic string
     and gofield = GoField string bool string gotype

fun elem_type :: "gotype \<Rightarrow> gotype" where
  "elem_type (TPtr t) = t"
| "elem_type t = t"

definition tag_name :: "string \<Rightarrow> string" where
  "tag_name tag = fst (Cut (CHR '','') tag)"

definition own_field :: "string \<Rightarrow> string list" where
  "own_field tag =
     (if tag = [] then []
      else let name = tag_name tag in if name = ''-'' \<or> name = [] then [] else [name])"

fun collectJSONFields :: "gotype \<Rightarrow> string list"
  and collect_fields :: "gofield list \<Rightarrow> string list" where
  "collectJSONFields (TStruct fs) = collect_fields fs"
| "collectJSONFields _ = []"
| "collect_fields [] = []"
| "collect_fields (GoField _ anonymous tag (TStruct gs) # fs) =
     (if anonymous \<and> tag = [] then collect_fields gs else own_field tag) @ collect_fields fs"
| "collect_fields (GoField _ anonymous tag (TPtr (TStruct gs)) # fs) =
     (if anonymous \<and> tag = [] then collect_fields gs else own_field tag) @ collect_fields fs"
| "collect_fields (GoField _ anonymous tag _ # fs) = own_field tag @ collect_fields fs"

text \<open>\<open>getInterestedResources\<close> with its cache, a map from types to field lists.\<close>

definition getInterestedResources ::
    "gotype \<Rightarrow> (gotype \<rightharpoonup> string list) \<Rightarrow> string list \<times> (gotype \<rightharpoonup> string list)" where
  "getInterestedResources candidate cache =
     (let t = elem_type candidate
      in case t of
           TStruct _ \<Rightarrow>
             (case cache t of
                Some cached \<Rightarrow> (cached, cache)
              | None \<Rightarrow> let fields = collectJSONFields t in (fields, cache(t \<mapsto> fields)))
         | _ \<Rightarrow> ([], cache))"

definition cache_ok :: "(gotype \<rightharpoonup> string list) \<Rightarrow> bool" where
  "cache_ok cache \<longleftrightarrow> (\<forall>t fields. cache t = Some fields \<longrightarrow> fields = collectJSONFields t)"

lemma cache_ok_empty [simp]: "cache_ok Map.empty"
  by (simp add: cache_ok_def)

text \<open>The types of the two algorithms, as declared in \<open>placement.go\<close>, \<open>cpumemfit.go\<close>, \<open>random.go\<close>.\<close>

definition BaseResources_type :: gotype where
  "BaseResources_type = TStruct
     [GoField ''ID'' False ''_id'' (TBasic ''string''),
      GoField ''Virtualization'' False ''virtualization'' (TBasic ''[]string''),
      GoField ''AvailableMem'' False ''memory'' (TBasic ''float64''),
      GoField ''AvailableCPU'' False ''vcpus'' (TBasic ''float64''),
      GoField ''CPUPercent'' False ''cpu_percent'' (TBasic ''float64'')]"

definition CResources_type :: gotype where
  "CResources_type = TStruct
     [GoField ''BaseResources'' True [] BaseResources_type,
      GoField ''Constraints'' False ''constraints'' (TBasic ''[]Constraints''),
      GoField ''CSIDrivers'' False ''csi_drivers'' (TBasic ''[]string''),
      GoField ''Volumes'' False ''volumes'' (TBasic ''[]VolumeSpec'')]"

definition RResources_type :: gotype where
  "RResources_type = TStruct
     [GoField ''BaseResources'' True [] BaseResources_type,
      GoField ''Constraints'' False ''constraints'' (TBasic ''[]Constraints'')]"

text \<open>
  The projection list asked for is the same with and without the cache, whatever requests
  came before, stays right afterwards, and for the two algorithms' types holds the promoted
  fields of the embedded struct before the fields of the type itself.
\<close>

theorem getInterestedResources_cache:
  assumes "cache_ok cache" "elem_type candidate = TStruct fs"
  shows "fst (getInterestedResources candidate cache) = collectJSONFields (TStruct fs) \<and>
         cache_ok (snd (getInterestedResources candidate cache)) \<and>
         collectJSONFields CResources_type =
           collectJSONFields BaseResources_type @ [''constraints'', ''csi_drivers'', ''volumes''] \<and>
         collectJSONFields RResources_type = collectJSONFields BaseResources_type @ [''constraints'']"
proof -
  have "collectJSONFields CResources_type =
           collectJSONFields BaseResources_type @ [''constraints'', ''csi_drivers'', ''volumes'']"
    by (simp add: CResources_type_def BaseResources_type_def own_field_def tag_name_def Cut_def)
  moreover have "collectJSONFields RResources_type =
      collectJSONFields BaseResources_type @ [''constraints'']"
    by (simp add: RResources_type_def BaseResources_type_def own_field_def tag_name_def Cut_def)
  moreover have "fst (getInterestedResources candidate cache) = collectJSONFields (TStruct fs) \<and>
         cache_ok (snd (getInterestedResources candidate cache))"
    using assms by (auto simp: getInterestedResources_def cache_ok_def Let_def
        simp del: collectJSONFields.simps split: option.splits if_splits)
  ultimately show ?thesis by blast
qed

theorem getInterestedResources_cache_witness:
  "fst (getInterestedResources (TPtr CResources_type) Map.empty) =
     [''_id'', ''virtualization'', ''memory'', ''vcpus'', ''cpu_percent'',
      ''constraints'', ''csi_drivers'', ''volumes'']"
  using getInterestedResources_cache [OF cache_ok_empty, of "TPtr CResources_type"]
  by (simp add: CResources_type_def BaseResources_type_def own_field_def tag_name_def Cut_def)

section \<open>The query\<close>

definition hex_upper :: "nat \<Rightarrow> char" where
  "hex_upper n = (if n < 10 then char_of (48 + n) else char_of (55 + n))"

text \<open>\<open>url.QueryEscape\<close>.\<close>

definition query_safe :: "char \<Rightarrow> bool" where
  "query_safe c \<longleftrightarrow> is_alnum c \<or> c \<in> set ''-_.~''"

definition QueryEscape_char :: "char \<Rightarrow> string" where
  "QueryEscape_char c =
     (if query_safe c then [c]
      else if c = CHR '' '' then ''+''
      else [CHR ''%'', hex_upper (of_char c div 16), hex_upper (of_char c mod 16)])"

definition QueryEscape :: "string \<Rightarrow> string" where
  "QueryEscape s = concat (map QueryEscape_char s)"

definition formatRequestParameters :: "(string \<times> string) list \<Rightarrow> string" where
  "formatRequestParameters r =
     (if r = [] then []
      else TrimSuffix
             (concat (map (\<lambda>(k, v). if v = [] then [] else k @ ''='' @ QueryEscape v @ ''&'') r))
             ''&'')"

definition formatInterestedResources :: "string list \<Rightarrow> string" where
  "formatInterestedResources interestedResources =
     (if interestedResources = [] then [] else Join interestedResources '','')"

definition formatQuery :: "(string \<times> string) list \<Rightarrow> string list \<Rightarrow> string" where
  "formatQuery requestParameters interestedResources =
     (let requestParams = formatRequestParameters requestParameters;
          resources = formatInterestedResources interestedResources
      in ''?active=true'' @ (if requestParams \<noteq> [] then ''&'' @ requestParams else [])
           @ (if resources \<noteq> [] then ''&'' @ resources else []))"

lemma hex_upper_safe: "n < 16 \<Longrightarrow> is_alnum (hex_upper n)"
  by (auto simp: hex_upper_def is_alnum_def is_digit_def is_upper_def char_between_def)

lemma QueryEscape_chars: "c \<in> set (QueryEscape s) \<Longrightarrow> query_safe c \<or> c = CHR ''%'' \<or> c = CHR ''+''"
proof -
  have "(of_char d :: nat) div 16 < 16" "(of_char d :: nat) mod 16 < 16" for d :: char
    by (simp_all add: less_mult_imp_div_less)
  then show "c \<in> set (QueryEscape s) \<Longrightarrow> ?thesis"
    by (auto simp: QueryEscape_def QueryEscape_char_def query_safe_def hex_upper_safe split: if_splits)
qed

lemma QueryEscape_no_amp: "CHR ''&'' \<notin> set (QueryEscape s)"
  using QueryEscape_chars [of "CHR ''&''" s]
  by (auto simp: query_safe_def is_alnum_def is_digit_def is_upper_def is_lower_def char_between_def)

text \<open>The segments of the parameters that are sent.\<close>

definition param_segments :: "(string \<times> string) list \<Rightarrow> string list" where
  "param_segments r = map (\<lambda>(k, v). k @ ''='' @ QueryEscape v) (filter (\<lambda>(k, v). v \<noteq> []) r)"

lemma formatRequestParameters_Join: "formatRequestParameters r = Join (param_segments r) ''&''"
proof -
  have concat_Join: "concat (map (\<lambda>w. w @ ''&'') ws) = (if ws = [] then [] else Join ws ''&'' @ ''&'')"
    for ws :: "string list"
    by (induction ws) (auto simp: Join_Cons)
  have "concat (map (\<lambda>(k, v). if v = [] then [] else k @ ''='' @ QueryEscape v @ ''&'') r) =
        concat (map (\<lambda>w. w @ ''&'') (param_segments r))"
    by (induction r) (auto simp: param_segments_def)
  also have "\<dots> = (if param_segments r = [] then [] else Join (param_segments r) ''&'' @ ''&'')"
    by (rule concat_Join)
  finally have *: "concat (map (\<lambda>(k, v). if v = [] then [] else k @ ''='' @ QueryEscape v @ ''&'') r) =
     (if param_segments r = [] then [] else Join (param_segments r) ''&'' @ ''&'')" .
  have "TrimSuffix [] ''&'' = []"
    by (simp add: TrimSuffix_def HasSuffix_def)
  then show ?thesis
    unfolding formatRequestParameters_def * by (simp add: param_segments_def)
qed

lemma Join_Nil_iff: "Join ws sep = [] \<longleftrightarrow> ws = [] \<or> ws = [[]] \<or> (sep = [] \<and> (\<forall>w \<in> set ws. w = []))"
  by (induction ws rule: induct_list012) auto

lemma Split_Join_amp:
  "ws \<noteq> [] \<Longrightarrow> \<forall>w \<in> set ws. CHR ''&'' \<notin> set w \<Longrightarrow> Split (CHR ''&'') (Join ws ''&'') = ws"
  using Split_Join [of ws "CHR ''&''"] by simp

lemma Join_append:
  "us \<noteq> [] \<Longrightarrow> vs \<noteq> [] \<Longrightarrow> Join (us @ vs) sep = Join us sep @ sep @ Join vs sep"
  by (induction us rule: induct_list012) (auto simp: Join_Cons)

lemma formatQuery_Split:
  assumes "\<forall>(k, v) \<in> set params. CHR ''&'' \<notin> set k"
    and "\<forall>f \<in> set flds. CHR ''&'' \<notin> set f"
  shows "Split (CHR ''&'') (formatQuery params flds) =
           ''?active=true'' # param_segments params @
           (if formatInterestedResources flds = [] then [] else [formatInterestedResources flds])"
proof -
  let ?fields = "formatInterestedResources flds"
  let ?segs = "[''?active=true''] @ param_segments params @ (if ?fields = [] then [] else [?fields])"
  have seg_ne: "w \<noteq> []" if "w \<in> set (param_segments params)" for w
    using that by (auto simp: param_segments_def)
  have "set (Join ws '','') \<subseteq> insert (CHR '','') (\<Union>w \<in> set ws. set w)" for ws :: "string list"
    by (induction ws rule: induct_list012) auto
  then have f: "CHR ''&'' \<notin> set ?fields"
    using assms(2) unfolding formatInterestedResources_def by (cases "flds = []") (auto dest!: subsetD [of _ _ "CHR ''&''"])
  have amp: "\<forall>w \<in> set ?segs. CHR ''&'' \<notin> set w"
    using assms(1) f by (auto simp: param_segments_def QueryEscape_no_amp)
  have "formatQuery params flds = Join ?segs ''&''"
  proof (cases "param_segments params = []")
    case True
    then show ?thesis
      by (simp add: formatQuery_def formatRequestParameters_Join)
  next
    case False
    then have "Join (param_segments params) ''&'' \<noteq> []"
      using seg_ne by (fastforce simp: Join_Nil_iff)
    with False show ?thesis
      by (simp add: formatQuery_def formatRequestParameters_Join Join_append Join_Cons)
  qed
  then show ?thesis
    using Split_Join_amp [OF _ amp] by simp
qed

text \<open>
  Constraint values cannot alter the query: for parameter names and field names without
  an ampersand, the server that splits the query at ampersands finds \<open>active=true\<close>, one
  segment \<open>name=escaped value\<close> per parameter with a non-empty value, whatever bytes the
  values hold, and at most one more segment, the bare comma-separated field list.
\<close>

theorem formatQuery_segments:
  assumes "\<forall>(k, v) \<in> set params. CHR ''&'' \<notin> set k"
    and "\<forall>f \<in> set flds. CHR ''&'' \<notin> set f"
  shows "Split (CHR ''&'') (formatQuery params flds) =
           ''?active=true'' # param_segments params @
           (if formatInterestedResources flds = [] then [] else [formatInterestedResources flds])"
  using assms by (rule formatQuery_Split)

theorem formatQuery_segments_witness:
  "Split (CHR ''&'') (formatQuery [(''candidate_name'', ''a&b'')] [''_id'', ''memory'']) =
     [''?active=true'', ''candidate_name=a%26b'', ''_id,memory'']"
proof -
  have "param_segments [(''candidate_name'', ''a&b'')] = [''candidate_name=a%26b'']"
    by code_simp
  then show ?thesis
    using formatQuery_segments [of "[(''candidate_name'', ''a&b'')]" "[''_id'', ''memory'']"]
    by (simp add: formatInterestedResources_def)
qed

text \<open>
  The field list is never sent under a name: whatever the job's constraints, the query of
  the best-fit scheduler has no segment \<open>resources=...\<close>, the parameter from which the resource
  abstractor reads the projection, so the projection is never applied.
\<close>

theorem formatQuery_no_resources_key:
  "w \<in> set (Split (CHR ''&'') (formatQuery (cr_ResourceConstraints plane job)
              (collectJSONFields CResources_type))) \<longrightarrow> \<not> HasPrefix w ''resources=''"
proof -
  have flds: "collectJSONFields CResources_type =
      [''_id'', ''virtualization'', ''memory'', ''vcpus'', ''cpu_percent'',
       ''constraints'', ''csi_drivers'', ''volumes'']"
    by (simp add: CResources_type_def BaseResources_type_def own_field_def tag_name_def Cut_def)
  have keys: "k = ''candidate_name''" if "(k, v) \<in> set (cr_ResourceConstraints plane job)" for k v
    using that by (auto simp: cr_ResourceConstraints_eq split: list.splits)
  have "Split (CHR ''&'') (formatQuery (cr_ResourceConstraints plane job)
              (collectJSONFields CResources_type)) =
      ''?active=true'' # param_segments (cr_ResourceConstraints plane job) @
      [''_id,virtualization,memory,vcpus,cpu_percent,constraints,csi_drivers,volumes'']"
    by (subst formatQuery_Split) (auto dest!: keys simp: flds formatInterestedResources_def)
  then show ?thesis
    by (auto simp: param_segments_def dest!: keys)
qed

theorem formatQuery_no_resources_key_witness:
  "\<not> HasPrefix ''?active=true'' ''resources=''"
  using formatQuery_no_resources_key [of "''?active=true''" "''cluster''" test_job] by simp

section \<open>The requests to the other services\<close>

text \<open>
  What an HTTP exchange gives: no response, or a status code with a body, which the JSON
  decoder turns into the candidates or an error. \<open>AvailableResources\<close> fetches and decodes
  the candidates; the exchange is an argument, a function of the request URL.
\<close>

datatype 'c http_result = HttpError string | HttpResponse nat "string + 'c"

definition StatusBadRequest :: nat where
  "StatusBadRequest = 400"

definition AvailableResources ::
    "string \<Rightarrow> (string \<Rightarrow> 'c list http_result) \<Rightarrow> (string \<times> string) list \<Rightarrow> string list
      \<Rightarrow> string + 'c list" where
  "AvailableResources resourceBaseURL http_get requestParameters interestedResources =
     (case http_get (resourceBaseURL @ formatQuery requestParameters interestedResources) of
        HttpError e \<Rightarrow> Err e
      | HttpResponse code body \<Rightarrow>
          if code \<ge> StatusBadRequest
          then Err (''resource abstractor returned HTTP '' @ utoa code)
          else (case body of Err e \<Rightarrow> Err e | Ok cs \<Rightarrow> Ok cs))"

text \<open>
  The two payloads sent to the manager. \<open>doPost\<close> records the post in the list of posts made
  (marshalling a record of strings cannot fail) and turns the status code into its error.
\<close>

datatype manager_payload =
    deploymentRequest string string
  | deploymentFailedRequest string string

definition doPost ::
    "(manager_payload \<Rightarrow> unit http_result) \<Rightarrow> manager_payload \<Rightarrow> manager_payload list \<times> string option"
where
  "doPost http_post payload =
     ([payload],
      (case http_post payload of
         HttpError e \<Rightarrow> Some e
       | HttpResponse code _ \<Rightarrow>
           if code \<ge> StatusBadRequest then Some (''manager returned HTTP '' @ utoa code) else None))"

definition DeploySuccess ::
    "(manager_payload \<Rightarrow> unit http_result) \<Rightarrow> string \<Rightarrow> string \<Rightarrow> manager_payload list \<times> string option"
where
  "DeploySuccess http_post jobID candidateID = doPost http_post (deploymentRequest jobID candidateID)"

definition DeployFailed ::
    "(manager_payload \<Rightarrow> unit http_result) \<Rightarrow> string \<Rightarrow> string \<Rightarrow> manager_payload list \<times> string option"
where
  "DeployFailed http_post jobID status = doPost http_post (deploymentFailedRequest jobID status)"

section \<open>A scheduling request\<close>

text \<open>
  \<open>PerformSchedulingRequest\<close>, generic in the algorithm as the code is: \<open>calculate\<close> is the
  algorithm's \<open>Calculate\<close>, \<open>ID\<close> and \<open>ResourceConstraints\<close> the methods of its candidate type.
  The result is the list of posts made and the error returned.
\<close>

definition PerformSchedulingRequest ::
    "string \<Rightarrow> (string \<Rightarrow> 'c list http_result) \<Rightarrow> (manager_payload \<Rightarrow> unit http_result)
      \<Rightarrow> gotype \<Rightarrow> (gotype \<rightharpoonup> string list) \<Rightarrow> ('c \<Rightarrow> string) \<Rightarrow> ('c \<Rightarrow> (string \<times> string) list)
      \<Rightarrow> ('c \<Rightarrow> 'c list \<Rightarrow> calc_error + 'c) \<Rightarrow> 'c \<Rightarrow> manager_payload list \<times> string option" where
  "PerformSchedulingRequest baseURL http_get http_post zeroCandidate cache ID constraints calculate job =
     (case AvailableResources baseURL http_get (constraints job)
             (fst (getInterestedResources zeroCandidate cache)) of
        Err e \<Rightarrow> ([], Some e)
      | Ok candidates \<Rightarrow>
          (case calculate job candidates of
             Err (SchedulingError s) \<Rightarrow> DeployFailed http_post (ID job) (Error s)
           | Err (OtherError e) \<Rightarrow> ([], Some e)
           | Ok chosen \<Rightarrow> DeploySuccess http_post (ID job) (ID chosen)))"

text \<open>
  \<open>scheduleRequestHandler\<close>: the queued payload is decoded by the algorithm's unmarshaller,
  then scheduled; an error makes the task queue deliver the task again.
\<close>

definition scheduleRequestHandler ::
    "(string \<Rightarrow> string + 'c) \<Rightarrow> ('c \<Rightarrow> manager_payload list \<times> string option) \<Rightarrow> string
      \<Rightarrow> manager_payload list \<times> string option" where
  "scheduleRequestHandler unmarshal perform payload =
     (case unmarshal payload of
        Err e \<Rightarrow> ([], Some e)
      | Ok jobData \<Rightarrow>
          (case perform jobData of
             (posts, Some e) \<Rightarrow> (posts, Some e)
           | (posts, None) \<Rightarrow> (posts, None)))"

text \<open>
  \<open>enqueue\<close>: the request body becomes a task of the scheduler's type; the result is the
  tasks enqueued and the HTTP status set (200 when the handler sets none).
\<close>

definition TaskTypeScheduler :: string where
  "TaskTypeScheduler = ''schedule:job''"

definition enqueue ::
    "(string \<times> string \<Rightarrow> string option) \<Rightarrow> string + string \<Rightarrow> (string \<times> string) list \<times> nat" where
  "enqueue client_error raw =
     (case raw of
        Err _ \<Rightarrow> ([], StatusBadRequest)
      | Ok body \<Rightarrow>
          let task = (TaskTypeScheduler, body)
          in (case client_error task of Some _ \<Rightarrow> ([], 500) | None \<Rightarrow> ([task], 200)))"

text \<open>The cluster scheduler as it runs: the best-fit algorithm behind the handler.\<close>

definition handle_job ::
    "((CResources \<Rightarrow> CResources \<Rightarrow> int) \<Rightarrow> CResources list \<Rightarrow> CResources list) \<Rightarrow> string \<Rightarrow> string
      \<Rightarrow> (string \<Rightarrow> CResources list http_result) \<Rightarrow> (manager_payload \<Rightarrow> unit http_result)
      \<Rightarrow> (string \<Rightarrow> string + CResources) \<Rightarrow> string \<Rightarrow> manager_payload list \<times> string option" where
  "handle_job SortFunc plane baseURL http_get http_post unmarshal payload =
     scheduleRequestHandler unmarshal
       (PerformSchedulingRequest baseURL http_get http_post CResources_type Map.empty cr_ID
          (cr_ResourceConstraints plane) (cm_Calculate SortFunc))
       payload"

lemma doPost_posts [simp]: "fst (doPost http_post p) = [p]"
  by (simp add: doPost_def)

lemma AvailableResources_cases:
  obtains (ok) cs where "AvailableResources base http_get r f = Ok cs"
  | (err) e where "AvailableResources base http_get r f = Err e"
  by (cases "AvailableResources base http_get r f") auto

text \<open>
  C3: The manager hears of every job exactly once per delivery of the task, and hears the
  truth: if the payload decodes and the candidates can be fetched, exactly one post is made,
  naming the job and either a candidate of the fetched list that is feasible and has the best
  score, or, exactly when none is feasible, the status name of the failure; if the payload
  does not decode or the fetch fails, no post is made and an error is returned, so that the
  queue retries.
\<close>

theorem handle_job_reports:
  assumes "sorts SortFunc"
  shows "case unmarshal payload of
      Err e \<Rightarrow> handle_job SortFunc plane baseURL http_get http_post unmarshal payload = ([], Some e)
    | Ok job \<Rightarrow>
        (case AvailableResources baseURL http_get (cr_ResourceConstraints plane job)
                (collectJSONFields CResources_type) of
           Err e \<Rightarrow> handle_job SortFunc plane baseURL http_get http_post unmarshal payload = ([], Some e)
         | Ok cs \<Rightarrow>
             (\<exists>c \<in> set cs. feasible job c \<and> (\<forall>c' \<in> set cs. feasible job c' \<longrightarrow> score c' \<le> score c) \<and>
                fst (handle_job SortFunc plane baseURL http_get http_post unmarshal payload) =
                  [deploymentRequest (cr_ID job) (cr_ID c)]) \<or>
             (\<forall>c \<in> set cs. \<not> feasible job c) \<and>
                fst (handle_job SortFunc plane baseURL http_get http_post unmarshal payload) =
                  [deploymentFailedRequest (cr_ID job)
                     (if cs = [] then ''TargetClusterNotActive'' else ''NoActiveClusterWithCapacity'')])"
proof (cases "unmarshal payload")
  case (Inl e)
  then show ?thesis by (simp add: handle_job_def scheduleRequestHandler_def)
next
  case (Inr job)
  let ?fetch = "AvailableResources baseURL http_get (cr_ResourceConstraints plane job)
                  (collectJSONFields CResources_type)"
  have fields: "fst (getInterestedResources CResources_type Map.empty) = collectJSONFields CResources_type"
    by (simp add: getInterestedResources_def CResources_type_def Let_def del: collectJSONFields.simps)
  have handler: "fst (scheduleRequestHandler unmarshal perform payload) = fst (perform job)"
    "perform job = ([], Some e) \<Longrightarrow> scheduleRequestHandler unmarshal perform payload = ([], Some e)"
    for perform e
    by (cases "perform job"; auto simp: scheduleRequestHandler_def Inr split: option.splits)+
  show ?thesis
  proof (cases ?fetch)
    case (Inl e)
    then show ?thesis
      unfolding handle_job_def \<open>unmarshal payload = Inr job\<close> sum.case
      by (simp add: handler PerformSchedulingRequest_def fields)
  next
    case fetched: (Inr cs)
    show ?thesis
      unfolding handle_job_def \<open>unmarshal payload = Inr job\<close> sum.case handler fetched
      using cm_Calculate_decides [OF assms, of cs job]
      by (auto simp: PerformSchedulingRequest_def fields fetched DeploySuccess_def DeployFailed_def
          Error_def split: sum.splits)
  qed
qed

theorem handle_job_reports_witness:
  "fst (handle_job insertion_sort ''cluster'' ''http://ra/''
          (\<lambda>_. HttpResponse 200 (Ok [test_cluster1, test_cluster2]))
          (\<lambda>_. HttpResponse 200 (Ok ())) (\<lambda>_. Ok test_job) ''{}'') =
     [deploymentRequest ''1'' ''1'']"
proof -
  have ids: "cr_ID test_job = ''1''" "cr_ID test_cluster1 = ''1''"
    by (simp_all add: test_defs cr_ID_def)
  have "\<not> score test_cluster1 \<le> score test_cluster2"
    by (simp add: test_scores f64_small_simps)
  moreover have "AvailableResources ''http://ra/'' (\<lambda>_. HttpResponse 200 (Ok [test_cluster1, test_cluster2]))
      r f = Ok [test_cluster1, test_cluster2]" for r f
    by (simp add: AvailableResources_def StatusBadRequest_def)
  ultimately show ?thesis
    using handle_job_reports [OF sorts_insertion_sort, where unmarshal = "\<lambda>_. Ok test_job"
        and payload = "''{}''" and plane = "''cluster''" and baseURL = "''http://ra/''"
        and http_get = "\<lambda>_. HttpResponse 200 (Ok [test_cluster1, test_cluster2])"
        and http_post = "\<lambda>_. HttpResponse 200 (Ok ())"]
    by (auto simp: test_feasible ids)
qed

end
