(* ===== verification/GoPath.thy ===== *)
theory GoPath
  imports GoStrings
begin

text \<open>
  Go's packages \<open>path\<close> and \<open>path/filepath\<close> on Unix, as far as the modelled code calls them:
  \<open>Clean\<close>, \<open>Join\<close>, \<open>Base\<close> and \<open>Dir\<close> on byte strings.
\<close>

section \<open>Definitions\<close>

definition path_step :: "bool \<Rightarrow> string list \<Rightarrow> string \<Rightarrow> string list" where
  "path_step rooted stack el =
     (if el = [] \<or> el = ''.'' then stack
      else if el = ''..'' then
        (if stack = [] then (if rooted then [] else [''..''])
         else if last stack = ''..'' then stack @ [''..''] else butlast stack)
      else stack @ [el])"

definition path_rooted :: "string \<Rightarrow> bool" where
  "path_rooted p = HasPrefix p ''/''"

definition path_elements :: "string \<Rightarrow> string list" where
  "path_elements p = foldl (path_step (path_rooted p)) [] (Split (CHR ''/'') p)"

definition Clean :: "string \<Rightarrow> string" where
  "Clean p =
     (let out = Join (path_elements p) ''/''
      in if path_rooted p then ''/'' @ out else if out = [] then ''.'' else out)"

definition path_Join :: "string list \<Rightarrow> string" where
  "path_Join elems =
     (let rest = dropWhile (\<lambda>e. e = []) elems in if rest = [] then [] else Clean (Join rest ''/''))"

definition after_last_slash :: "string \<Rightarrow> string" where
  "after_last_slash p = rev (takeWhile (\<lambda>c. c \<noteq> CHR ''/'') (rev p))"

definition Base :: "string \<Rightarrow> string" where
  "Base p =
     (if p = [] then ''.''
      else let b = after_last_slash (TrimRight p ''/'') in if b = [] then ''/'' else b)"

definition Dir :: "string \<Rightarrow> string" where
  "Dir p = Clean (take (length p - length (after_last_slash p)) p)"

section \<open>The elements of a path\<close>

definition plain :: "string \<Rightarrow> bool" where
  "plain el \<longleftrightarrow> el \<noteq> [] \<and> el \<noteq> ''.'' \<and> el \<noteq> ''..'' \<and> CHR ''/'' \<notin> set el"

lemma path_step_plain [simp]: "plain el \<Longrightarrow> path_step rooted stack el = stack @ [el]"
  by (simp add: path_step_def plain_def)

lemma path_step_skip [simp]:
  "path_step rooted stack [] = stack" "path_step rooted stack ''.'' = stack"
  by (simp_all add: path_step_def)

lemma foldl_plain: "list_all plain els \<Longrightarrow> foldl (path_step rooted) stack els = stack @ els"
  by (induction els arbitrary: stack) auto

lemma path_step_rooted_plain:
  assumes "list_all plain stack" "CHR ''/'' \<notin> set el"
  shows "list_all plain (path_step True stack el)"
proof -
  have "list_all plain (butlast stack)"
    using assms(1) by (auto simp: list_all_iff dest: in_set_butlastD)
  moreover have "last stack \<noteq> ''..''" if "stack \<noteq> []"
    using assms(1) that by (metis last_in_set list_all_iff plain_def)
  ultimately show ?thesis
    using assms by (auto simp: path_step_def plain_def)
qed

lemma foldl_rooted_plain:
  "list_all plain stack \<Longrightarrow> \<forall>c \<in> set els. CHR ''/'' \<notin> set c \<Longrightarrow>
   list_all plain (foldl (path_step True) stack els)"
  by (induction els arbitrary: stack) (auto simp: path_step_rooted_plain)

text \<open>A rooted path has only plain elements: no component climbs out of the root.\<close>

lemma path_elements_rooted_plain: "path_rooted p \<Longrightarrow> list_all plain (path_elements p)"
  unfolding path_elements_def by (auto intro!: foldl_rooted_plain dest: Split_no_sep)

lemma Split_Cons_sep [simp]: "Split sep (sep # s) = [] # Split sep s"
  by simp

lemma path_rooted_Cons [simp]: "path_rooted (CHR ''/'' # s)"
  by (simp add: path_rooted_def)

lemma path_rooted_append [simp]: "path_rooted p \<Longrightarrow> path_rooted (p @ s)"
  by (auto simp: path_rooted_def HasPrefix_iff)

lemma Split_append:
  "Split sep (s @ t) = butlast (Split sep s) @ (last (Split sep s) @ hd (Split sep t)) # tl (Split sep t)"
  by (induction s) (auto split: list.splits)

lemma Split_append_cons: "Split sep (s @ sep # t) = Split sep s @ Split sep t"
  by (subst Split_append) simp

text \<open>Joining a plain element to a rooted path appends it to the path's elements.\<close>

lemma path_elements_append_plain:
  assumes "path_rooted p" "plain c"
  shows "path_elements (p @ ''/'' @ c) = path_elements p @ [c]"
proof -
  have "Split (CHR ''/'') c = [c]"
    using assms(2) by (simp add: plain_def Split_single)
  then show ?thesis
    using assms by (simp add: path_elements_def Split_append_cons)
qed

text \<open>Joining \<open>..\<close> removes the last element.\<close>

lemma path_elements_append_dotdot:
  assumes "path_rooted p"
  shows "path_elements (p @ ''/'' @ ''..'') = butlast (path_elements p)"
proof -
  have "last (path_elements p) \<noteq> ''..''" if "path_elements p \<noteq> []"
    using path_elements_rooted_plain [OF assms] that by (metis last_in_set list_all_iff plain_def)
  then show ?thesis
    using assms by (auto simp: path_elements_def Split_append_cons Split_single path_step_def)
qed

lemma path_elements_Clean_rooted:
  assumes "path_rooted p"
  shows "path_elements (Clean p) = path_elements p"
proof -
  have pl: "list_all plain (path_elements p)"
    using assms by (rule path_elements_rooted_plain)
  show ?thesis
  proof (cases "path_elements p = []")
    case True
    with assms show ?thesis
      by (simp add: Clean_def path_elements_def [of "''/''"] path_rooted_def)
  next
    case False
    have "\<forall>w \<in> set (path_elements p). CHR ''/'' \<notin> set w"
      using pl by (auto simp: list_all_iff plain_def)
    then have "Split (CHR ''/'') (Join (path_elements p) ''/'') = path_elements p"
      using Split_Join [OF False] by simp
    then have "path_elements (CHR ''/'' # Join (path_elements p) ''/'') = path_elements p"
      unfolding path_elements_def [of "CHR ''/'' # _"] by (simp add: foldl_plain [OF pl])
    with assms show ?thesis by (simp add: Clean_def Let_def)
  qed
qed

lemma Clean_rooted [simp]: "path_rooted p \<Longrightarrow> path_rooted (Clean p)"
  by (simp add: Clean_def Let_def)

lemma Clean_idem_rooted: "path_rooted p \<Longrightarrow> Clean (Clean p) = Clean p"
  using path_elements_Clean_rooted [of p] by (simp add: Clean_def [of "Clean p"]) (simp add: Clean_def)

lemma Clean_elements: "path_rooted p \<Longrightarrow> Clean p = ''/'' @ Join (path_elements p) ''/''"
  by (simp add: Clean_def Let_def)

text \<open>The last element of a path ending in a plain element.\<close>

lemma after_last_slash_append:
  "CHR ''/'' \<notin> set c \<Longrightarrow> after_last_slash (p @ CHR ''/'' # c) = c"
  by (simp add: after_last_slash_def takeWhile_append)

lemma TrimRight_plain:
  assumes "c \<noteq> []" "last c \<notin> set cutset"
  shows "TrimRight (p @ c) cutset = p @ c"
proof -
  obtain ds d where c: "c = ds @ [d]"
    using assms(1) by (metis rev_exhaust)
  then have "d \<notin> set cutset"
    using assms(2) by simp
  then show ?thesis
    by (simp add: c TrimRight_def TrimRightFunc_def)
qed

lemma Base_append_plain:
  assumes "plain c"
  shows "Base (p @ CHR ''/'' # c) = c"
proof -
  have c: "c \<noteq> []" "CHR ''/'' \<notin> set c"
    using assms by (simp_all add: plain_def)
  then have "last c \<notin> set ''/''"
    by (metis empty_iff empty_set last_in_set list.set(2) singletonD)
  then have "TrimRight (p @ CHR ''/'' # c) ''/'' = p @ CHR ''/'' # c"
    using TrimRight_plain [of c "''/''" "p @ ''/''"] c by simp
  with c show ?thesis
    by (simp add: Base_def after_last_slash_append)
qed

lemma path_Join_rooted_plain:
  assumes "path_rooted d" "plain c"
  shows "path_Join [d, c] = ''/'' @ Join (path_elements d @ [c]) ''/''"
proof -
  have "d \<noteq> []"
    using assms(1) by (auto simp: path_rooted_def)
  moreover have "path_elements (d @ CHR ''/'' # c) = path_elements d @ [c]"
    using path_elements_append_plain [OF assms] by simp
  ultimately show ?thesis
    using assms path_rooted_append [OF assms(1), of "CHR ''/'' # c"]
    by (simp add: path_Join_def Clean_def Let_def plain_def)
qed

lemma path_elements_child:
  "path_rooted p \<Longrightarrow> plain c \<Longrightarrow> path_elements (path_Join [p, c]) = path_elements p @ [c]"
proof -
  assume "path_rooted p" "plain c"
  then have "p @ ''/'' @ c \<noteq> []" "c \<noteq> []" "p \<noteq> []" "path_rooted (p @ ''/'' @ c)"
    by (cases p; auto simp: plain_def path_rooted_def HasPrefix_def)+
  then have "path_Join [p, c] = Clean (p @ ''/'' @ c)" by (simp add: path_Join_def)
  then show ?thesis
    using \<open>path_rooted p\<close> \<open>plain c\<close> path_elements_append_plain [of p c] by (simp add: path_elements_Clean_rooted)
qed

lemma Join_snoc: "ws \<noteq> [] \<Longrightarrow> Join (ws @ [w]) sep = Join ws sep @ sep @ w"
  by (induction ws rule: induct_list012) auto

lemma Base_path_Join:
  assumes "path_rooted d" "plain c"
  shows "Base (path_Join [d, c]) = c"
proof (cases "path_elements d = []")
  case True
  then show ?thesis
    using Base_append_plain [OF assms(2), of "[]"] by (simp add: path_Join_rooted_plain [OF assms])
next
  case False
  then show ?thesis
    using Base_append_plain [OF assms(2), of "CHR ''/'' # Join (path_elements d) ''/''"]
    by (simp add: path_Join_rooted_plain [OF assms] Join_snoc)
qed

lemma path_Join_inject:
  "path_rooted d \<Longrightarrow> plain a \<Longrightarrow> plain b \<Longrightarrow> path_Join [d, a] = path_Join [d, b] \<longleftrightarrow> a = b"
  by (metis Base_path_Join)

end
