(* ===== verification/KernelVersion.thy ===== *)
theory KernelVersion
  imports GoPath
begin

text \<open>
  The choice of the kernel and the initial RAM disk in an image
  (\<open>crosvm/internal/kernel/version.go\<close>, \<open>pick.go\<close>): the version tokenizer, the comparison of
  versions, and the search for the newest file. The file system's \<open>filepath.Glob\<close> is an
  argument.
\<close>

section \<open>Tokens\<close>

datatype tokenType = tokenTypeNumber | tokenTypeAlpha | tokenTypeSeparator

primrec tokenType_ord :: "tokenType \<Rightarrow> nat" where
  "tokenType_ord tokenTypeNumber = 0"
| "tokenType_ord tokenTypeAlpha = 1"
| "tokenType_ord tokenTypeSeparator = 2"

lemma tokenType_ord_inject [simp]: "tokenType_ord a = tokenType_ord b \<longleftrightarrow> a = b"
  by (cases a; cases b) auto

instantiation tokenType :: linorder
begin

definition less_eq_tokenType :: "tokenType \<Rightarrow> tokenType \<Rightarrow> bool" where
  "less_eq_tokenType a b \<longleftrightarrow> tokenType_ord a \<le> tokenType_ord b"

definition less_tokenType :: "tokenType \<Rightarrow> tokenType \<Rightarrow> bool" where
  "less_tokenType a b \<longleftrightarrow> tokenType_ord a < tokenType_ord b"

instance
  by standard (auto simp: less_eq_tokenType_def less_tokenType_def)

end

record token =
  tok_typ :: tokenType
  tok_number :: go_int
  tok_alpha :: string

text \<open>
  \<open>rune(s[i])\<close> is the code point of a single byte, so of Latin-1. Its decimal digits are the
  ASCII ones; its letters are the ASCII ones and those from 0xAA on.
\<close>

definition unicode_IsDigit :: "char \<Rightarrow> bool" where
  "unicode_IsDigit c = is_digit c"

definition unicode_IsLetter :: "char \<Rightarrow> bool" where
  "unicode_IsLetter c \<longleftrightarrow>
     is_upper c \<or> is_lower c \<or> of_char c \<in> {0xAA :: nat, 0xB5, 0xBA} \<or>
     char_between c 0xC0 0xD6 \<or> char_between c 0xD8 0xF6 \<or> char_between c 0xF8 0xFF"

text \<open>The run at the start of the rest of the string, and what follows it.\<close>

definition readRun :: "string \<Rightarrow> (char \<Rightarrow> bool) \<Rightarrow> string \<times> string" where
  "readRun s cond = (takeWhile cond s, dropWhile cond s)"

definition number_token :: "string \<Rightarrow> token" where
  "number_token run = \<lparr>tok_typ = tokenTypeNumber, tok_number = word_of_int (fst (Atoi run)), tok_alpha = []\<rparr>"

definition alpha_token :: "string \<Rightarrow> token" where
  "alpha_token run = \<lparr>tok_typ = tokenTypeAlpha, tok_number = 0, tok_alpha = run\<rparr>"

definition separator_token :: token where
  "separator_token = \<lparr>tok_typ = tokenTypeSeparator, tok_number = 0, tok_alpha = []\<rparr>"

function tokenizeVersion :: "string \<Rightarrow> token list" where
  "tokenizeVersion [] = []"
| "tokenizeVersion (r # s) =
     (if unicode_IsDigit r then
        (case readRun (r # s) unicode_IsDigit of (run, rest) \<Rightarrow> number_token run # tokenizeVersion rest)
      else if unicode_IsLetter r then
        (case readRun (r # s) unicode_IsLetter of (run, rest) \<Rightarrow> alpha_token run # tokenizeVersion rest)
      else
        (case readRun (r # s) (\<lambda>r. \<not> unicode_IsDigit r \<and> \<not> unicode_IsLetter r) of
           (run, rest) \<Rightarrow> separator_token # tokenizeVersion rest))"
  by pat_completeness auto
termination
  by (relation "measure length") (auto simp: readRun_def less_Suc_eq_le length_dropWhile_le)

type_synonym Version = "token list"

definition NewVersion :: "string \<Rightarrow> Version" where
  "NewVersion s = tokenizeVersion s"

section \<open>Comparison\<close>

text \<open>The loop over the common prefix: \<^term>\<open>Some r\<close> when it returns \<open>r\<close>.\<close>

fun Compare_loop :: "token list \<Rightarrow> token list \<Rightarrow> int option" where
  "Compare_loop (a # as) (b # bs) =
     (if tok_typ a \<noteq> tok_typ b then Some (cmp_Compare (tok_typ a) (tok_typ b))
      else (case tok_typ a of
              tokenTypeNumber \<Rightarrow>
                (let res = cmp_Compare (sint (tok_number a)) (sint (tok_number b))
                 in if res \<noteq> 0 then Some res else Compare_loop as bs)
            | tokenTypeAlpha \<Rightarrow>
                (let res = strings_Compare (tok_alpha a) (tok_alpha b)
                 in if res \<noteq> 0 then Some res else Compare_loop as bs)
            | tokenTypeSeparator \<Rightarrow> Compare_loop as bs))"
| "Compare_loop _ _ = None"

definition Compare :: "Version \<Rightarrow> Version \<Rightarrow> int" where
  "Compare v o' =
     (case Compare_loop v o' of Some res \<Rightarrow> res | None \<Rightarrow> cmp_Compare (length v) (length o'))"

definition IsNewer :: "Version \<Rightarrow> Version \<Rightarrow> bool" where
  "IsNewer v o' \<longleftrightarrow> Compare v o' > 0"

section \<open>Picking the newest file\<close>

definition compareKernelPaths :: "string \<Rightarrow> string \<Rightarrow> int" where
  "compareKernelPaths a b = Compare (NewVersion (Base a)) (NewVersion (Base b))"

text \<open>\<open>slices.MaxFunc\<close> on a non-empty list: the first maximal element.\<close>

definition MaxFunc :: "('a \<Rightarrow> 'a \<Rightarrow> int) \<Rightarrow> 'a list \<Rightarrow> 'a" where
  "MaxFunc c xs = foldl (\<lambda>m x. if c x m > 0 then x else m) (hd xs) (tl xs)"

definition kernelPatterns :: "string list" where
  "kernelPatterns = [''vmlinuz-*'', ''vmlinux-*'']"

definition initrdPatterns :: "string list" where
  "initrdPatterns = [''initramfs-*'', ''initrd-*'', ''initrd.img-*'']"

primrec findFirstMatches ::
    "(string \<Rightarrow> 'e + string list) \<Rightarrow> string \<Rightarrow> string list \<Rightarrow> 'e + string list" where
  "findFirstMatches Glob dir [] = Ok []"
| "findFirstMatches Glob dir (pattern # patterns) =
     (case Glob (path_Join [dir, pattern]) of
        Err e \<Rightarrow> Err e
      | Ok matches \<Rightarrow> if matches \<noteq> [] then Ok matches else findFirstMatches Glob dir patterns)"

datatype 'e pick_error = ErrNoKernelFound | GlobError 'e

definition FindLinuxKernelFiles ::
    "(string \<Rightarrow> 'e + string list) \<Rightarrow> string \<Rightarrow> 'e pick_error + string \<times> string" where
  "FindLinuxKernelFiles Glob root =
     (let boot = path_Join [root, ''boot''] in
      case findFirstMatches Glob boot kernelPatterns of
        Err e \<Rightarrow> Err (GlobError e)
      | Ok kernels \<Rightarrow>
          if kernels = [] then Err ErrNoKernelFound
          else
            let latestKernel = MaxFunc compareKernelPaths kernels
            in (case findFirstMatches Glob boot initrdPatterns of
                  Err e \<Rightarrow> Err (GlobError e)
                | Ok initrds \<Rightarrow>
                    let latestInitrd = if initrds \<noteq> [] then MaxFunc compareKernelPaths initrds else []
                    in Ok (latestKernel, latestInitrd)))"

section \<open>The order on versions\<close>

definition canonical :: "token \<Rightarrow> bool" where
  "canonical t \<longleftrightarrow> (tok_typ t \<noteq> tokenTypeNumber \<longrightarrow> tok_number t = 0) \<and>
                   (tok_typ t \<noteq> tokenTypeAlpha \<longrightarrow> tok_alpha t = [])"

lemma canonical_tokenize: "list_all canonical (tokenizeVersion s)"
  by (induction s rule: tokenizeVersion.induct)
     (simp_all add: canonical_def number_token_def alpha_token_def separator_token_def readRun_def)

text \<open>The comparison of single tokens; a version comparison is its lexicographic extension.\<close>

definition token_cmp :: "token \<Rightarrow> token \<Rightarrow> int" where
  "token_cmp a b =
     (if tok_typ a \<noteq> tok_typ b then cmp_Compare (tok_typ a) (tok_typ b)
      else (case tok_typ a of
              tokenTypeNumber \<Rightarrow> cmp_Compare (sint (tok_number a)) (sint (tok_number b))
            | tokenTypeAlpha \<Rightarrow> strings_Compare (tok_alpha a) (tok_alpha b)
            | tokenTypeSeparator \<Rightarrow> 0))"

fun lex_cmp :: "('a \<Rightarrow> 'a \<Rightarrow> int) \<Rightarrow> 'a list \<Rightarrow> 'a list \<Rightarrow> int" where
  "lex_cmp c [] [] = 0"
| "lex_cmp c [] (y # ys) = -1"
| "lex_cmp c (x # xs) [] = 1"
| "lex_cmp c (x # xs) (y # ys) = (if c x y \<noteq> 0 then c x y else lex_cmp c xs ys)"

lemma token_cmp_swap: "token_cmp a b = - token_cmp b a"
  by (auto simp: token_cmp_def cmp_Compare_swap [of "tok_typ a"] cmp_Compare_swap [of "sint (tok_number a)"]
      strings_Compare_swap [of "tok_alpha a"] split: tokenType.split)

lemma token_cmp_trans: "token_cmp a b \<le> 0 \<Longrightarrow> token_cmp b c \<le> 0 \<Longrightarrow> token_cmp a c \<le> 0"
  by (auto simp: token_cmp_def cmp_Compare_def intro: strings_Compare_trans
      split: if_splits tokenType.splits)

lemma sint_eq_iff: "sint (a :: go_int) = sint b \<longleftrightarrow> a = b"
  by (metis signed_word_eqI)

lemma token_cmp_eq: "canonical a \<Longrightarrow> canonical b \<Longrightarrow> token_cmp a b = 0 \<longleftrightarrow> a = b"
  by (cases a; cases b; cases "tok_typ a"; cases "tok_typ b")
     (simp_all add: token_cmp_def canonical_def strings_Compare_eq_iff sint_eq_iff)

lemma token_cmp_refl [simp]: "token_cmp a a = 0"
  by (simp add: token_cmp_def split: tokenType.split)

lemma Compare_Cons:
  "Compare (a # as) (b # bs) = (if token_cmp a b \<noteq> 0 then token_cmp a b else Compare as bs)"
proof -
  have "cmp_Compare (Suc m) (Suc n) = cmp_Compare m n" for m n :: nat
    by (simp add: cmp_Compare_def)
  then show ?thesis
    by (auto simp: Compare_def token_cmp_def Let_def split: tokenType.split option.split)
qed

lemma Compare_lex: "Compare v w = lex_cmp token_cmp v w"
proof (induction v w rule: list_induct2')
  case (4 x xs y ys)
  then show ?case by (simp only: Compare_Cons lex_cmp.simps)
qed (simp_all add: Compare_def cmp_Compare_def)

lemma lex_cmp_swap:
  assumes "\<And>a b. c a b = - c b a"
  shows "lex_cmp c v w = - lex_cmp c w v"
proof (induction v w rule: list_induct2')
  case (4 x xs y ys)
  have "c x y = - c y x" by (rule assms)
  with 4 show ?case by simp
qed simp_all

lemma lex_cmp_trans:
  assumes swap: "\<And>a b. c a b = - c b a"
    and trans: "\<And>a b d. c a b \<le> 0 \<Longrightarrow> c b d \<le> 0 \<Longrightarrow> c a d \<le> 0"
  shows "lex_cmp c u v \<le> 0 \<Longrightarrow> lex_cmp c v w \<le> 0 \<Longrightarrow> lex_cmp c u w \<le> 0"
proof (induction u arbitrary: v w)
  case Nil
  then show ?case by (cases w) auto
next
  case (Cons x xs)
  then obtain y ys where v: "v = y # ys" by (cases v) auto
  with Cons.prems obtain z zs where w: "w = z # zs" by (cases w) auto
  have strict: "c a d < 0" if "c a b < 0 \<and> c b d \<le> 0 \<or> c a b \<le> 0 \<and> c b d < 0" for a b d
  proof (rule ccontr)
    assume "\<not> c a d < 0"
    then have "c d a \<le> 0" using swap [of a d] by linarith
    then have "c d b \<le> 0 \<and> c b a \<le> 0"
      using that trans [of d a b] trans [of b d a] by linarith
    then show False using that swap [of d b] swap [of b a] by linarith
  qed
  have zero: "c x z = 0" if "c x y = 0" "c y z = 0"
    using that trans [of x y z] trans [of z y x] swap [of x y] swap [of y z] swap [of x z] by linarith
  show ?case
  proof (cases "c x y = 0 \<and> c y z = 0")
    case True
    with Cons.prems Cons.IH [of ys zs] zero show ?thesis by (simp add: v w)
  next
    case False
    moreover have "c x y \<le> 0" "c y z \<le> 0"
      using Cons.prems by (auto simp: v w split: if_splits)
    ultimately have "c x z < 0" using strict [of x y z] by linarith
    then show ?thesis by (simp add: w)
  qed
qed

lemma lex_cmp_eq:
  "(\<And>a b. a \<in> set v \<Longrightarrow> b \<in> set w \<Longrightarrow> c a b = 0 \<longleftrightarrow> a = b) \<Longrightarrow> lex_cmp c v w = 0 \<longleftrightarrow> v = w"
  by (induction v w rule: list_induct2') auto

lemma Compare_swap: "Compare v w = - Compare w v"
  unfolding Compare_lex by (rule lex_cmp_swap) (rule token_cmp_swap)

lemma Compare_trans: "Compare u v \<le> 0 \<Longrightarrow> Compare v w \<le> 0 \<Longrightarrow> Compare u w \<le> 0"
  unfolding Compare_lex by (rule lex_cmp_trans [OF token_cmp_swap token_cmp_trans])

text \<open>
  C26: The comparison of versions is a linear order on token lists: it is antisymmetric and
  transitive, and two file names compare equal exactly when they have the same tokens, that
  is the same numbers and words with any separators between them.
\<close>

theorem version_order:
  "Compare (NewVersion s) (NewVersion t) = - Compare (NewVersion t) (NewVersion s) \<and>
   (Compare (NewVersion s) (NewVersion t) = 0 \<longleftrightarrow> tokenizeVersion s = tokenizeVersion t) \<and>
   (Compare (NewVersion s) (NewVersion t) > 0 \<or> Compare (NewVersion t) (NewVersion u) > 0 \<or>
    Compare (NewVersion s) (NewVersion u) \<le> 0)"
proof -
  have "lex_cmp token_cmp (tokenizeVersion s) (tokenizeVersion t) = 0 \<longleftrightarrow>
      tokenizeVersion s = tokenizeVersion t"
    using canonical_tokenize by (intro lex_cmp_eq token_cmp_eq) (auto simp: list_all_iff)
  then have "Compare (NewVersion s) (NewVersion t) = 0 \<longleftrightarrow> tokenizeVersion s = tokenizeVersion t"
    by (simp only: NewVersion_def Compare_lex)
  then show ?thesis
    using Compare_swap [of "NewVersion s" "NewVersion t"]
      Compare_trans [of "NewVersion s" "NewVersion t" "NewVersion u"]
    by linarith
qed

section \<open>Numbers compare by value\<close>

text \<open>The class of a byte decides where a run ends.\<close>

definition byte_class :: "char \<Rightarrow> tokenType" where
  "byte_class c =
     (if unicode_IsDigit c then tokenTypeNumber
      else if unicode_IsLetter c then tokenTypeAlpha else tokenTypeSeparator)"

definition run_token :: "string \<Rightarrow> token" where
  "run_token run =
     (case byte_class (hd run) of
        tokenTypeNumber \<Rightarrow> number_token run
      | tokenTypeAlpha \<Rightarrow> alpha_token run
      | tokenTypeSeparator \<Rightarrow> separator_token)"

lemma digit_not_letter: "unicode_IsDigit c \<Longrightarrow> \<not> unicode_IsLetter c"
  by (auto simp: unicode_IsDigit_def unicode_IsLetter_def is_digit_def is_upper_def is_lower_def
      char_between_def)

lemma byte_class_run:
  "unicode_IsDigit r \<Longrightarrow> (\<lambda>c. byte_class c = byte_class r) = unicode_IsDigit"
  "unicode_IsLetter r \<Longrightarrow> (\<lambda>c. byte_class c = byte_class r) = unicode_IsLetter"
  "\<not> unicode_IsDigit r \<Longrightarrow> \<not> unicode_IsLetter r \<Longrightarrow>
     (\<lambda>c. byte_class c = byte_class r) = (\<lambda>c. \<not> unicode_IsDigit c \<and> \<not> unicode_IsLetter c)"
  using digit_not_letter by (auto simp: byte_class_def fun_eq_iff)

lemma tokenize_run:
  "tokenizeVersion (r # s) =
     run_token (takeWhile (\<lambda>c. byte_class c = byte_class r) (r # s)) #
     tokenizeVersion (dropWhile (\<lambda>c. byte_class c = byte_class r) (r # s))"
proof -
  consider (digit) "unicode_IsDigit r" | (letter) "unicode_IsLetter r" "\<not> unicode_IsDigit r"
    | (sep) "\<not> unicode_IsDigit r" "\<not> unicode_IsLetter r"
    by blast
  then show ?thesis
  proof cases
    case digit
    then show ?thesis
      unfolding byte_class_run(1) [OF digit] by (simp add: readRun_def run_token_def byte_class_def)
  next
    case letter
    then show ?thesis
      unfolding byte_class_run(2) [OF letter(1)]
      by (simp add: readRun_def run_token_def byte_class_def)
  next
    case sep
    then show ?thesis
      unfolding byte_class_run(3) [OF sep] by (simp add: readRun_def run_token_def byte_class_def)
  qed
qed

declare tokenizeVersion.simps(2) [simp del]

lemma tokenize_prefix:
  assumes "p \<noteq> []" "\<forall>c \<in> set p. byte_class c = k" "s = [] \<or> byte_class (hd s) \<noteq> k"
  shows "tokenizeVersion (p @ s) = run_token p # tokenizeVersion s"
proof -
  obtain r p' where p: "p = r # p'"
    using assms(1) by (cases p) auto
  have k: "byte_class r = k"
    using assms(2) p by simp
  let ?same = "\<lambda>c. byte_class c = byte_class r"
  have "takeWhile ?same (p @ s) = p @ takeWhile ?same s" "dropWhile ?same (p @ s) = dropWhile ?same s"
    using assms(2) k by (auto intro!: takeWhile_append2 dropWhile_append2)
  moreover have "takeWhile ?same s = []" "dropWhile ?same s = s"
    using assms(3) k by (cases s; auto)+
  ultimately show ?thesis
    using tokenize_run [of r "p' @ s"] by (simp only: p append_Cons append_Nil2)
qed

text \<open>The tokens of a concatenation whose two parts meet at a change of class.\<close>

lemma tokenize_append:
  assumes "p \<noteq> []" "s \<noteq> []" "byte_class (last p) \<noteq> byte_class (hd s)"
  shows "tokenizeVersion (p @ s) = tokenizeVersion p @ tokenizeVersion s"
  using assms
proof (induction "length p" arbitrary: p rule: less_induct)
  case less
  obtain r p' where p: "p = r # p'"
    using less.prems by (cases p) auto
  let ?same = "\<lambda>c. byte_class c = byte_class r"
  show ?case
  proof (cases "list_all ?same p")
    case True
    then have "byte_class (hd s) \<noteq> byte_class r"
      using less.prems by (auto simp: list_all_iff)
    then show ?thesis
      using True tokenize_prefix [of p "byte_class r" s] tokenize_prefix [of p "byte_class r" "[]"] less.prems
      by (simp add: list_all_iff)
  next
    case False
    let ?rest = "dropWhile ?same p"
    have ne: "?rest \<noteq> []"
      using False by (auto simp: list_all_iff dropWhile_eq_Nil_conv)
    then have "last (takeWhile ?same p @ ?rest) = last ?rest"
      by (rule last_appendR)
    then have rest: "?rest \<noteq> []" "last ?rest = last p"
      using ne by simp_all
    have "length ?rest < length p"
      using length_dropWhile_le [of ?same p'] by (simp add: p)
    then have "tokenizeVersion (?rest @ s) = tokenizeVersion ?rest @ tokenizeVersion s"
      using less.hyps rest less.prems by simp
    moreover have "takeWhile ?same (p @ s) = takeWhile ?same p" "dropWhile ?same (p @ s) = ?rest @ s"
      using False by (auto simp: list_all_iff takeWhile_append dropWhile_append)
    ultimately show ?thesis
      using tokenize_run [of r "p' @ s"] tokenize_run [of r p'] by (simp add: p)
  qed
qed

lemma tokenize_utoa: "tokenizeVersion (utoa n) = [number_token (utoa n)]"
proof -
  obtain c cs where u: "utoa n = c # cs"
    by (meson neq_Nil_conv utoa_not_Nil)
  have num: "\<forall>d \<in> set (utoa n). byte_class d = tokenTypeNumber"
    by (simp add: utoa_is_digit unicode_IsDigit_def byte_class_def)
  then have "run_token (utoa n) = number_token (utoa n)"
    by (simp add: run_token_def u)
  then show ?thesis
    using tokenize_prefix [of "utoa n" tokenTypeNumber "[]"] num by simp
qed

lemma byte_class_utoa:
  "byte_class (hd (utoa n)) = tokenTypeNumber" "byte_class (last (utoa n)) = tokenTypeNumber"
  by (simp_all add: byte_class_def unicode_IsDigit_def utoa_is_digit [OF hd_in_set]
      utoa_is_digit [OF last_in_set])

lemma number_token_utoa:
  "n < 2 ^ 63 \<Longrightarrow> number_token (utoa n) =
     \<lparr>tok_typ = tokenTypeNumber, tok_number = word_of_int (int n), tok_alpha = []\<rparr>"
  using Atoi_Itoa [of "int n"] by (simp add: number_token_def Itoa_def)

lemma lex_cmp_common: "(\<And>a. c a a = 0) \<Longrightarrow> lex_cmp c (us @ vs) (us @ ws) = lex_cmp c vs ws"
  by (induction us) auto

lemma tokenize_number:
  assumes "p = [] \<or> \<not> unicode_IsDigit (last p)" "q = [] \<or> \<not> unicode_IsDigit (hd q)"
  shows "\<exists>rest. tokenizeVersion (p @ utoa n @ q) = tokenizeVersion p @ number_token (utoa n) # rest"
proof -
  have "tokenizeVersion (utoa n @ q) = number_token (utoa n) # tokenizeVersion q"
  proof (cases "q = []")
    case False
    then have "byte_class (last (utoa n)) \<noteq> byte_class (hd q)"
      using assms(2) unfolding byte_class_utoa by (simp add: byte_class_def)
    then show ?thesis
      using tokenize_append [of "utoa n" q] False by (simp add: tokenize_utoa)
  qed (simp add: tokenize_utoa)
  moreover have "tokenizeVersion (p @ utoa n @ q) = tokenizeVersion p @ tokenizeVersion (utoa n @ q)"
    if "p \<noteq> []"
  proof -
    have "byte_class (last p) \<noteq> byte_class (hd (utoa n @ q))"
      using assms(1) that byte_class_utoa(1) [of n] by (simp add: byte_class_def [of "last p"])
    then show ?thesis
      using tokenize_append [of p "utoa n @ q"] that by simp
  qed
  ultimately show ?thesis
    by (cases "p = []") auto
qed

text \<open>
  Versions compare by the value of their numbers, not by their digits: two names that
  agree up to a number, not itself inside a run of digits, compare as the two numbers do,
  whatever follows them, so \<open>vmlinuz-5.10.0\<close> is newer than \<open>vmlinuz-5.9.9\<close>.
\<close>

theorem version_numeric:
  assumes "p = [] \<or> \<not> unicode_IsDigit (last p)"
    and "q = [] \<or> \<not> unicode_IsDigit (hd q)" "r = [] \<or> \<not> unicode_IsDigit (hd r)"
    and "m < n" "n < 2 ^ 63"
  shows "IsNewer (NewVersion (p @ utoa n @ q)) (NewVersion (p @ utoa m @ r))"
proof -
  obtain us vs where
    "tokenizeVersion (p @ utoa n @ q) = tokenizeVersion p @ number_token (utoa n) # us"
    "tokenizeVersion (p @ utoa m @ r) = tokenizeVersion p @ number_token (utoa m) # vs"
    using tokenize_number [OF assms(1,2)] tokenize_number [OF assms(1,3)] by metis
  moreover have "0 < token_cmp (number_token (utoa n)) (number_token (utoa m))"
  proof -
    have "sint (word_of_int (int k) :: go_int) = int k" if "k < 2 ^ 63" for k
      by (rule sint_word_of_int_small) (use that in auto)
    then show ?thesis
      using assms(4,5) by (simp add: token_cmp_def number_token_utoa)
  qed
  ultimately show ?thesis
    by (simp add: IsNewer_def NewVersion_def Compare_lex lex_cmp_common)
qed

theorem version_numeric_witness:
  "IsNewer (NewVersion (''vmlinuz-5.'' @ utoa 10 @ ''.0'')) (NewVersion (''vmlinuz-5.'' @ utoa 9 @ ''.9''))"
  by (rule version_numeric) (simp_all add: unicode_IsDigit_def is_digit_def char_between_def)

section \<open>The choice is the newest\<close>

text \<open>The contract of a maximum search for a comparison function.\<close>

definition first_max :: "('a \<Rightarrow> 'a \<Rightarrow> int) \<Rightarrow> 'a list \<Rightarrow> 'a \<Rightarrow> bool" where
  "first_max c xs m \<longleftrightarrow>
     (\<exists>us vs. xs = us @ m # vs \<and> (\<forall>u \<in> set us. c u m < 0) \<and> (\<forall>v \<in> set vs. c v m \<le> 0))"

lemma first_maxI:
  "xs = us @ m # vs \<Longrightarrow> \<forall>u \<in> set us. c u m < 0 \<Longrightarrow> \<forall>v \<in> set vs. c v m \<le> 0 \<Longrightarrow> first_max c xs m"
  by (auto simp: first_max_def)

lemma MaxFunc_first_max:
  assumes swap: "\<And>a b. c a b = - c b a"
    and trans: "\<And>a b d. c a b \<le> 0 \<Longrightarrow> c b d \<le> 0 \<Longrightarrow> c a d \<le> 0"
    and "xs \<noteq> []"
  shows "first_max c xs (MaxFunc c xs)"
proof -
  let ?step = "\<lambda>m x. if c x m > 0 then x else m"
  have "first_max c (x # ys) (foldl ?step x ys)" for x ys
  proof (induction ys rule: rev_induct)
    case Nil
    show ?case by (rule first_maxI [of _ "[]"]) auto
  next
    case (snoc y ys)
    let ?m = "foldl ?step x ys"
    obtain us vs where split: "x # ys = us @ ?m # vs" "\<forall>u \<in> set us. c u ?m < 0" "\<forall>v \<in> set vs. c v ?m \<le> 0"
      using snoc unfolding first_max_def by blast
    show ?case
    proof (cases "c y ?m > 0")
      case True
      have less: "c u y < 0" if "u \<in> set (x # ys)" for u
      proof (rule ccontr)
        assume "\<not> c u y < 0"
        then have "c y u \<le> 0" using swap [of u y] by linarith
        moreover have "c u ?m \<le> 0"
          using that split swap [of ?m ?m] unfolding split(1) by (auto simp: less_le)
        ultimately have "c y ?m \<le> 0" using trans [of y u ?m] by blast
        with True show False by simp
      qed
      have "first_max c ((x # ys) @ y # []) y"
        by (rule first_maxI [OF refl]) (use less in auto)
      with True show ?thesis by simp
    next
      case False
      have "first_max c (x # ys @ [y]) ?m"
      proof (rule first_maxI)
        show "x # ys @ [y] = us @ ?m # (vs @ [y])"
          using split(1) by (simp flip: append_Cons)
      qed (use split False in auto)
      with False show ?thesis by simp
    qed
  qed
  then show ?thesis
    using assms(3) by (cases xs) (simp_all add: MaxFunc_def)
qed

lemma compareKernelPaths_swap: "compareKernelPaths a b = - compareKernelPaths b a"
  unfolding compareKernelPaths_def by (rule Compare_swap)

lemma compareKernelPaths_trans:
  "compareKernelPaths a b \<le> 0 \<Longrightarrow> compareKernelPaths b d \<le> 0 \<Longrightarrow> compareKernelPaths a d \<le> 0"
  unfolding compareKernelPaths_def by (rule Compare_trans)

lemmas newest_kernel = MaxFunc_first_max [OF compareKernelPaths_swap compareKernelPaths_trans]

text \<open>Specification: the matches of the first pattern that has any.\<close>

definition first_nonempty :: "(string \<Rightarrow> 'e + string list) \<Rightarrow> string \<Rightarrow> string list \<Rightarrow> string list" where
  "first_nonempty Glob dir patterns =
     (case filter (\<lambda>ms. ms \<noteq> [])
             (map (\<lambda>pat. case Glob (path_Join [dir, pat]) of Ok ms \<Rightarrow> ms | Err _ \<Rightarrow> []) patterns) of
        [] \<Rightarrow> [] | ms # _ \<Rightarrow> ms)"

lemma findFirstMatches_Ok:
  "(\<And>p. is_ok (Glob p)) \<Longrightarrow> findFirstMatches Glob dir patterns = Ok (first_nonempty Glob dir patterns)"
proof (induction patterns)
  case (Cons pattern patterns)
  then show ?case
    by (cases "Glob (path_Join [dir, pattern])")
       (auto simp: first_nonempty_def is_ok_def dest: meta_spec [of _ "path_Join [dir, pattern]"])
qed (simp add: first_nonempty_def)

text \<open>
  C25: The kernel chosen is the newest of the matches of the first pattern that has any, the
  first such in the order of the matches, and \<open>ErrNoKernelFound\<close> is returned exactly when
  neither pattern matches; a missing initial RAM disk is no error but an empty path, and
  otherwise the newest one is returned. Without errors of the file system the search fails
  in no other way.
\<close>

theorem FindLinuxKernelFiles_newest:
  assumes "\<And>p. is_ok (Glob p)"
  shows "case FindLinuxKernelFiles Glob root of
      Ok (latest, initrd) \<Rightarrow>
        first_max compareKernelPaths (first_nonempty Glob (path_Join [root, ''boot'']) kernelPatterns) latest \<and>
        (let initrds = first_nonempty Glob (path_Join [root, ''boot'']) initrdPatterns
         in if initrds = [] then initrd = [] else first_max compareKernelPaths initrds initrd)
    | Err e \<Rightarrow> e = ErrNoKernelFound \<and>
        first_nonempty Glob (path_Join [root, ''boot'']) kernelPatterns = []"
  using newest_kernel
  by (auto simp: FindLinuxKernelFiles_def findFirstMatches_Ok [OF assms] Let_def)

definition test_Glob :: "string \<Rightarrow> unit + string list" where
  "test_Glob pattern =
     Ok (if pattern = ''/img/boot/vmlinuz-*'' then [''/img/boot/vmlinuz-5.9'', ''/img/boot/vmlinuz-5.10''] else [])"

theorem FindLinuxKernelFiles_newest_witness:
  "FindLinuxKernelFiles test_Glob ''/img'' = Ok (''/img/boot/vmlinuz-5.10'', []) \<and>
   first_max compareKernelPaths [''/img/boot/vmlinuz-5.9'', ''/img/boot/vmlinuz-5.10''] ''/img/boot/vmlinuz-5.10''"
proof -
  have "FindLinuxKernelFiles test_Glob ''/img'' = Ok (''/img/boot/vmlinuz-5.10'', [])"
    "first_nonempty test_Glob (path_Join [''/img'', ''boot'']) kernelPatterns =
      [''/img/boot/vmlinuz-5.9'', ''/img/boot/vmlinuz-5.10'']"
    by code_simp+
  moreover have "is_ok (test_Glob p)" for p
    by (simp add: test_Glob_def)
  ultimately show ?thesis
    using FindLinuxKernelFiles_newest [of test_Glob "''/img''"] by simp
qed

end

