(* ===== verification/Model.thy ===== *)
theory Model
  imports GoStrings "HOL-Library.AList"
begin

text \<open>
  The node engine's data model (\<open>go_node_engine/model/Service.go\<close>), the registry of services
  whose image is being pulled (\<open>model/InstantiatingServices.go\<close>) and the task identifiers built
  from a service's name and instance number (\<open>util/taskid/taskid.go\<close>). The registry is a
  \<open>sync.Map\<close>: its entries are kept in the order in which \<open>Range\<close> visits them.
\<close>

section \<open>Services and their resources\<close>

record VolumeRequest =
  vol_VolumeID :: string
  vol_CSIDriver :: string
  vol_MountPath :: string
  vol_Config :: "string \<rightharpoonup> string"

record Service =
  svc_JobID :: string
  svc_Sname :: string
  svc_Instance :: go_int
  svc_Image :: string
  svc_Commands :: "string list"
  svc_Env :: "string list"
  svc_Ports :: string
  svc_Status :: string
  svc_Runtime :: string
  svc_Platform :: string
  svc_StatusDetail :: string
  svc_Vtpus :: go_int
  svc_Vgpus :: go_int
  svc_Vcpus :: go_int
  svc_Memory :: go_int
  svc_UnikernelImages :: "string list"
  svc_Architectures :: "string list"
  svc_Volumes :: "VolumeRequest list"
  svc_Storage :: go_int
  svc_Pid :: go_int
  svc_OneShot :: bool
  svc_Privileged :: bool

text \<open>Go's zero value \<open>model.Service{}\<close>.\<close>

definition zero_Service :: Service where
  "zero_Service =
     \<lparr>svc_JobID = [], svc_Sname = [], svc_Instance = 0, svc_Image = [], svc_Commands = [],
      svc_Env = [], svc_Ports = [], svc_Status = [], svc_Runtime = [], svc_Platform = [],
      svc_StatusDetail = [], svc_Vtpus = 0, svc_Vgpus = 0, svc_Vcpus = 0, svc_Memory = 0,
      svc_UnikernelImages = [], svc_Architectures = [], svc_Volumes = [], svc_Storage = 0,
      svc_Pid = 0, svc_OneShot = False, svc_Privileged = False\<rparr>"

record Resources =
  res_Cpu :: string
  res_Memory :: string
  res_Disk :: string
  res_Logs :: string
  res_Sname :: string
  res_Runtime :: string
  res_Instance :: go_int
  res_Status :: string

definition SERVICE_CREATED :: string where "SERVICE_CREATED = ''CREATED''"
definition SERVICE_FAILED :: string where "SERVICE_FAILED = ''FAILED''"
definition SERVICE_DEAD :: string where "SERVICE_DEAD = ''DEAD''"
definition SERVICE_COMPLETED :: string where "SERVICE_COMPLETED = ''COMPLETED''"
definition SERVICE_UNDEPLOYED :: string where "SERVICE_UNDEPLOYED = ''UNDEPLOYED''"
definition SERVICE_RUNNING :: string where "SERVICE_RUNNING = ''RUNNING''"
definition SERVICE_INSTANTIATION :: string where "SERVICE_INSTANTIATION = ''INSTANTIATION''"
definition SERVICE_UNKNOWN :: string where "SERVICE_UNKNOWN = ''UNKNOWN''"

lemmas status_defs =
  SERVICE_CREATED_def SERVICE_FAILED_def SERVICE_DEAD_def SERVICE_COMPLETED_def
  SERVICE_UNDEPLOYED_def SERVICE_RUNNING_def SERVICE_INSTANTIATION_def SERVICE_UNKNOWN_def

definition CONTAINER_RUNTIME :: string where "CONTAINER_RUNTIME = ''docker''"
definition UNIKERNEL_RUNTIME :: string where "UNIKERNEL_RUNTIME = ''unikernel''"
definition CROSVM_RUNTIME :: string where "CROSVM_RUNTIME = ''crosvm''"

lemmas runtime_defs = CONTAINER_RUNTIME_def UNIKERNEL_RUNTIME_def CROSVM_RUNTIME_def

section \<open>Task identifiers\<close>

definition separator :: string where
  "separator = ''.instance.''"

definition Generate :: "string \<Rightarrow> go_int \<Rightarrow> string" where
  "Generate serviceName instanceNumber = serviceName @ separator @ Itoa (sint instanceNumber)"

definition GenerateForModel :: "Service \<Rightarrow> string" where
  "GenerateForModel s = Generate (svc_Sname s) (svc_Instance s)"

definition ExtractServiceName :: "string \<Rightarrow> string" where
  "ExtractServiceName taskId =
     (case LastIndex taskId separator of
        None \<Rightarrow> []
      | Some index \<Rightarrow> if index \<le> 0 then [] else take index taskId)"

definition ExtractInstanceNumber :: "string \<Rightarrow> go_int" where
  "ExtractInstanceNumber taskId =
     (case LastIndex taskId separator of
        None \<Rightarrow> 0
      | Some index \<Rightarrow>
          (case Atoi (drop (index + length separator) taskId) of
             (n, Some _) \<Rightarrow> 0
           | (n, None) \<Rightarrow> word_of_int n))"

lemma LastIndex_separator_Itoa: "LastIndex (separator @ Itoa i) separator = Some 0"
proof -
  have no: "CHR ''.'' \<notin> set (Itoa i)"
    using Itoa_chars by fastforce
  obtain c cs where c: "Itoa i = c # cs"
    by (meson Itoa_not_Nil neq_Nil_conv)
  then have "c \<noteq> CHR ''i''"
    using Itoa_chars [of c i] by (auto simp: is_digit_def char_between_def)
  then have "\<not> HasPrefix (CHR ''.'' # Itoa i) separator"
    by (simp add: separator_def c)
  moreover have "LastIndex (Itoa i) separator = None"
    using no by (intro LastIndex_None_if_missing) (auto simp: separator_def)
  ultimately show ?thesis
    by (simp add: separator_def)
qed

lemma LastIndex_Generate: "LastIndex (Generate s n) separator = Some (length s)"
  using LastIndex_append [OF LastIndex_separator_Itoa, of s] by (simp add: Generate_def)

lemma ExtractServiceName_Generate [simp]: "ExtractServiceName (Generate s n) = s"
  by (simp add: ExtractServiceName_def LastIndex_Generate) (simp add: Generate_def)

lemma ExtractInstanceNumber_Generate [simp]: "ExtractInstanceNumber (Generate s n) = n"
  by (simp add: ExtractInstanceNumber_def LastIndex_Generate) (simp add: Generate_def)

text \<open>
  C34: A task id determines the service name and the instance number it was generated from:
  extraction inverts generation for every name (also one that itself contains the separator)
  and every 64-bit instance number, so two different instances never share a task id, the key
  under which all runtimes file their containers and virtual machines.
\<close>

theorem taskid_roundtrip:
  "ExtractServiceName (Generate s n) = s \<and> ExtractInstanceNumber (Generate s n) = n \<and>
   (Generate s n = Generate s' n' \<longleftrightarrow> s = s' \<and> n = n')"
  by (metis ExtractInstanceNumber_Generate ExtractServiceName_Generate)

lemma Generate_inject [simp]: "Generate s n = Generate s' n' \<longleftrightarrow> s = s' \<and> n = n'"
  by (metis ExtractInstanceNumber_Generate ExtractServiceName_Generate)

section \<open>The registry of instantiating services\<close>

type_synonym instantiating = "(string \<times> Service) list"

definition instantiatingServiceKey :: "string \<Rightarrow> go_int \<Rightarrow> string" where
  "instantiatingServiceKey sname inst = sname @ ''/'' @ Itoa (sint inst)"

definition TrackInstantiating :: "Service \<Rightarrow> instantiating \<Rightarrow> instantiating" where
  "TrackInstantiating s m =
     AList.update (instantiatingServiceKey (svc_Sname s) (svc_Instance s)) s m"

definition UntrackInstantiating :: "string \<Rightarrow> go_int \<Rightarrow> instantiating \<Rightarrow> instantiating" where
  "UntrackInstantiating sname inst m = AList.delete (instantiatingServiceKey sname inst) m"

definition instantiation_entry :: "Service \<Rightarrow> Resources" where
  "instantiation_entry s =
     \<lparr>res_Cpu = [], res_Memory = [], res_Disk = [], res_Logs = [], res_Sname = svc_Sname s,
      res_Runtime = svc_Runtime s, res_Instance = svc_Instance s,
      res_Status = SERVICE_INSTANTIATION\<rparr>"

definition InstantiatingResources :: "string \<Rightarrow> instantiating \<Rightarrow> Resources list" where
  "InstantiatingResources runtime m =
     map instantiation_entry (filter (\<lambda>s. svc_Runtime s = runtime) (map snd m))"

lemma append_sep_inject:
  assumes "c \<notin> set x" "c \<notin> set y"
  shows "p @ c # x = q @ c # y \<longleftrightarrow> p = q \<and> x = y"
  using assms by (induction p q rule: list_induct2') (auto simp: Cons_eq_append_conv)

lemma Itoa_sint_inject [simp]: "Itoa (sint (a :: go_int)) = Itoa (sint b) \<longleftrightarrow> a = b"
  by (metis Atoi_Itoa_sint fst_conv signed_word_eqI)

lemma instantiatingServiceKey_inject [simp]:
  "instantiatingServiceKey s n = instantiatingServiceKey s' n' \<longleftrightarrow> s = s' \<and> n = n'"
proof -
  have "CHR ''/'' \<notin> set (Itoa i)" for i
    using Itoa_chars [of "CHR ''/''" i] by auto
  then show ?thesis
    by (simp add: instantiatingServiceKey_def append_sep_inject)
qed

text \<open>Well-formed: distinct keys, each the key of the service filed under it.\<close>

definition instantiating_wf :: "instantiating \<Rightarrow> bool" where
  "instantiating_wf m \<longleftrightarrow>
     distinct (map fst m) \<and>
     (\<forall>(k, s) \<in> set m. k = instantiatingServiceKey (svc_Sname s) (svc_Instance s))"

definition tracked :: "instantiating \<Rightarrow> string \<Rightarrow> go_int \<Rightarrow> Service option" where
  "tracked m sname inst = map_of m (instantiatingServiceKey sname inst)"

lemma instantiating_wf_empty [simp]: "instantiating_wf []"
  by (simp add: instantiating_wf_def)

lemma instantiating_wf_Track [simp]:
  "instantiating_wf m \<Longrightarrow> instantiating_wf (TrackInstantiating s m)"
  using set_update_subset [of _ s m]
  by (fastforce simp: instantiating_wf_def TrackInstantiating_def distinct_update)

lemma instantiating_wf_Untrack [simp]:
  "instantiating_wf m \<Longrightarrow> instantiating_wf (UntrackInstantiating sname inst m)"
proof -
  have sub: "x \<in> set m" if "x \<in> set (AList.delete k m)" for k x
    using that by (auto simp: AList.delete_eq)
  show "instantiating_wf m \<Longrightarrow> ?thesis"
    by (auto simp: instantiating_wf_def UntrackInstantiating_def distinct_delete dest!: sub)
qed

lemma tracked_Track:
  "tracked (TrackInstantiating s m) sname inst =
     (if sname = svc_Sname s \<and> inst = svc_Instance s then Some s else tracked m sname inst)"
  by (auto simp: tracked_def TrackInstantiating_def update_conv')

lemma tracked_Untrack:
  "tracked (UntrackInstantiating sname inst m) sname' inst' =
     (if sname' = sname \<and> inst' = inst then None else tracked m sname' inst')"
  by (auto simp: tracked_def UntrackInstantiating_def delete_conv')

lemma InstantiatingResources_iff:
  assumes "instantiating_wf m"
  shows "r \<in> set (InstantiatingResources rt m) \<longleftrightarrow>
    (\<exists>s. tracked m (svc_Sname s) (svc_Instance s) = Some s \<and> svc_Runtime s = rt \<and>
         r = instantiation_entry s)"
proof -
  have "s \<in> snd ` set m \<longleftrightarrow> tracked m (svc_Sname s) (svc_Instance s) = Some s" for s
    using assms by (force simp: tracked_def instantiating_wf_def dest: map_of_SomeD)
  then show ?thesis
    by (auto simp: InstantiatingResources_def)
qed

datatype registry_call = CallTrack Service | CallUntrack string go_int

primrec registry_run :: "registry_call list \<Rightarrow> instantiating \<Rightarrow> instantiating" where
  "registry_run [] m = m"
| "registry_run (c # cs) m =
     registry_run cs (case c of CallTrack s \<Rightarrow> TrackInstantiating s m
                      | CallUntrack sname inst \<Rightarrow> UntrackInstantiating sname inst m)"

text \<open>Specification: a deployment is in flight when the last call about it was a tracking call.\<close>

fun concerns :: "string \<Rightarrow> go_int \<Rightarrow> registry_call \<Rightarrow> bool" where
  "concerns sname inst (CallTrack s) \<longleftrightarrow> svc_Sname s = sname \<and> svc_Instance s = inst"
| "concerns sname inst (CallUntrack sname' inst') \<longleftrightarrow> sname' = sname \<and> inst' = inst"

definition in_flight :: "registry_call list \<Rightarrow> string \<Rightarrow> go_int \<Rightarrow> Service option" where
  "in_flight cs sname inst =
     (case rev (filter (concerns sname inst) cs) of CallTrack s # _ \<Rightarrow> Some s | _ \<Rightarrow> None)"

lemma instantiating_wf_run: "instantiating_wf m \<Longrightarrow> instantiating_wf (registry_run cs m)"
  by (induction cs arbitrary: m) (auto split: registry_call.splits)

lemma tracked_run:
  "tracked (registry_run cs m) sname inst =
     (if filter (concerns sname inst) cs = [] then tracked m sname inst
      else in_flight cs sname inst)"
proof (induction cs arbitrary: m)
  case (Cons c cs)
  then show ?case
    by (cases c; cases "rev (filter (concerns sname inst) cs)")
       (auto simp: in_flight_def tracked_Track tracked_Untrack)
qed simp

text \<open>
  C35: The registry reports exactly the deployments in flight: after any sequence of tracking
  and untracking calls from the empty registry, the entries of a runtime are the services
  whose last call was a tracking call and whose runtime it is, with status INSTANTIATION.
\<close>

theorem instantiating_exact:
  "set (InstantiatingResources rt (registry_run cs [])) =
     {instantiation_entry s | s.
        in_flight cs (svc_Sname s) (svc_Instance s) = Some s \<and> svc_Runtime s = rt}"
proof -
  have wf: "instantiating_wf (registry_run cs [])"
    by (rule instantiating_wf_run) simp
  have "tracked (registry_run cs []) sname inst = in_flight cs sname inst" for sname inst
    by (simp add: tracked_run) (simp add: tracked_def in_flight_def)
  then show ?thesis
    by (auto simp: InstantiatingResources_iff [OF wf])
qed

end
