(* ===== verification/GoHash.thy ===== *)
theory GoHash
  imports GoStrings
begin

text \<open>
  The functions of Go's packages \<open>crypto/sha256\<close>, \<open>encoding/hex\<close> and \<open>encoding/base32\<close> that
  the node engine derives names with: SHA-256 on byte strings (FIPS 180-4) as an executable
  function on 32-bit words, hexadecimal digits, and base 32 without padding.
\<close>

unbundle bit_operations_syntax

section \<open>SHA-256\<close>

definition sha_H :: "32 word list" where
  "sha_H =
     [1779033703, 3144134277, 1013904242, 2773480762,
      1359893119, 2600822924, 528734635, 1541459225]"

definition sha_K :: "32 word list" where
  "sha_K =
     [1116352408, 1899447441, 3049323471, 3921009573,
      961987163, 1508970993, 2453635748, 2870763221,
      3624381080, 310598401, 607225278, 1426881987,
      1925078388, 2162078206, 2614888103, 3248222580,
      3835390401, 4022224774, 264347078, 604807628,
      770255983, 1249150122, 1555081692, 1996064986,
      2554220882, 2821834349, 2952996808, 3210313671,
      3336571891, 3584528711, 113926993, 338241895,
      666307205, 773529912, 1294757372, 1396182291,
      1695183700, 1986661051, 2177026350, 2456956037,
      2730485921, 2820302411, 3259730800, 3345764771,
      3516065817, 3600352804, 4094571909, 275423344,
      430227734, 506948616, 659060556, 883997877,
      958139571, 1322822218, 1537002063, 1747873779,
      1955562222, 2024104815, 2227730452, 2361852424,
      2428436474, 2756734187, 3204031479, 3329325298]"

definition rotr :: "nat \<Rightarrow> 32 word \<Rightarrow> 32 word" where
  "rotr n x = drop_bit n x OR push_bit (32 - n) x"

definition sha_Ch :: "32 word \<Rightarrow> 32 word \<Rightarrow> 32 word \<Rightarrow> 32 word" where
  "sha_Ch x y z = (x AND y) XOR (NOT x AND z)"

definition sha_Maj :: "32 word \<Rightarrow> 32 word \<Rightarrow> 32 word \<Rightarrow> 32 word" where
  "sha_Maj x y z = (x AND y) XOR (x AND z) XOR (y AND z)"

definition sha_Sigma0 :: "32 word \<Rightarrow> 32 word" where
  "sha_Sigma0 x = rotr 2 x XOR rotr 13 x XOR rotr 22 x"

definition sha_Sigma1 :: "32 word \<Rightarrow> 32 word" where
  "sha_Sigma1 x = rotr 6 x XOR rotr 11 x XOR rotr 25 x"

definition sha_sigma0 :: "32 word \<Rightarrow> 32 word" where
  "sha_sigma0 x = rotr 7 x XOR rotr 18 x XOR drop_bit 3 x"

definition sha_sigma1 :: "32 word \<Rightarrow> 32 word" where
  "sha_sigma1 x = rotr 17 x XOR rotr 19 x XOR drop_bit 10 x"

text \<open>The message schedule, extended by one word at a time to 64 words.\<close>

definition sha_next :: "32 word list \<Rightarrow> 32 word list" where
  "sha_next w =
     (let t = length w
      in w @ [sha_sigma1 (w ! (t - 2)) + w ! (t - 7) + sha_sigma0 (w ! (t - 15)) + w ! (t - 16)])"

definition sha_schedule :: "32 word list \<Rightarrow> 32 word list" where
  "sha_schedule block = (sha_next ^^ 48) block"

fun sha_round :: "32 word list \<Rightarrow> 32 word \<times> 32 word \<Rightarrow> 32 word list" where
  "sha_round [a, b, c, d, e, f, g, h] (k, w) =
     (let T1 = h + sha_Sigma1 e + sha_Ch e f g + k + w;
          T2 = sha_Sigma0 a + sha_Maj a b c
      in [T1 + T2, a, b, c, d + T1, e, f, g])"
| "sha_round state _ = state"

definition sha_compress :: "32 word list \<Rightarrow> 32 word list \<Rightarrow> 32 word list" where
  "sha_compress H block =
     map2 (+) H (foldl sha_round H (zip sha_K (sha_schedule block)))"

definition bytes_of_nat :: "nat \<Rightarrow> nat \<Rightarrow> nat list" where
  "bytes_of_nat n x = map (\<lambda>i. x div 256 ^ (n - Suc i) mod 256) [0..<n]"

definition sha_pad :: "nat list \<Rightarrow> nat list" where
  "sha_pad m =
     (let l = length m; z = (119 - l mod 64) mod 64
      in m @ [128] @ replicate z 0 @ bytes_of_nat 8 (8 * l))"

definition word_of_bytes :: "nat list \<Rightarrow> 32 word" where
  "word_of_bytes bs = of_nat (foldl (\<lambda>x b. 256 * x + b) 0 bs)"

function chunks :: "nat \<Rightarrow> 'a list \<Rightarrow> 'a list list" where
  "chunks n xs = (if xs = [] \<or> n = 0 then [] else take n xs # chunks n (drop n xs))"
  by pat_completeness auto
termination
  by (relation "measure (\<lambda>(n, xs). length xs)") auto

declare chunks.simps [simp del]

definition sha_words :: "nat list \<Rightarrow> 32 word list" where
  "sha_words m =
     foldl (\<lambda>H block. sha_compress H (map word_of_bytes (chunks 4 block))) sha_H (chunks 64 (sha_pad m))"

text \<open>\<open>sha256.Sum256\<close> on a byte string: 32 bytes.\<close>

definition Sum256 :: "string \<Rightarrow> nat list" where
  "Sum256 s = concat (map (\<lambda>w. bytes_of_nat 4 (unat w)) (sha_words (map of_char s)))"

lemma length_sha_round: "length H = 8 \<Longrightarrow> length (sha_round H kw) = 8"
  by (induction H kw rule: sha_round.induct) (auto simp: Let_def)

lemma length_sha_compress: "length H = 8 \<Longrightarrow> length (sha_compress H block) = 8"
proof -
  have "length (foldl sha_round H kws) = 8" if "length H = 8" for H kws
    using that by (induction kws arbitrary: H) (auto simp: length_sha_round)
  then show "length H = 8 \<Longrightarrow> ?thesis"
    by (simp add: sha_compress_def)
qed

lemma length_sha_words: "length (sha_words m) = 8"
proof -
  have "length (foldl (\<lambda>H block. sha_compress H (map word_of_bytes (chunks 4 block))) H bs) = 8"
    if "length H = 8" for H bs
    using that by (induction bs arbitrary: H) (auto simp: length_sha_compress)
  then show ?thesis
    by (simp add: sha_words_def sha_H_def)
qed

lemma length_bytes_of_nat [simp]: "length (bytes_of_nat n x) = n"
  by (simp add: bytes_of_nat_def)

lemma length_Sum256 [simp]: "length (Sum256 s) = 32"
proof -
  have "length (concat (map (\<lambda>w. bytes_of_nat 4 (unat w)) ws)) = 4 * length ws" for ws :: "32 word list"
    by (induction ws) auto
  then show ?thesis
    by (simp add: Sum256_def length_sha_words)
qed

lemma Sum256_bytes: "b \<in> set (Sum256 s) \<Longrightarrow> b < 256"
  by (auto simp: Sum256_def bytes_of_nat_def)

section \<open>Hexadecimal and base 32\<close>

definition hex_digit :: "nat \<Rightarrow> char" where
  "hex_digit d = (if d < 10 then char_of (48 + d) else char_of (87 + d))"

definition hex_EncodeToString :: "nat list \<Rightarrow> string" where
  "hex_EncodeToString bs = concat (map (\<lambda>b. [hex_digit (b div 16), hex_digit (b mod 16)]) bs)"

text \<open>The alphabet \<open>abcdefghijklmnopqrstuvwxyz234567\<close>, without padding.\<close>

definition base32_char :: "nat \<Rightarrow> char" where
  "base32_char d = (if d < 26 then char_of (97 + d) else char_of (24 + d))"

definition bits_of_byte :: "nat \<Rightarrow> bool list" where
  "bits_of_byte b = map (\<lambda>i. odd (b div 2 ^ (7 - i))) [0..<8]"

definition nat_of_bits :: "bool list \<Rightarrow> nat" where
  "nat_of_bits bs = foldl (\<lambda>n b. 2 * n + (if b then 1 else 0)) 0 bs"

definition base32_EncodeToString :: "nat list \<Rightarrow> string" where
  "base32_EncodeToString bs =
     (let bits = concat (map bits_of_byte bs);
          padded = bits @ replicate ((5 - length bits mod 5) mod 5) False
      in map (\<lambda>g. base32_char (nat_of_bits g)) (chunks 5 padded))"

lemma length_chunks: "0 < n \<Longrightarrow> n dvd length xs \<Longrightarrow> length (chunks n xs) = length xs div n"
proof (induction n xs rule: chunks.induct)
  case (1 n xs)
  show ?case
  proof (cases "xs = []")
    case False
    then have "n \<le> length xs"
      using 1 by (auto dest: dvd_imp_le)
    then show ?thesis
      using 1 False by (simp add: chunks.simps [of n xs] dvd_diff_nat div_if [of "length xs"])
  qed (simp add: chunks.simps)
qed

lemma chunks_length: "0 < n \<Longrightarrow> c \<in> set (chunks n xs) \<Longrightarrow> length c \<le> n"
proof (induction n xs rule: chunks.induct)
  case (1 n xs)
  then show ?case
    by (cases "xs = []") (auto simp: chunks.simps [of n xs] chunks.simps [of n "[]"])
qed

lemma nat_of_bits_less: "nat_of_bits bs < 2 ^ length bs"
proof (induction bs rule: rev_induct)
  case (snoc b bs)
  then show ?case by (simp add: nat_of_bits_def)
qed (simp add: nat_of_bits_def)

lemma base32_char_lower: "d < 32 \<Longrightarrow> is_lower (base32_char d) \<or> is_digit (base32_char d)"
  by (auto simp: base32_char_def is_lower_def is_digit_def char_between_def)

lemma base32_chars: "c \<in> set (base32_EncodeToString bs) \<Longrightarrow> is_lower c \<or> is_digit c"
proof -
  assume "c \<in> set (base32_EncodeToString bs)"
  then obtain g xs where g: "g \<in> set (chunks 5 xs)" "c = base32_char (nat_of_bits g)"
    by (auto simp: base32_EncodeToString_def Let_def)
  then have "(2 :: nat) ^ length g \<le> 2 ^ 5"
    using chunks_length [of 5 g xs] by (intro power_increasing) auto
  then have "nat_of_bits g < 32"
    using nat_of_bits_less [of g] by simp
  with g(2) show ?thesis by (simp add: base32_char_lower)
qed

lemma length_base32_Sum256: "length (base32_EncodeToString (Sum256 s)) = 52"
proof -
  have "length (concat (map bits_of_byte bs)) = 8 * length bs" for bs
    by (induction bs) (auto simp: bits_of_byte_def)
  then show ?thesis
    by (simp add: base32_EncodeToString_def Let_def length_chunks)
qed

end
