(* ===== verification/Names.thy ===== *)
theory Names
  imports GoHash GoPath
begin

text \<open>
  The names derived from task ids and image ids: containerd container ids
  (\<open>containerd/ContainersManagement.go\<close>, \<open>convertTaskIdToContainerId\<close>), systemd machine names and
  paths (\<open>crosvm/internal/cgroup/name.go\<close>, \<open>machined.go\<close>, \<open>cmd.go\<close>), and the keys of the image
  store (\<open>crosvm/internal/image/store.go\<close>). A regular expression that replaces single
  characters is a function on bytes, as it acts on the ASCII names the code derives from.
\<close>

section \<open>Container ids\<close>

definition containerIdMaxLen :: nat where
  "containerIdMaxLen = 76"

definition is_separator :: "char \<Rightarrow> bool" where
  "is_separator c \<longleftrightarrow> c \<in> set ''._-''"

text \<open>\<open>invalidContainerIdChars.ReplaceAllString(s, "")\<close>\<close>

definition remove_invalid :: "string \<Rightarrow> string" where
  "remove_invalid s = filter (\<lambda>c. is_alnum c \<or> is_separator c) s"

text \<open>\<open>containerIdSeparators.ReplaceAllString(s, ".")\<close>: each run becomes one dot.\<close>

fun collapse_separators :: "bool \<Rightarrow> string \<Rightarrow> string" where
  "collapse_separators in_run [] = []"
| "collapse_separators in_run (c # cs) =
     (if is_separator c then (if in_run then [] else ''.'') @ collapse_separators True cs
      else c # collapse_separators False cs)"

definition id_hash :: "string \<Rightarrow> string" where
  "id_hash taskId = take 20 (base32_EncodeToString (Sum256 taskId))"

definition convertTaskIdToContainerId :: "string \<Rightarrow> string" where
  "convertTaskIdToContainerId taskId =
     (let hashString = id_hash taskId;
          safeTaskId = ToLower (remove_invalid taskId);
          safeTaskId = collapse_separators False safeTaskId;
          safeTaskId = Trim safeTaskId ''._-'';
          maxPrefixLen = containerIdMaxLen - length hashString - 1;
          safeTaskId = (if length safeTaskId > maxPrefixLen then take maxPrefixLen safeTaskId else safeTaskId);
          safeTaskId = TrimRight safeTaskId ''._-''
      in if safeTaskId = [] then hashString else safeTaskId @ ''.'' @ hashString)"

text \<open>
  Specification: containerd's identifiers, letters and digits in groups separated by single
  dots, underscores or hyphens, at most 76 bytes; \<open>ident need\<close> recognises the rest of one,
  \<open>need\<close> telling that a letter or digit must follow.
\<close>

fun ident :: "bool \<Rightarrow> string \<Rightarrow> bool" where
  "ident need [] \<longleftrightarrow> \<not> need"
| "ident need (c # cs) \<longleftrightarrow>
     (if is_alnum c then ident False cs else is_separator c \<and> \<not> need \<and> ident True cs)"

definition valid_identifier :: "string \<Rightarrow> bool" where
  "valid_identifier s \<longleftrightarrow> ident True s \<and> length s \<le> 76"

fun no_double :: "string \<Rightarrow> bool" where
  "no_double (c # d # cs) \<longleftrightarrow> \<not> (is_separator c \<and> is_separator d) \<and> no_double (d # cs)"
| "no_double _ \<longleftrightarrow> True"

definition id_chars :: "string \<Rightarrow> bool" where
  "id_chars s \<longleftrightarrow> (\<forall>c \<in> set s. (is_alnum c \<or> is_separator c) \<and> \<not> is_upper c)"

lemma separator_not_alnum: "is_separator c \<Longrightarrow> \<not> is_alnum c"
  by (auto simp: is_separator_def is_alnum_def is_digit_def is_upper_def is_lower_def char_between_def)

lemma no_double_append: "no_double (s @ t) \<Longrightarrow> no_double s \<and> no_double t"
  by (induction s rule: no_double.induct) (cases t, auto)+

lemma ident_intro:
  "id_chars s \<Longrightarrow> no_double s \<Longrightarrow> s \<noteq> [] \<Longrightarrow> (need \<longrightarrow> \<not> is_separator (hd s)) \<Longrightarrow>
   \<not> is_separator (last s) \<Longrightarrow> ident need s"
proof (induction s arbitrary: need)
  case (Cons c cs)
  show ?case
  proof (cases cs)
    case Nil
    then show ?thesis using Cons.prems by (auto simp: id_chars_def)
  next
    case ds: (Cons d ds)
    have rest: "id_chars cs" "no_double cs" "cs \<noteq> []" "\<not> is_separator (last cs)"
      using Cons.prems by (auto simp: id_chars_def ds)
    show ?thesis
    proof (cases "is_alnum c")
      case True
      with Cons.IH [of False] rest show ?thesis by simp
    next
      case False
      then have "is_separator c" "\<not> need" "\<not> is_separator (hd cs)"
        using Cons.prems by (auto simp: id_chars_def ds)
      with Cons.IH [of True] rest False show ?thesis by simp
    qed
  qed
qed simp

lemma ident_append_dot:
  "ident need s \<Longrightarrow> s \<noteq> [] \<Longrightarrow> ident True t \<Longrightarrow> ident need (s @ CHR ''.'' # t)"
proof (induction s arbitrary: need)
  case (Cons c cs)
  have "\<not> is_alnum CHR ''.''" "is_separator CHR ''.''"
    by (simp_all add: is_separator_def is_alnum_def is_digit_def is_upper_def is_lower_def char_between_def)
  with Cons show ?case
    by (cases cs) (auto split: if_splits)
qed simp

lemma ident_alnum: "list_all is_alnum s \<Longrightarrow> s \<noteq> [] \<or> \<not> need \<Longrightarrow> ident need s"
  by (induction s arbitrary: need) auto

lemma no_double_collapse:
  "no_double (collapse_separators in_run s) \<and>
   (in_run \<longrightarrow> collapse_separators in_run s = [] \<or> \<not> is_separator (hd (collapse_separators in_run s)))"
proof (induction s arbitrary: in_run)
  case (Cons c cs)
  have "no_double (d # t)" if "no_double t" "t = [] \<or> \<not> (is_separator d \<and> is_separator (hd t))" for d t
    using that by (cases t) auto
  then show ?case
    using Cons.IH [of True] Cons.IH [of False] by (cases in_run) auto
qed simp

lemma set_collapse: "set (collapse_separators in_run s) \<subseteq> insert (CHR ''.'') (set s)"
proof (induction s arbitrary: in_run)
  case (Cons c cs)
  then show ?case using Cons [of True] Cons [of False] by auto
qed simp

lemma id_chars_safe: "id_chars (collapse_separators False (ToLower (remove_invalid s)))"
proof -
  have dot: "is_separator CHR ''.''" "\<not> is_upper CHR ''.''"
    by (simp_all add: is_separator_def is_upper_def char_between_def)
  have "is_alnum (to_lower c) \<or> is_separator (to_lower c)" if "is_alnum c \<or> is_separator c" for c
  proof (cases "is_alnum c")
    case False
    then have "\<not> is_upper c" by (simp add: is_alnum_def)
    then show ?thesis using that by (simp add: to_lower_fixed)
  qed (simp add: is_alnum_to_lower)
  then have "id_chars (ToLower (remove_invalid s))"
    by (auto simp: id_chars_def ToLower_def remove_invalid_def to_lower_not_upper)
  then show ?thesis
    using dot set_collapse [of False "ToLower (remove_invalid s)"] unfolding id_chars_def by blast
qed

lemma Trim_suffix_prefix: "\<exists>l r. s = l @ Trim s cutset @ r"
proof -
  let ?t = "dropWhile (\<lambda>c. c \<in> set cutset) s"
  obtain r where "?t = TrimRightFunc (\<lambda>c. c \<in> set cutset) ?t @ r"
    using TrimRightFunc_prefix by blast
  then have "s = takeWhile (\<lambda>c. c \<in> set cutset) s @ Trim s cutset @ r"
    by (metis Trim_def TrimLeftFunc_def TrimRight_def takeWhile_dropWhile_id)
  then show ?thesis by blast
qed

lemma Trim_hd: "Trim s cutset \<noteq> [] \<Longrightarrow> hd (Trim s cutset) \<notin> set cutset"
  by (metis (mono_tags, lifting) TrimLeftFunc_def TrimRightFunc_hd TrimRight_def Trim_def
      TrimRightFunc_def dropWhile.simps(1) hd_dropWhile rev.simps(1))

lemma id_chars_subset: "id_chars s \<Longrightarrow> set t \<subseteq> set s \<Longrightarrow> id_chars t"
  unfolding id_chars_def by blast

lemma length_id_hash [simp]: "length (id_hash s) = 20"
  by (simp add: id_hash_def length_base32_Sum256)

lemma id_hash_chars: "c \<in> set (id_hash s) \<Longrightarrow> is_alnum c \<and> \<not> is_upper c"
proof -
  assume "c \<in> set (id_hash s)"
  then have "is_lower c \<or> is_digit c"
    unfolding id_hash_def using base32_chars by (blast dest: in_set_takeD)
  then show ?thesis
    by (auto simp: is_alnum_def is_lower_def is_digit_def is_upper_def char_between_def)
qed

text \<open>
  C30: Every task id, also an empty one or one without any usable character, is turned into a
  container id that containerd accepts: at most 76 bytes, groups of letters and digits
  separated by single separators, no upper case, ending in the 20 characters of the hash.
\<close>

theorem container_id_valid:
  "valid_identifier (convertTaskIdToContainerId taskId) \<and>
   (\<forall>c \<in> set (convertTaskIdToContainerId taskId). \<not> is_upper c) \<and>
   (\<exists>prefix. convertTaskIdToContainerId taskId = prefix @ id_hash taskId)"
proof -
  define safe where "safe = collapse_separators False (ToLower (remove_invalid taskId))"
  define mid where "mid = Trim safe ''._-''"
  define cut1 where "cut1 = (if length mid > 55 then take 55 mid else mid)"
  define fin where "fin = TrimRight cut1 ''._-''"
  have eq: "convertTaskIdToContainerId taskId =
      (if fin = [] then id_hash taskId else fin @ ''.'' @ id_hash taskId)"
    by (simp add: convertTaskIdToContainerId_def Let_def fin_def cut1_def mid_def safe_def
        containerIdMaxLen_def)
  obtain l r where lr: "safe = l @ mid @ r"
    using Trim_suffix_prefix mid_def by blast
  obtain r2 where r2: "mid = cut1 @ r2"
    by (metis append_Nil2 append_take_drop_id cut1_def)
  obtain r3 where r3: "cut1 = fin @ r3"
    using TrimRightFunc_prefix unfolding fin_def TrimRight_def by blast
  have "no_double safe" "id_chars safe"
    using no_double_collapse id_chars_safe by (auto simp: safe_def)
  then have nd: "no_double fin" "id_chars fin"
    unfolding lr r2 r3 by (auto dest: no_double_append intro: id_chars_subset)
  have hashok: "ident True (id_hash taskId)"
  proof (rule ident_alnum)
    show "list_all is_alnum (id_hash taskId)"
      using id_hash_chars by (auto simp: list_all_iff)
    show "id_hash taskId \<noteq> [] \<or> \<not> True"
      using length_id_hash [of taskId] by (metis list.size(3) zero_neq_numeral)
  qed
  have "length cut1 \<le> 55"
    by (simp add: cut1_def)
  then have len: "length fin \<le> 55"
    by (simp add: r3)
  have id: "ident True fin" if "fin \<noteq> []"
  proof (rule ident_intro [OF nd(2,1) that])
    have "hd fin = hd mid" "mid \<noteq> []"
      using that r2 r3 by auto
    then show "True \<longrightarrow> \<not> is_separator (hd fin)"
      using Trim_hd [of safe "''._-''"] by (simp add: mid_def is_separator_def)
    show "\<not> is_separator (last fin)"
      using that TrimRightFunc_last unfolding fin_def TrimRight_def is_separator_def by blast
  qed
  have "ident True (convertTaskIdToContainerId taskId)"
    using hashok id ident_append_dot [of True fin "id_hash taskId"] by (simp add: eq)
  moreover have "\<not> is_upper CHR ''.''"
    by (simp add: is_upper_def char_between_def)
  ultimately show ?thesis
    using len nd(2) id_hash_chars [of _ taskId]
    by (auto simp: eq valid_identifier_def id_chars_def)
qed

theorem container_id_valid_witness:
  "valid_identifier (convertTaskIdToContainerId ''My--App.instance.0'')"
  using container_id_valid [of "''My--App.instance.0''"] by simp

section \<open>Machine names\<close>

definition machineNameMaxLen :: nat where
  "machineNameMaxLen = 64"

definition machineNamePrefix :: string where
  "machineNamePrefix = ''oakestra.''"

definition ConvertTaskIdToMachineName :: "string \<Rightarrow> string" where
  "ConvertTaskIdToMachineName taskId =
     (let hashString = id_hash taskId;
          machineNameSuffix = ''.'' @ hashString;
          safeTaskId = ToLower (filter (\<lambda>c. is_alnum c \<or> c = CHR ''.'') taskId);
          safeTaskId = take (min (machineNameMaxLen - length machineNameSuffix - length machineNamePrefix)
                               (length safeTaskId)) safeTaskId
      in machineNamePrefix @ safeTaskId @ machineNameSuffix)"

definition GetMachineCgroupPath :: "string \<Rightarrow> string" where
  "GetMachineCgroupPath machineName =
     path_Join [''/sys/fs/cgroup/machine.slice/'', ''machine-'' @ machineName @ ''.scope'', ''instance'']"

lemma machine_name_eq:
  "ConvertTaskIdToMachineName taskId =
     ''oakestra.'' @ take 34 (ToLower (filter (\<lambda>c. is_alnum c \<or> c = CHR ''.'') taskId)) @
     CHR ''.'' # id_hash taskId"
  by (simp add: ConvertTaskIdToMachineName_def machineNameMaxLen_def machineNamePrefix_def min_def
      Let_def)

lemma machine_char:
  "c \<in> set (ToLower (filter (\<lambda>c. is_alnum c \<or> c = CHR ''.'') s)) \<Longrightarrow>
   is_lower c \<or> is_digit c \<or> c = CHR ''.''"
proof -
  have "\<not> is_upper (to_lower d)" for d
    by (rule to_lower_not_upper)
  moreover have "to_lower CHR ''.'' = CHR ''.''"
    by (simp add: to_lower_fixed is_upper_def char_between_def)
  moreover have "is_alnum d \<Longrightarrow> is_alnum (to_lower d)" for d
    by (simp add: is_alnum_to_lower)
  ultimately show "c \<in> set (ToLower (filter (\<lambda>c. is_alnum c \<or> c = CHR ''.'') s)) \<Longrightarrow> ?thesis"
    by (fastforce simp: ToLower_def is_alnum_def)
qed

text \<open>
  C33: A machine name has at most 64 characters, only lower-case letters, digits and dots, the
  Oakestra prefix and the hash of the whole task id at its end; and its scope directory below
  the machine slice is where the metrics are read: no task id can make the path leave it.
\<close>

theorem machine_name_bounds:
  "length (ConvertTaskIdToMachineName taskId) \<le> 64 \<and>
   (\<forall>c \<in> set (ConvertTaskIdToMachineName taskId). is_lower c \<or> is_digit c \<or> c = CHR ''.'') \<and>
   HasPrefix (ConvertTaskIdToMachineName taskId) ''oakestra.'' \<and>
   HasSuffix (ConvertTaskIdToMachineName taskId) (id_hash taskId) \<and>
   GetMachineCgroupPath (ConvertTaskIdToMachineName taskId) =
     ''/sys/fs/cgroup/machine.slice/machine-'' @ ConvertTaskIdToMachineName taskId @ ''.scope/instance''"
proof -
  let ?name = "ConvertTaskIdToMachineName taskId"
  let ?dir = "''machine-'' @ ?name @ ''.scope''"
  have chars: "is_lower c \<or> is_digit c \<or> c = CHR ''.''" if "c \<in> set ?name" for c
  proof -
    have "c \<in> set ''oakestra.'' \<or> c \<in> set (ToLower (filter (\<lambda>c. is_alnum c \<or> c = CHR ''.'') taskId))
        \<or> c = CHR ''.'' \<or> c \<in> set (id_hash taskId)"
      using that unfolding machine_name_eq by (auto dest: in_set_takeD)
    moreover have "is_lower d" if "d \<in> set ''oakestra''" for d
      using that by (auto simp: is_lower_def char_between_def)
    ultimately show ?thesis
      using machine_char [of c taskId] id_hash_chars [of c taskId]
      by (auto simp: is_alnum_def)
  qed
  have "CHR ''/'' \<notin> set ?dir"
    using chars [of "CHR ''/''"] by (auto simp: is_lower_def is_digit_def char_between_def)
  then have "plain ?dir"
    by (simp add: plain_def)
  then have "path_elements (''/sys/fs/cgroup/machine.slice/'' @ ''/'' @ ?dir) =
      [''sys'', ''fs'', ''cgroup'', ''machine.slice'', ?dir]"
    by (subst path_elements_append_plain) (simp_all add: path_elements_def path_step_def)
  then have "path_elements ((''/sys/fs/cgroup/machine.slice/'' @ ''/'' @ ?dir) @ ''/'' @ ''instance'') =
      [''sys'', ''fs'', ''cgroup'', ''machine.slice'', ?dir, ''instance'']"
    by (subst path_elements_append_plain) (simp_all add: plain_def)
  then have "GetMachineCgroupPath ?name = ''/sys/fs/cgroup/machine.slice/'' @ ?dir @ ''/instance''"
    by (simp add: GetMachineCgroupPath_def path_Join_def Clean_def Let_def)
  moreover have "HasSuffix ?name (id_hash taskId)"
    unfolding machine_name_eq using HasSuffix_append [of "''oakestra.'' @ _ @ ''.''" "id_hash taskId"]
    by simp
  moreover have "HasPrefix ?name ''oakestra.''" "length ?name \<le> 64"
    by (simp_all add: machine_name_eq)
  ultimately show ?thesis
    using chars by auto
qed

theorem machine_name_bounds_witness:
  "length (ConvertTaskIdToMachineName ''../../etc.instance.0'') \<le> 64"
  using machine_name_bounds [of "''../../etc.instance.0''"] by simp

text \<open>
  A machine name can contain two dots in a row, which the container ids avoid and host names
  do not allow: the readable part is cut off at 34 bytes without looking at what it ends in, so
  every service name of 33 letters and digits gives such a name.
\<close>

theorem machine_name_double_dot:
  assumes "list_all is_alnum name" "length name = 33"
  shows "ConvertTaskIdToMachineName (name @ ''.instance.'' @ n) =
     ''oakestra.'' @ ToLower name @ ''..'' @ id_hash (name @ ''.instance.'' @ n)"
proof -
  have "filter (\<lambda>c. is_alnum c \<or> c = CHR ''.'') name = name"
    using assms(1) by (auto simp: list_all_iff filter_id_conv)
  then show ?thesis
    using assms(2)
    by (simp add: machine_name_eq ToLower_def to_lower_def is_upper_def char_between_def)
qed

theorem machine_name_double_dot_witness:
  "Contains (ConvertTaskIdToMachineName (replicate 33 (CHR ''a'') @ ''.instance.'' @ ''0'')) ''..''"
proof -
  have "ConvertTaskIdToMachineName (replicate 33 (CHR ''a'') @ ''.instance.'' @ ''0'') =
      ''oakestra.'' @ ToLower (replicate 33 (CHR ''a'')) @ ''..'' @
      id_hash (replicate 33 (CHR ''a'') @ ''.instance.'' @ ''0'')"
    by (rule machine_name_double_dot)
       (simp_all add: is_alnum_def is_lower_def is_digit_def is_upper_def char_between_def list_all_iff)
  moreover have "Contains (s @ ''..'' @ t) ''..''" for s t
    by (induction s) (auto simp: Contains_def)
  ultimately show ?thesis
    by (metis append_assoc)
qed

section \<open>Escaping\<close>

text \<open>\<open>escapeObjectPath\<close>: a byte that is no letter or digit becomes an underscore and two hex digits.\<close>

definition escapeObjectPath :: "string \<Rightarrow> string" where
  "escapeObjectPath p =
     concat (map (\<lambda>c. if is_alnum c then [c] else ''_'' @ hex_EncodeToString [of_char c]) p)"

definition is_hex :: "char \<Rightarrow> bool" where
  "is_hex c \<longleftrightarrow> is_digit c \<or> char_between c 65 70 \<or> char_between c 97 102"

definition hex_val :: "char \<Rightarrow> nat" where
  "hex_val c = (if is_digit c then of_char c - 48 else if char_between c 65 70 then of_char c - 55
                else of_char c - 87)"

text \<open>\<open>unescapeSystemdName\<close>: each \<open>\xHH\<close>, from the left, becomes the byte.\<close>

fun unescapeSystemdName :: "string \<Rightarrow> string" where
  "unescapeSystemdName (b # x # h # l # cs) =
     (if b = CHR 0x5C \<and> x = CHR ''x'' \<and> is_hex h \<and> is_hex l
      then char_of (16 * hex_val h + hex_val l) # unescapeSystemdName cs
      else b # unescapeSystemdName (x # h # l # cs))"
| "unescapeSystemdName (c # cs) = c # unescapeSystemdName cs"
| "unescapeSystemdName [] = []"

definition convertControllersToSubtreeControlCommand :: "string \<Rightarrow> string" where
  "convertControllersToSubtreeControlCommand controllers =
     (let controllerElements = Split (CHR '' '') controllers;
          controllerCommands = map (\<lambda>controller. ''+'' @ controller) controllerElements
      in Join controllerCommands '' '' @ [CHR 0x0A])"

lemma of_char_div_16: "(of_char c :: nat) div 16 < 16"
  by (simp add: less_mult_imp_div_less)

lemma of_char_hex_digit:
  "d < 16 \<Longrightarrow> (of_char (hex_digit d) :: nat) = (if d < 10 then 48 + d else 87 + d)"
  by (simp add: hex_digit_def)

lemma hex_digit_props:
  "d < 16 \<Longrightarrow> is_alnum (hex_digit d)"
  "d < 16 \<Longrightarrow> e < 16 \<Longrightarrow> hex_digit d = hex_digit e \<longleftrightarrow> d = e"
proof -
  show "d < 16 \<Longrightarrow> is_alnum (hex_digit d)"
    by (auto simp: of_char_hex_digit is_alnum_def is_digit_def is_lower_def char_between_def)
  show "d < 16 \<Longrightarrow> e < 16 \<Longrightarrow> hex_digit d = hex_digit e \<longleftrightarrow> d = e"
    using of_char_eq_nat [of "hex_digit d" "hex_digit e"] of_char_hex_digit [of d] of_char_hex_digit [of e]
    by (auto split: if_splits)
qed

lemma escape_char_inject:
  assumes "(if is_alnum c then [c] else ''_'' @ hex_EncodeToString [of_char c]) @ s =
           (if is_alnum d then [d] else ''_'' @ hex_EncodeToString [of_char d]) @ t"
  shows "c = d \<and> s = t"
proof -
  have us: "\<not> is_alnum (CHR ''_'')"
    by (simp add: is_alnum_def is_digit_def is_upper_def is_lower_def char_between_def)
  have same: "c = d" if "(of_char c :: nat) div 16 = of_char d div 16" "(of_char c :: nat) mod 16 = of_char d mod 16"
    using that by (metis div_mult_mod_eq of_char_eq_nat)
  consider "is_alnum c" "is_alnum d" | "is_alnum c" "\<not> is_alnum d" | "\<not> is_alnum c" "is_alnum d"
    | "\<not> is_alnum c" "\<not> is_alnum d"
    by blast
  then show ?thesis
  proof cases
    case 4
    then show ?thesis
      using assms same hex_digit_props(2) [OF of_char_div_16 of_char_div_16, of c d]
        hex_digit_props(2) [of "of_char c mod 16" "of_char d mod 16"]
      by (simp add: hex_EncodeToString_def)
  qed (use assms us in auto)
qed

text \<open>
  Escaped object paths are valid and unambiguous: only letters, digits and underscores
  remain, and different unit names never share an object path.
\<close>

theorem escapeObjectPath_injective:
  "(\<forall>c \<in> set (escapeObjectPath p). is_alnum c \<or> c = CHR ''_'') \<and>
   (escapeObjectPath p = escapeObjectPath q \<longleftrightarrow> p = q)"
proof -
  have "is_alnum c \<or> c = CHR ''_''" if "c \<in> set (escapeObjectPath p)" for c
    using that hex_digit_props(1) of_char_div_16
    by (fastforce simp: escapeObjectPath_def hex_EncodeToString_def split: if_splits)
  moreover have "escapeObjectPath p = escapeObjectPath q \<Longrightarrow> p = q"
  proof (induction p arbitrary: q)
    case Nil
    then show ?case by (cases q) (auto simp: escapeObjectPath_def split: if_splits)
  next
    case (Cons c p)
    then obtain d q' where q: "q = d # q'"
      by (cases q) (auto simp: escapeObjectPath_def split: if_splits)
    then show ?case
      using Cons escape_char_inject [of c "escapeObjectPath p" d "escapeObjectPath q'"]
      by (simp add: escapeObjectPath_def)
  qed
  ultimately show ?thesis by blast
qed

theorem escapeObjectPath_injective_witness:
  "escapeObjectPath ''a-b.scope'' \<noteq> escapeObjectPath ''a_2db.scope''"
  using escapeObjectPath_injective [of "''a-b.scope''" "''a_2db.scope''"] by simp

section \<open>Keys of the image store\<close>

definition convertIdToKey :: "string \<Rightarrow> string \<Rightarrow> string" where
  "convertIdToKey source_name ref =
     (let hash = hex_EncodeToString (Sum256 ref);
          safeId = map (\<lambda>c. if is_alnum c then c else CHR ''_'') ref
      in source_name @ ''-'' @ safeId @ ''-'' @ hash)"

end

