(* ===== verification/ImageStore.thy ===== *)
theory ImageStore
  imports Names "HOL-Library.AList"
begin

text \<open>
  The store of virtual machine images (\<open>crosvm/internal/image/store.go\<close>, \<open>image.go\<close>,
  \<open>source.go\<close>): retrieval through the cache, the asynchronous move into the cache, and the
  restoration at start-up. The directories the store works on are a map from paths to their
  contents; the external commands, the sources and the outcomes of system calls are arguments.
\<close>

section \<open>Directories and images\<close>

datatype io_error = NotExist | CrossDevice | IoError string

text \<open>The outcome of \<open>os.Stat\<close> on the three files of an image directory: an error or a size.\<close>

record image_dir =
  idir_kernel :: "io_error + go_int"
  idir_initrd :: "io_error + go_int"
  idir_rootfs :: "io_error + go_int"

type_synonym dirs = "string \<rightharpoonup> image_dir"

record Image =
  img_Key :: string
  img_Size :: go_int
  img_HasInitrd :: bool

definition KernelFileName :: string where "KernelFileName = ''kernel.img''"
definition InitrdFileName :: string where "InitrdFileName = ''initrd.img''"
definition RootfsFileName :: string where "RootfsFileName = ''rootfs.img''"
definition RootfsMountDirName :: string where "RootfsMountDirName = ''rootfs-mount''"
definition imageDirExtension :: string where "imageDirExtension = ''.oakimg''"
definition internalRootfsFileName :: string where "internalRootfsFileName = ''rootfs.squashfs''"

definition CreateImageFromDir :: "string \<Rightarrow> image_dir \<Rightarrow> io_error + Image" where
  "CreateImageFromDir imageDirPath d =
     (let key = TrimSuffix (Base imageDirPath) imageDirExtension in
      case idir_kernel d of
        Err e \<Rightarrow> Err e
      | Ok kernelSize \<Rightarrow>
          (case (case idir_initrd d of Err NotExist \<Rightarrow> Ok 0 | Err e \<Rightarrow> Err e | Ok n \<Rightarrow> Ok n) of
             Err e \<Rightarrow> Err e
           | Ok initrdSize \<Rightarrow>
               (case idir_rootfs d of
                  Err e \<Rightarrow> Err e
                | Ok rootfsSize \<Rightarrow>
                    Ok \<lparr>img_Key = key, img_Size = kernelSize + initrdSize + rootfsSize,
                        img_HasInitrd = (0 <s initrdSize)\<rparr>)))"

record Source =
  src_Name :: string
  src_Retrieve :: "string \<Rightarrow> io_error + image_dir"

text \<open>The maps \<open>sources\<close> and \<open>images\<close> as association lists.\<close>

record Store =
  st_dirPath :: string
  st_defaultSource :: Source
  st_sources :: "(string \<times> Source) list"
  st_images :: "(string \<times> Image) list"
  st_totalSize :: go_int

section \<open>Retrieval\<close>

definition parseRef :: "Store \<Rightarrow> string \<Rightarrow> Source \<times> string" where
  "parseRef st ref =
     (case Index ref '':'' of
        None \<Rightarrow> (st_defaultSource st, ref)
      | Some splitIdx \<Rightarrow>
          let sourceName = take splitIdx ref; image_id = drop (splitIdx + 1) ref
          in (case map_of (st_sources st) sourceName of
                None \<Rightarrow> (st_defaultSource st, ref)
              | Some source \<Rightarrow> (source, image_id)))"

datatype copy_op =
    OpCreateExt4Img string go_int
  | OpCopySquashFs string string string
  | OpCopyFile string string

primrec run_ops :: "(copy_op \<Rightarrow> io_error option) \<Rightarrow> copy_op list \<Rightarrow> io_error option" where
  "run_ops exec [] = None"
| "run_ops exec (a # as) = (case exec a of Some e \<Rightarrow> Some e | None \<Rightarrow> run_ops exec as)"

text \<open>The commands that put the image at \<open>srcDirPath\<close> into \<open>dstDirPath\<close>, in order.\<close>

definition copy_ops :: "string \<Rightarrow> string \<Rightarrow> go_int \<Rightarrow> bool \<Rightarrow> copy_op list" where
  "copy_ops srcDirPath dstDirPath rootfsSize hasInitrd =
     (let srcRootfsPath = path_Join [srcDirPath, internalRootfsFileName];
          dstRootfsPath = path_Join [dstDirPath, RootfsFileName];
          rootfsMountDirPath = path_Join [dstDirPath, RootfsMountDirName]
      in [OpCreateExt4Img dstRootfsPath rootfsSize,
          OpCopySquashFs srcRootfsPath dstRootfsPath rootfsMountDirPath,
          OpCopyFile (path_Join [srcDirPath, KernelFileName]) (path_Join [dstDirPath, KernelFileName])]
         @ (if hasInitrd
            then [OpCopyFile (path_Join [srcDirPath, InitrdFileName]) (path_Join [dstDirPath, InitrdFileName])]
            else []))"

definition copyImageFilesToDst ::
    "(copy_op \<Rightarrow> io_error option) \<Rightarrow> dirs \<Rightarrow> string \<Rightarrow> string \<Rightarrow> go_int \<Rightarrow> bool \<Rightarrow> io_error option" where
  "copyImageFilesToDst exec ds srcDirPath dstDirPath rootfsSize hasInitrd =
     (if ds srcDirPath = None then Some NotExist
      else run_ops exec (copy_ops srcDirPath dstDirPath rootfsSize hasInitrd))"

text \<open>\<open>(found, image or error)\<close>; the second component counts when the first is true.\<close>

definition retrieveFromCache ::
    "(copy_op \<Rightarrow> io_error option) \<Rightarrow> dirs \<Rightarrow> Store \<Rightarrow> string \<Rightarrow> string \<Rightarrow> string \<Rightarrow> go_int
      \<Rightarrow> bool \<times> (io_error + Image)" where
  "retrieveFromCache exec ds st key imageDirPath dstDirPath rootfsSize =
     (case map_of (st_images st) key of
        None \<Rightarrow> (False, Err NotExist)
      | Some img \<Rightarrow>
          (case copyImageFilesToDst exec ds imageDirPath dstDirPath rootfsSize (img_HasInitrd img) of
             Some NotExist \<Rightarrow> (False, Err NotExist)
           | Some e \<Rightarrow> (True, Err e)
           | None \<Rightarrow> (True, Ok img)))"

definition image_key :: "Store \<Rightarrow> string \<Rightarrow> string" where
  "image_key st ref = (case parseRef st ref of (source, image_id) \<Rightarrow> convertIdToKey (src_Name source) image_id)"

definition image_path :: "Store \<Rightarrow> string \<Rightarrow> string" where
  "image_path st ref = path_Join [st_dirPath st, image_key st ref @ imageDirExtension]"

text \<open>
  \<open>Retrieve\<close>: the image or an error, the directories afterwards, and the arguments of the
  goroutine \<open>moveIntoCache\<close> if one is spawned; \<open>tmp\<close> is the outcome of \<open>CreateLargeTempDir\<close>.
\<close>

definition Retrieve ::
    "(copy_op \<Rightarrow> io_error option) \<Rightarrow> io_error + string \<Rightarrow> dirs \<Rightarrow> Store \<Rightarrow> string \<Rightarrow> string \<Rightarrow> go_int
      \<Rightarrow> (io_error + Image) \<times> dirs \<times> (Image \<times> string \<times> string) option" where
  "Retrieve exec tmp ds st ref dstDirPath rootfsSize =
     (let (source, image_id) = parseRef st ref;
          key = convertIdToKey (src_Name source) image_id;
          imageDirPath = path_Join [st_dirPath st, key @ imageDirExtension]
      in case retrieveFromCache exec ds st key imageDirPath dstDirPath rootfsSize of
           (True, result) \<Rightarrow> (result, ds, None)
         | (False, _) \<Rightarrow>
             (case tmp of
                Err e \<Rightarrow> (Err e, ds, None)
              | Ok tmpDirPath \<Rightarrow>
                  (case src_Retrieve source image_id of
                     Err e \<Rightarrow> (Err e, ds(tmpDirPath := None), None)
                   | Ok content \<Rightarrow>
                       (case CreateImageFromDir tmpDirPath content of
                          Err e \<Rightarrow> (Err e, ds(tmpDirPath := None), None)
                        | Ok img \<Rightarrow>
                            (case copyImageFilesToDst exec (ds(tmpDirPath \<mapsto> content)) tmpDirPath
                                    dstDirPath rootfsSize (img_HasInitrd img) of
                               Some e \<Rightarrow> (Err e, ds(tmpDirPath := None), None)
                             | None \<Rightarrow> (Ok img, ds(tmpDirPath \<mapsto> content),
                                        Some (img, tmpDirPath, imageDirPath)))))))"

text \<open>\<open>moveIntoCache\<close>; \<open>rename\<close> and \<open>copy_dir\<close> are the outcomes of \<open>os.Rename\<close> and \<open>CopyDir\<close>.\<close>

definition add_image :: "Image \<Rightarrow> Store \<Rightarrow> Store" where
  "add_image img st =
     (let oldSize = (case map_of (st_images st) (img_Key img) of Some old \<Rightarrow> img_Size old | None \<Rightarrow> 0)
      in st\<lparr>st_images := AList.update (img_Key img) img (st_images st),
            st_totalSize := st_totalSize st - oldSize + img_Size img\<rparr>)"

definition moveIntoCache ::
    "io_error option \<Rightarrow> io_error option \<Rightarrow> dirs \<Rightarrow> Store \<Rightarrow> Image \<Rightarrow> string \<Rightarrow> string \<Rightarrow> Store \<times> dirs" where
  "moveIntoCache rename copy_dir ds st img tmpDirPath imageDirPath =
     (let ds = ds(imageDirPath := None);
          moved = ds(imageDirPath := ds tmpDirPath, tmpDirPath := None)
      in case rename of
           None \<Rightarrow> (add_image img st, moved)
         | Some CrossDevice \<Rightarrow>
             (case copy_dir of
                Some _ \<Rightarrow> (st, ds(tmpDirPath := None))
              | None \<Rightarrow> (add_image img st, moved))
         | Some _ \<Rightarrow> (st, ds(tmpDirPath := None)))"

section \<open>Restoration and removal\<close>

text \<open>The entries of a directory: names with the flag \<open>IsDir\<close>, in the order of \<open>os.ReadDir\<close>.\<close>

definition isImageDir :: "string \<Rightarrow> bool \<Rightarrow> bool" where
  "isImageDir imageDirPath is_dir \<longleftrightarrow> HasSuffix imageDirPath imageDirExtension \<and> is_dir"

fun restoreImages ::
    "(string \<Rightarrow> bool) \<Rightarrow> string \<Rightarrow> dirs \<Rightarrow> (string \<times> bool) list \<Rightarrow> (io_error + Image list) \<times> dirs" where
  "restoreImages removable dirPath ds [] = (Ok [], ds)"
| "restoreImages removable dirPath ds ((imageDirName, is_dir) # entries) =
     (let imageDirPath = path_Join [dirPath, imageDirName] in
      if \<not> isImageDir imageDirPath is_dir then restoreImages removable dirPath ds entries
      else
        (case (case ds imageDirPath of None \<Rightarrow> Err NotExist | Some d \<Rightarrow> CreateImageFromDir imageDirPath d) of
           Err _ \<Rightarrow>
             if removable imageDirPath
             then restoreImages removable dirPath (ds(imageDirPath := None)) entries
             else (Err (IoError ''failed to remove faulty image directory''), ds)
         | Ok img \<Rightarrow>
             (case restoreImages removable dirPath ds entries of
                (Err e, ds') \<Rightarrow> (Err e, ds')
              | (Ok imgs, ds') \<Rightarrow> (Ok (img # imgs), ds'))))"

definition NewStore ::
    "(string \<Rightarrow> bool) \<Rightarrow> io_error option \<Rightarrow> io_error + (string \<times> bool) list \<Rightarrow> dirs \<Rightarrow> string \<Rightarrow> Source list
      \<Rightarrow> (io_error + Store) \<times> dirs" where
  "NewStore removable mkdir listing ds dirPath sources =
     (case sources of
        [] \<Rightarrow> (Err (IoError ''store needs to have at least one source''), ds)
      | defaultSource # _ \<Rightarrow>
          let sourcesMap = foldl (\<lambda>m s. AList.update (src_Name s) s m) [] sources
          in (case mkdir of
                Some e \<Rightarrow> (Err e, ds)
              | None \<Rightarrow>
                  (case listing of
                     Err e \<Rightarrow> (Err e, ds)
                   | Ok entries \<Rightarrow>
                       (case restoreImages removable dirPath ds entries of
                          (Err e, ds') \<Rightarrow> (Err e, ds')
                        | (Ok imgs, ds') \<Rightarrow>
                            (Ok \<lparr>st_dirPath = dirPath, st_defaultSource = defaultSource,
                                st_sources = sourcesMap,
                                st_images = foldl (\<lambda>m img. AList.update (img_Key img) img m) [] imgs,
                                st_totalSize = foldl (\<lambda>n img. n + img_Size img) 0 imgs\<rparr>, ds')))))"

text \<open>\<open>Remove\<close>: deletes the image directories, and the store's own unless an entry was skipped.\<close>

fun remove_entries ::
    "(string \<Rightarrow> bool) \<Rightarrow> string \<Rightarrow> dirs \<Rightarrow> (string \<times> bool) list \<Rightarrow> bool \<times> dirs" where
  "remove_entries removable dirPath ds [] = (False, ds)"
| "remove_entries removable dirPath ds ((imageDirName, is_dir) # entries) =
     (let imageDirPath = path_Join [dirPath, imageDirName] in
      if \<not> isImageDir imageDirPath is_dir \<or> \<not> removable imageDirPath
      then (True, snd (remove_entries removable dirPath ds entries))
      else remove_entries removable dirPath (ds(imageDirPath := None)) entries)"

definition Remove ::
    "(string \<Rightarrow> bool) \<Rightarrow> io_error option \<Rightarrow> io_error + (string \<times> bool) list \<Rightarrow> dirs \<Rightarrow> Store
      \<Rightarrow> io_error option \<times> dirs" where
  "Remove removable rmdir listing ds st =
     (case listing of
        Err e \<Rightarrow> (Some e, ds)
      | Ok entries \<Rightarrow>
          (case remove_entries removable (st_dirPath st) ds entries of
             (skippedEntry, ds') \<Rightarrow> if \<not> skippedEntry then (rmdir, ds') else (None, ds')))"

section \<open>The size of the store\<close>

definition store_ok :: "Store \<Rightarrow> bool" where
  "store_ok st \<longleftrightarrow>
     distinct (map fst (st_images st)) \<and>
     st_totalSize st = sum_list (map (\<lambda>p. img_Size (snd p)) (st_images st))"

lemma sum_update:
  fixes f :: "'v \<Rightarrow> 'b :: ab_group_add"
  assumes "distinct (map fst xs)"
  shows "sum_list (map (\<lambda>p. f (snd p)) (AList.update k v xs)) =
     sum_list (map (\<lambda>p. f (snd p)) xs) - (case map_of xs k of Some w \<Rightarrow> f w | None \<Rightarrow> 0) + f v"
  using assms by (induction xs) (auto simp: algebra_simps split: option.splits)

lemma store_ok_add_image: "store_ok st \<Longrightarrow> store_ok (add_image img st)"
  by (simp add: store_ok_def add_image_def Let_def distinct_update sum_update)

lemma store_ok_moveIntoCache:
  "store_ok st \<Longrightarrow> store_ok (fst (moveIntoCache rename copy_dir ds st img tmp dst))"
  by (auto simp: moveIntoCache_def Let_def store_ok_add_image split: option.splits io_error.splits)

lemma TrimSuffix_inject:
  assumes "HasSuffix a p" "HasSuffix b p" "TrimSuffix a p = TrimSuffix b p"
  shows "a = b"
  using assms by (metis HasSuffix_def TrimSuffix_def append_take_drop_id)

text \<open>The keys of restored images are the names of their directories without the extension.\<close>

lemma restoreImages_keys:
  assumes "path_rooted dirPath" "restoreImages removable dirPath ds entries = (Ok imgs, ds')"
    "\<forall>e \<in> set entries. plain (fst e)" "distinct (map fst entries)"
  shows "distinct (map img_Key imgs) \<and>
    (\<forall>img \<in> set imgs. \<exists>n. n \<in> fst ` set entries \<and> HasSuffix n imageDirExtension \<and>
       img_Key img = TrimSuffix n imageDirExtension)"
  using assms(2-)
proof (induction entries arbitrary: ds imgs)
  case (Cons e entries)
  obtain name is_dir where e: "e = (name, is_dir)"
    by (cases e)
  let ?path = "path_Join [dirPath, name]"
  have base: "Base ?path = name" and plain: "plain name"
    using Base_path_Join [OF assms(1), of name] Cons.prems e by auto
  have step: "distinct (map img_Key imgs') \<and> (\<forall>img \<in> set imgs'. \<exists>n. n \<in> fst ` set entries \<and>
      HasSuffix n imageDirExtension \<and> img_Key img = TrimSuffix n imageDirExtension)"
    if "restoreImages removable dirPath ds'' entries = (Ok imgs', ds')" for ds'' imgs'
    using Cons.IH [OF that] Cons.prems by auto
  show ?case
  proof (cases "isImageDir ?path is_dir \<and> (\<exists>d img. ds ?path = Some d \<and> CreateImageFromDir ?path d = Ok img)")
    case True
    then obtain d img where d: "ds ?path = Some d" "CreateImageFromDir ?path d = Ok img"
      by blast
    then obtain imgs' where rest: "restoreImages removable dirPath ds entries = (Ok imgs', ds')"
      "imgs = img # imgs'"
      using Cons.prems(1) True e by (auto simp: Let_def split: prod.splits sum.splits)
    have key: "img_Key img = TrimSuffix name imageDirExtension"
      using d(2) base by (auto simp: CreateImageFromDir_def Let_def split: sum.splits io_error.splits)
    have suffix: "HasSuffix name imageDirExtension"
    proof -
      have "HasSuffix ?path imageDirExtension"
        using True by (simp add: isImageDir_def)
      moreover obtain pre where "?path = pre @ CHR ''/'' # name"
      proof (cases "path_elements dirPath = []")
        case True
        then show ?thesis using that [of "[]"] path_Join_rooted_plain [OF assms(1) plain] by simp
      next
        case False
        then show ?thesis
          using that [of "CHR ''/'' # Join (path_elements dirPath) ''/''"]
            path_Join_rooted_plain [OF assms(1) plain] by (simp add: Join_snoc)
      qed
      ultimately show ?thesis
        using HasSuffix_after [of pre "CHR ''/''" name imageDirExtension]
        by (simp add: imageDirExtension_def)
    qed
    have "img_Key img \<noteq> img_Key i" if i: "i \<in> set imgs'" for i
    proof
      assume "img_Key img = img_Key i"
      then obtain n where n: "n \<in> fst ` set entries" "HasSuffix n imageDirExtension"
        "TrimSuffix name imageDirExtension = TrimSuffix n imageDirExtension"
        using step [OF rest(1)] i key by metis
      then have "n = name"
        using TrimSuffix_inject suffix by metis
      with n(1) show False
        using Cons.prems(3) e by auto
    qed
    moreover have "\<exists>n. n \<in> fst ` set (e # entries) \<and> HasSuffix n imageDirExtension \<and>
        img_Key i = TrimSuffix n imageDirExtension" if "i \<in> set imgs" for i
    proof (cases "i = img")
      case True
      then show ?thesis using key suffix e by auto
    next
      case False
      then have "i \<in> set imgs'" using that rest(2) by simp
      then show ?thesis using step [OF rest(1)] by (metis image_eqI insert_iff image_insert list.simps(15))
    qed
    ultimately show ?thesis
      using step [OF rest(1)] rest(2) by auto
  next
    case False
    then obtain ds'' where "restoreImages removable dirPath ds'' entries = (Ok imgs, ds')"
      using Cons.prems(1) e
      by (auto simp: Let_def split: if_splits option.splits sum.splits prod.splits)
    from step [OF this] show ?thesis by auto
  qed
qed simp

lemma store_images_fold:
  fixes f :: "Image \<Rightarrow> 'b :: ab_group_add"
  assumes "distinct (map img_Key imgs)" "\<forall>i \<in> set imgs. img_Key i \<notin> fst ` set m"
    "distinct (map fst m)"
  shows "distinct (map fst (foldl (\<lambda>m img. AList.update (img_Key img) img m) m imgs)) \<and>
    sum_list (map (\<lambda>p. f (snd p)) (foldl (\<lambda>m img. AList.update (img_Key img) img m) m imgs)) =
      foldl (\<lambda>n img. n + f img) (sum_list (map (\<lambda>p. f (snd p)) m)) imgs"
  using assms
proof (induction imgs arbitrary: m)
  case (Cons i imgs)
  have no: "map_of m (img_Key i) = None"
    using Cons.prems(2) by (simp add: map_of_eq_None_iff)
  have fst_update: "fst ` set (AList.update (img_Key i) i m) = insert (img_Key i) (fst ` set m)"
    by (simp add: update_conv' flip: dom_map_of_conv_image_fst)
  have "\<forall>i' \<in> set imgs. img_Key i' \<notin> fst ` set (AList.update (img_Key i) i m)"
    using Cons.prems(1,2) by (auto simp: fst_update) (metis image_eqI)
  moreover have "distinct (map fst (AList.update (img_Key i) i m))"
    using Cons.prems(3) by (simp add: distinct_update)
  moreover have "sum_list (map (\<lambda>p. f (snd p)) (AList.update (img_Key i) i m)) =
      sum_list (map (\<lambda>p. f (snd p)) m) + f i"
    by (simp add: sum_update [OF Cons.prems(3)] no)
  moreover have "distinct (map img_Key imgs)"
    using Cons.prems(1) by simp
  ultimately show ?case
    using Cons.IH [of "AList.update (img_Key i) i m"] by simp
qed simp

section \<open>Properties\<close>

text \<open>
  C27: The recorded size of the store is right: it is the sum of the sizes of the cached images
  after the restoration from disk and after any number of moves into the cache, whether they
  succeed, fall back to copying, replace an image or fail.
\<close>

theorem store_size_tracked:
  assumes "NewStore removable mkdir (Ok entries) ds dirPath sources = (Ok st, ds')"
    and "path_rooted dirPath" "\<forall>e \<in> set entries. plain (fst e)" "distinct (map fst entries)"
  shows "store_ok (foldl (\<lambda>st (rename, copy_dir, ds, img, tmp, dst).
      fst (moveIntoCache rename copy_dir ds st img tmp dst)) st moves)"
proof -
  obtain imgs where r: "restoreImages removable dirPath ds entries = (Ok imgs, ds')"
    and st: "st_images st = foldl (\<lambda>m img. AList.update (img_Key img) img m) [] imgs"
      "st_totalSize st = foldl (\<lambda>n img. n + img_Size img) 0 imgs"
    using assms(1) by (auto simp: NewStore_def Let_def split: list.splits option.splits sum.splits prod.splits)
  have "distinct (map img_Key imgs)"
    using restoreImages_keys [OF assms(2) r assms(3,4)] by simp
  then have "store_ok st"
    using store_images_fold [of imgs "[]" img_Size] by (simp add: store_ok_def st)
  then show ?thesis
    by (induction moves arbitrary: st) (auto simp: store_ok_moveIntoCache)
qed

definition test_source :: Source where
  "test_source = \<lparr>src_Name = ''containers-docker'',
     src_Retrieve = (\<lambda>_. Ok \<lparr>idir_kernel = Ok 10, idir_initrd = Err NotExist, idir_rootfs = Ok 100\<rparr>)\<rparr>"

definition test_store :: Store where
  "test_store = \<lparr>st_dirPath = ''/c'', st_defaultSource = test_source,
     st_sources = [(''containers-docker'', test_source)], st_images = [], st_totalSize = 0\<rparr>"

definition test_image :: Image where
  "test_image = \<lparr>img_Key = ''oakestra-image-1'', img_Size = 110, img_HasInitrd = False\<rparr>"

lemma test_NewStore:
  "NewStore (\<lambda>_. True) None (Ok [(''lost+found'', True)]) Map.empty ''/c'' [test_source] =
     (Ok test_store, Map.empty)"
proof -
  have "path_Join [''/c'', ''lost+found''] = ''/c/lost+found''"
    by code_simp
  moreover have "src_Name test_source = ''containers-docker''"
    by (simp add: test_source_def)
  ultimately show ?thesis
    by (simp add: NewStore_def test_store_def isImageDir_def HasSuffix_def imageDirExtension_def Let_def)
qed

theorem store_size_tracked_witness:
  "st_totalSize (fst (moveIntoCache None None Map.empty test_store test_image ''/t/oakestra-image-1'' ''/c/k.oakimg'')) =
     sum_list (map (\<lambda>p. img_Size (snd p)) (st_images (fst (moveIntoCache None None Map.empty test_store
       test_image ''/t/oakestra-image-1'' ''/c/k.oakimg''))))"
  using store_size_tracked [OF test_NewStore,
      where moves = "[(None, None, Map.empty, test_image, ''/t/oakestra-image-1'', ''/c/k.oakimg'')]"]
  by (simp add: store_ok_def path_rooted_def plain_def)

lemma run_ops_None [simp]: "run_ops (\<lambda>_. None) ops = None"
  by (induction ops) auto

lemma retrieveFromCache_miss:
  "map_of (st_images st) key = None \<Longrightarrow> fst (retrieveFromCache exec ds st key path dst sz) = False"
  by (simp add: retrieveFromCache_def)

text \<open>
  The cache never serves an image that was retrieved since start-up: a retrieval that misses
  files its image under the name of the temporary directory instead of the image's key, so
  after the move into the cache, whatever its outcome, a retrieval of the same image misses
  again and fetches it from the source once more.
\<close>

theorem retrieved_image_not_cached:
  assumes "Retrieve exec (Ok tmp) ds st ref dst sz = (Ok img, ds1, Some (img', tmp', path))"
    and "map_of (st_images st) (image_key st ref) = None"
    and "TrimSuffix (Base tmp) imageDirExtension \<noteq> image_key st ref"
  shows "fst (retrieveFromCache exec' ds2 (fst (moveIntoCache rename copy_dir ds1 st img' tmp' path))
           (image_key st ref) path dst' sz') = False"
proof -
  obtain source image_id where ref: "parseRef st ref = (source, image_id)"
    by (cases "parseRef st ref")
  then have miss: "fst (retrieveFromCache exec ds st (convertIdToKey (src_Name source) image_id) p dst sz) = False"
    for p
    using assms(2) by (intro retrieveFromCache_miss) (simp add: image_key_def)
  then have "img' = img \<and> img_Key img = TrimSuffix (Base tmp) imageDirExtension"
    using assms(1) unfolding Retrieve_def ref
    by (auto simp: Let_def CreateImageFromDir_def split: prod.splits bool.splits sum.splits option.splits
        io_error.splits)
  with assms(2,3) have "map_of (st_images (fst (moveIntoCache rename copy_dir ds1 st img' tmp' path)))
      (image_key st ref) = None"
    by (auto simp: moveIntoCache_def add_image_def Let_def update_conv' split: option.splits io_error.splits)
  then show ?thesis
    by (rule retrieveFromCache_miss)
qed

theorem retrieved_image_not_cached_witness:
  "fst (retrieveFromCache (\<lambda>_. None) Map.empty
      (fst (moveIntoCache None None
        [''/t/oakestra-image-1'' \<mapsto> \<lparr>idir_kernel = Ok 10, idir_initrd = Err NotExist, idir_rootfs = Ok 100\<rparr>]
        test_store test_image ''/t/oakestra-image-1''
        (image_path test_store ''a'')))
      (image_key test_store ''a'') (image_path test_store ''a'') ''/i'' 0) = False"
proof -
  have ref: "parseRef test_store ''a'' = (test_source, ''a'')"
    by (simp add: parseRef_def test_store_def)
  have base: "TrimSuffix (Base ''/t/oakestra-image-1'') imageDirExtension = ''oakestra-image-1''"
    by code_simp
  have img: "CreateImageFromDir ''/t/oakestra-image-1''
      \<lparr>idir_kernel = Ok 10, idir_initrd = Err NotExist, idir_rootfs = Ok 100\<rparr> = Ok test_image"
    using base by (simp add: CreateImageFromDir_def test_image_def)
  have "Retrieve (\<lambda>_. None) (Ok ''/t/oakestra-image-1'') Map.empty test_store ''a'' ''/i'' 0 =
    (Ok test_image, [''/t/oakestra-image-1'' \<mapsto>
        \<lparr>idir_kernel = Ok 10, idir_initrd = Err NotExist, idir_rootfs = Ok 100\<rparr>],
     Some (test_image, ''/t/oakestra-image-1'', image_path test_store ''a''))"
    unfolding Retrieve_def ref
    by (simp add: retrieveFromCache_def copyImageFilesToDst_def image_path_def image_key_def ref Let_def)
       (simp add: test_store_def test_source_def img copyImageFilesToDst_def)
  moreover have "TrimSuffix (Base ''/t/oakestra-image-1'') imageDirExtension \<noteq> image_key test_store ''a''"
    unfolding base by (simp add: image_key_def ref convertIdToKey_def test_source_def Let_def)
  moreover have "map_of (st_images test_store) (image_key test_store ''a'') = None"
    by (simp add: test_store_def)
  ultimately show ?thesis
    by (intro retrieved_image_not_cached)
qed

end
