(* ===== verification/TailBuf.thy ===== *)
theory TailBuf
  imports Prelude "HOL-Library.Monad_Syntax"
begin

text \<open>
  The ring buffer that keeps the last bytes a virtual machine wrote
  (\<open>crosvm/internal/tailbuf\<close>). The buffer's position is the code's \<open>uint\<close>, a 64-bit word; a
  slice expression out of range and the remainder by a zero capacity are panics, the value
  \<^term>\<open>None\<close>. A writer is a function on its own state, a predicate one with a state of its
  own, as the closure returned by \<open>IsLineStart\<close> has. The locking variant runs the same
  operations one at a time under its mutex, so it has no definitions of its own.
\<close>

section \<open>Slices\<close>

definition slice :: "'a list \<Rightarrow> nat \<Rightarrow> nat \<Rightarrow> 'a list option" where
  "slice xs lo hi =
     (if lo \<le> hi \<and> hi \<le> length xs then Some (take (hi - lo) (drop lo xs)) else None)"

text \<open>\<open>copy(xs[lo:hi], src)\<close>.\<close>

definition copy_at :: "'a list \<Rightarrow> nat \<Rightarrow> nat \<Rightarrow> 'a list \<Rightarrow> 'a list option" where
  "copy_at xs lo hi src =
     (if lo \<le> hi \<and> hi \<le> length xs
      then let n = min (hi - lo) (length src) in Some (take lo xs @ take n src @ drop (lo + n) xs)
      else None)"

section \<open>The buffer\<close>

record TailBuffer =
  tb_buf :: "byte list"
  tb_pos :: u64

definition NewTailBuffer :: "nat \<Rightarrow> TailBuffer" where
  "NewTailBuffer capacity = \<lparr>tb_buf = replicate capacity 0, tb_pos = 0\<rparr>"

definition Reset :: "TailBuffer \<Rightarrow> TailBuffer" where
  "Reset t = t\<lparr>tb_pos := 0\<rparr>"

definition Capacity :: "TailBuffer \<Rightarrow> nat" where
  "Capacity t = length (tb_buf t)"

definition Write :: "TailBuffer \<Rightarrow> byte list \<Rightarrow> (TailBuffer \<times> nat) option" where
  "Write t data =
     (let dataLen = length data in
      if dataLen = 0 then Some (t, 0)
      else
        let uDataLen = (of_nat dataLen :: u64);
            capacity = (of_nat (length (tb_buf t)) :: u64);
            newPos = tb_pos t + uDataLen
        in do {
          tailData \<leftarrow> if uDataLen > capacity
                      then slice data (unat (uDataLen - capacity)) (length data)
                      else Some data;
          if capacity = 0 then None
          else
            let start = unat ((newPos - of_nat (length tailData)) mod capacity);
                end = unat (newPos mod capacity)
            in if end > start then do {
                 buf \<leftarrow> copy_at (tb_buf t) start end tailData;
                 Some (t\<lparr>tb_buf := buf, tb_pos := newPos\<rparr>, dataLen)
               }
               else
                 let split = unat (capacity - of_nat start)
                 in do {
                   first \<leftarrow> slice tailData 0 split;
                   buf \<leftarrow> copy_at (tb_buf t) start (length (tb_buf t)) first;
                   second \<leftarrow> slice tailData split (length tailData);
                   buf \<leftarrow> copy_at buf 0 end second;
                   Some (t\<lparr>tb_buf := buf, tb_pos := newPos\<rparr>, dataLen)
                 }
        })"

type_synonym 'w writer = "'w \<Rightarrow> byte list \<Rightarrow> (nat \<times> string option) \<times> 'w"
type_synonym 'p predicate = "'p \<Rightarrow> byte \<Rightarrow> bool \<times> 'p"

primrec drop_until :: "'p predicate \<Rightarrow> 'p \<Rightarrow> byte list \<Rightarrow> byte list \<times> 'p" where
  "drop_until predicate p [] = ([], p)"
| "drop_until predicate p (b # bs) =
     (case predicate p b of (found, p') \<Rightarrow>
        if found then (b # bs, p') else drop_until predicate p' bs)"

definition writeToDropUntil ::
    "byte list \<Rightarrow> 'w writer \<Rightarrow> 'p predicate \<Rightarrow> 'w \<Rightarrow> 'p \<Rightarrow> (nat \<times> string option) \<times> 'w \<times> 'p" where
  "writeToDropUntil data writer predicate w p =
     (case drop_until predicate p data of (rest, p') \<Rightarrow>
        if rest = [] then ((0, None), w, p')
        else (case writer w rest of (result, w') \<Rightarrow> (result, w', p')))"

definition WriteToSkippingUntil ::
    "TailBuffer \<Rightarrow> 'w writer \<Rightarrow> 'p predicate \<Rightarrow> 'w \<Rightarrow> 'p \<Rightarrow> ((nat \<times> string option) \<times> 'w) option" where
  "WriteToSkippingUntil t writer predicate w p =
     (let capacity = (of_nat (length (tb_buf t)) :: u64) in
      if tb_pos t < capacity then
        (case writeToDropUntil (take (unat (tb_pos t)) (tb_buf t)) writer predicate w p of
           (result, w', _) \<Rightarrow> Some (result, w'))
      else if capacity = 0 then None
      else
        let end = unat (tb_pos t mod capacity) in
        if end = 0 then
          (case writeToDropUntil (tb_buf t) writer predicate w p of (result, w', _) \<Rightarrow> Some (result, w'))
        else
          (case writeToDropUntil (drop end (tb_buf t)) writer predicate w p of
             ((n1, Some err), w', _) \<Rightarrow> Some ((n1, Some err), w')
           | ((n1, None), w', p') \<Rightarrow>
               if n1 = 0 then
                 (case writeToDropUntil (take end (tb_buf t)) writer predicate w' p' of
                    (result, w'', _) \<Rightarrow> Some (result, w''))
               else
                 (case writer w' (take end (tb_buf t)) of ((n2, err), w'') \<Rightarrow>
                    Some ((n1 + n2, err), w''))))"

definition always :: "unit predicate" where
  "always p b = (True, p)"

definition WriteTo :: "TailBuffer \<Rightarrow> 'w writer \<Rightarrow> 'w \<Rightarrow> ((nat \<times> string option) \<times> 'w) option" where
  "WriteTo t writer w = WriteToSkippingUntil t writer always w ()"

text \<open>The predicates: \<open>IsValidUTF8Start\<close> has no state, \<open>IsLineStart\<close> the flag \<open>foundNewline\<close>.\<close>

definition IsValidUTF8Start :: "unit predicate" where
  "IsValidUTF8Start p b = (and b 0xC0 \<noteq> 0x80, p)"

definition IsLineStart :: "bool predicate" where
  "IsLineStart foundNewline b =
     (if foundNewline then (True, foundNewline)
      else (False, b = 10))"

section \<open>The bytes kept\<close>

text \<open>
  Specification: the buffer holds the bytes written since the last reset, of which the last
  \<open>Capacity\<close> can be read back. \<open>holds\<close> is the simulation relation: position \<open>j\<close> of the
  stream is in slot \<open>j mod capacity\<close>.
\<close>

definition recent :: "nat \<Rightarrow> 'a list \<Rightarrow> 'a list" where
  "recent k xs = drop (length xs - k) xs"

definition holds :: "TailBuffer \<Rightarrow> byte list \<Rightarrow> bool" where
  "holds t written \<longleftrightarrow>
     0 < Capacity t \<and> Capacity t < 2 ^ 63 \<and> length written < 2 ^ 64 \<and>
     unat (tb_pos t) = length written \<and>
     (\<forall>j < length written. length written \<le> j + Capacity t \<longrightarrow>
        tb_buf t ! (j mod Capacity t) = written ! j)"

lemma holds_New: "0 < c \<Longrightarrow> c < 2 ^ 63 \<Longrightarrow> holds (NewTailBuffer c) []"
  by (simp add: holds_def NewTailBuffer_def Capacity_def)

lemma holds_Reset: "holds t written \<Longrightarrow> holds (Reset t) []"
  by (simp add: holds_def Reset_def Capacity_def)

text \<open>The effect of the one or two copies of a write on the slots.\<close>

definition ring_written :: "'a list \<Rightarrow> nat \<Rightarrow> 'a list \<Rightarrow> 'a list \<Rightarrow> bool" where
  "ring_written buf s src buf' \<longleftrightarrow>
     length buf' = length buf \<and>
     (\<forall>k < length src. buf' ! ((s + k) mod length buf) = src ! k) \<and>
     (\<forall>i < length buf. (\<forall>k < length src. i \<noteq> (s + k) mod length buf) \<longrightarrow> buf' ! i = buf ! i)"

lemma mod_add_cases:
  fixes s c k :: nat
  assumes "0 < c" "k \<le> c"
  shows "(s + k) mod c = (if s mod c + k < c then s mod c + k else s mod c + k - c)"
proof -
  have "(s + k) mod c = (s mod c + k) mod c"
    by (simp add: mod_add_left_eq)
  moreover have "(s mod c + k) mod c = s mod c + k - c" if "\<not> s mod c + k < c"
  proof -
    have "s mod c + k - c < c"
      using assms that mod_less_divisor [of c s] by linarith
    with that show ?thesis
      by (simp add: le_mod_geq)
  qed
  ultimately show ?thesis
    by simp
qed

lemma ring_written_one:
  assumes "src \<noteq> []" "length src \<le> length buf" "s mod length buf < (s + length src) mod length buf"
  shows "\<exists>buf'. copy_at buf (s mod length buf) ((s + length src) mod length buf) src = Some buf' \<and>
                ring_written buf s src buf'"
proof -
  define c a where "c = length buf" and "a = s mod c"
  have c: "0 < c"
    using assms(1,2) by (cases src) (auto simp: c_def)
  have e: "(s + length src) mod c = a + length src" and lt: "a + length src < c"
    using mod_add_cases [OF c, of "length src" s] assms c
    by (auto simp: a_def c_def split: if_splits)
  have slot: "(s + k) mod c = a + k" if "k < length src" for k
    using mod_add_cases [OF c, of k s] that lt by (simp add: a_def)
  define buf' where "buf' = take a buf @ src @ drop (a + length src) buf"
  have "copy_at buf a (a + length src) src = Some buf'"
    using lt by (simp add: copy_at_def buf'_def c_def)
  moreover have "ring_written buf s src buf'"
    unfolding ring_written_def c_def [symmetric]
  proof (intro conjI allI impI)
    show "length buf' = c"
      using lt by (simp add: buf'_def c_def)
    show "buf' ! ((s + k) mod c) = src ! k" if "k < length src" for k
      using that lt slot by (simp add: buf'_def nth_append c_def)
    show "buf' ! i = buf ! i" if "i < c" "\<forall>k < length src. i \<noteq> (s + k) mod c" for i
    proof -
      have "i \<noteq> a + k" if "k < length src" for k
        using that slot \<open>\<forall>k < length src. i \<noteq> (s + k) mod c\<close> by auto
      from this [of "i - a"] have "i < a \<or> a + length src \<le> i"
        by linarith
      then show ?thesis
        using lt that by (auto simp: buf'_def nth_append c_def)
    qed
  qed
  ultimately show ?thesis
    using e by (auto simp: a_def c_def)
qed

lemma ring_written_two:
  assumes "src \<noteq> []" "length src \<le> length buf" "\<not> s mod length buf < (s + length src) mod length buf"
  defines "sp \<equiv> length buf - s mod length buf"
  shows "sp \<le> length src \<and>
    (\<exists>b1 b2. copy_at buf (s mod length buf) (length buf) (take sp src) = Some b1 \<and>
             copy_at b1 0 ((s + length src) mod length buf) (drop sp src) = Some b2 \<and>
             ring_written buf s src b2)"
proof -
  define c a where "c = length buf" and "a = s mod c"
  have c: "0 < c"
    using assms(1,2) by (cases src) (auto simp: c_def)
  have a: "a < c"
    using c by (simp add: a_def)
  have e: "(s + length src) mod c = a + length src - c" and ge: "c \<le> a + length src"
    using mod_add_cases [OF c, of "length src" s] assms c
    by (auto simp: a_def c_def split: if_splits)
  have m: "length src \<le> c" "sp = c - a" "sp \<le> length src"
    using assms(2) ge a by (auto simp: sp_def c_def a_def)
  have slot: "(s + k) mod c = (if a + k < c then a + k else a + k - c)" if "k < length src" for k
    using mod_add_cases [OF c, of k s] that m by (simp add: a_def)
  define b1 where "b1 = take a buf @ take sp src"
  define b2 where "b2 = drop sp src @ drop (a + length src - c) b1"
  have len1: "length b1 = c"
    using m a by (simp add: b1_def c_def)
  have "copy_at buf a c (take sp src) = Some b1"
    using m a by (simp add: copy_at_def b1_def c_def min_def)
  moreover have "copy_at b1 0 (a + length src - c) (drop sp src) = Some b2"
    using m a ge len1 by (simp add: copy_at_def b2_def)
  moreover have "ring_written buf s src b2"
    unfolding ring_written_def c_def [symmetric]
  proof (intro conjI allI impI)
    show "length b2 = c"
      using m a ge len1 by (simp add: b2_def)
    show "b2 ! ((s + k) mod c) = src ! k" if k: "k < length src" for k
    proof (cases "a + k < c")
      case True
      then show ?thesis
        using slot [OF k] m k a len1
        by (auto simp: b2_def b1_def nth_append c_def min_def)
    next
      case False
      then show ?thesis
        using slot [OF k] m k a by (auto simp: b2_def nth_append)
    qed
    show "b2 ! i = buf ! i" if i: "i < c" "\<forall>k < length src. i \<noteq> (s + k) mod c" for i
    proof -
      have "i < a"
      proof (rule ccontr)
        assume "\<not> i < a"
        then show False using i slot [of "i - a"] m a by (auto dest: spec [of _ "i - a"])
      qed
      moreover have "a + length src - c \<le> i"
      proof (rule ccontr)
        assume "\<not> a + length src - c \<le> i"
        then show False using i slot [of "i + c - a"] m a by (auto dest: spec [of _ "i + c - a"])
      qed
      ultimately show ?thesis
        using m a len1 by (auto simp: b2_def b1_def nth_append c_def)
    qed
  qed
  ultimately show ?thesis
    using e m by (auto simp: a_def c_def)
qed

lemma holds_ring_written:
  assumes h: "holds t written" and rw: "ring_written (tb_buf t) s src buf'"
    and src: "src = recent (Capacity t) data" and s: "s = length written + length data - length src"
    and bound: "length written + length data < 2 ^ 64"
  shows "holds (t\<lparr>tb_buf := buf', tb_pos := of_nat (length written + length data)\<rparr>) (written @ data)"
proof -
  define c where "c = Capacity t"
  have c: "0 < c" "c < 2 ^ 63" and len: "length buf' = c"
    using h rw by (simp_all add: holds_def ring_written_def c_def Capacity_def)
  have m: "length src = min c (length data)"
    by (simp add: src recent_def c_def)
  have "buf' ! (j mod c) = (written @ data) ! j"
    if j: "j < length written + length data" "length written + length data \<le> j + c" for j
  proof (cases "s \<le> j")
    case True
    then have k: "j - s < length src"
      using j s m by linarith
    have "buf' ! ((s + (j - s)) mod c) = src ! (j - s)"
      using rw k unfolding ring_written_def c_def Capacity_def by blast
    moreover have "src ! (j - s) = (written @ data) ! j"
      using True k s m j unfolding src recent_def c_def [symmetric]
      by (auto simp: nth_append min_def split: if_splits)
    ultimately show ?thesis
      using True by simp
  next
    case False
    then have "length src < c" and jL: "j < length written" and s_eq: "s = length written"
      using j s m by (auto simp: min_def split: if_splits)
    have "j mod c \<noteq> (s + k) mod c" if "k < length src" for k
    proof
      assume eq: "j mod c = (s + k) mod c"
      have "0 < s + k - j" "s + k - j < c"
        using False j that s m by linarith+
      moreover have "c dvd s + k - j"
        using eq False by (metis le_add1 le_trans linorder_le_cases mod_eq_dvd_iff_nat)
      ultimately show False
        using nat_dvd_not_less by blast
    qed
    moreover have "j mod c < length (tb_buf t)"
      using c by (simp add: c_def Capacity_def)
    ultimately have "buf' ! (j mod c) = tb_buf t ! (j mod c)"
      using rw unfolding ring_written_def c_def Capacity_def by blast
    also have "\<dots> = written ! j"
      using h jL j unfolding holds_def c_def by simp
    finally show ?thesis
      using jL by (simp add: nth_append)
  qed
  moreover have "unat (of_nat (length written + length data) :: u64) = length written + length data"
    by (rule unat_of_nat_small [OF bound])
  ultimately show ?thesis
    using c len bound by (simp add: holds_def Capacity_def c_def)
qed

lemma Write_holds:
  assumes h: "holds t written" and bound: "length written + length data < 2 ^ 64"
  shows "\<exists>t'. Write t data = Some (t', length data) \<and> holds t' (written @ data) \<and>
              Capacity t' = Capacity t"
proof (cases "data = []")
  case True
  with h show ?thesis by (simp add: Write_def)
next
  case False
  define c where "c = length (tb_buf t)"
  define src where "src = recent c data"
  define P where "P = length written + length data"
  define s where "s = P - length src"
  have c: "0 < c" "c < 2 ^ 63"
    using h by (simp_all add: holds_def c_def Capacity_def)
  have uc: "unat (of_nat c :: u64) = c" and ul: "unat (of_nat (length data) :: u64) = length data"
    using c bound by (simp_all add: unat_of_nat_small)
  have pos: "tb_pos t + of_nat (length data) = of_nat P"
  proof -
    have "tb_pos t = of_nat (length written)"
      using h by (simp add: holds_def) (metis of_nat_unat ucast_id)
    then show ?thesis by (simp add: P_def)
  qed
  have uP: "unat (of_nat P :: u64) = P"
    using bound unfolding P_def by (rule unat_of_nat_small)
  have src_ne: "src \<noteq> []" and src_len: "length src \<le> c" "length src \<le> length data"
    using False c by (cases data; simp add: src_def recent_def)+
  have tail: "(if (of_nat (length data) :: u64) > of_nat c
               then slice data (unat ((of_nat (length data) :: u64) - of_nat c)) (length data)
               else Some data) = Some src"
    using c uc ul by (auto simp: src_def recent_def slice_def word_less_nat_alt unat_sub word_le_nat_alt)
  have start: "unat ((of_nat P - of_nat (length src) :: u64) mod of_nat c) = s mod c"
  proof -
    have "(of_nat P - of_nat (length src) :: u64) = of_nat s"
      using src_len by (simp add: s_def P_def of_nat_diff)
    moreover have "unat (of_nat s :: u64) = s"
      using bound by (simp add: s_def P_def unat_of_nat_small)
    ultimately show ?thesis
      by (simp add: unat_mod uc)
  qed
  have endp: "unat ((of_nat P :: u64) mod of_nat c) = (s + length src) mod c"
  proof -
    have "s + length src = P"
      using src_len by (simp add: s_def P_def)
    then show ?thesis by (simp add: unat_mod uc uP)
  qed
  have sp: "unat ((of_nat c :: u64) - of_nat (s mod c)) = c - s mod c"
  proof -
    have "s mod c < c"
      using c by simp
    then have "(of_nat c :: u64) - of_nat (s mod c) = of_nat (c - s mod c)"
      by (simp add: of_nat_diff)
    moreover have "unat (of_nat (c - s mod c) :: u64) = c - s mod c"
      by (rule unat_of_nat_small) (use c in auto)
    ultimately show ?thesis by simp
  qed
  have nz: "(of_nat c :: u64) \<noteq> 0"
    using uc c by (metis less_numeral_extra(3) unat_0)
  have fin: "holds (t\<lparr>tb_buf := buf', tb_pos := of_nat P\<rparr>) (written @ data) \<and> length buf' = c"
    if "ring_written (tb_buf t) s src buf'" for buf'
    using holds_ring_written [OF h that _ _ bound] that
    by (simp add: src_def s_def P_def c_def Capacity_def ring_written_def)
  show ?thesis
  proof (cases "s mod c < (s + length src) mod c")
    case True
    then obtain buf' where "copy_at (tb_buf t) (s mod c) ((s + length src) mod c) src = Some buf'"
      "ring_written (tb_buf t) s src buf'"
      using ring_written_one [OF src_ne, of "tb_buf t" s] src_len by (auto simp: c_def)
    then show ?thesis
      using fin True False
      by (simp add: Write_def Let_def c_def [symmetric] tail pos start endp nz Capacity_def)
  next
    case not_less: False
    then obtain b1 b2 where "c - s mod c \<le> length src"
      "copy_at (tb_buf t) (s mod c) c (take (c - s mod c) src) = Some b1"
      "copy_at b1 0 ((s + length src) mod c) (drop (c - s mod c) src) = Some b2"
      "ring_written (tb_buf t) s src b2"
      using ring_written_two [OF src_ne, of "tb_buf t" s] src_len by (auto simp: c_def)
    then show ?thesis
      using fin not_less False
      by (simp add: Write_def Let_def c_def [symmetric] tail pos start endp nz sp slice_def Capacity_def)
  qed
qed

section \<open>Reading back\<close>

lemma drop_until_append:
  "drop_until predicate p (xs @ ys) =
     (case drop_until predicate p xs of (rest, p') \<Rightarrow>
        if rest = [] then drop_until predicate p' ys else (rest @ ys, p'))"
  by (induction xs arbitrary: p) (auto split: prod.splits)

lemma holds_contents:
  assumes "holds t written"
  defines "e \<equiv> length written mod Capacity t"
  shows "recent (Capacity t) written =
    (if length written < Capacity t then take (length written) (tb_buf t)
     else drop e (tb_buf t) @ take e (tb_buf t))"
proof (cases "length written < Capacity t")
  case True
  then show ?thesis
    using assms(1)
    by (auto simp: recent_def holds_def Capacity_def intro!: nth_equalityI)
next
  case False
  define c where "c = Capacity t"
  define L where "L = length written"
  have c: "0 < c" "length (tb_buf t) = c" "c \<le> L"
    using assms(1) False by (auto simp: holds_def c_def L_def Capacity_def)
  have e: "e < c" "e = L mod c"
    using c by (simp_all add: e_def c_def L_def)
  have "recent c written ! i = (drop e (tb_buf t) @ take e (tb_buf t)) ! i" if i: "i < c" for i
  proof -
    have "recent c written ! i = written ! (L - c + i)"
      using c by (simp add: recent_def L_def)
    also have "\<dots> = tb_buf t ! ((L - c + i) mod c)"
      using assms(1) i c unfolding holds_def c_def L_def by auto
    also have "(L - c + i) mod c = (L + i) mod c"
      using c by (metis Nat.add_diff_assoc2 add_leE le_mod_geq linorder_not_le trans_le_add1)
    also have "\<dots> = (if e + i < c then e + i else e + i - c)"
      using mod_add_cases [OF c(1), of i L] i by (simp add: e(2))
    also have "tb_buf t ! \<dots> = (drop e (tb_buf t) @ take e (tb_buf t)) ! i"
      using c e i by (auto simp: nth_append add.commute)
    finally show ?thesis .
  qed
  moreover have "length (recent c written) = c"
    using c by (simp add: recent_def L_def)
  ultimately have "recent c written = drop e (tb_buf t) @ take e (tb_buf t)"
    using c e by (intro nth_equalityI) auto
  with False show ?thesis by (simp add: c_def)
qed

text \<open>\<open>bytes.Buffer\<close> and \<open>strings.Builder\<close> as writers: they take everything.\<close>

definition buffer_writer :: "byte list writer" where
  "buffer_writer w bs = ((length bs, None), w @ bs)"

lemma WriteToSkippingUntil_holds:
  assumes "holds t written" and out_def: "out = fst (drop_until predicate p (recent (Capacity t) written))"
  shows "WriteToSkippingUntil t buffer_writer predicate w p = Some ((length out, None), w @ out)"
proof -
  define c where "c = Capacity t"
  define L where "L = length written"
  define e where "e = L mod c"
  have c: "0 < c" "c < 2 ^ 63" "length (tb_buf t) = c" and L: "L < 2 ^ 64" "unat (tb_pos t) = L"
    using assms(1) by (auto simp: holds_def c_def L_def Capacity_def)
  have uc: "unat (of_nat c :: u64) = c"
    using c by (simp add: unat_of_nat_small)
  have e: "e < c"
    using c by (simp add: e_def)
  have lt: "tb_pos t < of_nat c \<longleftrightarrow> L < c"
    by (simp add: word_less_nat_alt uc L)
  have end_e: "unat (tb_pos t mod of_nat c) = e"
    by (simp add: unat_mod uc L e_def)
  have nz: "(of_nat c :: u64) \<noteq> 0"
    using uc c by (metis less_numeral_extra(3) unat_0)
  have wd: "writeToDropUntil data buffer_writer predicate w q =
      ((length (fst (drop_until predicate q data)), None), w @ fst (drop_until predicate q data),
       snd (drop_until predicate q data))" for data q w
    by (simp add: writeToDropUntil_def buffer_writer_def split: prod.split)
  have contents: "recent c written = (if L < c then take L (tb_buf t)
     else drop e (tb_buf t) @ take e (tb_buf t))"
    using holds_contents [OF assms(1)] by (simp add: c_def L_def e_def)
  show ?thesis
  proof (cases "L < c")
    case True
    then have "out = fst (drop_until predicate p (take L (tb_buf t)))"
      using contents by (simp add: out_def c_def)
    with True show ?thesis
      by (simp add: WriteToSkippingUntil_def Let_def c lt L wd)
  next
    case False
    obtain rest p' where d: "drop_until predicate p (drop e (tb_buf t)) = (rest, p')"
      by fastforce
    have "out = (if rest = [] then fst (drop_until predicate p' (take e (tb_buf t)))
                 else rest @ take e (tb_buf t))"
      using contents False d by (simp add: out_def c_def drop_until_append)
    with False d e c show ?thesis
      by (cases "e = 0") (auto simp: WriteToSkippingUntil_def Let_def c lt nz end_e wd buffer_writer_def)
  qed
qed

section \<open>Correctness\<close>

datatype tb_call = CallReset | CallWrite "byte list"

fun tb_run :: "tb_call list \<Rightarrow> TailBuffer \<Rightarrow> TailBuffer option" where
  "tb_run [] t = Some t"
| "tb_run (CallReset # cs) t = tb_run cs (Reset t)"
| "tb_run (CallWrite data # cs) t =
     (case Write t data of Some (t', n) \<Rightarrow> tb_run cs t' | None \<Rightarrow> None)"

text \<open>Specification: what has been written since the last reset.\<close>

fun stream :: "tb_call list \<Rightarrow> byte list \<Rightarrow> byte list" where
  "stream [] written = written"
| "stream (CallReset # cs) written = stream cs []"
| "stream (CallWrite data # cs) written = stream cs (written @ data)"

fun bytes_in :: "tb_call list \<Rightarrow> nat" where
  "bytes_in [] = 0"
| "bytes_in (CallReset # cs) = bytes_in cs"
| "bytes_in (CallWrite data # cs) = length data + bytes_in cs"

lemma tb_run_holds:
  "holds t written \<Longrightarrow> length written + bytes_in cs < 2 ^ 64 \<Longrightarrow>
   \<exists>t'. tb_run cs t = Some t' \<and> holds t' (stream cs written) \<and> Capacity t' = Capacity t"
proof (induction cs arbitrary: t written)
  case (Cons c cs)
  show ?case
  proof (cases c)
    case CallReset
    then show ?thesis
      using Cons holds_Reset [of t written] by (fastforce simp: Reset_def Capacity_def)
  next
    case (CallWrite data)
    then obtain t' where "Write t data = Some (t', length data)" "holds t' (written @ data)"
      "Capacity t' = Capacity t"
      using Write_holds [of t written data] Cons.prems by auto
    then show ?thesis
      using Cons.IH [of t' "written @ data"] Cons.prems CallWrite by (auto simp: add.assoc)
  qed
qed simp

text \<open>
  C7: The ring buffer is a correct tail: after any sequence of writes, of any sizes, and
  resets, no operation panics and reading back gives exactly the last \<open>capacity\<close> bytes written
  since the last reset, in order, less the prefix that the predicate rejects, wherever the
  content wraps around in the storage and wherever the rejected prefix ends. This needs a
  capacity of at least one and fewer than \<open>2 ^ 64\<close> bytes in total.
\<close>

theorem TailBuffer_is_tail:
  assumes "0 < capacity" "capacity < 2 ^ 63" "bytes_in cs < 2 ^ 64"
  shows "\<exists>t. tb_run cs (NewTailBuffer capacity) = Some t \<and>
    (let out = fst (drop_until predicate p (recent capacity (stream cs [])))
     in WriteToSkippingUntil t buffer_writer predicate w p = Some ((length out, None), w @ out))"
proof -
  obtain t where "tb_run cs (NewTailBuffer capacity) = Some t" "holds t (stream cs [])"
    "Capacity t = Capacity (NewTailBuffer capacity)"
    using tb_run_holds [OF holds_New [OF assms(1,2)], of cs] assms(3) by auto
  then show ?thesis
    using WriteToSkippingUntil_holds [OF _ refl, of t "stream cs []" predicate w p]
    by (auto simp: Let_def Capacity_def NewTailBuffer_def)
qed

text \<open>The test \<open>TestMultiWriteMultiWrap\<close>, on digits.\<close>

theorem TailBuffer_is_tail_witness:
  "\<exists>t. tb_run [CallWrite [1, 2], CallWrite [3, 4, 5], CallWrite [6], CallWrite [7, 8, 9, 0],
          CallWrite [3, 4]] (NewTailBuffer 5) = Some t \<and>
     WriteToSkippingUntil t buffer_writer always [] () = Some ((length [8, 9, 0, 3, 4 :: byte], None), [8, 9, 0, 3, 4])"
  using TailBuffer_is_tail [of 5 "[CallWrite [1, 2], CallWrite [3, 4, 5], CallWrite [6],
      CallWrite [7, 8, 9, 0], CallWrite [3, 4]]" always "()" "[]"]
  by (simp add: recent_def always_def Let_def del: tb_run.simps)

text \<open>
  A buffer of capacity zero panics at the first non-empty write, by the division in the index
  computation.
\<close>

lemma TailBuffer_zero_capacity:
  "Write (NewTailBuffer 0) data = None \<longleftrightarrow> data \<noteq> []"
  by (auto simp: Write_def NewTailBuffer_def slice_def Let_def unat_of_nat)

lemma IsLineStart_simps [simp]:
  "IsLineStart True b = (True, True)" "IsLineStart False b = (False, b = 10)"
  by (simp_all add: IsLineStart_def)

lemma drop_until_IsLineStart_True: "fst (drop_until IsLineStart True bs) = bs"
  by (cases bs) simp_all

lemma drop_until_IsLineStart:
  "fst (drop_until IsLineStart False bs) = drop (Suc (length (takeWhile (\<lambda>b. b \<noteq> 10) bs))) bs"
  by (induction bs) (auto simp: drop_until_IsLineStart_True)

end
