(* ===== verification/CrosvmInstance.thy ===== *)
theory CrosvmInstance
  imports Model TailBuf "HOL-Library.Multiset"
begin

text \<open>
  The life of one crosvm virtual machine (\<open>crosvm/internal/instance/instance.go\<close>): the state
  guarded by the instance's lock, the exit channel of capacity one, and the goroutines that
  run beside the callers. Every operation is a function on the state; the relation \<open>step\<close> lets
  them interleave as the lock allows. The lock is held from a begin step to the matching
  receive or time-out step; only the goroutine that waits for the process acts without it.
\<close>

section \<open>State\<close>

datatype instanceStatus = instanceStatusStopped | instanceStatusRunning | instanceStatusClosed

datatype instanceExitType = instanceExitTypeNone | instanceExitTypeSuccess | instanceExitTypeError

datatype instanceRestartMode = instanceRestartModeNever | instanceRestartModeUnlessStopped

datatype holder = Free | HoldStop | HoldClose | HoldWait | HoldResend instanceExitType

text \<open>
  Beside the fields of \<open>Instance\<close> that change: the lock; \<open>in_alive\<close>, the start numbers of the
  processes whose \<open>waitForExit\<close> goroutine still waits; \<open>in_exited\<close>, those of the goroutines that
  have put an exit into the channel and are about to take the lock in \<open>handleUnclaimedExit\<close>;
  \<open>in_restarts\<close>, the number of spawned \<open>restart\<close> goroutines; \<open>in_notified\<close>, the statuses passed
  to the status handler; \<open>in_released\<close>, whether network, log and state directory are released.
\<close>

record inst =
  in_restartMode :: instanceRestartMode
  in_status :: instanceStatus
  in_exitChan :: "instanceExitType list"
  in_lastExit :: instanceExitType
  in_startCount :: "32 word"
  in_lock :: holder
  in_alive :: "32 word multiset"
  in_exited :: "32 word multiset"
  in_restarts :: nat
  in_notified :: "string list"
  in_released :: bool

datatype inst_error = errAlreadyClosed | StartFailed | TeardownFailed

definition new_inst :: "bool \<Rightarrow> inst" where
  "new_inst oneShot =
     \<lparr>in_restartMode = (if oneShot then instanceRestartModeNever else instanceRestartModeUnlessStopped),
      in_status = instanceStatusStopped, in_exitChan = [], in_lastExit = instanceExitTypeNone,
      in_startCount = 0, in_lock = Free, in_alive = {#}, in_exited = {#}, in_restarts = 0,
      in_notified = [], in_released = False\<rparr>"

section \<open>Operations\<close>

text \<open>\<open>Start\<close>; \<open>started\<close> tells whether the command could be started.\<close>

definition Start :: "bool \<Rightarrow> inst \<Rightarrow> inst_error option \<times> inst" where
  "Start started i =
     (if in_status i = instanceStatusRunning then (None, i)
      else if in_status i = instanceStatusClosed then (Some errAlreadyClosed, i)
      else if \<not> started then (Some StartFailed, i)
      else
        let n = in_startCount i + 1
        in (None, i\<lparr>in_startCount := n, in_status := instanceStatusRunning,
                    in_alive := add_mset n (in_alive i)\<rparr>))"

text \<open>\<open>Stop\<close> up to the wait for the exit, and the receive of the exit.\<close>

definition Stop_begin :: "inst \<Rightarrow> inst" where
  "Stop_begin i =
     (if in_status i \<noteq> instanceStatusRunning then i else i\<lparr>in_lock := HoldStop\<rparr>)"

definition Stop_receive :: "instanceExitType \<Rightarrow> inst \<Rightarrow> inst" where
  "Stop_receive e i =
     i\<lparr>in_exitChan := tl (in_exitChan i), in_status := instanceStatusStopped,
       in_lastExit := e, in_lock := Free\<rparr>"

text \<open>
  \<open>Close\<close>: its end tears down the network and releases the log and the state directory;
  \<open>torn\<close> tells whether the network could be torn down. An error skips the rest.
\<close>

definition Close_end :: "bool \<Rightarrow> inst \<Rightarrow> inst_error option \<times> inst" where
  "Close_end torn i =
     (if \<not> torn then (Some TeardownFailed, i\<lparr>in_lock := Free\<rparr>)
      else (None, i\<lparr>in_released := True, in_lock := Free\<rparr>))"

definition Close_begin :: "bool \<Rightarrow> inst \<Rightarrow> inst_error option \<times> inst" where
  "Close_begin torn i =
     (case in_status i of
        instanceStatusClosed \<Rightarrow> (None, i)
      | instanceStatusRunning \<Rightarrow> (None, i\<lparr>in_lock := HoldClose\<rparr>)
      | instanceStatusStopped \<Rightarrow> Close_end torn (i\<lparr>in_status := instanceStatusClosed\<rparr>))"

definition Close_receive :: "bool \<Rightarrow> instanceExitType \<Rightarrow> inst \<Rightarrow> inst_error option \<times> inst" where
  "Close_receive torn e i =
     Close_end torn
       (i\<lparr>in_exitChan := tl (in_exitChan i), in_status := instanceStatusClosed, in_lastExit := e\<rparr>)"

text \<open>\<open>WaitForExit\<close> takes the exit out of the channel and puts it back.\<close>

definition WaitForExit_begin :: "inst \<Rightarrow> inst" where
  "WaitForExit_begin i =
     (if in_status i \<noteq> instanceStatusRunning then i else i\<lparr>in_lock := HoldWait\<rparr>)"

definition WaitForExit_receive :: "instanceExitType \<Rightarrow> inst \<Rightarrow> inst" where
  "WaitForExit_receive e i = i\<lparr>in_exitChan := tl (in_exitChan i), in_lock := HoldResend e\<rparr>"

definition WaitForExit_resend :: "instanceExitType \<Rightarrow> inst \<Rightarrow> inst" where
  "WaitForExit_resend e i = i\<lparr>in_exitChan := in_exitChan i @ [e], in_lock := Free\<rparr>"

text \<open>
  \<open>waitForExit\<close> after the process of start number \<open>n\<close> has exited: the send that does not
  block. The second component tells whether the branch "this should never happen" is taken.
\<close>

definition waitForExit :: "32 word \<Rightarrow> instanceExitType \<Rightarrow> inst \<Rightarrow> inst \<times> bool" where
  "waitForExit n e i =
     (let i' = i\<lparr>in_alive := in_alive i - {#n#}\<rparr> in
      if length (in_exitChan i) < 1
      then (i'\<lparr>in_exitChan := in_exitChan i @ [e], in_exited := add_mset n (in_exited i)\<rparr>, False)
      else (i', True))"

definition notifyStatusChange :: "string \<Rightarrow> inst \<Rightarrow> inst" where
  "notifyStatusChange updatedStatus i = i\<lparr>in_notified := in_notified i @ [updatedStatus]\<rparr>"

definition restart :: "inst \<Rightarrow> inst" where
  "restart i = i\<lparr>in_restarts := Suc (in_restarts i)\<rparr>"

definition handleUnclaimedExit :: "32 word \<Rightarrow> inst \<Rightarrow> inst" where
  "handleUnclaimedExit startNum i0 =
     (let i = i0\<lparr>in_exited := in_exited i0 - {#startNum#}\<rparr> in
      if startNum \<noteq> in_startCount i then i
      else (case in_exitChan i of
              [] \<Rightarrow> i
            | exit # rest \<Rightarrow>
                let i = i\<lparr>in_exitChan := rest, in_status := instanceStatusStopped, in_lastExit := exit\<rparr>
                in if in_restartMode i = instanceRestartModeNever
                   then if exit = instanceExitTypeSuccess
                        then notifyStatusChange SERVICE_COMPLETED i
                        else notifyStatusChange SERVICE_DEAD i
                   else restart (notifyStatusChange SERVICE_DEAD i)))"

section \<open>Interleavings\<close>

datatype label =
    CallStart bool | CallStop | StopReceives | StopTimesOut
  | CallClose bool | CloseReceives bool | CloseTimesOut
  | CallWaitForExit | WaitReceives | WaitResends | WaitTimesOut
  | ProcessExits "32 word" instanceExitType | HandlerRuns "32 word" | RestartRuns bool

inductive step :: "inst \<Rightarrow> label \<Rightarrow> inst \<Rightarrow> bool" where
  start: "in_lock i = Free \<Longrightarrow> step i (CallStart ok) (snd (Start ok i))"
| stop: "in_lock i = Free \<Longrightarrow> step i CallStop (Stop_begin i)"
| stop_receive: "in_lock i = HoldStop \<Longrightarrow> in_exitChan i = e # es \<Longrightarrow>
    step i StopReceives (Stop_receive e i)"
| stop_timeout: "in_lock i = HoldStop \<Longrightarrow> step i StopTimesOut (i\<lparr>in_lock := Free\<rparr>)"
| close: "in_lock i = Free \<Longrightarrow> step i (CallClose torn) (snd (Close_begin torn i))"
| close_receive: "in_lock i = HoldClose \<Longrightarrow> in_exitChan i = e # es \<Longrightarrow>
    step i (CloseReceives torn) (snd (Close_receive torn e i))"
| close_timeout: "in_lock i = HoldClose \<Longrightarrow> step i CloseTimesOut (i\<lparr>in_lock := Free\<rparr>)"
| wait: "in_lock i = Free \<Longrightarrow> step i CallWaitForExit (WaitForExit_begin i)"
| wait_receive: "in_lock i = HoldWait \<Longrightarrow> in_exitChan i = e # es \<Longrightarrow>
    step i WaitReceives (WaitForExit_receive e i)"
| wait_resend: "in_lock i = HoldResend e \<Longrightarrow> length (in_exitChan i) < 1 \<Longrightarrow>
    step i WaitResends (WaitForExit_resend e i)"
| wait_timeout: "in_lock i = HoldWait \<Longrightarrow> step i WaitTimesOut (i\<lparr>in_lock := Free\<rparr>)"
| exits: "n \<in># in_alive i \<Longrightarrow> e \<noteq> instanceExitTypeNone \<Longrightarrow>
    step i (ProcessExits n e) (fst (waitForExit n e i))"
| handler: "in_lock i = Free \<Longrightarrow> n \<in># in_exited i \<Longrightarrow>
    step i (HandlerRuns n) (handleUnclaimedExit n i)"
| restarts: "in_lock i = Free \<Longrightarrow> in_restarts i = Suc k \<Longrightarrow>
    step i (RestartRuns ok) (snd (Start ok (i\<lparr>in_restarts := k\<rparr>)))"

inductive_cases stepE: "step i l i'"

inductive run :: "inst \<Rightarrow> label list \<Rightarrow> inst \<Rightarrow> bool" where
  run_Nil: "run i [] i"
| run_snoc: "run i ls i' \<Longrightarrow> step i' l i'' \<Longrightarrow> run i (ls @ [l]) i''"

definition reachable :: "inst \<Rightarrow> bool" where
  "reachable i \<longleftrightarrow> (\<exists>oneShot ls. run (new_inst oneShot) ls i)"

section \<open>The invariant\<close>

text \<open>
  A running instance has exactly one exit ahead: its process is alive, or its exit is in the
  channel, or a waiting caller is about to put it back; and whenever an exit is there to be
  claimed, the handler of the current start is still to run.
\<close>

definition resending :: "inst \<Rightarrow> nat" where
  "resending i = (case in_lock i of HoldResend _ \<Rightarrow> 1 | _ \<Rightarrow> 0)"

definition exits_ahead :: "inst \<Rightarrow> nat" where
  "exits_ahead i = size (in_alive i) + length (in_exitChan i) + resending i"

definition inst_inv :: "inst \<Rightarrow> bool" where
  "inst_inv i \<longleftrightarrow>
     exits_ahead i = (if in_status i = instanceStatusRunning then 1 else 0) \<and>
     (\<forall>n. n \<in># in_alive i \<longrightarrow> n = in_startCount i) \<and>
     (length (in_exitChan i) + resending i > 0 \<longrightarrow> in_startCount i \<in># in_exited i) \<and>
     (in_lock i \<noteq> Free \<longrightarrow> in_status i = instanceStatusRunning) \<and>
     (in_released i \<longrightarrow> in_status i = instanceStatusClosed)"

lemma inst_inv_new [simp]: "inst_inv (new_inst oneShot)"
  by (simp add: inst_inv_def new_inst_def exits_ahead_def resending_def)

lemmas inst_op_defs =
  Start_def Stop_begin_def Stop_receive_def Close_end_def Close_begin_def Close_receive_def
  WaitForExit_begin_def WaitForExit_receive_def WaitForExit_resend_def waitForExit_def
  handleUnclaimedExit_def notifyStatusChange_def restart_def

lemmas inst_inv_defs = inst_inv_def exits_ahead_def resending_def

lemma inst_inv_Start:
  "inst_inv i \<Longrightarrow> in_lock i = Free \<Longrightarrow> inst_inv (snd (Start ok i))"
  by (auto simp: inst_inv_defs Start_def Let_def split: if_splits)

lemma inst_inv_Close_begin:
  "inst_inv i \<Longrightarrow> in_lock i = Free \<Longrightarrow> inst_inv (snd (Close_begin torn i))"
  by (auto simp: inst_inv_defs Close_begin_def Close_end_def split: instanceStatus.splits)

lemma inst_inv_waitForExit:
  assumes "inst_inv i" "n \<in># in_alive i"
  shows "inst_inv (fst (waitForExit n e i)) \<and> \<not> snd (waitForExit n e i)"
proof -
  have "size (in_alive i) > 0"
    using assms(2) by (metis nonempty_has_size empty_not_add_mset mset_add)
  moreover have "exits_ahead i \<le> 1" "n = in_startCount i"
    using assms by (auto simp: inst_inv_def)
  ultimately have "in_exitChan i = []" "resending i = 0" "in_alive i = {#n#}"
    using assms(2) by (auto simp: exits_ahead_def size_1_singleton_mset dest!: multi_member_split)
  then show ?thesis
    using assms by (auto simp: inst_inv_defs waitForExit_def Let_def split: holder.splits)
qed

lemma in_remove_other: "a \<in># M \<Longrightarrow> b \<noteq> a \<Longrightarrow> a \<in># M - {#b#}"
  by (simp add: in_diff_count count_greater_zero_iff)

lemma inst_inv_handle:
  assumes "inst_inv i" "in_lock i = Free" "n \<in># in_exited i"
  shows "inst_inv (handleUnclaimedExit n i)"
  using assms
  by (auto simp: inst_inv_defs handleUnclaimedExit_def notifyStatusChange_def restart_def Let_def
      in_remove_other split: list.splits if_splits)

lemma inst_inv_step: "step i l i' \<Longrightarrow> inst_inv i \<Longrightarrow> inst_inv i'"
proof (induction rule: step.induct)
  case (start i ok) then show ?case by (simp add: inst_inv_Start)
next
  case (stop i) then show ?case by (auto simp: inst_inv_defs Stop_begin_def)
next
  case (stop_receive i e es) then show ?case by (auto simp: inst_inv_defs Stop_receive_def split: if_splits)
next
  case (stop_timeout i) then show ?case by (auto simp: inst_inv_defs)
next
  case (close i torn) then show ?case by (simp add: inst_inv_Close_begin)
next
  case (close_receive i e es torn)
  then show ?case by (auto simp: inst_inv_defs Close_receive_def Close_end_def split: if_splits)
next
  case (close_timeout i) then show ?case by (auto simp: inst_inv_defs)
next
  case (wait i) then show ?case by (auto simp: inst_inv_defs WaitForExit_begin_def)
next
  case (wait_receive i e es)
  then show ?case by (auto simp: inst_inv_defs WaitForExit_receive_def split: if_splits)
next
  case (wait_resend i e) then show ?case by (auto simp: inst_inv_defs WaitForExit_resend_def)
next
  case (wait_timeout i) then show ?case by (auto simp: inst_inv_defs)
next
  case (exits n i e) then show ?case by (simp add: inst_inv_waitForExit)
next
  case (handler i n) then show ?case by (simp add: inst_inv_handle)
next
  case (restarts i k ok)
  then have "inst_inv (i\<lparr>in_restarts := k\<rparr>)"
    by (simp add: inst_inv_defs)
  with restarts show ?case by (simp add: inst_inv_Start)
qed

lemma inst_inv_run: "run i ls i' \<Longrightarrow> inst_inv i \<Longrightarrow> inst_inv i'"
  by (induction rule: run.induct) (auto intro: inst_inv_step)

lemma inst_inv_reachable: "reachable i \<Longrightarrow> inst_inv i"
  unfolding reachable_def using inst_inv_run inst_inv_new by blast

section \<open>What the invariant gives\<close>

text \<open>
  C1: No exit of a virtual machine is lost and no goroutine blocks on the exit channel, under
  every interleaving of starts, stops, closes, waits, process exits, handlers and restarts:
  the branch of \<open>waitForExit\<close> that "should never happen" is unreachable, putting an exit back
  in \<open>WaitForExit\<close> finds the channel empty, and whenever an exit is in the channel and the lock
  is free, the handler of that start is still to run and will record exactly that exit.
\<close>

theorem exits_never_lost:
  assumes "reachable i"
  shows "(\<forall>n e. n \<in># in_alive i \<longrightarrow> \<not> snd (waitForExit n e i)) \<and>
    (\<forall>e. in_lock i = HoldResend e \<longrightarrow> in_exitChan i = []) \<and>
    (\<forall>e es. in_exitChan i = e # es \<and> in_lock i = Free \<longrightarrow>
       es = [] \<and> in_startCount i \<in># in_exited i \<and>
       in_lastExit (handleUnclaimedExit (in_startCount i) i) = e \<and>
       in_status (handleUnclaimedExit (in_startCount i) i) = instanceStatusStopped \<and>
       length (in_notified (handleUnclaimedExit (in_startCount i) i)) = Suc (length (in_notified i)))"
proof -
  have inv: "inst_inv i"
    using assms by (rule inst_inv_reachable)
  then have one: "exits_ahead i \<le> 1"
    by (simp add: inst_inv_def)
  have "in_exitChan i = []" if "in_lock i = HoldResend e" for e
    using one that by (simp add: exits_ahead_def resending_def)
  moreover have "es = []" "in_startCount i \<in># in_exited i" if "in_exitChan i = e # es" for e es
    using one inv that by (auto simp: exits_ahead_def inst_inv_def)
  ultimately show ?thesis
    using inst_inv_waitForExit [OF inv]
    by (auto simp: handleUnclaimedExit_def notifyStatusChange_def restart_def Let_def)
qed

text \<open>A scenario: a service that is not one-shot starts and its machine crashes.\<close>

definition crashed :: inst where
  "crashed = fst (waitForExit 1 instanceExitTypeError (snd (Start True (new_inst False))))"

definition crash_handled :: inst where
  "crash_handled = handleUnclaimedExit 1 crashed"

lemmas crash_defs = crashed_def crash_handled_def new_inst_def inst_op_defs

lemma run_crashed: "run (new_inst False) ([CallStart True] @ [ProcessExits 1 instanceExitTypeError]) crashed"
proof -
  have "run (new_inst False) ([] @ [CallStart True]) (snd (Start True (new_inst False)))"
    by (rule run_snoc [OF run_Nil step.start]) (simp add: new_inst_def)
  then have "run (new_inst False) [CallStart True] (snd (Start True (new_inst False)))"
    by simp
  then show ?thesis
    unfolding crashed_def
    by (rule run_snoc) (rule step.exits; simp add: Start_def new_inst_def Let_def)
qed

lemma reachable_crashed: "reachable crashed"
  using run_crashed unfolding reachable_def by blast

lemma reachable_step: "reachable i \<Longrightarrow> step i l i' \<Longrightarrow> reachable i'"
  unfolding reachable_def by (blast intro: run_snoc)

lemma reachable_crash_handled: "reachable crash_handled"
proof -
  have "step crashed (HandlerRuns 1) crash_handled"
    unfolding crash_handled_def by (rule step.handler) (simp_all add: crash_defs)
  then show ?thesis
    by (rule reachable_step [OF reachable_crashed])
qed

theorem exits_never_lost_witness:
  "in_lastExit (handleUnclaimedExit 1 crashed) = instanceExitTypeError \<and>
   in_status (handleUnclaimedExit 1 crashed) = instanceStatusStopped"
proof -
  have "in_exitChan crashed = [instanceExitTypeError]" "in_lock crashed = Free" "in_startCount crashed = 1"
    by (simp_all add: crash_defs)
  then show ?thesis
    using exits_never_lost [OF reachable_crashed] by simp
qed

lemma closed_step:
  "step i l i' \<Longrightarrow> inst_inv i \<Longrightarrow> in_status i = instanceStatusClosed \<Longrightarrow>
   in_status i' = instanceStatusClosed \<and> in_startCount i' = in_startCount i \<and> in_notified i' = in_notified i"
  by (induction rule: step.induct)
     (auto simp: inst_inv_defs inst_op_defs Let_def split: list.splits if_splits)

lemma closed_run:
  "run i ls i' \<Longrightarrow> inst_inv i \<Longrightarrow> in_status i = instanceStatusClosed \<Longrightarrow>
   in_status i' = instanceStatusClosed \<and> in_startCount i' = in_startCount i \<and> in_notified i' = in_notified i"
proof (induction rule: run.induct)
  case (run_snoc i ls i' l i'')
  then show ?case
    using closed_step inst_inv_run by metis
qed simp

text \<open>
  C24: At most one process of an instance is alive at any time, only while the instance is
  running; and a closed instance has none and stays closed: whatever runs afterwards, pending
  restarts and handlers included, no machine is started and no status is reported.
\<close>

theorem closed_is_final:
  assumes "reachable i"
  shows "size (in_alive i) \<le> 1 \<and>
    (in_alive i \<noteq> {#} \<longrightarrow> in_status i = instanceStatusRunning) \<and>
    (in_status i = instanceStatusClosed \<longrightarrow>
       (\<forall>ls i'. run i ls i' \<longrightarrow> in_status i' = instanceStatusClosed \<and> in_alive i' = {#} \<and>
          in_startCount i' = in_startCount i \<and> in_notified i' = in_notified i))"
proof -
  have inv: "inst_inv i"
    using assms by (rule inst_inv_reachable)
  have "in_alive i' = {#}" if "in_status i' = instanceStatusClosed" "inst_inv i'" for i'
    using that by (simp add: inst_inv_def exits_ahead_def)
  moreover have "size (in_alive i) \<le> 1" "in_alive i \<noteq> {#} \<Longrightarrow> in_status i = instanceStatusRunning"
    using inv by (auto simp: inst_inv_def exits_ahead_def split: if_splits)
  ultimately show ?thesis
    using closed_run [OF _ inv] inst_inv_run [OF _ inv] by meson
qed

theorem closed_is_final_witness:
  "\<not> (\<exists>ls i'. run (snd (Close_begin True crash_handled)) ls i' \<and> (in_alive i' \<noteq> {#} \<or> in_startCount i' = 2))"
proof -
  have "step crash_handled (CallClose True) (snd (Close_begin True crash_handled))"
    by (rule step.close) (simp add: crash_defs)
  then have r: "reachable (snd (Close_begin True crash_handled))"
    by (rule reachable_step [OF reachable_crash_handled])
  have "in_status (snd (Close_begin True crash_handled)) = instanceStatusClosed"
    "in_startCount (snd (Close_begin True crash_handled)) = 1"
    by (simp_all add: crash_defs)
  then show ?thesis
    using closed_is_final [OF r] by fastforce
qed

definition claims :: "label list \<Rightarrow> nat" where
  "claims ls = length (filter (\<lambda>l. l = StopReceives \<or> (\<exists>torn. l = CloseReceives torn)) ls)"

definition restarts_run :: "label list \<Rightarrow> nat" where
  "restarts_run ls = length (filter (\<lambda>l. \<exists>ok. l = RestartRuns ok) ls)"

definition accounted :: "bool \<Rightarrow> inst \<Rightarrow> label list \<Rightarrow> bool" where
  "accounted oneShot i ls \<longleftrightarrow>
     in_startCount i = of_nat (length (in_notified i) + claims ls +
                               (if in_status i = instanceStatusRunning then 1 else 0)) \<and>
     in_restartMode i = in_restartMode (new_inst oneShot) \<and>
     (if oneShot
      then in_restarts i = 0 \<and> set (in_notified i) \<subseteq> {SERVICE_COMPLETED, SERVICE_DEAD}
      else in_restarts i + restarts_run ls = length (in_notified i) \<and>
           set (in_notified i) \<subseteq> {SERVICE_DEAD})"

lemma accounted_step:
  assumes "step i l i'" "inst_inv i" "accounted oneShot i ls"
  shows "accounted oneShot i' (ls @ [l])"
  using assms
proof (induction rule: step.induct)
  case (handler i n)
  then show ?case
    by (auto simp: accounted_def claims_def restarts_run_def inst_inv_defs inst_op_defs new_inst_def
        Let_def split: list.splits if_splits)
qed (auto simp: accounted_def claims_def restarts_run_def inst_inv_defs inst_op_defs new_inst_def
      Let_def split: if_splits instanceStatus.splits)

text \<open>
  C32: Every start is accounted for exactly once: the start counter is the number of statuses
  reported, of exits claimed by \<open>Stop\<close> or \<open>Close\<close>, and of the machine still running. A service
  that is not one-shot reports only DEAD and spawns one restart per report; a one-shot service
  reports COMPLETED or DEAD and is never restarted.
\<close>

theorem starts_accounted:
  assumes "run (new_inst oneShot) ls i"
  shows "accounted oneShot i ls"
proof -
  have "run i0 ls i \<Longrightarrow> i0 = new_inst oneShot \<Longrightarrow> accounted oneShot i ls" for i0
  proof (induction rule: run.induct)
    case (run_Nil i)
    then show ?case
      by (simp add: accounted_def claims_def restarts_run_def new_inst_def)
  next
    case (run_snoc i ls i' l i'')
    then show ?case
      using accounted_step inst_inv_run inst_inv_new by metis
  qed
  then show ?thesis using assms by simp
qed

theorem starts_accounted_witness:
  "accounted False crashed ([CallStart True] @ [ProcessExits 1 instanceExitTypeError])"
  by (rule starts_accounted) (rule run_crashed)

section \<open>Two gaps\<close>

text \<open>
  A stop does not hold against a pending restart: there is a reachable state, after a crash
  was handled and before the spawned restart took the lock, in which \<open>Stop\<close> succeeds without
  doing anything, and the restart then starts the machine again, although the instance is
  documented to restart only when it was not stopped before.
\<close>

theorem stop_undone_by_restart:
  "\<exists>i i'. reachable i \<and> in_status i = instanceStatusStopped \<and>
     step i CallStop i \<and> step i (RestartRuns True) i' \<and> in_status i' = instanceStatusRunning"
proof -
  have free: "in_lock crash_handled = Free" "in_restarts crash_handled = Suc 0"
    "in_status crash_handled = instanceStatusStopped"
    by (simp_all add: crash_defs)
  have "step crash_handled CallStop (Stop_begin crash_handled)"
    by (rule step.stop) (rule free)
  moreover have "Stop_begin crash_handled = crash_handled"
    by (simp add: Stop_begin_def free)
  moreover have "step crash_handled (RestartRuns True) (snd (Start True (crash_handled\<lparr>in_restarts := 0\<rparr>)))"
    by (rule step.restarts) (rule free)+
  moreover have "in_status (snd (Start True (crash_handled\<lparr>in_restarts := 0\<rparr>))) = instanceStatusRunning"
    using free by (simp add: Start_def Let_def)
  ultimately show ?thesis
    using reachable_crash_handled free(3) by metis
qed

text \<open>
  A close whose network teardown fails cannot be retried: the instance is closed all the
  same, so a second \<open>Close\<close> returns no error and neither tears down the network nor releases
  the log and the state directory.
\<close>

theorem Close_retry_releases_nothing:
  "in_status i = instanceStatusStopped \<longrightarrow>
     fst (Close_begin False i) = Some TeardownFailed \<and>
     fst (Close_begin torn (snd (Close_begin False i))) = None \<and>
     in_released (snd (Close_begin torn (snd (Close_begin False i)))) = in_released i"
  by (simp add: Close_begin_def Close_end_def)

theorem Close_retry_releases_nothing_witness:
  "fst (Close_begin True (snd (Close_begin False crash_handled))) = None \<and>
   \<not> in_released (snd (Close_begin True (snd (Close_begin False crash_handled))))"
proof -
  have "in_status crash_handled = instanceStatusStopped" "\<not> in_released crash_handled"
    by (simp_all add: crash_defs)
  then show ?thesis
    using Close_retry_releases_nothing [of crash_handled True] by simp
qed

section \<open>The output of an instance\<close>

text \<open>
  The output buffer of an instance as \<open>NewInstance\<close> leaves it, 8192 bytes with an initial
  newline, after the virtual machine has written \<open>chunks\<close>; and \<open>GatherLogs\<close>.
\<close>

definition output_calls :: "byte list list \<Rightarrow> tb_call list" where
  "output_calls chunks = CallWrite [10] # map CallWrite chunks"

definition GatherLogs :: "TailBuffer \<Rightarrow> byte list option" where
  "GatherLogs t =
     (case WriteToSkippingUntil t buffer_writer IsLineStart [] False of
        Some (_, output) \<Rightarrow> Some output | None \<Rightarrow> None)"

lemma stream_CallWrite: "stream (map CallWrite chunks) written = written @ concat chunks"
  by (induction chunks arbitrary: written) auto

lemma bytes_in_CallWrite: "bytes_in (map CallWrite chunks) = length (concat chunks)"
  by (induction chunks) auto

text \<open>
  The logs reported of a virtual machine are whole lines from its latest output: complete
  while it fits into the buffer, thanks to the initial newline, and otherwise what follows the
  first newline among the last 8192 bytes, so never a partial first line.
\<close>

theorem GatherLogs_lines:
  assumes "length (concat chunks) < 2 ^ 63"
  shows "\<exists>t. tb_run (output_calls chunks) (NewTailBuffer 8192) = Some t \<and>
    GatherLogs t =
      Some (if length (concat chunks) < 8192 then concat chunks
            else drop 1 (dropWhile (\<lambda>b. b \<noteq> 10) (recent 8192 (concat chunks))))"
proof -
  obtain t where t: "tb_run (output_calls chunks) (NewTailBuffer 8192) = Some t"
    "holds t (10 # concat chunks)" "Capacity t = 8192"
    using tb_run_holds [OF holds_New [of 8192], of "output_calls chunks"] assms
    by (auto simp: output_calls_def stream_CallWrite bytes_in_CallWrite Capacity_def NewTailBuffer_def)
  have "GatherLogs t = Some (fst (drop_until IsLineStart False (recent 8192 (10 # concat chunks))))"
    using WriteToSkippingUntil_holds [OF t(2) refl, of IsLineStart "[]" False]
    by (simp add: GatherLogs_def t(3))
  moreover have "recent 8192 (10 # concat chunks) =
      (if length (concat chunks) < 8192 then 10 # concat chunks else recent 8192 (concat chunks))"
    by (auto simp: recent_def drop_Cons')
  moreover have "drop (Suc (length (takeWhile P bs))) bs = drop 1 (dropWhile P bs)" for P and bs :: "byte list"
    by (simp add: dropWhile_eq_drop)
  ultimately show ?thesis
    using t(1) by (auto simp: drop_until_IsLineStart)
qed

theorem GatherLogs_lines_witness:
  "\<exists>t. tb_run (output_calls [[104, 105, 10], [33]]) (NewTailBuffer 8192) = Some t \<and>
       GatherLogs t = Some [104, 105, 10, 33]"
  using GatherLogs_lines [of "[[104, 105, 10], [33]]"] by simp

end

