(* ===== verification/Json.thy ===== *)
theory Json
  imports GoStrings
begin

text \<open>
  JSON values as \<open>encoding/json\<close> writes and reads them: integers, strings, booleans, arrays and
  objects in the order of their fields. The helpers write fields as the struct tags say, and
  read a field of an object into a struct field that holds a value already.
\<close>

section \<open>Values and encoding\<close>

datatype jval = JvNull | JvBool bool | JvInt int | JvStr string | JvArr "jval list"
  | JvObj "(string \<times> jval) list"

text \<open>Fields marked \<open>omitempty\<close>, of pointer and of slice type; and slices without the mark.\<close>

definition opt_field :: "string \<Rightarrow> ('a \<Rightarrow> jval) \<Rightarrow> 'a option \<Rightarrow> (string \<times> jval) list" where
  "opt_field key f x = (case x of None \<Rightarrow> [] | Some v \<Rightarrow> [(key, f v)])"

definition list_field :: "string \<Rightarrow> ('a \<Rightarrow> jval) \<Rightarrow> 'a list \<Rightarrow> (string \<times> jval) list" where
  "list_field key f xs = (if xs = [] then [] else [(key, JvArr (map f xs))])"

definition slice_value :: "('a \<Rightarrow> jval) \<Rightarrow> 'a list \<Rightarrow> jval" where
  "slice_value f xs = (if xs = [] then JvNull else JvArr (map f xs))"

section \<open>Decoding\<close>

type_synonym 'a decoder = "'a \<Rightarrow> jval \<Rightarrow> string + 'a"

text \<open>
  Decoders take the value the field holds and return the value it holds afterwards: \<open>null\<close>
  leaves it, a value of another type is an error. Keys match without regard to case, and every
  match is decoded, in order.
\<close>

fun dec_str :: "string decoder" where
  "dec_str old JvNull = Ok old"
| "dec_str old (JvStr s) = Ok s"
| "dec_str old _ = Err ''type''"

fun dec_bool :: "bool decoder" where
  "dec_bool old JvNull = Ok old"
| "dec_bool old (JvBool b) = Ok b"
| "dec_bool old _ = Err ''type''"

fun dec_int :: "go_int decoder" where
  "dec_int old JvNull = Ok old"
| "dec_int old (JvInt i) = (if - (2 ^ 63) \<le> i \<and> i < 2 ^ 63 then Ok (word_of_int i) else Err ''range'')"
| "dec_int old _ = Err ''type''"

primrec dec_all :: "'a \<Rightarrow> 'a decoder \<Rightarrow> jval list \<Rightarrow> string + 'a list" where
  "dec_all zero f [] = Ok []"
| "dec_all zero f (v # vs) =
     (case f zero v of
        Err e \<Rightarrow> Err e
      | Ok x \<Rightarrow> (case dec_all zero f vs of Err e \<Rightarrow> Err e | Ok xs \<Rightarrow> Ok (x # xs)))"

fun dec_list :: "'a \<Rightarrow> 'a decoder \<Rightarrow> 'a list decoder" where
  "dec_list zero f old JvNull = Ok []"
| "dec_list zero f old (JvArr vs) = dec_all zero f vs"
| "dec_list zero f old _ = Err ''type''"

primrec dec_seq :: "'a decoder \<Rightarrow> 'a \<Rightarrow> jval list \<Rightarrow> string + 'a" where
  "dec_seq f old [] = Ok old"
| "dec_seq f old (v # vs) = (case f old v of Err e \<Rightarrow> Err e | Ok x \<Rightarrow> dec_seq f x vs)"

definition dec_field :: "string \<Rightarrow> 'a decoder \<Rightarrow> 'a \<Rightarrow> (string \<times> jval) list \<Rightarrow> string + 'a" where
  "dec_field key f old fs = dec_seq f old (map snd (filter (\<lambda>p. ToLower (fst p) = key) fs))"

lemma dec_int_sint [simp]: "dec_int old (JvInt (sint i)) = Ok i"
  using sint_range [of i] by simp

lemma dec_all_map: "(\<And>x. x \<in> set xs \<Longrightarrow> f zero (g x) = Ok (h x)) \<Longrightarrow> dec_all zero f (map g xs) = Ok (map h xs)"
  by (induction xs) auto

end
