(* ===== verification/CrosvmConfig.thy ===== *)
theory CrosvmConfig
  imports Json
begin

text \<open>
  The structs of crosvm's configuration file (\<open>crosvm/internal/instance/config.go\<close>) and their
  JSON form, as \<open>encoding/json\<close> derives it from the tags. A pointer that may be nil is an
  option, a slice a list, empty for nil.
\<close>

section \<open>The configuration structs\<close>

record InstanceConfigBattery =
  icBattery_Type :: string

definition json_InstanceConfigBattery :: "InstanceConfigBattery \<Rightarrow> jval" where
  "json_InstanceConfigBattery c = JvObj
     ([(''type'', JvStr (icBattery_Type c))])"

record InstanceConfigBlock =
  icBlock_Path :: string
  icBlock_Ro :: "bool option"
  icBlock_Root :: "bool option"
  icBlock_Sparse :: "bool option"
  icBlock_Direct :: "bool option"
  icBlock_Lock :: "bool option"
  icBlock_BlockSize :: "32 word option"
  icBlock_ID :: "string option"
  icBlock_AsyncExecutor :: "string option"
  icBlock_PackedQueue :: "bool option"
  icBlock_Bootindex :: "64 word option"
  icBlock_PciAddress :: "string option"

definition json_InstanceConfigBlock :: "InstanceConfigBlock \<Rightarrow> jval" where
  "json_InstanceConfigBlock c = JvObj
     ([(''path'', JvStr (icBlock_Path c))] @
      opt_field ''ro'' (\<lambda>v. JvBool v) (icBlock_Ro c) @
      opt_field ''root'' (\<lambda>v. JvBool v) (icBlock_Root c) @
      opt_field ''sparse'' (\<lambda>v. JvBool v) (icBlock_Sparse c) @
      opt_field ''direct'' (\<lambda>v. JvBool v) (icBlock_Direct c) @
      opt_field ''lock'' (\<lambda>v. JvBool v) (icBlock_Lock c) @
      opt_field ''block-size'' (\<lambda>v. JvInt (uint v)) (icBlock_BlockSize c) @
      opt_field ''id'' (\<lambda>v. JvStr v) (icBlock_ID c) @
      opt_field ''async-executor'' (\<lambda>v. JvStr v) (icBlock_AsyncExecutor c) @
      opt_field ''packed-queue'' (\<lambda>v. JvBool v) (icBlock_PackedQueue c) @
      opt_field ''bootindex'' (\<lambda>v. JvInt (uint v)) (icBlock_Bootindex c) @
      opt_field ''pci-address'' (\<lambda>v. JvStr v) (icBlock_PciAddress c))"

record InstanceConfigCpuCoreType =
  icCpuCoreType_Atom :: "64 word list"
  icCpuCoreType_Core :: "64 word list"

definition json_InstanceConfigCpuCoreType :: "InstanceConfigCpuCoreType \<Rightarrow> jval" where
  "json_InstanceConfigCpuCoreType c = JvObj
     ([(''atom'', slice_value (\<lambda>v. JvInt (uint v)) (icCpuCoreType_Atom c))] @
      [(''core'', slice_value (\<lambda>v. JvInt (uint v)) (icCpuCoreType_Core c))])"

record InstanceConfigSveConfig =
  icSveConfig_Enable :: "bool option"
  icSveConfig_Auto :: "bool option"

definition json_InstanceConfigSveConfig :: "InstanceConfigSveConfig \<Rightarrow> jval" where
  "json_InstanceConfigSveConfig c = JvObj
     (opt_field ''enable'' (\<lambda>v. JvBool v) (icSveConfig_Enable c) @
      opt_field ''auto'' (\<lambda>v. JvBool v) (icSveConfig_Auto c))"

record InstanceConfigCpus =
  icCpus_NumCores :: "64 word option"
  icCpus_Clusters :: "64 word list"
  icCpus_CoreTypes :: "InstanceConfigCpuCoreType option"
  icCpus_BootCPU :: "64 word option"
  icCpus_FreqDomains :: "64 word list"
  icCpus_Sve :: "InstanceConfigSveConfig option"

definition json_InstanceConfigCpus :: "InstanceConfigCpus \<Rightarrow> jval" where
  "json_InstanceConfigCpus c = JvObj
     (opt_field ''num-cores'' (\<lambda>v. JvInt (uint v)) (icCpus_NumCores c) @
      list_field ''clusters'' (\<lambda>v. JvInt (uint v)) (icCpus_Clusters c) @
      opt_field ''core-types'' (\<lambda>v. json_InstanceConfigCpuCoreType v) (icCpus_CoreTypes c) @
      opt_field ''boot-cpu'' (\<lambda>v. JvInt (uint v)) (icCpus_BootCPU c) @
      list_field ''freq-domains'' (\<lambda>v. JvInt (uint v)) (icCpus_FreqDomains c) @
      opt_field ''sve'' (\<lambda>v. json_InstanceConfigSveConfig v) (icCpus_Sve c))"

record InstanceConfigDeviceTreeOverlay =
  icDeviceTreeOverlay_Path :: string
  icDeviceTreeOverlay_Filter :: "bool option"

definition json_InstanceConfigDeviceTreeOverlay :: "InstanceConfigDeviceTreeOverlay \<Rightarrow> jval" where
  "json_InstanceConfigDeviceTreeOverlay c = JvObj
     ([(''path'', JvStr (icDeviceTreeOverlay_Path c))] @
      opt_field ''filter'' (\<lambda>v. JvBool v) (icDeviceTreeOverlay_Filter c))"

record InstanceConfigKvm =
  icKvm_Device :: "string option"

definition json_InstanceConfigKvm :: "InstanceConfigKvm \<Rightarrow> jval" where
  "json_InstanceConfigKvm c = JvObj
     (opt_field ''device'' (\<lambda>v. JvStr v) (icKvm_Device c))"

record InstanceConfigGeniezone =
  icGeniezone_Device :: "string option"

definition json_InstanceConfigGeniezone :: "InstanceConfigGeniezone \<Rightarrow> jval" where
  "json_InstanceConfigGeniezone c = JvObj
     (opt_field ''device'' (\<lambda>v. JvStr v) (icGeniezone_Device c))"

record InstanceConfigGunyah =
  icGunyah_Device :: "string option"
  icGunyah_QcomTrustedVmID :: "16 word option"
  icGunyah_QcomTrustedVmPasID :: "32 word option"

definition json_InstanceConfigGunyah :: "InstanceConfigGunyah \<Rightarrow> jval" where
  "json_InstanceConfigGunyah c = JvObj
     (opt_field ''device'' (\<lambda>v. JvStr v) (icGunyah_Device c) @
      opt_field ''qcom-trusted-vm-id'' (\<lambda>v. JvInt (uint v)) (icGunyah_QcomTrustedVmID c) @
      opt_field ''qcom-trusted-vm-pas-id'' (\<lambda>v. JvInt (uint v)) (icGunyah_QcomTrustedVmPasID c))"

record InstanceConfigHypervisor =
  icHypervisor_Kvm :: "InstanceConfigKvm option"
  icHypervisor_Geniezone :: "InstanceConfigGeniezone option"
  icHypervisor_Gunyah :: "InstanceConfigGunyah option"

definition json_InstanceConfigHypervisor :: "InstanceConfigHypervisor \<Rightarrow> jval" where
  "json_InstanceConfigHypervisor c = JvObj
     (opt_field ''kvm'' (\<lambda>v. json_InstanceConfigKvm v) (icHypervisor_Kvm c) @
      opt_field ''geniezone'' (\<lambda>v. json_InstanceConfigGeniezone v) (icHypervisor_Geniezone c) @
      opt_field ''gunyah'' (\<lambda>v. json_InstanceConfigGunyah v) (icHypervisor_Gunyah c))"

record InstanceConfigInputEvdev =
  icInputEvdev_Path :: string

definition json_InstanceConfigInputEvdev :: "InstanceConfigInputEvdev \<Rightarrow> jval" where
  "json_InstanceConfigInputEvdev c = JvObj
     ([(''path'', JvStr (icInputEvdev_Path c))])"

record InstanceConfigInputKeyboard =
  icInputKeyboard_Path :: string

definition json_InstanceConfigInputKeyboard :: "InstanceConfigInputKeyboard \<Rightarrow> jval" where
  "json_InstanceConfigInputKeyboard c = JvObj
     ([(''path'', JvStr (icInputKeyboard_Path c))])"

record InstanceConfigInputMouse =
  icInputMouse_Path :: string

definition json_InstanceConfigInputMouse :: "InstanceConfigInputMouse \<Rightarrow> jval" where
  "json_InstanceConfigInputMouse c = JvObj
     ([(''path'', JvStr (icInputMouse_Path c))])"

record InstanceConfigInputMultiTouch =
  icInputMultiTouch_Path :: string
  icInputMultiTouch_Width :: "32 word option"
  icInputMultiTouch_Height :: "32 word option"
  icInputMultiTouch_Name :: "string option"

definition json_InstanceConfigInputMultiTouch :: "InstanceConfigInputMultiTouch \<Rightarrow> jval" where
  "json_InstanceConfigInputMultiTouch c = JvObj
     ([(''path'', JvStr (icInputMultiTouch_Path c))] @
      opt_field ''width'' (\<lambda>v. JvInt (uint v)) (icInputMultiTouch_Width c) @
      opt_field ''height'' (\<lambda>v. JvInt (uint v)) (icInputMultiTouch_Height c) @
      opt_field ''name'' (\<lambda>v. JvStr v) (icInputMultiTouch_Name c))"

record InstanceConfigInputRotary =
  icInputRotary_Path :: string

definition json_InstanceConfigInputRotary :: "InstanceConfigInputRotary \<Rightarrow> jval" where
  "json_InstanceConfigInputRotary c = JvObj
     ([(''path'', JvStr (icInputRotary_Path c))])"

record InstanceConfigInputSingleTouch =
  icInputSingleTouch_Path :: string
  icInputSingleTouch_Width :: "32 word option"
  icInputSingleTouch_Height :: "32 word option"
  icInputSingleTouch_Name :: "string option"

definition json_InstanceConfigInputSingleTouch :: "InstanceConfigInputSingleTouch \<Rightarrow> jval" where
  "json_InstanceConfigInputSingleTouch c = JvObj
     ([(''path'', JvStr (icInputSingleTouch_Path c))] @
      opt_field ''width'' (\<lambda>v. JvInt (uint v)) (icInputSingleTouch_Width c) @
      opt_field ''height'' (\<lambda>v. JvInt (uint v)) (icInputSingleTouch_Height c) @
      opt_field ''name'' (\<lambda>v. JvStr v) (icInputSingleTouch_Name c))"

record InstanceConfigInputSwitches =
  icInputSwitches_Path :: string

definition json_InstanceConfigInputSwitches :: "InstanceConfigInputSwitches \<Rightarrow> jval" where
  "json_InstanceConfigInputSwitches c = JvObj
     ([(''path'', JvStr (icInputSwitches_Path c))])"

record InstanceConfigInputTrackpad =
  icInputTrackpad_Path :: string
  icInputTrackpad_Width :: "32 word option"
  icInputTrackpad_Height :: "32 word option"
  icInputTrackpad_Name :: "string option"

definition json_InstanceConfigInputTrackpad :: "InstanceConfigInputTrackpad \<Rightarrow> jval" where
  "json_InstanceConfigInputTrackpad c = JvObj
     ([(''path'', JvStr (icInputTrackpad_Path c))] @
      opt_field ''width'' (\<lambda>v. JvInt (uint v)) (icInputTrackpad_Width c) @
      opt_field ''height'' (\<lambda>v. JvInt (uint v)) (icInputTrackpad_Height c) @
      opt_field ''name'' (\<lambda>v. JvStr v) (icInputTrackpad_Name c))"

record InstanceConfigInputMultiTouchTrackpad =
  icInputMultiTouchTrackpad_Path :: string
  icInputMultiTouchTrackpad_Width :: "32 word option"
  icInputMultiTouchTrackpad_Height :: "32 word option"
  icInputMultiTouchTrackpad_Name :: "string option"

definition json_InstanceConfigInputMultiTouchTrackpad :: "InstanceConfigInputMultiTouchTrackpad \<Rightarrow> jval" where
  "json_InstanceConfigInputMultiTouchTrackpad c = JvObj
     ([(''path'', JvStr (icInputMultiTouchTrackpad_Path c))] @
      opt_field ''width'' (\<lambda>v. JvInt (uint v)) (icInputMultiTouchTrackpad_Width c) @
      opt_field ''height'' (\<lambda>v. JvInt (uint v)) (icInputMultiTouchTrackpad_Height c) @
      opt_field ''name'' (\<lambda>v. JvStr v) (icInputMultiTouchTrackpad_Name c))"

record InstanceConfigInputCustom =
  icInputCustom_Path :: string
  icInputCustom_ConfigPath :: string

definition json_InstanceConfigInputCustom :: "InstanceConfigInputCustom \<Rightarrow> jval" where
  "json_InstanceConfigInputCustom c = JvObj
     ([(''path'', JvStr (icInputCustom_Path c))] @
      [(''config-path'', JvStr (icInputCustom_ConfigPath c))])"

record InstanceConfigInput =
  icInput_Evdev :: "InstanceConfigInputEvdev option"
  icInput_Keyboard :: "InstanceConfigInputKeyboard option"
  icInput_Mouse :: "InstanceConfigInputMouse option"
  icInput_MultiTouch :: "InstanceConfigInputMultiTouch option"
  icInput_Rotary :: "InstanceConfigInputRotary option"
  icInput_SingleTouch :: "InstanceConfigInputSingleTouch option"
  icInput_Switches :: "InstanceConfigInputSwitches option"
  icInput_Trackpad :: "InstanceConfigInputTrackpad option"
  icInput_MultiTouchTrackpad :: "InstanceConfigInputMultiTouchTrackpad option"
  icInput_Custom :: "InstanceConfigInputCustom option"

definition json_InstanceConfigInput :: "InstanceConfigInput \<Rightarrow> jval" where
  "json_InstanceConfigInput c = JvObj
     (opt_field ''evdev'' (\<lambda>v. json_InstanceConfigInputEvdev v) (icInput_Evdev c) @
      opt_field ''keyboard'' (\<lambda>v. json_InstanceConfigInputKeyboard v) (icInput_Keyboard c) @
      opt_field ''mouse'' (\<lambda>v. json_InstanceConfigInputMouse v) (icInput_Mouse c) @
      opt_field ''multi-touch'' (\<lambda>v. json_InstanceConfigInputMultiTouch v) (icInput_MultiTouch c) @
      opt_field ''rotary'' (\<lambda>v. json_InstanceConfigInputRotary v) (icInput_Rotary c) @
      opt_field ''single-touch'' (\<lambda>v. json_InstanceConfigInputSingleTouch v) (icInput_SingleTouch c) @
      opt_field ''switches'' (\<lambda>v. json_InstanceConfigInputSwitches v) (icInput_Switches c) @
      opt_field ''trackpad'' (\<lambda>v. json_InstanceConfigInputTrackpad v) (icInput_Trackpad c) @
      opt_field ''multi-touch-trackpad'' (\<lambda>v. json_InstanceConfigInputMultiTouchTrackpad v) (icInput_MultiTouchTrackpad c) @
      opt_field ''custom'' (\<lambda>v. json_InstanceConfigInputCustom v) (icInput_Custom c))"

record InstanceConfigMediaDecoder =
  icMediaDecoder_Backend :: string

definition json_InstanceConfigMediaDecoder :: "InstanceConfigMediaDecoder \<Rightarrow> jval" where
  "json_InstanceConfigMediaDecoder c = JvObj
     ([(''backend'', JvStr (icMediaDecoder_Backend c))])"

record InstanceConfigMem =
  icMem_Size :: "64 word option"

definition json_InstanceConfigMem :: "InstanceConfigMem \<Rightarrow> jval" where
  "json_InstanceConfigMem c = JvObj
     (opt_field ''size'' (\<lambda>v. JvInt (uint v)) (icMem_Size c))"

record InstanceConfigVhostNet =
  icVhostNet_Device :: "string option"

definition json_InstanceConfigVhostNet :: "InstanceConfigVhostNet \<Rightarrow> jval" where
  "json_InstanceConfigVhostNet c = JvObj
     (opt_field ''device'' (\<lambda>v. JvStr v) (icVhostNet_Device c))"

record InstanceConfigNet =
  icNet_TapName :: "string option"
  icNet_TapFd :: "64 word option"
  icNet_HostIP :: "string option"
  icNet_Netmask :: "string option"
  icNet_Mac :: "string option"
  icNet_VqPairs :: "16 word option"
  icNet_VhostNet :: "InstanceConfigVhostNet option"
  icNet_PackedQueue :: "bool option"
  icNet_PciAddress :: "string option"

definition json_InstanceConfigNet :: "InstanceConfigNet \<Rightarrow> jval" where
  "json_InstanceConfigNet c = JvObj
     (opt_field ''tap-name'' (\<lambda>v. JvStr v) (icNet_TapName c) @
      opt_field ''tap-fd'' (\<lambda>v. JvInt (sint v)) (icNet_TapFd c) @
      opt_field ''host-ip'' (\<lambda>v. JvStr v) (icNet_HostIP c) @
      opt_field ''netmask'' (\<lambda>v. JvStr v) (icNet_Netmask c) @
      opt_field ''mac'' (\<lambda>v. JvStr v) (icNet_Mac c) @
      opt_field ''vq-pairs'' (\<lambda>v. JvInt (uint v)) (icNet_VqPairs c) @
      opt_field ''vhost-net'' (\<lambda>v. json_InstanceConfigVhostNet v) (icNet_VhostNet c) @
      opt_field ''packed-queue'' (\<lambda>v. JvBool v) (icNet_PackedQueue c) @
      opt_field ''pci-address'' (\<lambda>v. JvStr v) (icNet_PciAddress c))"

record InstanceConfigPciMemoryRegion =
  icPciMemoryRegion_Start :: "64 word"
  icPciMemoryRegion_Size :: "64 word option"

definition json_InstanceConfigPciMemoryRegion :: "InstanceConfigPciMemoryRegion \<Rightarrow> jval" where
  "json_InstanceConfigPciMemoryRegion c = JvObj
     ([(''start'', JvInt (uint (icPciMemoryRegion_Start c)))] @
      opt_field ''size'' (\<lambda>v. JvInt (uint v)) (icPciMemoryRegion_Size c))"

record InstanceConfigPci =
  icPci_Cam :: "InstanceConfigPciMemoryRegion option"
  icPci_Ecam :: "InstanceConfigPciMemoryRegion option"
  icPci_Mem :: "InstanceConfigPciMemoryRegion option"

definition json_InstanceConfigPci :: "InstanceConfigPci \<Rightarrow> jval" where
  "json_InstanceConfigPci c = JvObj
     (opt_field ''cam'' (\<lambda>v. json_InstanceConfigPciMemoryRegion v) (icPci_Cam c) @
      opt_field ''ecam'' (\<lambda>v. json_InstanceConfigPciMemoryRegion v) (icPci_Ecam c) @
      opt_field ''mem'' (\<lambda>v. json_InstanceConfigPciMemoryRegion v) (icPci_Mem c))"

record InstanceConfigPmem =
  icPmem_Path :: string
  icPmem_Ro :: "bool option"
  icPmem_Root :: "bool option"
  icPmem_VmaSize :: "64 word option"
  icPmem_SwapIntervalMs :: "64 word option"

definition json_InstanceConfigPmem :: "InstanceConfigPmem \<Rightarrow> jval" where
  "json_InstanceConfigPmem c = JvObj
     ([(''path'', JvStr (icPmem_Path c))] @
      opt_field ''ro'' (\<lambda>v. JvBool v) (icPmem_Ro c) @
      opt_field ''root'' (\<lambda>v. JvBool v) (icPmem_Root c) @
      opt_field ''vma-size'' (\<lambda>v. JvInt (uint v)) (icPmem_VmaSize c) @
      opt_field ''swap-interval-ms'' (\<lambda>v. JvInt (uint v)) (icPmem_SwapIntervalMs c))"

record InstanceConfigSerial =
  icSerial_Type :: string
  icSerial_Hardware :: "string option"
  icSerial_Name :: "string option"
  icSerial_Path :: "string option"
  icSerial_Input :: "string option"
  icSerial_InputUnixStream :: "bool option"
  icSerial_Num :: "8 word option"
  icSerial_Console :: "bool option"
  icSerial_Earlycon :: "bool option"
  icSerial_Stdin :: "bool option"
  icSerial_OutTimestamp :: "bool option"
  icSerial_DebugconPort :: "16 word option"
  icSerial_PciAddress :: "string option"

definition json_InstanceConfigSerial :: "InstanceConfigSerial \<Rightarrow> jval" where
  "json_InstanceConfigSerial c = JvObj
     ([(''type'', JvStr (icSerial_Type c))] @
      opt_field ''hardware'' (\<lambda>v. JvStr v) (icSerial_Hardware c) @
      opt_field ''name'' (\<lambda>v. JvStr v) (icSerial_Name c) @
      opt_field ''path'' (\<lambda>v. JvStr v) (icSerial_Path c) @
      opt_field ''input'' (\<lambda>v. JvStr v) (icSerial_Input c) @
      opt_field ''input-unix-stream'' (\<lambda>v. JvBool v) (icSerial_InputUnixStream c) @
      opt_field ''num'' (\<lambda>v. JvInt (uint v)) (icSerial_Num c) @
      opt_field ''console'' (\<lambda>v. JvBool v) (icSerial_Console c) @
      opt_field ''earlycon'' (\<lambda>v. JvBool v) (icSerial_Earlycon c) @
      opt_field ''stdin'' (\<lambda>v. JvBool v) (icSerial_Stdin c) @
      opt_field ''out-timestamp'' (\<lambda>v. JvBool v) (icSerial_OutTimestamp c) @
      opt_field ''debugcon-port'' (\<lambda>v. JvInt (uint v)) (icSerial_DebugconPort c) @
      opt_field ''pci-address'' (\<lambda>v. JvStr v) (icSerial_PciAddress c))"

record InstanceConfigSmbios =
  icSmbios_BiosVendor :: "string option"
  icSmbios_BiosVersion :: "string option"
  icSmbios_Manufacturer :: "string option"
  icSmbios_ProductName :: "string option"
  icSmbios_SerialNumber :: "string option"
  icSmbios_Uuid :: "string option"
  icSmbios_OemStrings :: "string list"

definition json_InstanceConfigSmbios :: "InstanceConfigSmbios \<Rightarrow> jval" where
  "json_InstanceConfigSmbios c = JvObj
     (opt_field ''bios-vendor'' (\<lambda>v. JvStr v) (icSmbios_BiosVendor c) @
      opt_field ''bios-version'' (\<lambda>v. JvStr v) (icSmbios_BiosVersion c) @
      opt_field ''manufacturer'' (\<lambda>v. JvStr v) (icSmbios_Manufacturer c) @
      opt_field ''product-name'' (\<lambda>v. JvStr v) (icSmbios_ProductName c) @
      opt_field ''serial-number'' (\<lambda>v. JvStr v) (icSmbios_SerialNumber c) @
      opt_field ''uuid'' (\<lambda>v. JvStr v) (icSmbios_Uuid c) @
      list_field ''oem-strings'' (\<lambda>v. JvStr v) (icSmbios_OemStrings c))"

record InstanceConfigVfio =
  icVfio_Path :: string
  icVfio_Iommu :: "string option"
  icVfio_GuestAddress :: "string option"
  icVfio_DtSymbol :: "string option"

definition json_InstanceConfigVfio :: "InstanceConfigVfio \<Rightarrow> jval" where
  "json_InstanceConfigVfio c = JvObj
     ([(''path'', JvStr (icVfio_Path c))] @
      opt_field ''iommu'' (\<lambda>v. JvStr v) (icVfio_Iommu c) @
      opt_field ''guest-address'' (\<lambda>v. JvStr v) (icVfio_GuestAddress c) @
      opt_field ''dt-symbol'' (\<lambda>v. JvStr v) (icVfio_DtSymbol c))"

record InstanceConfigVhostUser =
  icVhostUser_Type :: string
  icVhostUser_Socket :: string
  icVhostUser_MaxQueueSize :: "16 word option"
  icVhostUser_PciAddress :: "string option"

definition json_InstanceConfigVhostUser :: "InstanceConfigVhostUser \<Rightarrow> jval" where
  "json_InstanceConfigVhostUser c = JvObj
     ([(''type'', JvStr (icVhostUser_Type c))] @
      [(''socket'', JvStr (icVhostUser_Socket c))] @
      opt_field ''max-queue-size'' (\<lambda>v. JvInt (uint v)) (icVhostUser_MaxQueueSize c) @
      opt_field ''pci-address'' (\<lambda>v. JvStr v) (icVhostUser_PciAddress c))"

record InstanceConfigVsock =
  icVsock_Cid :: "64 word"
  icVsock_Device :: "string option"

definition json_InstanceConfigVsock :: "InstanceConfigVsock \<Rightarrow> jval" where
  "json_InstanceConfigVsock c = JvObj
     ([(''cid'', JvInt (uint (icVsock_Cid c)))] @
      opt_field ''device'' (\<lambda>v. JvStr v) (icVsock_Device c))"

record InstanceConfig =
  ic_AcAdapter :: "bool option"
  ic_Battery :: "InstanceConfigBattery option"
  ic_Block :: "InstanceConfigBlock list"
  ic_BreakLinuxPciConfigIo :: "bool option"
  ic_BusLockRatelimit :: "64 word option"
  ic_Cfg :: "string list"
  ic_CoreScheduling :: "bool option"
  ic_Cpus :: "InstanceConfigCpus option"
  ic_DeviceTreeOverlay :: "InstanceConfigDeviceTreeOverlay list"
  ic_Hypervisor :: "InstanceConfigHypervisor option"
  ic_Initrd :: "string option"
  ic_Input :: "InstanceConfigInput list"
  ic_Irqchip :: "string option"
  ic_Kernel :: "string option"
  ic_MediaDecoder :: "InstanceConfigMediaDecoder list"
  ic_Mem :: "InstanceConfigMem option"
  ic_Name :: "string option"
  ic_Net :: "InstanceConfigNet list"
  ic_Params :: "string list"
  ic_Pci :: "InstanceConfigPci option"
  ic_PciHotplugSlots :: "8 word option"
  ic_Pmem :: "InstanceConfigPmem list"
  ic_Serial :: "InstanceConfigSerial list"
  ic_SimpleMediaDevice :: "bool option"
  ic_Smbios :: "InstanceConfigSmbios option"
  ic_Socket :: "string option"
  ic_V4l2Proxy :: "string list"
  ic_Vfio :: "InstanceConfigVfio list"
  ic_VhostScmi :: "bool option"
  ic_VhostUser :: "InstanceConfigVhostUser list"
  ic_Vsock :: "InstanceConfigVsock option"

definition json_InstanceConfig :: "InstanceConfig \<Rightarrow> jval" where
  "json_InstanceConfig c = JvObj
     (opt_field ''ac-adapter'' (\<lambda>v. JvBool v) (ic_AcAdapter c) @
      opt_field ''battery'' (\<lambda>v. json_InstanceConfigBattery v) (ic_Battery c) @
      list_field ''block'' (\<lambda>v. json_InstanceConfigBlock v) (ic_Block c) @
      opt_field ''break-linux-pci-config-io'' (\<lambda>v. JvBool v) (ic_BreakLinuxPciConfigIo c) @
      opt_field ''bus-lock-ratelimit'' (\<lambda>v. JvInt (uint v)) (ic_BusLockRatelimit c) @
      list_field ''cfg'' (\<lambda>v. JvStr v) (ic_Cfg c) @
      opt_field ''core-scheduling'' (\<lambda>v. JvBool v) (ic_CoreScheduling c) @
      opt_field ''cpus'' (\<lambda>v. json_InstanceConfigCpus v) (ic_Cpus c) @
      list_field ''device-tree-overlay'' (\<lambda>v. json_InstanceConfigDeviceTreeOverlay v) (ic_DeviceTreeOverlay c) @
      opt_field ''hypervisor'' (\<lambda>v. json_InstanceConfigHypervisor v) (ic_Hypervisor c) @
      opt_field ''initrd'' (\<lambda>v. JvStr v) (ic_Initrd c) @
      list_field ''input'' (\<lambda>v. json_InstanceConfigInput v) (ic_Input c) @
      opt_field ''irqchip'' (\<lambda>v. JvStr v) (ic_Irqchip c) @
      opt_field ''kernel'' (\<lambda>v. JvStr v) (ic_Kernel c) @
      list_field ''media-decoder'' (\<lambda>v. json_InstanceConfigMediaDecoder v) (ic_MediaDecoder c) @
      opt_field ''mem'' (\<lambda>v. json_InstanceConfigMem v) (ic_Mem c) @
      opt_field ''name'' (\<lambda>v. JvStr v) (ic_Name c) @
      list_field ''net'' (\<lambda>v. json_InstanceConfigNet v) (ic_Net c) @
      list_field ''params'' (\<lambda>v. JvStr v) (ic_Params c) @
      opt_field ''pci'' (\<lambda>v. json_InstanceConfigPci v) (ic_Pci c) @
      opt_field ''pci-hotplug-slots'' (\<lambda>v. JvInt (uint v)) (ic_PciHotplugSlots c) @
      list_field ''pmem'' (\<lambda>v. json_InstanceConfigPmem v) (ic_Pmem c) @
      list_field ''serial'' (\<lambda>v. json_InstanceConfigSerial v) (ic_Serial c) @
      opt_field ''simple-media-device'' (\<lambda>v. JvBool v) (ic_SimpleMediaDevice c) @
      opt_field ''smbios'' (\<lambda>v. json_InstanceConfigSmbios v) (ic_Smbios c) @
      opt_field ''socket'' (\<lambda>v. JvStr v) (ic_Socket c) @
      list_field ''v4l2-proxy'' (\<lambda>v. JvStr v) (ic_V4l2Proxy c) @
      list_field ''vfio'' (\<lambda>v. json_InstanceConfigVfio v) (ic_Vfio c) @
      opt_field ''vhost-scmi'' (\<lambda>v. JvBool v) (ic_VhostScmi c) @
      list_field ''vhost-user'' (\<lambda>v. json_InstanceConfigVhostUser v) (ic_VhostUser c) @
      opt_field ''vsock'' (\<lambda>v. json_InstanceConfigVsock v) (ic_Vsock c))"

end
