(* ===== verification/CrosvmVm.thy ===== *)
theory CrosvmVm
  imports Model Names ImageStore CrosvmInstance CrosvmConfig
begin

text \<open>
  What a crosvm virtual machine is created and started with (\<open>crosvm/internal/instance\<close>:
  \<open>config.go\<close>, \<open>configext.go\<close>, \<open>network.go\<close> and the construction in \<open>instance.go\<close>, and
  \<open>crosvm/internal/cloudinit\<close>): the configuration, the command line, the cloud-init data, and
  \<open>NewInstance\<close> with the effects it has. The outcomes of system calls are arguments.
\<close>

section \<open>The configuration of a service\<close>

record networkConfig =
  nc_Mac :: string
  nc_AddressIpv4Cidr :: string
  nc_GatewayIpv4 :: string

definition configFileName :: string where "configFileName = ''config.json''"
definition cloudInitFileName :: string where "cloudInitFileName = ''cloud-init.img''"

definition empty_Block :: InstanceConfigBlock where
  "empty_Block = \<lparr>icBlock_Path = [], icBlock_Ro = None, icBlock_Root = None, icBlock_Sparse = None,
     icBlock_Direct = None, icBlock_Lock = None, icBlock_BlockSize = None, icBlock_ID = None,
     icBlock_AsyncExecutor = None, icBlock_PackedQueue = None, icBlock_Bootindex = None,
     icBlock_PciAddress = None\<rparr>"

definition empty_Net :: InstanceConfigNet where
  "empty_Net = \<lparr>icNet_TapName = None, icNet_TapFd = None, icNet_HostIP = None, icNet_Netmask = None,
     icNet_Mac = None, icNet_VqPairs = None, icNet_VhostNet = None, icNet_PackedQueue = None,
     icNet_PciAddress = None\<rparr>"

definition empty_Cpus :: InstanceConfigCpus where
  "empty_Cpus = \<lparr>icCpus_NumCores = None, icCpus_Clusters = [], icCpus_CoreTypes = None,
     icCpus_BootCPU = None, icCpus_FreqDomains = [], icCpus_Sve = None\<rparr>"

definition empty_InstanceConfig :: InstanceConfig where
  "empty_InstanceConfig =
     \<lparr>ic_AcAdapter = None, ic_Battery = None, ic_Block = [], ic_BreakLinuxPciConfigIo = None,
      ic_BusLockRatelimit = None, ic_Cfg = [], ic_CoreScheduling = None, ic_Cpus = None,
      ic_DeviceTreeOverlay = [], ic_Hypervisor = None, ic_Initrd = None, ic_Input = [],
      ic_Irqchip = None, ic_Kernel = None, ic_MediaDecoder = [], ic_Mem = None, ic_Name = None,
      ic_Net = [], ic_Params = [], ic_Pci = None, ic_PciHotplugSlots = None, ic_Pmem = [],
      ic_Serial = [], ic_SimpleMediaDevice = None, ic_Smbios = None, ic_Socket = None,
      ic_V4l2Proxy = [], ic_Vfio = [], ic_VhostScmi = None, ic_VhostUser = [], ic_Vsock = None\<rparr>"

definition NewInstanceConfig ::
    "Service \<Rightarrow> Image \<Rightarrow> networkConfig option \<Rightarrow> string \<Rightarrow> string \<Rightarrow> InstanceConfig" where
  "NewInstanceConfig service img netConf socketPath stateDirPath =
     (let net = (case netConf of
                   None \<Rightarrow> []
                 | Some nc \<Rightarrow>
                     [empty_Net\<lparr>icNet_TapName := Some ''tap0'', icNet_Mac := Some (nc_Mac nc),
                                icNet_VhostNet := Some \<lparr>icVhostNet_Device = None\<rparr>\<rparr>]);
          initrd = (if img_HasInitrd img then Some (path_Join [stateDirPath, InitrdFileName]) else None)
      in empty_InstanceConfig
           \<lparr>ic_Block :=
              [empty_Block\<lparr>icBlock_Path := path_Join [stateDirPath, RootfsFileName],
                 icBlock_Root := Some True, icBlock_Sparse := Some True\<rparr>,
               empty_Block\<lparr>icBlock_Path := path_Join [stateDirPath, cloudInitFileName]\<rparr>],
            ic_Cpus := Some (empty_Cpus\<lparr>icCpus_NumCores := Some (svc_Vcpus service)\<rparr>),
            ic_Initrd := initrd,
            ic_Kernel := Some (path_Join [stateDirPath, KernelFileName]),
            ic_Mem := Some \<lparr>icMem_Size = Some (svc_Memory service)\<rparr>,
            ic_Net := net,
            ic_Socket := Some socketPath\<rparr>)"

section \<open>Arguments outside the configuration file\<close>

record InstanceConfigExtGpuDisplayModeWindowed =
  ixGpuDisplayModeWindowed_Width :: "32 word"
  ixGpuDisplayModeWindowed_Height :: "32 word"

record InstanceConfigExtGpuDisplayDpi =
  ixGpuDisplayDpi_Horizontal :: "32 word"
  ixGpuDisplayDpi_Vertical :: "32 word"

record InstanceConfigExtGpuDisplay =
  ixGpuDisplay_ModeWindowed :: "InstanceConfigExtGpuDisplayModeWindowed option"
  ixGpuDisplay_Hidden :: "bool option"
  ixGpuDisplay_RefreshRate :: "32 word option"
  ixGpuDisplay_Dpi :: "InstanceConfigExtGpuDisplayDpi option"

record InstanceConfigExtGpu =
  ixGpu_Backend :: "string option"
  ixGpu_MaxNumDisplays :: "32 word option"
  ixGpu_AudioDeviceMode :: "string option"
  ixGpu_Displays :: "InstanceConfigExtGpuDisplay list"
  ixGpu_Egl :: "bool option"
  ixGpu_Gles :: "bool option"
  ixGpu_Glx :: "bool option"
  ixGpu_Surfaceless :: "bool option"
  ixGpu_Vulkan :: "bool option"
  ixGpu_Wsi :: "string option"
  ixGpu_Udmabuf :: "bool option"
  ixGpu_CachePath :: "string option"
  ixGpu_CacheSize :: "string option"
  ixGpu_PciAddress :: "string option"
  ixGpu_PciBarSize :: "64 word option"
  ixGpu_ContextTypes :: "string list"
  ixGpu_ExternalBlob :: "bool option"
  ixGpu_SystemBlob :: "bool option"
  ixGpu_FixedBlobMapping :: "bool option"
  ixGpu_ImplicitRenderServer :: "bool option"
  ixGpu_RendererFeatures :: "string option"
  ixGpu_SnapshotScratchPath :: "string option"

record InstanceConfigExtGpuRenderServer =
  ixGpuRenderServer_Path :: string
  ixGpuRenderServer_CachePath :: "string option"
  ixGpuRenderServer_CacheSize :: "string option"
  ixGpuRenderServer_FozDbListPath :: "string option"
  ixGpuRenderServer_PrecompiledCachePath :: "string option"
  ixGpuRenderServer_LdPreloadPath :: "string option"

record InstanceConfigExt =
  ix_Gpu :: "InstanceConfigExtGpu list"
  ix_GpuRenderServer :: "InstanceConfigExtGpuRenderServer option"

definition empty_Gpu :: InstanceConfigExtGpu where
  "empty_Gpu =
     \<lparr>ixGpu_Backend = None, ixGpu_MaxNumDisplays = None, ixGpu_AudioDeviceMode = None,
      ixGpu_Displays = [], ixGpu_Egl = None, ixGpu_Gles = None, ixGpu_Glx = None,
      ixGpu_Surfaceless = None, ixGpu_Vulkan = None, ixGpu_Wsi = None, ixGpu_Udmabuf = None,
      ixGpu_CachePath = None, ixGpu_CacheSize = None, ixGpu_PciAddress = None,
      ixGpu_PciBarSize = None, ixGpu_ContextTypes = [], ixGpu_ExternalBlob = None,
      ixGpu_SystemBlob = None, ixGpu_FixedBlobMapping = None, ixGpu_ImplicitRenderServer = None,
      ixGpu_RendererFeatures = None, ixGpu_SnapshotScratchPath = None\<rparr>"

definition NewInstanceConfigExt :: "Service \<Rightarrow> InstanceConfigExt" where
  "NewInstanceConfigExt service =
     (let gpus = replicate (nat (sint (svc_Vgpus service)))
            (empty_Gpu\<lparr>ixGpu_Backend := Some ''virglrenderer'', ixGpu_Egl := Some True,
               ixGpu_Gles := Some True, ixGpu_Glx := Some True, ixGpu_Surfaceless := Some True,
               ixGpu_Vulkan := Some True, ixGpu_Udmabuf := Some True,
               ixGpu_ContextTypes := [''virgl'', ''virgl2'', ''venus'']\<rparr>);
          gpuRenderServer =
            (if length gpus > 0
             then Some \<lparr>ixGpuRenderServer_Path = ''/opt/oakestra/libexec/virgl_render_server'',
                       ixGpuRenderServer_CachePath = None, ixGpuRenderServer_CacheSize = None,
                       ixGpuRenderServer_FozDbListPath = None,
                       ixGpuRenderServer_PrecompiledCachePath = None,
                       ixGpuRenderServer_LdPreloadPath = None\<rparr>
             else None)
      in \<lparr>ix_Gpu = gpus, ix_GpuRenderServer = gpuRenderServer\<rparr>)"

text \<open>An optional \<open>key=value\<close> argument with a printing function: \<open>%s\<close>, \<open>%t\<close> and \<open>%d\<close>.\<close>

definition opt_arg :: "string \<Rightarrow> ('a \<Rightarrow> string) \<Rightarrow> 'a option \<Rightarrow> string list" where
  "opt_arg key show x = (case x of None \<Rightarrow> [] | Some v \<Rightarrow> [key @ ''='' @ show v])"

definition show_str :: "string \<Rightarrow> string" where
  "show_str s = s"

definition show_bool :: "bool \<Rightarrow> string" where
  "show_bool b = (if b then ''true'' else ''false'')"

definition show_uint :: "'a::len word \<Rightarrow> string" where
  "show_uint w = utoa (unat w)"

definition display_toArgString :: "InstanceConfigExtGpuDisplay \<Rightarrow> string" where
  "display_toArgString c =
     ''['' @ Join
       ((case ixGpuDisplay_ModeWindowed c of
           None \<Rightarrow> []
         | Some m \<Rightarrow> [''mode=windowed['' @ show_uint (ixGpuDisplayModeWindowed_Width m) @ '','' @
                     show_uint (ixGpuDisplayModeWindowed_Height m) @ '']'']) @
        opt_arg ''hidden'' show_bool (ixGpuDisplay_Hidden c) @
        opt_arg ''refresh-rate'' show_uint (ixGpuDisplay_RefreshRate c) @
        (case ixGpuDisplay_Dpi c of
           None \<Rightarrow> []
         | Some d \<Rightarrow> [''dpi=['' @ show_uint (ixGpuDisplayDpi_Horizontal d) @ '','' @
                     show_uint (ixGpuDisplayDpi_Vertical d) @ '']'']))
       '','' @ '']''"

definition gpu_toArgString :: "InstanceConfigExtGpu \<Rightarrow> string" where
  "gpu_toArgString c =
     Join
       (opt_arg ''backend'' show_str (ixGpu_Backend c) @
        opt_arg ''max-num-displays'' show_uint (ixGpu_MaxNumDisplays c) @
        opt_arg ''audio-device-mode'' show_str (ixGpu_AudioDeviceMode c) @
        (if ixGpu_Displays c \<noteq> []
         then [''displays=['' @ Join (map display_toArgString (ixGpu_Displays c)) '','' @ '']''] else []) @
        opt_arg ''egl'' show_bool (ixGpu_Egl c) @
        opt_arg ''gles'' show_bool (ixGpu_Gles c) @
        opt_arg ''glx'' show_bool (ixGpu_Glx c) @
        opt_arg ''surfaceless'' show_bool (ixGpu_Surfaceless c) @
        opt_arg ''vulkan'' show_bool (ixGpu_Vulkan c) @
        opt_arg ''wsi'' show_str (ixGpu_Wsi c) @
        opt_arg ''udmabuf'' show_bool (ixGpu_Udmabuf c) @
        opt_arg ''cache-path'' show_str (ixGpu_CachePath c) @
        opt_arg ''cache-size'' show_str (ixGpu_CacheSize c) @
        opt_arg ''pci-address'' show_str (ixGpu_PciAddress c) @
        opt_arg ''pci-bar-size'' show_uint (ixGpu_PciBarSize c) @
        (if ixGpu_ContextTypes c \<noteq> []
         then [''context-types='' @ Join (ixGpu_ContextTypes c) '':''] else []) @
        opt_arg ''external-blob'' show_bool (ixGpu_ExternalBlob c) @
        opt_arg ''system-blob'' show_bool (ixGpu_SystemBlob c) @
        opt_arg ''fixed-blob-mapping'' show_bool (ixGpu_FixedBlobMapping c) @
        opt_arg ''implicit-render-server'' show_bool (ixGpu_ImplicitRenderServer c) @
        opt_arg ''renderer-features'' show_str (ixGpu_RendererFeatures c) @
        opt_arg ''snapshot-scratch-path'' show_str (ixGpu_SnapshotScratchPath c))
       '',''"

definition server_toArgString :: "InstanceConfigExtGpuRenderServer \<Rightarrow> string" where
  "server_toArgString c =
     Join
       ([''path='' @ ixGpuRenderServer_Path c] @
        opt_arg ''cache-path'' show_str (ixGpuRenderServer_CachePath c) @
        opt_arg ''cache-size'' show_str (ixGpuRenderServer_CacheSize c) @
        opt_arg ''foz-db-list-path'' show_str (ixGpuRenderServer_FozDbListPath c) @
        opt_arg ''precompiled-cache-path'' show_str (ixGpuRenderServer_PrecompiledCachePath c) @
        opt_arg ''ld-preload-path'' show_str (ixGpuRenderServer_LdPreloadPath c))
       '',''"

definition ToArgs :: "InstanceConfigExt \<Rightarrow> string list" where
  "ToArgs c =
     concat (map (\<lambda>gpu. [''--gpu'', gpu_toArgString gpu]) (ix_Gpu c)) @
     (case ix_GpuRenderServer c of
        None \<Rightarrow> []
      | Some s \<Rightarrow> [''--gpu-render-server'', server_toArgString s])"

section \<open>The command\<close>

definition generateRunArgs :: "string \<Rightarrow> InstanceConfigExt \<Rightarrow> string list" where
  "generateRunArgs stateDirPath configExt =
     [''run'', ''--cfg'', path_Join [stateDirPath, configFileName], ''--disable-sandbox''] @ ToArgs configExt"

definition generateStopArgs :: "string \<Rightarrow> string list" where
  "generateStopArgs socketPath = [''stop'', socketPath]"

definition wrapCommandWithIpNetnsExec :: "Service \<Rightarrow> string \<Rightarrow> string list \<Rightarrow> string \<times> string list" where
  "wrapCommandWithIpNetnsExec service executable args =
     (''ip'', [''netns'', ''exec'', GenerateForModel service, executable] @ args)"

definition wrapCommandWithScreen :: "string \<Rightarrow> string \<Rightarrow> string list \<Rightarrow> string \<times> string list" where
  "wrapCommandWithScreen name executable args =
     (''screen'', [''-D'', ''-m'', ''-S'', name, executable] @ args)"

definition MachinedExecCommand :: "string \<Rightarrow> string \<Rightarrow> string list \<Rightarrow> string list" where
  "MachinedExecCommand machineName machineType args = [''machined-exec'', machineName, machineType] @ args"

text \<open>The command \<open>Start\<close> runs; \<open>debug\<close> is the environment variable \<open>OAKESTRA_CROSVM_DEBUG\<close>.\<close>

definition start_command ::
    "bool \<Rightarrow> string \<Rightarrow> string \<Rightarrow> Service \<Rightarrow> string \<Rightarrow> string \<Rightarrow> InstanceConfigExt \<Rightarrow> string list" where
  "start_command overlay debug executablePath service ident_id stateDirPath configExt =
     (let (crosvmExec, runArgs) = (executablePath, generateRunArgs stateDirPath configExt);
          (crosvmExec, runArgs) =
            (if overlay then wrapCommandWithIpNetnsExec service crosvmExec runArgs
             else (crosvmExec, runArgs));
          (crosvmExec, runArgs) =
            (if debug = ''true'' then wrapCommandWithScreen ident_id crosvmExec runArgs
             else (crosvmExec, runArgs))
      in MachinedExecCommand (ConvertTaskIdToMachineName ident_id) ''vm'' (crosvmExec # runArgs))"

definition buildEtcEnvironmentString :: "string list \<Rightarrow> string" where
  "buildEtcEnvironmentString env = [CHR 0x0A] @ concat (map (\<lambda>variable. variable @ [CHR 0x0A]) env)"

section \<open>The cloud-init data\<close>

record WriteFileConfig =
  wf_Path :: string
  wf_Content :: string
  wf_Owner :: "string option"
  wf_Permissions :: "string option"
  wf_Append :: "bool option"

text \<open>The three module lists are marked \<open>omitzero\<close>: nil is left out, an empty list is not.\<close>

record UserData =
  ud_CloudInitModules :: "string list option"
  ud_CloudConfigModules :: "string list option"
  ud_CloudFinalModules :: "string list option"
  ud_DisableRoot :: "bool option"
  ud_WriteFiles :: "WriteFileConfig list"

record MetaData =
  md_InstanceId :: string
  md_LocalHostname :: "string option"

record NetworkConfigEthernet =
  eth_Macaddress :: "string option"
  eth_Dhcp4 :: "bool option"
  eth_Dhcp6 :: "bool option"
  eth_Addresses :: "string list"
  eth_Gateway4 :: "string option"
  eth_Gateway6 :: "string option"
  eth_Nameservers :: "string list option"
  eth_LinkLocal :: "string list option"

record NetworkConfig =
  net_Version :: go_int
  net_Ethernets :: "(string \<times> NetworkConfigEthernet) list"

definition cloud_user_data :: "Service \<Rightarrow> UserData" where
  "cloud_user_data service =
     \<lparr>ud_CloudInitModules = Some [''seed_random'', ''write_files'', ''ssh''],
      ud_CloudConfigModules = Some [], ud_CloudFinalModules = Some [], ud_DisableRoot = Some False,
      ud_WriteFiles =
        (if svc_Env service \<noteq> []
         then [\<lparr>wf_Path = ''/etc/environment'', wf_Content = buildEtcEnvironmentString (svc_Env service),
                wf_Owner = Some ''root:root'', wf_Permissions = Some ''0644'', wf_Append = Some True\<rparr>]
         else [])\<rparr>"

definition cloud_network_config :: "networkConfig option \<Rightarrow> NetworkConfig" where
  "cloud_network_config netConf =
     \<lparr>net_Version = 2,
      net_Ethernets =
        (case netConf of
           None \<Rightarrow> []
         | Some nc \<Rightarrow>
             [(''main'', \<lparr>eth_Macaddress = Some (nc_Mac nc), eth_Dhcp4 = Some False, eth_Dhcp6 = Some False,
                eth_Addresses = [nc_AddressIpv4Cidr nc], eth_Gateway4 = Some (nc_GatewayIpv4 nc),
                eth_Gateway6 = None, eth_Nameservers = Some [''8.8.8.8''], eth_LinkLocal = Some []\<rparr>)])\<rparr>"

section \<open>Creating an instance\<close>

text \<open>
  The outcomes of the operations outside, in the order \<open>NewInstance\<close> calls them, and the
  effects it has in that order.
\<close>

record new_env =
  ne_CreateSubDir :: "string \<Rightarrow> string \<Rightarrow> string option"
  ne_Retrieve :: "string \<Rightarrow> string \<Rightarrow> go_int \<Rightarrow> string + Image"
  ne_Overlay :: bool
  ne_CreateNetworkNamespaceForUnikernel :: "string option"
  ne_RetrieveTapMacInNamespace :: "string + string"
  ne_uuid :: string
  ne_StoreJSON :: "string option"
  ne_CreateNoCloudFsImg :: "string option"
  ne_DeleteNamespaceForUnikernel :: "string option"

datatype effect =
    StateDirCreated string
  | ImageRetrieved string string go_int
  | NamespaceCreated string go_int string
  | ConfigWritten string jval
  | CloudInitWritten UserData MetaData NetworkConfig string
  | NamespaceDeleted string go_int
  | LoggerClosed
  | StateDirRemoved string

record Instance =
  vm_id :: string
  vm_service :: Service
  vm_socketPath :: string
  vm_stateDirPath :: string
  vm_config :: InstanceConfig
  vm_configExt :: InstanceConfigExt
  vm_machineName :: string
  vm_cgroupPath :: string
  vm_state :: inst

definition setupNetwork :: "new_env \<Rightarrow> Service \<Rightarrow> effect list \<times> (string + networkConfig option)" where
  "setupNetwork env service =
     (if \<not> ne_Overlay env then ([], Ok None)
      else
        let created = [NamespaceCreated (svc_Sname service) (svc_Instance service) (svc_Ports service)]
        in (case ne_CreateNetworkNamespaceForUnikernel env of
              Some e \<Rightarrow> ([], Err e)
            | None \<Rightarrow>
                (case ne_RetrieveTapMacInNamespace env of
                   Err e \<Rightarrow> (created, Err e)
                 | Ok mac \<Rightarrow>
                     (created, Ok (Some \<lparr>nc_Mac = mac, nc_AddressIpv4Cidr = ''192.168.1.2/30'',
                                         nc_GatewayIpv4 = ''192.168.1.1''\<rparr>)))))"

definition teardownNetwork :: "new_env \<Rightarrow> Service \<Rightarrow> effect list \<times> string option" where
  "teardownNetwork env service =
     (if \<not> ne_Overlay env then ([], None)
      else (case ne_DeleteNamespaceForUnikernel env of
              Some e \<Rightarrow> ([], Some e)
            | None \<Rightarrow> ([NamespaceDeleted (svc_Sname service) (svc_Instance service)], None)))"

text \<open>\<open>Close\<close> of an instance that is not running.\<close>

definition close_stopped :: "new_env \<Rightarrow> Service \<Rightarrow> string \<Rightarrow> effect list" where
  "close_stopped env service stateDirPath =
     (case teardownNetwork env service of
        (eff, Some _) \<Rightarrow> eff
      | (eff, None) \<Rightarrow> eff @ [LoggerClosed, StateDirRemoved stateDirPath])"

definition rootfsMinSize :: int where
  "rootfsMinSize = 536870912"

definition NewInstance ::
    "new_env \<Rightarrow> string \<Rightarrow> Service \<Rightarrow> string \<Rightarrow> string \<Rightarrow> effect list \<times> (string + Instance)" where
  "NewInstance env taskId service baseRuntimeDirPath baseStateDirPath =
     (let rootfsSize = push_bit 20 (svc_Storage service) in
      if sint rootfsSize < rootfsMinSize then ([], Err ''disk size'')
      else
        let subName = ''instance-'' @ taskId; stateDirPath = path_Join [baseStateDirPath, subName]
        in (case ne_CreateSubDir env baseStateDirPath subName of
          Some e \<Rightarrow> ([], Err e)
        | None \<Rightarrow>
        (case ne_Retrieve env (svc_Image service) stateDirPath rootfsSize of
          Err e \<Rightarrow> ([StateDirCreated stateDirPath], Err e)
        | Ok img \<Rightarrow>
            let eff = [StateDirCreated stateDirPath, ImageRetrieved (svc_Image service) stateDirPath rootfsSize]
            in (case setupNetwork env service of
              (eff2, Err e) \<Rightarrow> (eff @ eff2, Err e)
            | (eff2, Ok netConf) \<Rightarrow>
                let socketPath = path_Join [baseRuntimeDirPath, ne_uuid env @ ''.sock''];
                    config = NewInstanceConfig service img netConf socketPath stateDirPath;
                    machineName = ConvertTaskIdToMachineName taskId;
                    vm = \<lparr>vm_id = taskId, vm_service = service, vm_socketPath = socketPath,
                      vm_stateDirPath = stateDirPath, vm_config = config,
                      vm_configExt = NewInstanceConfigExt service, vm_machineName = machineName,
                      vm_cgroupPath = GetMachineCgroupPath machineName,
                      vm_state = new_inst (svc_OneShot service)\<rparr>;
                    eff = eff @ eff2
                in (case ne_StoreJSON env of
                  Some e \<Rightarrow> (eff @ close_stopped env service stateDirPath, Err e)
                | None \<Rightarrow>
                    let eff = eff @ [ConfigWritten (path_Join [stateDirPath, configFileName])
                                       (json_InstanceConfig config)]
                    in (case ne_CreateNoCloudFsImg env of
                      Some e \<Rightarrow> (eff @ close_stopped env service stateDirPath, Err e)
                    | None \<Rightarrow>
                        (eff @ [CloudInitWritten (cloud_user_data service)
                                  \<lparr>md_InstanceId = taskId, md_LocalHostname = None\<rparr>
                                  (cloud_network_config netConf)
                                  (path_Join [stateDirPath, cloudInitFileName])], Ok vm)))))))"

section \<open>Properties\<close>

fun op_dst :: "copy_op \<Rightarrow> string" where
  "op_dst (OpCreateExt4Img dst _) = dst"
| "op_dst (OpCopySquashFs _ dst _) = dst"
| "op_dst (OpCopyFile _ dst) = dst"

text \<open>
  The configuration of a machine names exactly the files the image store puts into its
  state directory: the root block device is the ext4 image, kernel and initial RAM disk are
  the copied files, the latter present exactly when the image has one; the only other file is
  the cloud-init drive. A network card is configured exactly with a network, with its MAC.
\<close>

theorem config_files_match:
  "let cfg = NewInstanceConfig service img netConf socketPath stateDirPath in
   set_option (ic_Kernel cfg) \<union> set_option (ic_Initrd cfg) \<union>
     set (map icBlock_Path (filter (\<lambda>b. icBlock_Root b = Some True) (ic_Block cfg))) =
     op_dst ` set (copy_ops src stateDirPath rootfsSize (img_HasInitrd img)) \<and>
   map icBlock_Path (filter (\<lambda>b. icBlock_Root b \<noteq> Some True) (ic_Block cfg)) =
     [path_Join [stateDirPath, cloudInitFileName]] \<and>
   map icNet_Mac (ic_Net cfg) = (case netConf of None \<Rightarrow> [] | Some nc \<Rightarrow> [Some (nc_Mac nc)])"
proof -
  let ?cfg = "NewInstanceConfig service img netConf socketPath stateDirPath"
  have root: "map icBlock_Path (filter (\<lambda>b. icBlock_Root b = Some True) (ic_Block ?cfg)) =
      [path_Join [stateDirPath, RootfsFileName]]"
    and other: "map icBlock_Path (filter (\<lambda>b. icBlock_Root b \<noteq> Some True) (ic_Block ?cfg)) =
      [path_Join [stateDirPath, cloudInitFileName]]"
    by (simp_all add: NewInstanceConfig_def empty_Block_def empty_InstanceConfig_def Let_def)
  have "set_option (ic_Kernel ?cfg) = {path_Join [stateDirPath, KernelFileName]}"
    "set_option (ic_Initrd ?cfg) =
       (if img_HasInitrd img then {path_Join [stateDirPath, InitrdFileName]} else {})"
    "map icNet_Mac (ic_Net ?cfg) = (case netConf of None \<Rightarrow> [] | Some nc \<Rightarrow> [Some (nc_Mac nc)])"
    by (simp_all add: NewInstanceConfig_def empty_Net_def empty_InstanceConfig_def Let_def split: option.split)
  moreover have "op_dst ` set (copy_ops src stateDirPath rootfsSize (img_HasInitrd img)) =
      {path_Join [stateDirPath, RootfsFileName], path_Join [stateDirPath, KernelFileName]} \<union>
      (if img_HasInitrd img then {path_Join [stateDirPath, InitrdFileName]} else {})"
    by (auto simp: copy_ops_def Let_def)
  ultimately show ?thesis
    unfolding Let_def root other by auto
qed


definition test_service :: Service where
  "test_service = zero_Service\<lparr>svc_Sname := ''a.b.c.d'', svc_Storage := 1024\<rparr>"

definition test_env :: new_env where
  "test_env = \<lparr>ne_CreateSubDir = (\<lambda>_ _. None),
     ne_Retrieve = (\<lambda>_ _ _. Ok \<lparr>img_Key = ''k'', img_Size = 1, img_HasInitrd = True\<rparr>), ne_Overlay = True,
     ne_CreateNetworkNamespaceForUnikernel = None, ne_RetrieveTapMacInNamespace = Ok ''02:00'',
     ne_uuid = ''u'', ne_StoreJSON = None, ne_CreateNoCloudFsImg = None,
     ne_DeleteNamespaceForUnikernel = None\<rparr>"

lemma push_bit_1024: "push_bit 20 (1024 :: 64 word) = 1073741824"
  by (simp add: push_bit_eq_mult)


text \<open>
  A failed creation leaks the network namespace: when the namespace was created but its
  MAC address cannot be read, the error is returned and neither the namespace nor the state
  directory is removed.
\<close>

theorem NewInstance_leaks_namespace:
  assumes "ne_Overlay env" "ne_CreateNetworkNamespaceForUnikernel env = None"
    and "ne_RetrieveTapMacInNamespace env = Err e"
    and "ne_CreateSubDir env stateDir (''instance-'' @ taskId) = None"
    and "ne_Retrieve env (svc_Image service) (path_Join [stateDir, ''instance-'' @ taskId])
           (push_bit 20 (svc_Storage service)) = Ok img"
    and "rootfsMinSize \<le> sint (push_bit 20 (svc_Storage service))"
  shows "\<exists>eff. NewInstance env taskId service runDir stateDir = (eff, Err e) \<and>
     NamespaceCreated (svc_Sname service) (svc_Instance service) (svc_Ports service) \<in> set eff \<and>
     NamespaceDeleted (svc_Sname service) (svc_Instance service) \<notin> set eff \<and>
     (\<forall>d. StateDirRemoved d \<notin> set eff)"
  using assms by (simp add: NewInstance_def setupNetwork_def Let_def)

theorem NewInstance_leaks_namespace_witness:
  "\<exists>eff. NewInstance (test_env\<lparr>ne_RetrieveTapMacInNamespace := Err ''no tap0''\<rparr>) ''t'' test_service ''/run'' ''/s'' =
     (eff, Err ''no tap0'') \<and> NamespaceCreated ''a.b.c.d'' 0 [] \<in> set eff"
  using NewInstance_leaks_namespace [of "test_env\<lparr>ne_RetrieveTapMacInNamespace := Err ''no tap0''\<rparr>"
      "''no tap0''" "''/s''" "''t''" test_service _ "''/run''"]
  by (auto simp: test_env_def test_service_def zero_Service_def rootfsMinSize_def push_bit_1024)

text \<open>
  The command line matches the service: \<open>Start\<close> runs crosvm through the machine wrapper,
  inside the instance's network namespace exactly with the overlay network, and passes one
  \<open>--gpu\<close> argument per requested GPU, none for a negative number, and a render server exactly
  when there is one.
\<close>

theorem start_command_gpus:
  "let cmd = start_command overlay debug crosvm service taskId stateDirPath (NewInstanceConfigExt service)
   in take 3 cmd = [''machined-exec'', ConvertTaskIdToMachineName taskId, ''vm''] \<and>
      (debug \<noteq> ''true'' \<longrightarrow>
         take (if overlay then 5 else 1) (drop 3 cmd) =
           (if overlay then [''ip'', ''netns'', ''exec'', GenerateForModel service, crosvm] else [crosvm])) \<and>
      count_list (ToArgs (NewInstanceConfigExt service)) ''--gpu'' = nat (sint (svc_Vgpus service)) \<and>
      (''--gpu-render-server'' \<in> set (ToArgs (NewInstanceConfigExt service)) \<longleftrightarrow> 0 < sint (svc_Vgpus service)) \<and>
      (\<exists>pre. cmd = pre @ ToArgs (NewInstanceConfigExt service))"
proof -
  let ?ext = "NewInstanceConfigExt service"
  have arg: "hd (gpu_toArgString g) \<noteq> CHR ''-''" "gpu_toArgString g \<noteq> []"
    if "g \<in> set (ix_Gpu ?ext)" for g
    using that by (auto simp: NewInstanceConfigExt_def Let_def gpu_toArgString_def opt_arg_def show_str_def
        show_bool_def empty_Gpu_def)
  have cnt: "count_list (concat (map (\<lambda>gpu. [''--gpu'', gpu_toArgString gpu]) gs)) ''--gpu'' = length gs"
    if "\<forall>g \<in> set gs. hd (gpu_toArgString g) \<noteq> CHR ''-''" for gs
    using that by (induction gs) auto
  have no: "''--gpu-render-server'' \<notin> set (concat (map (\<lambda>gpu. [''--gpu'', gpu_toArgString gpu]) gs))"
    if "\<forall>g \<in> set gs. hd (gpu_toArgString g) \<noteq> CHR ''-''" for gs
    using that by (induction gs) (auto, metis list.sel(1))
  have len: "length (ix_Gpu ?ext) = nat (sint (svc_Vgpus service))"
    by (simp add: NewInstanceConfigExt_def Let_def)
  have rs: "ix_GpuRenderServer ?ext = None \<longleftrightarrow> \<not> 0 < sint (svc_Vgpus service)"
    by (auto simp: NewInstanceConfigExt_def Let_def)
  have srv: "server_toArgString s \<noteq> ''--gpu''" "server_toArgString s \<noteq> ''--gpu-render-server''"
    if "ix_GpuRenderServer ?ext = Some s" for s
    using that by (auto simp: NewInstanceConfigExt_def Let_def server_toArgString_def opt_arg_def
        split: if_splits)
  have "count_list (ToArgs ?ext) ''--gpu'' = nat (sint (svc_Vgpus service))"
    using cnt [of "ix_Gpu ?ext"] arg srv by (auto simp: ToArgs_def len split: option.splits)
  moreover have "''--gpu-render-server'' \<in> set (ToArgs ?ext) \<longleftrightarrow> 0 < sint (svc_Vgpus service)"
    using no [of "ix_Gpu ?ext"] arg rs by (auto simp: ToArgs_def split: option.splits)
  ultimately show ?thesis
    by (simp add: Let_def start_command_def MachinedExecCommand_def generateRunArgs_def
        wrapCommandWithIpNetnsExec_def wrapCommandWithScreen_def)
qed

theorem start_command_gpus_witness:
  "count_list (ToArgs (NewInstanceConfigExt (test_service\<lparr>svc_Vgpus := 2\<rparr>))) ''--gpu'' = 2 \<and>
   take 5 (drop 3 (start_command True ''false'' ''crosvm'' (test_service\<lparr>svc_Vgpus := 2\<rparr>) ''t'' ''/s''
     (NewInstanceConfigExt (test_service\<lparr>svc_Vgpus := 2\<rparr>)))) =
   [''ip'', ''netns'', ''exec'', GenerateForModel (test_service\<lparr>svc_Vgpus := 2\<rparr>), ''crosvm'']"
  using start_command_gpus [of True "''false''" "''crosvm''" "test_service\<lparr>svc_Vgpus := 2\<rparr>" "''t''" "''/s''"]
  by (simp add: Let_def)

lemma buildEtcEnvironmentString_Join:
  "buildEtcEnvironmentString env = Join ([] # env @ [[]]) [CHR 0x0A]"
  by (induction env) (auto simp: buildEtcEnvironmentString_def Join_Cons)

text \<open>
  The environment file of a machine has one line per variable, in order, after an empty
  line and before the end, for variables without a line break.
\<close>

theorem etc_environment_lines:
  assumes "\<forall>v \<in> set env. CHR 0x0A \<notin> set v"
  shows "Split (CHR 0x0A) (buildEtcEnvironmentString env) = [] # env @ [[]]"
  unfolding buildEtcEnvironmentString_Join by (rule Split_Join) (use assms in auto)

theorem etc_environment_lines_witness:
  "Split (CHR 0x0A) (buildEtcEnvironmentString [''A=1'', ''B=2'']) = [[], ''A=1'', ''B=2'', []]"
  using etc_environment_lines [of "[''A=1'', ''B=2'']"] by simp

end
