(* ===== verification/Stats.thy ===== *)
theory Stats
  imports GoStrings GoFloat
begin

text \<open>
  Resource metrics of virtual machines (\<open>crosvm/internal/stats\<close>): the tracker of a cgroup's
  CPU time and memory, which parses the kernel's files, the tracker of the system's CPU time,
  and the percentages in exact double arithmetic. The contents of the files and the results of
  the \<open>procfs\<close> library are arguments.
\<close>

section \<open>Scanning lines and printing numbers\<close>

text \<open>\<open>strconv.FormatFloat(x, 'f', 2, 64)\<close>\<close>

definition FormatFloat2 :: "f64 \<Rightarrow> string" where
  "FormatFloat2 x =
     (case x of
        NaN \<Rightarrow> ''NaN'' | PInf \<Rightarrow> ''+Inf'' | NInf \<Rightarrow> ''-Inf''
      | Fin k \<Rightarrow>
          let cents = rnd_even (nat \<bar>k\<bar> * 100) (nat f64_unit)
          in (if k < 0 then ''-'' else []) @ utoa (cents div 100) @ ''.'' @
             [digit_char (cents mod 100 div 10), digit_char (cents mod 10)])"

text \<open>The conversion \<open>uint64(x)\<close> of a double in range: truncation.\<close>

definition f64_to_u64 :: "f64 \<Rightarrow> u64" where
  "f64_to_u64 x = (case x of Fin k \<Rightarrow> word_of_int (k div f64_unit) | _ \<Rightarrow> 0)"

section \<open>Metrics of a cgroup\<close>

record CgroupMetricsTracker =
  ct_cgroupPath :: string
  ct_lastTotalCpuMicros :: u64

record CgroupMetrics =
  cm_CpuMicrosDelta :: u64
  cm_CurrentMemoryBytes :: u64

definition NewCgroupStatsTracker :: "string \<Rightarrow> CgroupMetricsTracker" where
  "NewCgroupStatsTracker cgroupPath = \<lparr>ct_cgroupPath = cgroupPath, ct_lastTotalCpuMicros = 0\<rparr>"

fun find_usage :: "string list \<Rightarrow> string + u64" where
  "find_usage [] = Err ''failed to find usage_usec line''"
| "find_usage (line # rest) =
     (case SplitN2 (CHR '' '') line of
        [key, val] \<Rightarrow>
          if key = ''usage_usec'' then
            (case ParseUint val of
               (n, None) \<Rightarrow> Ok (of_nat n)
             | (_, Some _) \<Rightarrow> Err ''failed to parse usage_usec value'')
          else find_usage rest
      | _ \<Rightarrow> find_usage rest)"

text \<open>\<open>read\<close> gives the content of a file of the cgroup or an error.\<close>

definition obtainTotalCpuMicros :: "(string \<Rightarrow> string + string) \<Rightarrow> string + u64" where
  "obtainTotalCpuMicros read =
     (case read ''cpu.stat'' of
        Err e \<Rightarrow> Err ''failed to read cpu.stat file''
      | Ok content \<Rightarrow> find_usage (ScanLines content))"

definition obtainCurrentMemoryBytes :: "(string \<Rightarrow> string + string) \<Rightarrow> string + u64" where
  "obtainCurrentMemoryBytes read =
     (case read ''memory.current'' of
        Err e \<Rightarrow> Err ''failed to read memory.current file''
      | Ok content \<Rightarrow>
          (case ParseUint (TrimSuffix content [CHR 0x0A]) of
             (n, None) \<Rightarrow> Ok (of_nat n)
           | (_, Some _) \<Rightarrow> Err ''failed to parse memory.current file''))"

definition cgroup_GatherMetrics ::
    "(string \<Rightarrow> string + string) \<Rightarrow> CgroupMetricsTracker \<Rightarrow> (string + CgroupMetrics) \<times> CgroupMetricsTracker"
where
  "cgroup_GatherMetrics read c =
     (case obtainTotalCpuMicros read of
        Err e \<Rightarrow> (Err e, c)
      | Ok newTotalCpuMicros \<Rightarrow>
          let cpuMicrosDelta =
                (if newTotalCpuMicros > ct_lastTotalCpuMicros c
                 then newTotalCpuMicros - ct_lastTotalCpuMicros c else 0)
          in (case obtainCurrentMemoryBytes read of
                Err e \<Rightarrow> (Err e, c)
              | Ok currentMemoryBytes \<Rightarrow>
                  (Ok \<lparr>cm_CpuMicrosDelta = cpuMicrosDelta, cm_CurrentMemoryBytes = currentMemoryBytes\<rparr>,
                   c\<lparr>ct_lastTotalCpuMicros := newTotalCpuMicros\<rparr>)))"

section \<open>Metrics of the system\<close>

record SystemMetrics =
  sm_CpuMicrosDelta :: u64
  sm_OnlineCpuCount :: u64
  sm_TotalMemoryBytes :: u64

text \<open>The eight times that \<open>/proc/stat\<close> reports, in the order in which the code adds them.\<close>

definition obtainTotalCpuSeconds :: "string + f64 list \<Rightarrow> string + f64" where
  "obtainTotalCpuSeconds stat =
     (case stat of
        Err e \<Rightarrow> Err e
      | Ok [] \<Rightarrow> Ok (Fin 0)
      | Ok (t # ts) \<Rightarrow> Ok (foldl f64_add t ts))"

text \<open>A CPU counts as online also when reading its status fails.\<close>

definition obtainOnlineCpuCount :: "string + (string + bool) list \<Rightarrow> string + u64" where
  "obtainOnlineCpuCount cpus =
     (case cpus of
        Err e \<Rightarrow> Err e
      | Ok cs \<Rightarrow> Ok (foldl (\<lambda>n c. case c of Err _ \<Rightarrow> n + 1 | Ok online \<Rightarrow> if online then n + 1 else n) 0 cs))"

definition obtainTotalMemoryBytes :: "string + u64 option \<Rightarrow> string + u64" where
  "obtainTotalMemoryBytes meminfo =
     (case meminfo of
        Err e \<Rightarrow> Err e
      | Ok None \<Rightarrow> Err ''total memory bytes was not available in /proc/meminfo''
      | Ok (Some n) \<Rightarrow> Ok n)"

text \<open>The tracker's state is \<open>lastTotalCpuSeconds\<close>.\<close>

definition system_GatherMetrics ::
    "string + f64 list \<Rightarrow> string + (string + bool) list \<Rightarrow> string + u64 option \<Rightarrow> f64
      \<Rightarrow> (string + SystemMetrics) \<times> f64" where
  "system_GatherMetrics stat cpus meminfo lastTotalCpuSeconds =
     (case obtainTotalCpuSeconds stat of
        Err e \<Rightarrow> (Err e, lastTotalCpuSeconds)
      | Ok newTotalCpuSeconds \<Rightarrow>
          let cpuSecondsDelta =
                (if f64_gt newTotalCpuSeconds lastTotalCpuSeconds
                 then f64_sub newTotalCpuSeconds lastTotalCpuSeconds else Fin 0)
          in (case obtainOnlineCpuCount cpus of
                Err e \<Rightarrow> (Err e, lastTotalCpuSeconds)
              | Ok onlineCpuCount \<Rightarrow>
                  (case obtainTotalMemoryBytes meminfo of
                     Err e \<Rightarrow> (Err e, lastTotalCpuSeconds)
                   | Ok totalMemoryBytes \<Rightarrow>
                       (Ok \<lparr>sm_CpuMicrosDelta = f64_to_u64 (f64_mul cpuSecondsDelta (f64_of_int 1000000)),
                           sm_OnlineCpuCount = onlineCpuCount, sm_TotalMemoryBytes = totalMemoryBytes\<rparr>,
                        newTotalCpuSeconds))))"

definition CalculateCpuPercentage :: "SystemMetrics \<Rightarrow> CgroupMetrics \<Rightarrow> f64" where
  "CalculateCpuPercentage sm cm =
     (if sm_CpuMicrosDelta sm = 0 \<or> sm_OnlineCpuCount sm = 0 then Fin 0
      else
        let perCore = f64_div (f64_of_int (uint (sm_CpuMicrosDelta sm)))
                              (f64_of_int (uint (sm_OnlineCpuCount sm)))
        in f64_mul (f64_div (f64_of_int (uint (cm_CpuMicrosDelta cm))) perCore) (f64_of_int 100))"

definition CalculateMemoryPercentage :: "SystemMetrics \<Rightarrow> CgroupMetrics \<Rightarrow> f64" where
  "CalculateMemoryPercentage sm cm =
     (if sm_TotalMemoryBytes sm = 0 then Fin 0
      else f64_mul (f64_div (f64_of_int (uint (cm_CurrentMemoryBytes cm)))
                            (f64_of_int (uint (sm_TotalMemoryBytes sm)))) (f64_of_int 100))"

section \<open>The deltas add up\<close>

text \<open>A sequence of readings of a cgroup, each the contents of its files.\<close>

primrec gather_all :: "(string \<Rightarrow> string + string) list \<Rightarrow> CgroupMetricsTracker \<Rightarrow>
    CgroupMetrics list \<times> CgroupMetricsTracker" where
  "gather_all [] c = ([], c)"
| "gather_all (r # rs) c =
     (case cgroup_GatherMetrics r c of
        (Err _, c') \<Rightarrow> gather_all rs c'
      | (Ok m, c') \<Rightarrow> (case gather_all rs c' of (ms, c'') \<Rightarrow> (m # ms, c'')))"

definition cpu_total :: "CgroupMetrics list \<Rightarrow> nat" where
  "cpu_total ms = sum_list (map (\<lambda>m. unat (cm_CpuMicrosDelta m)) ms)"

lemma GatherMetrics_error_keeps:
  "fst (cgroup_GatherMetrics r c) = Err e \<Longrightarrow> snd (cgroup_GatherMetrics r c) = c"
  by (auto simp: cgroup_GatherMetrics_def Let_def split: sum.splits)

lemma GatherMetrics_Ok:
  assumes "cgroup_GatherMetrics r c = (Ok m, c')"
  shows "unat (cm_CpuMicrosDelta m) + unat (ct_lastTotalCpuMicros c) =
     max (unat (ct_lastTotalCpuMicros c)) (unat (ct_lastTotalCpuMicros c')) \<and>
     obtainTotalCpuMicros r = Ok (ct_lastTotalCpuMicros c')"
  using assms
  by (auto simp: cgroup_GatherMetrics_def Let_def word_less_nat_alt word_le_nat_alt unat_sub max_def split: sum.splits if_splits)

text \<open>
  No CPU time is counted twice or lost: while the kernel's counter does not go back, the
  deltas reported over any sequence of readings, with failed readings in between, add up to
  the counter's last value read, less the one the tracker started from.
\<close>

theorem cpu_deltas_sum:
  assumes "sorted (map (\<lambda>r. case obtainTotalCpuMicros r of Ok n \<Rightarrow> unat n | Err _ \<Rightarrow> 0) rs)"
    and "\<forall>r \<in> set rs. is_ok (obtainTotalCpuMicros r)"
    and "rs = [] \<or> unat (ct_lastTotalCpuMicros c) \<le>
           (case obtainTotalCpuMicros (hd rs) of Ok n \<Rightarrow> unat n | Err _ \<Rightarrow> 0)"
  shows "cpu_total (fst (gather_all rs c)) + unat (ct_lastTotalCpuMicros c) =
         unat (ct_lastTotalCpuMicros (snd (gather_all rs c)))"
  using assms
proof (induction rs arbitrary: c)
  case Nil
  then show ?case by (simp add: cpu_total_def)
next
  case (Cons r rs)
  obtain n where n: "obtainTotalCpuMicros r = Ok n"
    using Cons.prems(2) by (cases "obtainTotalCpuMicros r") auto
  have hd: "rs = [] \<or> unat n \<le> (case obtainTotalCpuMicros (hd rs) of Ok n \<Rightarrow> unat n | Err _ \<Rightarrow> 0)"
    using Cons.prems(1) n by (cases rs) auto
  have rest: "sorted (map (\<lambda>r. case obtainTotalCpuMicros r of Ok n \<Rightarrow> unat n | Err _ \<Rightarrow> 0) rs)"
    "\<forall>r \<in> set rs. is_ok (obtainTotalCpuMicros r)"
    using Cons.prems by auto
  obtain res c' where g: "cgroup_GatherMetrics r c = (res, c')"
    by fastforce
  show ?case
  proof (cases res)
    case (Inl e)
    then have "c' = c"
      using GatherMetrics_error_keeps [of r c e] g by simp
    moreover have "rs = [] \<or> unat (ct_lastTotalCpuMicros c) \<le>
        (case obtainTotalCpuMicros (hd rs) of Ok n \<Rightarrow> unat n | Err _ \<Rightarrow> 0)"
      using hd Cons.prems(3) n by auto
    ultimately show ?thesis
      using Cons.IH [OF rest, of c] g Inl by simp
  next
    case (Inr m)
    then have m: "unat (cm_CpuMicrosDelta m) + unat (ct_lastTotalCpuMicros c) =
        max (unat (ct_lastTotalCpuMicros c)) (unat (ct_lastTotalCpuMicros c'))" "n = ct_lastTotalCpuMicros c'"
      using GatherMetrics_Ok [of r c m c'] g n by auto
    then have "cpu_total (fst (gather_all rs c')) + unat (ct_lastTotalCpuMicros c') =
        unat (ct_lastTotalCpuMicros (snd (gather_all rs c')))"
      using Cons.IH [OF rest, of c'] hd by simp
    moreover have "unat (ct_lastTotalCpuMicros c) \<le> unat (ct_lastTotalCpuMicros c')"
      using Cons.prems(3) n m(2) by simp
    moreover obtain ms c'' where "gather_all rs c' = (ms, c'')"
      by fastforce
    ultimately show ?thesis
      using g Inr m(1) by (simp add: cpu_total_def)
  qed
qed

definition test_cgroup :: "string \<Rightarrow> string \<Rightarrow> string + string" where
  "test_cgroup usage file =
     (if file = ''cpu.stat'' then Ok (''usage_usec '' @ usage @ [CHR 0x0A]) else Ok ''5'')"

theorem cpu_deltas_sum_witness:
  "cpu_total (fst (gather_all [test_cgroup ''3'', test_cgroup ''7''] (NewCgroupStatsTracker ''/g''))) + 0 =
     unat (ct_lastTotalCpuMicros (snd (gather_all [test_cgroup ''3'', test_cgroup ''7'']
       (NewCgroupStatsTracker ''/g''))))"
proof -
  have o: "obtainTotalCpuMicros (test_cgroup ''3'') = Ok 3" "obtainTotalCpuMicros (test_cgroup ''7'') = Ok 7"
    by (simp_all add: obtainTotalCpuMicros_def test_cgroup_def ScanLines_def drop_cr_def SplitN2_def Cut_def
        ParseUint_def all_digits_def digits_val_def digit_val_def is_digit_def char_between_def)
  have z: "ct_lastTotalCpuMicros (NewCgroupStatsTracker ''/g'') = 0"
    by (simp add: NewCgroupStatsTracker_def)
  show ?thesis
    using cpu_deltas_sum [of "[test_cgroup ''3'', test_cgroup ''7'']" "NewCgroupStatsTracker ''/g''"]
    by (simp add: o z)
qed

end
