(* ===== verification/CrosvmRuntime.thy ===== *)
theory CrosvmRuntime
  imports CrosvmVm Stats
begin

text \<open>
  The crosvm runtime (\<open>crosvm/runtime.go\<close>): the table of instances behind the runtime's lock,
  deployment, undeployment, shutdown and the resource report. Each operation holds the lock
  from start to end, so it is one function on the table; what it asks of an instance is the
  interface \<open>vm_lifecycle\<close>, interpreted by \<open>NewInstance\<close>, \<open>Start\<close> and \<open>Close\<close>.
\<close>

section \<open>The runtime\<close>

datatype rt_error = RuntimeUnavailable string | CreateFailed string | InstanceError inst_error
  | StopTimedOut

record 'i Runtime =
  rt_error :: "string option"
  rt_executablePath :: string
  rt_runtimeDirPath :: string
  rt_stateDirPath :: string
  rt_cacheDirPath :: string
  rt_instances :: "(string \<times> 'i) list"

definition executableName :: string where
  "executableName = ''crosvm''"

record RuntimeInfo =
  ri_RuntimeDirPath :: string
  ri_StateDirPath :: string
  ri_CacheDirPath :: string

text \<open>The outcomes of what \<open>newRuntime\<close> does outside, in its order; \<open>None\<close> is no error.\<close>

record runtime_env =
  re_NewSystemMetricsTracker :: "string option"
  re_MkdirAll :: "string \<Rightarrow> string option"
  re_LookPath :: "string \<Rightarrow> string + string"
  re_CreateSubDir :: "string \<Rightarrow> string \<Rightarrow> string option"
  re_NewStore :: "string \<Rightarrow> string option"

definition failed_runtime :: "string \<Rightarrow> 'i Runtime" where
  "failed_runtime e = \<lparr>rt_error = Some e, rt_executablePath = [], rt_runtimeDirPath = [],
     rt_stateDirPath = [], rt_cacheDirPath = [], rt_instances = []\<rparr>"

definition newRuntime :: "runtime_env \<Rightarrow> RuntimeInfo \<Rightarrow> 'i Runtime" where
  "newRuntime env info =
     (case re_NewSystemMetricsTracker env of Some e \<Rightarrow> failed_runtime e | None \<Rightarrow>
     (case re_MkdirAll env ''/var/empty'' of Some e \<Rightarrow> failed_runtime e | None \<Rightarrow>
     (case re_LookPath env executableName of Err e \<Rightarrow> failed_runtime e | Ok executablePath \<Rightarrow>
     (case re_CreateSubDir env (ri_RuntimeDirPath info) ''crosvm'' of Some e \<Rightarrow> failed_runtime e | None \<Rightarrow>
     (case re_CreateSubDir env (ri_StateDirPath info) ''crosvm'' of Some e \<Rightarrow> failed_runtime e | None \<Rightarrow>
     (case re_CreateSubDir env (ri_CacheDirPath info) ''crosvm'' of Some e \<Rightarrow> failed_runtime e | None \<Rightarrow>
     (let cacheDirPath = path_Join [ri_CacheDirPath info, ''crosvm''] in
     (case re_CreateSubDir env cacheDirPath ''images'' of Some e \<Rightarrow> failed_runtime e | None \<Rightarrow>
     (case re_NewStore env (path_Join [cacheDirPath, ''images'']) of Some e \<Rightarrow> failed_runtime e | None \<Rightarrow>
        \<lparr>rt_error = None, rt_executablePath = executablePath,
         rt_runtimeDirPath = path_Join [ri_RuntimeDirPath info, ''crosvm''],
         rt_stateDirPath = path_Join [ri_StateDirPath info, ''crosvm''],
         rt_cacheDirPath = cacheDirPath, rt_instances = []\<rparr>)))))))))"

definition Runtime_Deploy ::
    "(string \<Rightarrow> Service \<Rightarrow> rt_error + 'i) \<Rightarrow> ('i \<Rightarrow> rt_error option \<times> 'i) \<Rightarrow> Service \<Rightarrow> 'i Runtime
      \<Rightarrow> rt_error option \<times> 'i Runtime" where
  "Runtime_Deploy new start service r =
     (case rt_error r of
        Some e \<Rightarrow> (Some (RuntimeUnavailable e), r)
      | None \<Rightarrow>
          let taskId = GenerateForModel service in
          (case (case map_of (rt_instances r) taskId of Some i \<Rightarrow> Ok i | None \<Rightarrow> new taskId service) of
             Err e \<Rightarrow> (Some e, r)
           | Ok i \<Rightarrow>
               (case start i of
                  (err, i') \<Rightarrow> (err, r\<lparr>rt_instances := AList.update taskId i' (rt_instances r)\<rparr>))))"

definition Runtime_Undeploy ::
    "('i \<Rightarrow> rt_error option \<times> 'i) \<Rightarrow> string \<Rightarrow> go_int \<Rightarrow> 'i Runtime \<Rightarrow> rt_error option \<times> 'i Runtime" where
  "Runtime_Undeploy close sname instancenumber r =
     (case rt_error r of
        Some e \<Rightarrow> (Some (RuntimeUnavailable e), r)
      | None \<Rightarrow>
          let taskId = Generate sname instancenumber in
          (case map_of (rt_instances r) taskId of
             None \<Rightarrow> (None, r)
           | Some i \<Rightarrow>
               (case close i of
                  (Some e, i') \<Rightarrow> (Some e, r\<lparr>rt_instances := AList.update taskId i' (rt_instances r)\<rparr>)
                | (None, _) \<Rightarrow> (None, r\<lparr>rt_instances := AList.delete taskId (rt_instances r)\<rparr>))))"

text \<open>\<open>Stop\<close>: the instances as their \<open>Close\<close> left them, and the runtime afterwards.\<close>

definition Runtime_Stop ::
    "('i \<Rightarrow> rt_error option \<times> 'i) \<Rightarrow> 'i Runtime \<Rightarrow> (string \<times> rt_error option \<times> 'i) list \<times> 'i Runtime" where
  "Runtime_Stop close r =
     (if rt_error r \<noteq> None then ([], r)
      else (map (\<lambda>(taskId, i). (taskId, close i)) (rt_instances r), r\<lparr>rt_instances := []\<rparr>))"

definition vm_resources ::
    "SystemMetrics \<Rightarrow> ('i \<Rightarrow> string + CgroupMetrics) \<Rightarrow> ('i \<Rightarrow> string) \<Rightarrow> string \<times> 'i \<Rightarrow> Resources" where
  "vm_resources systemMetrics gather logs p =
     (case p of (taskId, i) \<Rightarrow>
        let (cpu, memory) =
              (case gather i of
                 Err _ \<Rightarrow> ([], [])
               | Ok metrics \<Rightarrow> (FormatFloat2 (CalculateCpuPercentage systemMetrics metrics),
                               utoa (unat (cm_CurrentMemoryBytes metrics))))
        in \<lparr>res_Cpu = cpu, res_Memory = memory, res_Disk = ''0'', res_Logs = logs i,
            res_Sname = ExtractServiceName taskId, res_Runtime = CROSVM_RUNTIME,
            res_Instance = ExtractInstanceNumber taskId, res_Status = SERVICE_RUNNING\<rparr>)"

definition reportResources ::
    "string + SystemMetrics \<Rightarrow> ('i \<Rightarrow> string + CgroupMetrics) \<Rightarrow> ('i \<Rightarrow> string) \<Rightarrow> instantiating
      \<Rightarrow> 'i Runtime \<Rightarrow> Resources list option" where
  "reportResources system gather logs registry r =
     (case system of
        Err _ \<Rightarrow> None
      | Ok systemMetrics \<Rightarrow>
          Some (map (vm_resources systemMetrics gather logs) (rt_instances r)
                @ InstantiatingResources CROSVM_RUNTIME registry))"

section \<open>The interface of an instance\<close>

locale vm_lifecycle =
  fixes new :: "string \<Rightarrow> Service \<Rightarrow> rt_error + 'i"
    and start :: "'i \<Rightarrow> rt_error option \<times> 'i"
    and close :: "'i \<Rightarrow> rt_error option \<times> 'i"
    and running :: "'i \<Rightarrow> bool"
    and closed :: "'i \<Rightarrow> bool"
    and taskid_of :: "'i \<Rightarrow> string"
  assumes new_taskid: "new taskId service = Ok i \<Longrightarrow> taskid_of i = taskId \<and> \<not> closed i"
    and start_taskid: "taskid_of (snd (start i)) = taskid_of i"
    and close_taskid: "taskid_of (snd (close i)) = taskid_of i"
    and start_ok: "fst (start i) = None \<Longrightarrow> running (snd (start i))"
    and start_closed: "closed i \<Longrightarrow> fst (start i) \<noteq> None"
    and start_error: "fst (start i) \<noteq> None \<Longrightarrow> snd (start i) = i"
    and close_ok: "fst (close i) = None \<Longrightarrow> closed (snd (close i))"
    and close_closed: "closed i \<Longrightarrow> fst (close i) = None"

text \<open>Every instance is filed under its own task id, once.\<close>

definition runtime_ok :: "('i \<Rightarrow> string) \<Rightarrow> 'i Runtime \<Rightarrow> bool" where
  "runtime_ok taskid_of r \<longleftrightarrow>
     distinct (map fst (rt_instances r)) \<and> (\<forall>(k, i) \<in> set (rt_instances r). taskid_of i = k)"

lemma runtime_ok_update:
  assumes "runtime_ok t r" "t i = k"
  shows "runtime_ok t (r\<lparr>rt_instances := AList.update k i (rt_instances r)\<rparr>)"
proof -
  have "t x = q" if "(q, x) \<in> set (AList.update k i (rt_instances r))" for q x
  proof -
    have "(q = k \<and> x = i) \<or> (q, x) \<in> set (rt_instances r)"
      using that set_update_subset [of k i "rt_instances r"] by auto
    then show ?thesis
      using assms by (auto simp: runtime_ok_def)
  qed
  then show ?thesis
    using assms(1) by (auto simp: runtime_ok_def distinct_update)
qed

lemma runtime_ok_delete:
  assumes "runtime_ok t r"
  shows "runtime_ok t (r\<lparr>rt_instances := AList.delete k (rt_instances r)\<rparr>)"
  using assms set_delete_subset [of k "rt_instances r"] by (auto simp: runtime_ok_def distinct_delete)

lemma runtime_ok_map_of: "runtime_ok t r \<Longrightarrow> map_of (rt_instances r) k = Some i \<Longrightarrow> t i = k"
  by (auto simp: runtime_ok_def dest: map_of_SomeD)

text \<open>A deployment that reaches an instance starts it and files it back.\<close>

lemma Runtime_Deploy_cases:
  obtains (failed) e where "Runtime_Deploy new start s r = (Some e, r)"
  | (started) i where
      "map_of (rt_instances r) (GenerateForModel s) = Some i \<or> new (GenerateForModel s) s = Ok i"
      "Runtime_Deploy new start s r =
         (fst (start i), r\<lparr>rt_instances := AList.update (GenerateForModel s) (snd (start i)) (rt_instances r)\<rparr>)"
proof (cases "rt_error r")
  case (Some e)
  then show ?thesis using failed by (simp add: Runtime_Deploy_def)
next
  case None
  show ?thesis
  proof (cases "case map_of (rt_instances r) (GenerateForModel s) of
      Some i \<Rightarrow> Ok i | None \<Rightarrow> new (GenerateForModel s) s")
    case (Inl e)
    with None show ?thesis using failed by (simp add: Runtime_Deploy_def Let_def)
  next
    case (Inr i)
    then have "map_of (rt_instances r) (GenerateForModel s) = Some i \<or> new (GenerateForModel s) s = Ok i"
      by (auto split: option.splits)
    with None Inr show ?thesis
      using started [of i] by (simp add: Runtime_Deploy_def Let_def split: prod.split)
  qed
qed

context vm_lifecycle
begin

lemma deploy_keeps:
  assumes "runtime_ok taskid_of r"
  shows "runtime_ok taskid_of (snd (Runtime_Deploy new start s r))"
proof (cases rule: Runtime_Deploy_cases [of new start s r])
  case failed
  with assms show ?thesis by simp
next
  case (started i)
  then have "taskid_of (snd (start i)) = GenerateForModel s"
    using new_taskid runtime_ok_map_of [OF assms] start_taskid by auto
  with started show ?thesis
    using runtime_ok_update [OF assms, of "snd (start i)" "GenerateForModel s"] by simp
qed

lemma undeploy_keeps:
  assumes "runtime_ok taskid_of r"
  shows "runtime_ok taskid_of (snd (Runtime_Undeploy close n k r))"
proof (cases "map_of (rt_instances r) (Generate n k)")
  case None
  with assms show ?thesis by (simp add: Runtime_Undeploy_def split: option.split)
next
  case (Some i)
  have "runtime_ok taskid_of
      (r\<lparr>rt_instances := AList.update (Generate n k) (snd (close i)) (rt_instances r)\<rparr>)"
    by (rule runtime_ok_update [OF assms]) (simp add: close_taskid runtime_ok_map_of [OF assms Some])
  then show ?thesis
    using assms Some runtime_ok_delete [OF assms]
    by (auto simp: Runtime_Undeploy_def Let_def split: option.split prod.split)
qed

lemma deploy_running:
  assumes "fst (Runtime_Deploy new start s r) = None"
  shows "\<exists>i. map_of (rt_instances (snd (Runtime_Deploy new start s r))) (GenerateForModel s) = Some i \<and> running i"
proof (cases rule: Runtime_Deploy_cases [of new start s r])
  case (started i)
  then show ?thesis
    using assms start_ok [of i] by (simp add: update_conv')
qed (use assms in simp)

lemma undeploy_gone:
  "fst (Runtime_Undeploy close n k r) = None \<Longrightarrow>
   map_of (rt_instances (snd (Runtime_Undeploy close n k r))) (Generate n k) = None"
  by (auto simp: Runtime_Undeploy_def Let_def delete_conv' split: option.splits prod.splits)

lemma others_untouched:
  "k \<noteq> GenerateForModel s \<Longrightarrow>
     map_of (rt_instances (snd (Runtime_Deploy new start s r))) k = map_of (rt_instances r) k"
  "k \<noteq> Generate n m \<Longrightarrow>
     map_of (rt_instances (snd (Runtime_Undeploy close n m r))) k = map_of (rt_instances r) k"
  subgoal
    by (cases rule: Runtime_Deploy_cases [of new start s r]) (simp_all add: update_conv')
  subgoal
    by (auto simp: Runtime_Undeploy_def Let_def update_conv' delete_conv' split: option.splits prod.splits)
  done

end

section \<open>The instances of the code\<close>

definition vm_new :: "new_env \<Rightarrow> string \<Rightarrow> string \<Rightarrow> string \<Rightarrow> Service \<Rightarrow> rt_error + Instance" where
  "vm_new env runDir stateDir taskId service =
     (case snd (NewInstance env taskId service runDir stateDir) of
        Err e \<Rightarrow> Err (CreateFailed e) | Ok vm \<Rightarrow> Ok vm)"

definition vm_start :: "bool \<Rightarrow> Instance \<Rightarrow> rt_error option \<times> Instance" where
  "vm_start started vm =
     (case Start started (vm_state vm) of
        (err, i) \<Rightarrow> (map_option InstanceError err, vm\<lparr>vm_state := i\<rparr>))"

text \<open>
  \<open>Close\<close> from begin to end: \<open>got\<close> is the exit received while waiting, if any arrives in time,
  \<open>torn\<close> whether the network can be torn down.
\<close>

definition vm_close :: "bool \<Rightarrow> instanceExitType option \<Rightarrow> Instance \<Rightarrow> rt_error option \<times> Instance" where
  "vm_close torn got vm =
     (if in_status (vm_state vm) = instanceStatusRunning then
        (case got of
           None \<Rightarrow> (Some StopTimedOut, vm)
         | Some e \<Rightarrow>
             (case Close_receive torn e (vm_state vm) of
                (err, i) \<Rightarrow> (map_option InstanceError err, vm\<lparr>vm_state := i\<rparr>)))
      else
        (case Close_begin torn (vm_state vm) of
           (err, i) \<Rightarrow> (map_option InstanceError err, vm\<lparr>vm_state := i\<rparr>)))"

definition vm_running :: "Instance \<Rightarrow> bool" where
  "vm_running vm \<longleftrightarrow> in_status (vm_state vm) = instanceStatusRunning"

definition vm_closed :: "Instance \<Rightarrow> bool" where
  "vm_closed vm \<longleftrightarrow> in_status (vm_state vm) = instanceStatusClosed"

lemmas vm_op_defs = vm_new_def vm_start_def vm_close_def vm_running_def vm_closed_def

lemma NewInstance_taskid:
  "snd (NewInstance env taskId service runDir stateDir) = Ok vm \<Longrightarrow>
   vm_id vm = taskId \<and> vm_service vm = service \<and> vm_state vm = new_inst (svc_OneShot service)"
  by (auto simp: NewInstance_def Let_def split: prod.splits sum.splits option.splits if_splits)

interpretation crosvm: vm_lifecycle "vm_new env runDir stateDir" "vm_start started" "vm_close torn got"
    vm_running vm_closed vm_id
  by unfold_locales
     (auto simp: vm_op_defs Start_def Close_begin_def Close_receive_def Close_end_def Let_def new_inst_def
       dest: NewInstance_taskid split: sum.splits option.splits if_splits instanceStatus.splits)

text \<open>
  C28: The runtime's table is right: after any successful deployment the machine filed under the
  service's task id is running, after any successful undeployment none is filed under the id,
  and neither touches the entries of other instances; every machine stays filed under its own
  task id, once. This holds whatever creation, start, stop and network teardown do.
\<close>

theorem crosvm_table:
  assumes "runtime_ok vm_id r"
  shows "let (err, r') = Runtime_Deploy (vm_new env runDir stateDir) (vm_start started) s r;
             (err2, r2) = Runtime_Undeploy (vm_close torn got) n k r
         in runtime_ok vm_id r' \<and> runtime_ok vm_id r2 \<and>
            (err = None \<longrightarrow> (\<exists>vm. map_of (rt_instances r') (GenerateForModel s) = Some vm \<and> vm_running vm)) \<and>
            (err2 = None \<longrightarrow> map_of (rt_instances r2) (Generate n k) = None) \<and>
            (\<forall>key. key \<noteq> GenerateForModel s \<longrightarrow> map_of (rt_instances r') key = map_of (rt_instances r) key) \<and>
            (\<forall>key. key \<noteq> Generate n k \<longrightarrow> map_of (rt_instances r2) key = map_of (rt_instances r) key)"
  using crosvm.deploy_keeps [OF assms, of env runDir stateDir started s]
    crosvm.undeploy_keeps [OF assms, of torn got n k]
    crosvm.deploy_running [of env runDir stateDir started s r]
    crosvm.undeploy_gone [of torn got n k r]
    crosvm.others_untouched(1) [of _ s env runDir stateDir started r]
    crosvm.others_untouched(2) [of _ n k torn got r]
  by (auto simp: case_prod_beta Let_def)

definition empty_runtime :: "Instance Runtime" where
  "empty_runtime = \<lparr>rt_error = None, rt_executablePath = ''/usr/bin/crosvm'', rt_runtimeDirPath = ''/run'',
     rt_stateDirPath = ''/s'', rt_cacheDirPath = ''/c'', rt_instances = []\<rparr>"

lemma test_vm_new: "\<exists>vm. vm_new test_env ''/run'' ''/s'' (GenerateForModel test_service) test_service = Ok vm \<and>
    in_status (vm_state vm) = instanceStatusStopped"
  by (simp add: vm_new_def NewInstance_def setupNetwork_def test_env_def test_service_def rootfsMinSize_def
      push_bit_1024 new_inst_def Let_def)

theorem crosvm_table_witness:
  "\<exists>vm. map_of (rt_instances (snd (Runtime_Deploy (vm_new test_env ''/run'' ''/s'') (vm_start True)
      test_service empty_runtime))) (GenerateForModel test_service) = Some vm \<and> vm_running vm"
proof -
  obtain vm where "vm_new test_env ''/run'' ''/s'' (GenerateForModel test_service) test_service = Ok vm"
    "in_status (vm_state vm) = instanceStatusStopped"
    using test_vm_new by blast
  then have "fst (Runtime_Deploy (vm_new test_env ''/run'' ''/s'') (vm_start True) test_service empty_runtime) = None"
    by (simp add: Runtime_Deploy_def empty_runtime_def vm_start_def Start_def Let_def)
  moreover have "runtime_ok vm_id empty_runtime"
    by (simp add: runtime_ok_def empty_runtime_def)
  ultimately show ?thesis
    using crosvm_table [of empty_runtime test_env "''/run''" "''/s''" True test_service True None "[]" 0]
    by (simp add: case_prod_beta Let_def)
qed

text \<open>
  A resource report identifies every machine: for a table filled by deployments the reported
  pairs of service name and instance number are those the machines were deployed with, in the
  order of the table and followed by the services still being instantiated. The reported
  status is RUNNING for every deployed machine, also for one that has stopped or completed.
\<close>

theorem report_identifies:
  assumes "\<forall>(k, vm) \<in> set (rt_instances r). k = GenerateForModel (vm_service vm)"
  shows "\<exists>rs. reportResources (Ok sm) gather logs registry r = Some (rs @ InstantiatingResources CROSVM_RUNTIME registry) \<and>
     map (\<lambda>x. (res_Sname x, res_Instance x)) rs =
       map (\<lambda>(k, vm). (svc_Sname (vm_service vm), svc_Instance (vm_service vm))) (rt_instances r) \<and>
     (\<forall>x \<in> set rs. res_Status x = SERVICE_RUNNING \<and> res_Runtime x = CROSVM_RUNTIME)"
proof -
  let ?rs = "map (vm_resources sm gather logs) (rt_instances r)"
  have "map (\<lambda>x. (res_Sname x, res_Instance x)) ?rs =
      map (\<lambda>(k, vm). (svc_Sname (vm_service vm), svc_Instance (vm_service vm))) (rt_instances r)"
    using assms by (auto simp: vm_resources_def GenerateForModel_def split: prod.split)
  moreover have "\<forall>x \<in> set ?rs. res_Status x = SERVICE_RUNNING \<and> res_Runtime x = CROSVM_RUNTIME"
    by (auto simp: vm_resources_def split: prod.split)
  ultimately show ?thesis
    by (auto simp: reportResources_def)
qed

theorem report_identifies_witness:
  "\<exists>rs. reportResources (Ok \<lparr>sm_CpuMicrosDelta = 0, sm_OnlineCpuCount = 1, sm_TotalMemoryBytes = 1\<rparr>)
      (\<lambda>_. Err ''stopped'') (\<lambda>_. []) [] empty_runtime = Some (rs @ InstantiatingResources CROSVM_RUNTIME []) \<and> rs = []"
  using report_identifies [of empty_runtime] by (simp add: empty_runtime_def)

text \<open>
  Shutting the runtime down forgets machines that did not stop: an instance whose exit does
  not arrive in time is left running, and the table is empty all the same, so nothing can
  stop it any more.
\<close>

theorem Stop_forgets_running:
  assumes "rt_error r = None" "(taskId, vm) \<in> set (rt_instances r)" "vm_running vm"
  shows "(taskId, Some StopTimedOut, vm) \<in> set (fst (Runtime_Stop (vm_close torn None) r)) \<and>
     rt_instances (snd (Runtime_Stop (vm_close torn None) r)) = []"
  using assms by (force simp: Runtime_Stop_def vm_close_def vm_running_def image_iff)

theorem Stop_forgets_running_witness:
  "\<exists>vm. vm_running vm \<and>
     (''t'', Some StopTimedOut, vm) \<in> set (fst (Runtime_Stop (vm_close True None)
        (empty_runtime\<lparr>rt_instances := [(''t'', vm)]\<rparr>)))"
proof -
  obtain vm where "vm_new test_env ''/run'' ''/s'' (GenerateForModel test_service) test_service = Ok vm"
    "in_status (vm_state vm) = instanceStatusStopped"
    using test_vm_new by blast
  then have "vm_running (snd (vm_start True vm))"
    by (simp add: vm_running_def vm_start_def Start_def Let_def)
  then show ?thesis
    using Stop_forgets_running [of "empty_runtime\<lparr>rt_instances := [(''t'', snd (vm_start True vm))]\<rparr>" "''t''"]
    by (fastforce simp: empty_runtime_def)
qed

end
