(* ===== verification/HostPath.thy ===== *)
theory HostPath
  imports GoPath "HOL-Library.AList"
begin

text \<open>
  The hostpath CSI plugin (\<open>src/csi/hostpath\<close>): the mount tracker with its state file, its
  cleanup queue and worker (\<open>mount_tracker.go\<close>), the node service (\<open>node.go\<close>), the test for
  mount points (\<open>mount_utils.go\<close>) and the endpoint parser (\<open>main.go\<close>).

  The host is the mount table, newest mount first, the tracker's state file and the list of
  calls made to change the host. The outcomes of these calls are a record of functions; what
  is relied on of the kernel is stated where it is used. An operation of the plugin is one
  function: it runs to its end before the next one starts, except where a lemma says otherwise.
\<close>

section \<open>The host\<close>

datatype sys_error = ENOENT | SysError string

datatype stat_result = StatOk | StatNotExist | StatError

type_synonym mount_entry = "string \<times> string \<times> bool"

record MountRecord =
  mr_VolumeID :: string
  mr_SourcePath :: string
  mr_TargetPath :: string
  mr_MountedAt :: string

datatype state_file = NoFile | BadFile | Records "MountRecord list"

text \<open>
  \<open>Unmount p ok\<close>: \<open>ok\<close> tells whether it succeeded. \<open>RemoveAll p mounted\<close>: \<open>mounted\<close> tells
  whether \<open>p\<close> was a mount point at the time.
\<close>

datatype sys_call =
    MkdirAll string
  | Mount string string bool
  | Unmount string bool
  | RemoveAll string bool

record host =
  ho_mounts :: "mount_entry list"
  ho_state_file :: state_file
  ho_calls :: "sys_call list"

record sys_env =
  se_BASE_MOUNT_PATH :: string
  se_Stat :: "string \<Rightarrow> stat_result"
  se_MkdirAll :: "string \<Rightarrow> bool"
  se_proc_mounts :: "string + string"
  se_Mount :: "string \<Rightarrow> string \<Rightarrow> bool \<Rightarrow> bool"
  se_Unmount :: "string \<Rightarrow> sys_error option"
  se_RemoveAll :: "string \<Rightarrow> sys_error option"
  se_WriteFile :: bool
  se_Rename :: bool
  se_now :: string

definition mounted :: "host \<Rightarrow> string \<Rightarrow> bool" where
  "mounted h t \<longleftrightarrow> t \<in> fst ` set (ho_mounts h)"

definition log_call :: "sys_call \<Rightarrow> host \<Rightarrow> host" where
  "log_call c h = h\<lparr>ho_calls := ho_calls h @ [c]\<rparr>"

definition sys_MkdirAll :: "sys_env \<Rightarrow> string \<Rightarrow> host \<Rightarrow> bool \<times> host" where
  "sys_MkdirAll env p h = (se_MkdirAll env p, log_call (MkdirAll p) h)"

definition sys_Mount :: "sys_env \<Rightarrow> string \<Rightarrow> string \<Rightarrow> bool \<Rightarrow> host \<Rightarrow> bool \<times> host" where
  "sys_Mount env source target readonly h =
     (if se_Mount env source target readonly
      then (True, (log_call (Mount source target readonly) h)
                    \<lparr>ho_mounts := (target, source, readonly) # ho_mounts h\<rparr>)
      else (False, h))"

fun remove_mount :: "string \<Rightarrow> mount_entry list \<Rightarrow> mount_entry list" where
  "remove_mount t [] = []"
| "remove_mount t (m # ms) = (if fst m = t then ms else m # remove_mount t ms)"

definition sys_Unmount :: "sys_env \<Rightarrow> string \<Rightarrow> host \<Rightarrow> sys_error option \<times> host" where
  "sys_Unmount env t h =
     (case se_Unmount env t of
        Some e \<Rightarrow> (Some e, log_call (Unmount t False) h)
      | None \<Rightarrow> (None, (log_call (Unmount t True) h)\<lparr>ho_mounts := remove_mount t (ho_mounts h)\<rparr>))"

definition sys_RemoveAll :: "sys_env \<Rightarrow> string \<Rightarrow> host \<Rightarrow> sys_error option \<times> host" where
  "sys_RemoveAll env p h = (se_RemoveAll env p, log_call (RemoveAll p (mounted h p)) h)"

section \<open>The mount tracker\<close>

record MountTracker =
  mt_mounts :: "(string \<times> MountRecord) list"
  mt_cleanupCh :: "string list"
  mt_retryQueue :: "(string \<times> nat) list"

definition cleanupCh_cap :: nat where
  "cleanupCh_cap = 100"

definition mt_save :: "sys_env \<Rightarrow> MountTracker \<Rightarrow> host \<Rightarrow> host" where
  "mt_save env mt h =
     (if se_WriteFile env \<and> se_Rename env
      then h\<lparr>ho_state_file := Records (map snd (mt_mounts mt))\<rparr> else h)"

definition mt_load :: "state_file \<Rightarrow> (string \<times> MountRecord) list" where
  "mt_load f =
     (case f of
        Records rs \<Rightarrow> foldl (\<lambda>m r. AList.update (mr_TargetPath r) r m) [] rs
      | _ \<Rightarrow> [])"

definition NewMountTracker :: "host \<Rightarrow> MountTracker" where
  "NewMountTracker h =
     \<lparr>mt_mounts = mt_load (ho_state_file h), mt_cleanupCh = [], mt_retryQueue = []\<rparr>"

definition IsMounted :: "MountTracker \<Rightarrow> string \<Rightarrow> bool" where
  "IsMounted mt t \<longleftrightarrow> map_of (mt_mounts mt) t \<noteq> None"

definition AddMount ::
    "sys_env \<Rightarrow> string \<Rightarrow> string \<Rightarrow> string \<Rightarrow> MountTracker \<times> host \<Rightarrow> MountTracker \<times> host" where
  "AddMount env volumeID source target s =
     (case s of (mt, h) \<Rightarrow>
        let mt' = mt\<lparr>mt_mounts := AList.update target
                      \<lparr>mr_VolumeID = volumeID, mr_SourcePath = source, mr_TargetPath = target,
                       mr_MountedAt = se_now env\<rparr> (mt_mounts mt)\<rparr>
        in (mt', mt_save env mt' h))"

definition attemptUnmount :: "sys_env \<Rightarrow> string \<Rightarrow> host \<Rightarrow> sys_error option \<times> host" where
  "attemptUnmount env t h =
     (case sys_Unmount env t h of
        (Some (SysError e), h1) \<Rightarrow> (Some (SysError e), h1)
      | (_, h1) \<Rightarrow>
          (case sys_RemoveAll env t h1 of
             (Some (SysError e), h2) \<Rightarrow> (Some (SysError e), h2)
           | (_, h2) \<Rightarrow> (None, h2)))"

definition enqueue_cleanup :: "string \<Rightarrow> MountTracker \<Rightarrow> MountTracker" where
  "enqueue_cleanup t mt =
     (if length (mt_cleanupCh mt) < cleanupCh_cap
      then mt\<lparr>mt_cleanupCh := mt_cleanupCh mt @ [t]\<rparr> else mt)"

definition untrack :: "string \<Rightarrow> MountTracker \<Rightarrow> MountTracker" where
  "untrack t mt = mt\<lparr>mt_mounts := AList.delete t (mt_mounts mt)\<rparr>"

definition RemoveMount ::
    "sys_env \<Rightarrow> string \<Rightarrow> MountTracker \<times> host \<Rightarrow> sys_error option \<times> MountTracker \<times> host" where
  "RemoveMount env t s =
     (case s of (mt, h) \<Rightarrow>
        if \<not> IsMounted mt t then (None, mt, h)
        else
          (case attemptUnmount env t h of
             (Some e, h1) \<Rightarrow> (Some e, enqueue_cleanup t mt, h1)
           | (None, h1) \<Rightarrow> let mt' = untrack t mt in (None, mt', mt_save env mt' h1)))"

text \<open>The worker takes a path from the channel, or goes over its queue at a tick.\<close>

definition worker_receive :: "MountTracker \<Rightarrow> MountTracker" where
  "worker_receive mt =
     (case mt_cleanupCh mt of
        [] \<Rightarrow> mt
      | t # ts \<Rightarrow> mt\<lparr>mt_cleanupCh := ts, mt_retryQueue := AList.update t 0 (mt_retryQueue mt)\<rparr>)"

definition worker_retry :: "sys_env \<Rightarrow> string \<times> nat \<Rightarrow> MountTracker \<times> host \<Rightarrow> MountTracker \<times> host" where
  "worker_retry env p s =
     (case p of (t, attempts) \<Rightarrow> case s of (mt, h) \<Rightarrow>
        if attempts > 0 \<and> attempts < 7
        then (mt\<lparr>mt_retryQueue := AList.update t (attempts + 1) (mt_retryQueue mt)\<rparr>, h)
        else
          (case attemptUnmount env t h of
             (Some _, h1) \<Rightarrow>
               (if attempts + 1 \<ge> 20
                then mt\<lparr>mt_retryQueue := AList.delete t (mt_retryQueue mt)\<rparr>
                else mt\<lparr>mt_retryQueue := AList.update t (attempts + 1) (mt_retryQueue mt)\<rparr>, h1)
           | (None, h1) \<Rightarrow>
               let mt' = untrack t (mt\<lparr>mt_retryQueue := AList.delete t (mt_retryQueue mt)\<rparr>)
               in (mt', mt_save env mt' h1)))"

definition worker_tick :: "sys_env \<Rightarrow> MountTracker \<times> host \<Rightarrow> MountTracker \<times> host" where
  "worker_tick env s = foldl (\<lambda>s p. worker_retry env p s) s (mt_retryQueue (fst s))"

definition clean_orphan :: "sys_env \<Rightarrow> string \<Rightarrow> MountTracker \<times> host \<Rightarrow> MountTracker \<times> host" where
  "clean_orphan env t s =
     (case s of (mt, h) \<Rightarrow>
        (case attemptUnmount env t h of
           (Some _, h1) \<Rightarrow> (enqueue_cleanup t mt, h1)
         | (None, h1) \<Rightarrow> (untrack t mt, h1)))"

definition CleanupOrphanedMounts :: "sys_env \<Rightarrow> MountTracker \<times> host \<Rightarrow> MountTracker \<times> host" where
  "CleanupOrphanedMounts env s =
     (let paths = map fst (mt_mounts (fst s)) in
      if paths = [] then s
      else case foldl (\<lambda>s t. clean_orphan env t s) s paths of (mt, h) \<Rightarrow> (mt, mt_save env mt h))"

definition mt_Close :: "sys_env \<Rightarrow> MountTracker \<times> host \<Rightarrow> MountTracker \<times> host" where
  "mt_Close env s = (case s of (mt, h) \<Rightarrow> (mt, mt_save env mt h))"

section \<open>The node service\<close>

datatype rpc_code = InvalidArgument | Internal | NotFound | Unimplemented

record publish_request =
  pr_VolumeId :: string
  pr_TargetPath :: string
  pr_VolumeContext :: "string \<rightharpoonup> string"
  pr_Readonly :: bool

definition proc_targets :: "string \<Rightarrow> string list" where
  "proc_targets content =
     concat (map (\<lambda>line. case Fields line of _ # mountPoint # _ \<Rightarrow> [mountPoint] | _ \<Rightarrow> [])
       (ScanLines content))"

definition isMountPoint :: "string + string \<Rightarrow> string \<Rightarrow> string + bool" where
  "isMountPoint file p =
     (case file of
        Err e \<Rightarrow> Err e
      | Ok content \<Rightarrow>
          Ok (list_ex (\<lambda>mountPoint. TrimRight mountPoint ''/'' = TrimRight p ''/'') (proc_targets content)))"

definition publish_source :: "sys_env \<Rightarrow> publish_request \<Rightarrow> string" where
  "publish_source env req =
     (let sourcePath = (case pr_VolumeContext req ''host_path'' of
                          Some hp \<Rightarrow> if hp \<noteq> [] then hp else pr_VolumeId req
                        | None \<Rightarrow> pr_VolumeId req)
      in if se_BASE_MOUNT_PATH env \<noteq> []
         then se_BASE_MOUNT_PATH env @ ''/'' @ ReplaceAll (ReplaceAll sourcePath ''../'' []) ''./'' []
         else sourcePath)"

text \<open>\<open>NodePublishVolume\<close> up to the decision, and the bind mount with its record.\<close>

datatype publish_plan = AlreadyTracked | AlreadyMounted string | BindMount string

definition publish_prepare ::
    "sys_env \<Rightarrow> publish_request \<Rightarrow> MountTracker option \<Rightarrow> host \<Rightarrow> (rpc_code + publish_plan) \<times> host" where
  "publish_prepare env req mto h =
     (let volumeID = pr_VolumeId req; targetPath = pr_TargetPath req;
          sourcePath = publish_source env req in
      if volumeID = [] \<or> targetPath = [] then (Err InvalidArgument, h)
      else
        let (stat_err, h) =
              (case se_Stat env sourcePath of
                 StatOk \<Rightarrow> (None, h)
               | StatNotExist \<Rightarrow>
                   (case sys_MkdirAll env sourcePath h of
                      (made, h1) \<Rightarrow> (if made then None else Some Internal, h1))
               | StatError \<Rightarrow> (Some NotFound, h))
        in (case stat_err of
              Some e \<Rightarrow> (Err e, h)
            | None \<Rightarrow>
                (case sys_MkdirAll env targetPath h of
                   (made, h1) \<Rightarrow>
                     (if \<not> made then (Err Internal, h1)
                      else if (case mto of Some mt \<Rightarrow> IsMounted mt targetPath | None \<Rightarrow> False)
                      then (Ok AlreadyTracked, h1)
                      else if isMountPoint (se_proc_mounts env) targetPath = Ok True
                      then (Ok (AlreadyMounted sourcePath), h1)
                      else (Ok (BindMount sourcePath), h1)))))"

definition track_mount ::
    "sys_env \<Rightarrow> publish_request \<Rightarrow> string \<Rightarrow> MountTracker option \<times> host \<Rightarrow> MountTracker option \<times> host" where
  "track_mount env req source s =
     (case s of
        (None, h) \<Rightarrow> (None, h)
      | (Some mt, h) \<Rightarrow>
          (case AddMount env (pr_VolumeId req) source (pr_TargetPath req) (mt, h) of
             (mt', h') \<Rightarrow> (Some mt', h')))"

definition publish_finish ::
    "sys_env \<Rightarrow> publish_request \<Rightarrow> rpc_code + publish_plan \<Rightarrow> MountTracker option \<times> host
      \<Rightarrow> rpc_code option \<times> MountTracker option \<times> host" where
  "publish_finish env req plan s =
     (case plan of
        Err e \<Rightarrow> (Some e, s)
      | Ok AlreadyTracked \<Rightarrow> (None, s)
      | Ok (AlreadyMounted source) \<Rightarrow> (None, track_mount env req source s)
      | Ok (BindMount source) \<Rightarrow>
          (case sys_Mount env source (pr_TargetPath req) (pr_Readonly req) (snd s) of
             (bound, h) \<Rightarrow>
               if bound then (None, track_mount env req source (fst s, h)) else (Some Internal, fst s, h)))"

definition NodePublishVolume ::
    "sys_env \<Rightarrow> publish_request \<Rightarrow> MountTracker option \<times> host
      \<Rightarrow> rpc_code option \<times> MountTracker option \<times> host" where
  "NodePublishVolume env req s =
     (case publish_prepare env req (fst s) (snd s) of
        (plan, h) \<Rightarrow> publish_finish env req plan (fst s, h))"

definition NodeUnpublishVolume ::
    "sys_env \<Rightarrow> string \<Rightarrow> MountTracker option \<times> host \<Rightarrow> rpc_code option \<times> MountTracker option \<times> host" where
  "NodeUnpublishVolume env targetPath s =
     (if targetPath = [] then (Some InvalidArgument, s)
      else
        (case s of
           (Some mt, h) \<Rightarrow>
             (case RemoveMount env targetPath (mt, h) of (_, mt', h') \<Rightarrow> (None, Some mt', h'))
         | (None, h) \<Rightarrow>
             (None, None, snd (sys_RemoveAll env targetPath (snd (sys_Unmount env targetPath h))))))"

definition NodeGetCapabilities :: "string list" where
  "NodeGetCapabilities = []"

definition NodeGetInfo :: "string \<Rightarrow> string option \<Rightarrow> rpc_code + string" where
  "NodeGetInfo nodeID hostname =
     (if nodeID \<noteq> [] then Ok nodeID else case hostname of Some n \<Rightarrow> Ok n | None \<Rightarrow> Err Internal)"

text \<open>Total, available and used bytes of \<open>statfs\<close>'s block size, blocks, free and available blocks.\<close>

definition NodeGetVolumeStats ::
    "string \<Rightarrow> (go_int \<times> u64 \<times> u64 \<times> u64) option \<Rightarrow> rpc_code + go_int \<times> go_int \<times> go_int" where
  "NodeGetVolumeStats volumePath statfs =
     (if volumePath = [] then Err InvalidArgument
      else (case statfs of
              None \<Rightarrow> Err Internal
            | Some (bsize, blocks, bfree, bavail) \<Rightarrow>
                let total = blocks * bsize; avail = bavail * bsize; used = total - bfree * bsize
                in Ok (total, avail, used)))"

definition NodeStageVolume :: rpc_code where "NodeStageVolume = Unimplemented"
definition NodeUnstageVolume :: rpc_code where "NodeUnstageVolume = Unimplemented"
definition NodeExpandVolume :: rpc_code where "NodeExpandVolume = Unimplemented"

definition unixPrefix :: string where
  "unixPrefix = ''unix://''"

definition parseEndpoint :: "string \<Rightarrow> string \<times> string" where
  "parseEndpoint ep =
     (if length ep > length unixPrefix \<and> take (length unixPrefix) ep = unixPrefix
      then (drop (length unixPrefix) ep, ''unix'')
      else if length ep > 0 \<and> hd ep = CHR ''/'' then (ep, ''unix'')
      else (ep, ''tcp''))"

text \<open>\<open>main\<close>: the tracker is loaded and cleaned up before the server starts.\<close>

definition hostpath_start :: "sys_env \<Rightarrow> host \<Rightarrow> MountTracker \<times> host" where
  "hostpath_start env h = CleanupOrphanedMounts env (NewMountTracker h, h)"

section \<open>User data is never removed\<close>

datatype hp_op =
    OpPublish sys_env publish_request
  | OpUnpublish sys_env string
  | OpReceive
  | OpTick sys_env
  | OpRestart sys_env

fun hp_exec :: "MountTracker \<times> host \<Rightarrow> hp_op \<Rightarrow> MountTracker \<times> host" where
  "hp_exec (mt, h) (OpPublish env req) =
     (case NodePublishVolume env req (Some mt, h) of (_, Some mt', h') \<Rightarrow> (mt', h') | _ \<Rightarrow> (mt, h))"
| "hp_exec (mt, h) (OpUnpublish env t) =
     (case NodeUnpublishVolume env t (Some mt, h) of (_, Some mt', h') \<Rightarrow> (mt', h') | _ \<Rightarrow> (mt, h))"
| "hp_exec (mt, h) OpReceive = (worker_receive mt, h)"
| "hp_exec (mt, h) (OpTick env) = worker_tick env (mt, h)"
| "hp_exec (mt, h) (OpRestart env) = hostpath_start env h"

text \<open>
  The kernel's part: \<open>umount\<close> reports a missing path only for a path that is not mounted, and
  the second fields of \<open>/proc/mounts\<close> are the mount points, with the characters that separate
  fields escaped.
\<close>

definition octal_escape :: "string \<Rightarrow> string" where
  "octal_escape t =
     concat (map (\<lambda>c. if c = CHR '' '' then CHR 0x5C # ''040'' else if c = CHR 0x09 then CHR 0x5C # ''011''
                       else if c = CHR 0x0A then CHR 0x5C # ''012'' else if c = CHR 0x5C then CHR 0x5C # ''134'' else [c]) t)"

definition enoent_ok :: "sys_env \<Rightarrow> host \<Rightarrow> bool" where
  "enoent_ok env h \<longleftrightarrow> (\<forall>t. se_Unmount env t = Some ENOENT \<longrightarrow> \<not> mounted h t)"

definition proc_ok :: "sys_env \<Rightarrow> host \<Rightarrow> bool" where
  "proc_ok env h \<longleftrightarrow>
     (\<exists>content. se_proc_mounts env = Ok content \<and>
        set (proc_targets content) = octal_escape ` fst ` set (ho_mounts h))"

text \<open>A path as the node engine passes it: clean, and nothing in it is escaped.\<close>

definition good_target :: "string \<Rightarrow> bool" where
  "good_target t \<longleftrightarrow> path_rooted t \<and> Clean t = t \<and> octal_escape t = t"

fun op_ok :: "host \<Rightarrow> hp_op \<Rightarrow> bool" where
  "op_ok h (OpPublish env req) \<longleftrightarrow> proc_ok env h \<and> good_target (pr_TargetPath req)"
| "op_ok h (OpUnpublish env t) \<longleftrightarrow> enoent_ok env h"
| "op_ok h OpReceive \<longleftrightarrow> True"
| "op_ok h (OpTick env) \<longleftrightarrow> enoent_ok env h"
| "op_ok h (OpRestart env) \<longleftrightarrow> enoent_ok env h"

primrec ops_ok :: "hp_op list \<Rightarrow> MountTracker \<times> host \<Rightarrow> bool" where
  "ops_ok [] s \<longleftrightarrow> True"
| "ops_ok (a # as) s \<longleftrightarrow> op_ok (snd s) a \<and> ops_ok as (hp_exec s a)"

definition safe :: "host \<Rightarrow> bool" where
  "safe h \<longleftrightarrow> distinct (map fst (ho_mounts h)) \<and> (\<forall>t. RemoveAll t True \<notin> set (ho_calls h))"

lemmas sys_defs = sys_MkdirAll_def sys_Mount_def sys_Unmount_def sys_RemoveAll_def log_call_def

lemma set_remove_mount: "set (remove_mount t ms) \<subseteq> set ms"
  by (induction ms) auto

lemma fst_remove_mount:
  "distinct (map fst ms) \<Longrightarrow> fst ` set (remove_mount t ms) = fst ` set ms - {t}"
  by (induction ms) (force, force)

lemma distinct_remove_mount: "distinct (map fst ms) \<Longrightarrow> distinct (map fst (remove_mount t ms))"
  using set_remove_mount by (induction ms) fastforce+

lemma save_simps [simp]:
  "ho_mounts (mt_save env mt h) = ho_mounts h" "ho_calls (mt_save env mt h) = ho_calls h"
  "safe (mt_save env mt h) = safe h" "mounted (mt_save env mt h) = mounted h"
  by (simp_all add: mt_save_def safe_def mounted_def fun_eq_iff)

lemma enoent_ok_save [simp]: "enoent_ok env (mt_save env' mt h) = enoent_ok env h"
  by (simp add: enoent_ok_def)

text \<open>What an attempt to unmount does to the mount table.\<close>

lemma attemptUnmount_mounts:
  assumes "safe h" "enoent_ok env h"
  shows "safe (snd (attemptUnmount env t h))"
    and "enoent_ok env (snd (attemptUnmount env t h))"
    and "fst (attemptUnmount env t h) = None \<Longrightarrow> \<not> mounted (snd (attemptUnmount env t h)) t"
    and "u \<noteq> t \<Longrightarrow> mounted (snd (attemptUnmount env t h)) u = mounted h u"
    and "mounted (snd (attemptUnmount env t h)) u \<Longrightarrow> mounted h u"
  using assms
  by (auto simp: attemptUnmount_def sys_defs safe_def enoent_ok_def mounted_def distinct_remove_mount
      fst_remove_mount split: option.splits sys_error.splits)

lemma worker_retry_safe:
  assumes "safe (snd s) \<and> enoent_ok env (snd s)"
  shows "safe (snd (worker_retry env p s)) \<and> enoent_ok env (snd (worker_retry env p s))"
proof (cases s)
  case (Pair mt h)
  obtain t a where p: "p = (t, a)" by force
  have "safe (snd (attemptUnmount env t h))" "enoent_ok env (snd (attemptUnmount env t h))"
    using assms Pair attemptUnmount_mounts(1,2) by auto
  then show ?thesis
    using assms by (auto simp: p Pair worker_retry_def Let_def split: prod.splits option.splits)
qed

lemma clean_orphan_safe:
  assumes "safe (snd s) \<and> enoent_ok env (snd s)"
  shows "safe (snd (clean_orphan env t s)) \<and> enoent_ok env (snd (clean_orphan env t s))"
proof (cases s)
  case (Pair mt h)
  have "safe (snd (attemptUnmount env t h))" "enoent_ok env (snd (attemptUnmount env t h))"
    using assms Pair attemptUnmount_mounts(1,2) by auto
  then show ?thesis
    by (auto simp: Pair clean_orphan_def split: prod.splits option.splits)
qed

lemma foldl_invariant: "P s \<Longrightarrow> (\<And>s x. x \<in> set xs \<Longrightarrow> P s \<Longrightarrow> P (f s x)) \<Longrightarrow> P (foldl f s xs)"
  by (induction xs arbitrary: s) auto

lemma worker_tick_safe:
  "safe (snd s) \<and> enoent_ok env (snd s) \<Longrightarrow> safe (snd (worker_tick env s))"
  using foldl_invariant [of "\<lambda>s. safe (snd s) \<and> enoent_ok env (snd s)" s "mt_retryQueue (fst s)"
      "\<lambda>s p. worker_retry env p s"] worker_retry_safe
  unfolding worker_tick_def by blast

lemma hostpath_start_safe:
  assumes "safe h \<and> enoent_ok env h"
  shows "safe (snd (hostpath_start env h))"
proof -
  have "safe (snd (foldl (\<lambda>s t. clean_orphan env t s) (NewMountTracker h, h) paths))" for paths
    using foldl_invariant [of "\<lambda>s. safe (snd s) \<and> enoent_ok env (snd s)" "(NewMountTracker h, h)" paths
      "\<lambda>s t. clean_orphan env t s"] clean_orphan_safe assms by auto
  then show ?thesis
    using assms by (auto simp: hostpath_start_def CleanupOrphanedMounts_def Let_def split: prod.split)
      (metis snd_conv)
qed

text \<open>The preparation of a publication leaves the mount table alone and sees what is mounted.\<close>

lemma publish_prepare_safe:
  assumes "publish_prepare env req mto h = (plan, h')"
  shows "ho_mounts h' = ho_mounts h" "safe h' = safe h" "ho_state_file h' = ho_state_file h"
  using assms
  by (auto simp: publish_prepare_def sys_defs safe_def Let_def split: if_splits stat_result.splits
      option.splits)

lemma isMountPoint_mounted:
  assumes "proc_ok env h" "good_target t" "mounted h t"
  shows "isMountPoint (se_proc_mounts env) t = Ok True"
proof -
  obtain content where c: "se_proc_mounts env = Ok content"
      "set (proc_targets content) = octal_escape ` fst ` set (ho_mounts h)"
    using assms(1) by (auto simp: proc_ok_def)
  have "t \<in> octal_escape ` fst ` set (ho_mounts h)"
    using assms(2,3) by (metis good_target_def imageI mounted_def)
  then show ?thesis
    using c by (auto simp: isMountPoint_def list_ex_iff)
qed

lemma publish_prepare_BindMount:
  assumes "publish_prepare env req mto h = (Ok (BindMount source), h')" "proc_ok env h"
    "good_target (pr_TargetPath req)"
  shows "\<not> mounted h (pr_TargetPath req)"
  using assms isMountPoint_mounted [OF assms(2,3)]
  by (auto simp: publish_prepare_def sys_defs Let_def split: if_splits stat_result.splits option.splits)

lemma NodePublishVolume_safe:
  assumes "safe h" "proc_ok env h" "good_target (pr_TargetPath req)"
    "NodePublishVolume env req (mto, h) = (err, mto', h')"
  shows "safe h'"
proof -
  obtain plan h1 where prep: "publish_prepare env req mto h = (plan, h1)" by force
  have h1: "safe h1" "ho_mounts h1 = ho_mounts h"
    using publish_prepare_safe [OF prep] assms(1) by auto
  have new: "\<not> mounted h (pr_TargetPath req)" if "plan = Ok (BindMount source)" for source
    using publish_prepare_BindMount [OF _ assms(2,3)] prep that by blast
  show ?thesis
    using assms(4) h1 new
    by (auto simp: NodePublishVolume_def prep publish_finish_def track_mount_def AddMount_def Let_def sys_defs
        safe_def mounted_def split: sum.splits publish_plan.splits option.splits if_splits)
qed

lemma RemoveMount_safe:
  "safe h \<Longrightarrow> enoent_ok env h \<Longrightarrow> RemoveMount env t (mt, h) = (err, mt', h') \<Longrightarrow> safe h'"
  using attemptUnmount_mounts(1) [of h env t]
  by (auto simp: RemoveMount_def Let_def split: if_splits prod.splits option.splits)

lemma hp_exec_safe:
  assumes "safe (snd s)" "op_ok (snd s) a"
  shows "safe (snd (hp_exec s a))"
proof (cases s)
  case (Pair mt h)
  show ?thesis
  proof (cases a)
    case (OpPublish env req)
    then show ?thesis
      using assms NodePublishVolume_safe [of h env req] by (auto simp: Pair split: prod.splits option.splits)
  next
    case (OpUnpublish env t)
    then show ?thesis
      using assms RemoveMount_safe [of h env t]
      by (auto simp: Pair NodeUnpublishVolume_def split: prod.splits option.splits)
  next
    case (OpTick env)
    then show ?thesis using assms worker_tick_safe [of s env] by (simp add: Pair)
  next
    case (OpRestart env)
    then show ?thesis using assms hostpath_start_safe [of h env] by (simp add: Pair)
  qed (use assms Pair in auto)
qed

lemma hp_run_safe: "safe (snd s) \<Longrightarrow> ops_ok ops s \<Longrightarrow> safe (snd (foldl hp_exec s ops))"
  by (induction ops arbitrary: s) (auto simp: hp_exec_safe)

definition host_start :: host where
  "host_start = \<lparr>ho_mounts = [(''/'', ''/dev/sda1'', False)], ho_state_file = NoFile, ho_calls = []\<rparr>"

definition env_start :: sys_env where
  "env_start = \<lparr>se_BASE_MOUNT_PATH = [], se_Stat = (\<lambda>_. StatOk), se_MkdirAll = (\<lambda>_. True),
     se_proc_mounts = Ok ''/dev/sda1 / ext4 rw 0 0'', se_Mount = (\<lambda>_ _ _. True),
     se_Unmount = (\<lambda>_. None), se_RemoveAll = (\<lambda>_. None), se_WriteFile = True, se_Rename = True,
     se_now = []\<rparr>"

definition req_start :: publish_request where
  "req_start = \<lparr>pr_VolumeId = ''/data'', pr_TargetPath = ''/p/v'', pr_VolumeContext = Map.empty,
     pr_Readonly = False\<rparr>"

lemma Fields_line: "Fields ''/dev/sda1 / ext4 rw 0 0'' = [''/dev/sda1'', ''/'', ''ext4'', ''rw'', ''0'', ''0'']"
  by (simp add: Fields.simps is_space_def char_between_def)

lemma proc_targets_start: "proc_targets ''/dev/sda1 / ext4 rw 0 0'' = [''/'']"
  by (simp add: proc_targets_def ScanLines_def drop_cr_def Fields_line)

lemma start_ok: "proc_ok env_start host_start" "good_target ''/p/v''" "safe host_start"
  by (simp_all add: proc_ok_def env_start_def host_start_def proc_targets_start octal_escape_def safe_def
      good_target_def Clean_def path_elements_def path_step_def path_rooted_def HasPrefix_def)



section \<open>Every mount stays tracked\<close>

text \<open>
  Mounts other than those in \<open>F\<close>, the host's own, are tracked, and the state file holds what
  is tracked.
\<close>

definition keys_ok :: "(string \<times> MountRecord) list \<Rightarrow> bool" where
  "keys_ok m \<longleftrightarrow> distinct (map fst m) \<and> (\<forall>(k, r) \<in> set m. mr_TargetPath r = k)"

definition tracks :: "string set \<Rightarrow> MountTracker \<times> host \<Rightarrow> bool" where
  "tracks F s \<longleftrightarrow> (case s of (mt, h) \<Rightarrow>
     keys_ok (mt_mounts mt) \<and> (\<forall>t. mounted h t \<longrightarrow> t \<in> F \<or> IsMounted mt t))"

definition persisted :: "MountTracker \<times> host \<Rightarrow> bool" where
  "persisted s \<longleftrightarrow> (case s of (mt, h) \<Rightarrow>
     ho_state_file h = Records (map snd (mt_mounts mt)) \<or> ho_state_file h = NoFile \<and> mt_mounts mt = [])"

fun writes_ok :: "hp_op \<Rightarrow> bool" where
  "writes_ok (OpPublish env req) \<longleftrightarrow> se_WriteFile env \<and> se_Rename env"
| "writes_ok (OpUnpublish env t) \<longleftrightarrow> se_WriteFile env \<and> se_Rename env"
| "writes_ok OpReceive \<longleftrightarrow> True"
| "writes_ok (OpTick env) \<longleftrightarrow> se_WriteFile env \<and> se_Rename env"
| "writes_ok (OpRestart env) \<longleftrightarrow> se_WriteFile env \<and> se_Rename env"

lemma keys_ok_update: "keys_ok m \<Longrightarrow> mr_TargetPath r = k \<Longrightarrow> keys_ok (AList.update k r m)"
  using set_update_subset [of k r m] by (auto simp: keys_ok_def distinct_update)

lemma keys_ok_delete: "keys_ok m \<Longrightarrow> keys_ok (AList.delete k m)"
  using set_delete_subset [of k m] by (auto simp: keys_ok_def distinct_delete)

lemma load_from:
  "distinct (map fst acc @ map mr_TargetPath rs) \<Longrightarrow>
   foldl (\<lambda>m r. AList.update (mr_TargetPath r) r m) acc rs = acc @ map (\<lambda>r. (mr_TargetPath r, r)) rs"
proof (induction rs arbitrary: acc)
  case (Cons r rs)
  have "AList.update (mr_TargetPath r) r acc = acc @ [(mr_TargetPath r, r)]"
    using Cons.prems by (induction acc) auto
  then show ?case
    using Cons by simp
qed simp

lemma load_saved:
  assumes "keys_ok m"
  shows "mt_load (Records (map snd m)) = m"
proof -
  have "map (\<lambda>p. (mr_TargetPath (snd p), snd p)) m = m"
    using assms by (induction m) (auto simp: keys_ok_def)
  moreover have "map (\<lambda>p. mr_TargetPath (snd p)) m = map fst m"
    using assms by (auto simp: keys_ok_def)
  ultimately show ?thesis
    using assms load_from [of "[]" "map snd m"] by (simp add: mt_load_def keys_ok_def comp_def del: map_eq_conv)
qed

lemma IsMounted_simps [simp]:
  "IsMounted (enqueue_cleanup t mt) = IsMounted mt"
  "IsMounted (mt\<lparr>mt_retryQueue := q\<rparr>) = IsMounted mt"
  "IsMounted (mt\<lparr>mt_cleanupCh := c\<rparr>) = IsMounted mt"
  "IsMounted (untrack t mt) u \<longleftrightarrow> u \<noteq> t \<and> IsMounted mt u"
  "mt_mounts (enqueue_cleanup t mt) = mt_mounts mt"
  by (auto simp: IsMounted_def enqueue_cleanup_def untrack_def fun_eq_iff delete_conv')

lemma persisted_save: "se_WriteFile env \<Longrightarrow> se_Rename env \<Longrightarrow> persisted (mt, mt_save env mt h)"
  by (simp add: persisted_def mt_save_def)

lemma tracks_save [simp]: "tracks F (mt, mt_save env mt' h) = tracks F (mt, h)"
  by (simp add: tracks_def)

lemma state_file_attempt [simp]: "ho_state_file (snd (attemptUnmount env t h)) = ho_state_file h"
  by (auto simp: attemptUnmount_def sys_defs split: option.splits sys_error.splits)

text \<open>An attempt keeps what is tracked; after a successful one the path may be forgotten.\<close>

lemma tracks_attempt:
  assumes "tracks F (mt, h)" "safe h" "enoent_ok env h" "mt_mounts mt' = mt_mounts mt"
  shows "tracks F (mt', snd (attemptUnmount env t h))"
    and "fst (attemptUnmount env t h) = None \<Longrightarrow> tracks F (untrack t mt', snd (attemptUnmount env t h))"
proof -
  have same: "IsMounted mt' = IsMounted mt"
    using assms(4) by (simp add: IsMounted_def fun_eq_iff)
  show "tracks F (mt', snd (attemptUnmount env t h))"
    using assms attemptUnmount_mounts(5) [OF assms(2,3)] by (auto simp: tracks_def same)
  show "tracks F (untrack t mt', snd (attemptUnmount env t h))" if "fst (attemptUnmount env t h) = None"
    using assms attemptUnmount_mounts(5) [OF assms(2,3)] attemptUnmount_mounts(3) [OF assms(2,3) that]
    by (auto simp: tracks_def same) (auto simp: untrack_def keys_ok_delete)
qed

definition writable :: "sys_env \<Rightarrow> bool" where
  "writable env \<longleftrightarrow> se_WriteFile env \<and> se_Rename env"

lemma worker_retry_tracks:
  assumes "tracks F s \<and> persisted s \<and> safe (snd s) \<and> enoent_ok env (snd s)" "writable env"
  shows "tracks F (worker_retry env p s) \<and> persisted (worker_retry env p s) \<and>
    safe (snd (worker_retry env p s)) \<and> enoent_ok env (snd (worker_retry env p s))"
proof (cases s)
  case (Pair mt h)
  obtain t a where p: "p = (t, a)" by force
  obtain err h1 where att: "attemptUnmount env t h = (err, h1)" by force
  have pre: "tracks F (mt, h)" "safe h" "enoent_ok env h" "persisted (mt, h)"
    using assms Pair by auto
  have h1: "safe h1" "enoent_ok env h1" "ho_state_file h1 = ho_state_file h"
    using attemptUnmount_mounts(1,2) [OF pre(2,3), of t] state_file_attempt [of env t h] by (simp_all add: att)
  have queue: "tracks F (mt\<lparr>mt_retryQueue := q\<rparr>, h1)" "persisted (mt\<lparr>mt_retryQueue := q\<rparr>, h1)"
    "persisted (mt\<lparr>mt_retryQueue := q\<rparr>, h)" "tracks F (mt\<lparr>mt_retryQueue := q\<rparr>, h)"
    "err = None \<Longrightarrow> tracks F (untrack t (mt\<lparr>mt_retryQueue := q\<rparr>), h1)" for q
    using tracks_attempt [OF pre(1-3), of "mt\<lparr>mt_retryQueue := q\<rparr>" t] pre(1,4) h1(3)
    by (simp_all add: att persisted_def tracks_def)
  have saved: "persisted (m, mt_save env m h1)" for m
    using assms(2) by (simp add: persisted_save writable_def)
  show ?thesis
    using pre h1 queue saved
    by (auto simp: Pair p worker_retry_def att Let_def split: option.split)
qed

lemma worker_tick_tracks:
  assumes "tracks F s \<and> persisted s \<and> safe (snd s) \<and> enoent_ok env (snd s)" "writable env"
  shows "tracks F (worker_tick env s) \<and> persisted (worker_tick env s)"
  using foldl_invariant [of "\<lambda>s. tracks F s \<and> persisted s \<and> safe (snd s) \<and> enoent_ok env (snd s)" s
      "mt_retryQueue (fst s)" "\<lambda>s p. worker_retry env p s"] worker_retry_tracks [OF _ assms(2)] assms(1)
  unfolding worker_tick_def by blast

lemma clean_orphan_tracks:
  assumes "tracks F s \<and> safe (snd s) \<and> enoent_ok env (snd s)"
  shows "tracks F (clean_orphan env t s) \<and> safe (snd (clean_orphan env t s)) \<and>
    enoent_ok env (snd (clean_orphan env t s))"
proof (cases s)
  case (Pair mt h)
  obtain err h1 where att: "attemptUnmount env t h = (err, h1)" by force
  have pre: "tracks F (mt, h)" "safe h" "enoent_ok env h"
    using assms Pair by auto
  have "tracks F (enqueue_cleanup t mt, h1)" "err = None \<Longrightarrow> tracks F (untrack t mt, h1)"
    using tracks_attempt(1) [OF pre, of "enqueue_cleanup t mt" t] tracks_attempt(2) [OF pre, of mt t]
    by (simp_all add: att)
  moreover have "safe h1" "enoent_ok env h1"
    using attemptUnmount_mounts(1,2) [OF pre(2,3), of t] by (simp_all add: att)
  ultimately show ?thesis
    by (auto simp: Pair clean_orphan_def att split: option.split)
qed

lemma hostpath_start_tracks:
  assumes "tracks F (mt, h)" "persisted (mt, h)" "safe h" "enoent_ok env h" "writable env"
  shows "tracks F (hostpath_start env h) \<and> persisted (hostpath_start env h)"
proof -
  let ?mt = "NewMountTracker h" and ?f = "\<lambda>s t. clean_orphan env t s"
  let ?paths = "map fst (mt_mounts ?mt)"
  have m: "mt_mounts ?mt = mt_mounts mt"
    using assms(1,2) load_saved [of "mt_mounts mt"]
    by (auto simp: NewMountTracker_def persisted_def tracks_def mt_load_def)
  then have start: "tracks F (?mt, h)" "persisted (?mt, h)"
    using assms(1,2) by (simp_all add: tracks_def persisted_def IsMounted_def)
  obtain m' h' where r: "foldl ?f (?mt, h) ?paths = (m', h')" by force
  have "tracks F (foldl ?f (?mt, h) ?paths) \<and> safe (snd (foldl ?f (?mt, h) ?paths)) \<and>
      enoent_ok env (snd (foldl ?f (?mt, h) ?paths))"
    by (rule foldl_invariant [where P = "\<lambda>s. tracks F s \<and> safe (snd s) \<and> enoent_ok env (snd s)"])
      (simp add: start assms(3,4), rule clean_orphan_tracks)
  then have "tracks F (m', h')"
    by (simp only: r)
  moreover have "persisted (m', mt_save env m' h')"
    using assms(5) by (simp add: persisted_save writable_def)
  ultimately show ?thesis
    using start r by (simp add: hostpath_start_def CleanupOrphanedMounts_def Let_def)
qed

lemma AddMount_tracks:
  assumes "keys_ok (mt_mounts mt)" "\<forall>t. mounted h t \<longrightarrow> t \<in> F \<or> IsMounted mt t \<or> t = target" "writable env"
    "AddMount env v source target (mt, h) = s"
  shows "tracks F s \<and> persisted s"
  using assms
  by (auto simp: AddMount_def Let_def writable_def persisted_save)
    (auto simp: tracks_def IsMounted_def update_conv' keys_ok_update)

lemma NodePublishVolume_tracks:
  assumes "tracks F (mt, h)" "persisted (mt, h)" "writable env"
    "NodePublishVolume env req (Some mt, h) = (err, Some mt', h')"
  shows "tracks F (mt', h') \<and> persisted (mt', h')"
proof -
  obtain plan h1 where prep: "publish_prepare env req (Some mt) h = (plan, h1)" by force
  have h1: "tracks F (mt, h1)" "persisted (mt, h1)"
    using publish_prepare_safe [OF prep] assms(1,2) by (simp_all add: tracks_def persisted_def mounted_def)
  have keys: "keys_ok (mt_mounts mt)"
    using assms(1) by (simp add: tracks_def)
  have add: "tracks F s \<and> persisted s"
    if "\<forall>t. mounted g t \<longrightarrow> mounted h1 t \<or> t = pr_TargetPath req"
      "AddMount env (pr_VolumeId req) source (pr_TargetPath req) (mt, g) = s" for source g s
    using AddMount_tracks [OF keys _ assms(3) that(2)] that(1) h1(1) by (auto simp: tracks_def)
  have track: "tracks F (m, g') \<and> persisted (m, g')"
    if "\<forall>t. mounted g t \<longrightarrow> mounted h1 t \<or> t = pr_TargetPath req"
      "track_mount env req source (Some mt, g) = (Some m, g')" for source g m g'
    using add [OF that(1), of source "(m, g')"] that(2) by (simp add: track_mount_def split: prod.splits)
  have bind: "mounted g t \<longrightarrow> mounted h1 t \<or> t = pr_TargetPath req"
    if "sys_Mount env source (pr_TargetPath req) ro h1 = (True, g)" for source ro g t
    using that by (auto simp: sys_defs mounted_def split: if_splits)
  have same: "g = h1" if "sys_Mount env source (pr_TargetPath req) ro h1 = (False, g)" for source ro g
    using that by (auto simp: sys_defs split: if_splits)
  show ?thesis
    using assms(4) h1 track track [OF allI, OF bind]
    by (auto simp: NodePublishVolume_def prep publish_finish_def dest: same
        split: sum.splits publish_plan.splits if_splits prod.splits)
qed

lemma RemoveMount_tracks:
  assumes "tracks F (mt, h)" "persisted (mt, h)" "safe h" "enoent_ok env h" "writable env"
    "RemoveMount env t (mt, h) = (err, mt', h')"
  shows "tracks F (mt', h') \<and> persisted (mt', h')"
proof -
  obtain e h1 where att: "attemptUnmount env t h = (e, h1)" by force
  have "tracks F (enqueue_cleanup t mt, h1)" "e = None \<Longrightarrow> tracks F (untrack t mt, h1)"
    "ho_state_file h1 = ho_state_file h"
    using tracks_attempt(1) [OF assms(1,3,4), of "enqueue_cleanup t mt" t]
      tracks_attempt(2) [OF assms(1,3,4), of mt t] state_file_attempt [of env t h]
    by (simp_all add: att)
  moreover have "persisted (m, mt_save env m h1)" for m
    using assms(5) by (simp add: persisted_save writable_def)
  ultimately show ?thesis
    using assms(1,2,6)
    by (auto simp: RemoveMount_def att Let_def persisted_def split: if_splits option.splits)
qed

lemma hp_exec_tracks:
  assumes "tracks F s" "persisted s" "safe (snd s)" "op_ok (snd s) a" "writes_ok a"
  shows "tracks F (hp_exec s a) \<and> persisted (hp_exec s a)"
proof (cases s)
  case (Pair mt h)
  show ?thesis
  proof (cases a)
    case (OpPublish env req)
    then show ?thesis
      using assms NodePublishVolume_tracks [of F mt h env req]
      by (auto simp: Pair writable_def split: prod.splits option.splits)
  next
    case (OpUnpublish env t)
    then show ?thesis
      using assms RemoveMount_tracks [of F mt h env t]
      by (auto simp: Pair NodeUnpublishVolume_def writable_def split: prod.splits option.splits)
  next
    case OpReceive
    then show ?thesis
      using assms by (auto simp: Pair worker_receive_def tracks_def persisted_def split: list.split)
  next
    case (OpTick env)
    then show ?thesis using assms worker_tick_tracks [of F s env] by (simp add: Pair writable_def)
  next
    case (OpRestart env)
    then show ?thesis using assms hostpath_start_tracks [of F mt h env] by (simp add: Pair writable_def)
  qed
qed

lemma hp_run_tracks:
  "tracks F s \<Longrightarrow> persisted s \<Longrightarrow> safe (snd s) \<Longrightarrow> ops_ok ops s \<Longrightarrow> \<forall>a \<in> set ops. writes_ok a \<Longrightarrow>
   tracks F (foldl hp_exec s ops)"
  by (induction ops arbitrary: s) (auto simp: hp_exec_tracks hp_exec_safe)


lemma env_start_simps:
  "se_BASE_MOUNT_PATH env_start = []" "se_Stat env_start p = StatOk" "se_MkdirAll env_start p"
  "se_Mount env_start p q ro" "se_WriteFile env_start" "se_Rename env_start"
  "isMountPoint (se_proc_mounts env_start) ''/p/v'' = Ok False"
  by (simp_all add: env_start_def isMountPoint_def proc_targets_start TrimRight_def TrimRightFunc_def)

lemma publish_start:
  "\<exists>mt h. NodePublishVolume env_start req_start (Some (NewMountTracker host_start), host_start) =
     (None, Some mt, h) \<and> ho_mounts h = (''/p/v'', ''/data'', False) # ho_mounts host_start"
proof -
  have "publish_prepare env_start req_start (Some (NewMountTracker host_start)) host_start =
      (Ok (BindMount ''/data''), log_call (MkdirAll ''/p/v'') host_start)"
    by (simp add: publish_prepare_def env_start_simps req_start_def publish_source_def sys_MkdirAll_def
        IsMounted_def NewMountTracker_def mt_load_def Let_def host_start_def)
  then show ?thesis
    by (simp add: NodePublishVolume_def publish_finish_def sys_Mount_def env_start_simps track_mount_def
        AddMount_def req_start_def log_call_def Let_def)
qed


section \<open>The retry schedule\<close>

text \<open>What one tick does with a path whose unmount fails.\<close>

definition next_attempts :: "nat \<Rightarrow> nat option" where
  "next_attempts a = (if a + 1 \<ge> 20 then None else Some (a + 1))"

definition tried :: "nat \<Rightarrow> nat" where
  "tried a = (if a = 0 \<or> 7 \<le> a then 1 else 0)"

definition failures :: "string \<Rightarrow> host \<Rightarrow> nat" where
  "failures t h = count_list (ho_calls h) (Unmount t False)"

definition busy :: "string \<Rightarrow> sys_env \<Rightarrow> bool" where
  "busy t env \<longleftrightarrow> (\<exists>e. se_Unmount env t = Some (SysError e))"

lemma failures_attempt:
  "busy t env \<Longrightarrow> failures t (snd (attemptUnmount env t h)) = failures t h + 1 \<and>
     fst (attemptUnmount env t h) \<noteq> None"
  "u \<noteq> t \<Longrightarrow> failures t (snd (attemptUnmount env u h)) = failures t h"
  by (auto simp: failures_def busy_def attemptUnmount_def sys_defs split: option.splits sys_error.splits)

lemma failures_save [simp]: "failures t (mt_save env mt h) = failures t h"
  by (simp add: failures_def)

lemma worker_retry_other:
  assumes "fst p \<noteq> t" "worker_retry env p (mt, h) = (mt', h')"
  shows "map_of (mt_retryQueue mt') t = map_of (mt_retryQueue mt) t \<and> failures t h' = failures t h \<and>
    IsMounted mt' t = IsMounted mt t"
proof -
  obtain u a where p: "p = (u, a)" by force
  obtain err h1 where att: "attemptUnmount env u h = (err, h1)" by force
  have u: "u \<noteq> t" using assms(1) p by simp
  then have "failures t h1 = failures t h"
    using failures_attempt(2) [of u t env h] by (simp add: att)
  then show ?thesis
    using assms(2) u
    by (auto simp: p worker_retry_def att Let_def update_conv' delete_conv' IsMounted_def untrack_def
        split: if_splits option.splits)
qed

lemma worker_retry_busy:
  assumes "busy t env" "worker_retry env (t, a) (mt, h) = (mt', h')" "a < 20"
  shows "map_of (mt_retryQueue mt') t = next_attempts a \<and> failures t h' = failures t h + tried a \<and>
    IsMounted mt' t = IsMounted mt t"
proof -
  obtain err h1 where att: "attemptUnmount env t h = (err, h1)" by force
  have "err \<noteq> None" "failures t h1 = failures t h + 1"
    using failures_attempt(1) [OF assms(1), of h] by (simp_all add: att)
  then show ?thesis
    using assms(2,3)
    by (auto simp: worker_retry_def att update_conv' delete_conv' next_attempts_def tried_def
        split: if_splits option.splits)
qed

lemma worker_tick_other:
  "\<forall>p \<in> set ps. fst p \<noteq> t \<Longrightarrow> foldl (\<lambda>s p. worker_retry env p s) (mt, h) ps = (mt', h') \<Longrightarrow>
   map_of (mt_retryQueue mt') t = map_of (mt_retryQueue mt) t \<and> failures t h' = failures t h \<and>
   IsMounted mt' t = IsMounted mt t"
proof (induction ps arbitrary: mt h)
  case (Cons p ps)
  obtain mt1 h1 where s: "worker_retry env p (mt, h) = (mt1, h1)" by force
  show ?case
    using Cons.IH [of mt1 h1] Cons.prems worker_retry_other [OF _ s] by (simp add: s)
qed simp

lemma distinct_retry:
  "distinct (map fst (mt_retryQueue mt)) \<Longrightarrow>
   distinct (map fst (mt_retryQueue (fst (worker_retry env p (mt, h)))))"
  by (auto simp: worker_retry_def untrack_def Let_def distinct_update distinct_delete
      split: prod.splits option.splits)

lemma distinct_tick:
  assumes "distinct (map fst (mt_retryQueue (fst s)))"
  shows "distinct (map fst (mt_retryQueue (fst (worker_tick env s))))"
  unfolding worker_tick_def
  by (rule foldl_invariant [where P = "\<lambda>s. distinct (map fst (mt_retryQueue (fst s)))"])
    (use assms distinct_retry in \<open>auto simp: split_paired_all\<close>)

lemma worker_tick_busy:
  assumes "busy t env" "distinct (map fst (mt_retryQueue mt))" "map_of (mt_retryQueue mt) t = Some a" "a < 20"
    "worker_tick env (mt, h) = (mt', h')"
  shows "map_of (mt_retryQueue mt') t = next_attempts a \<and> failures t h' = failures t h + tried a \<and>
    IsMounted mt' t = IsMounted mt t"
proof -
  obtain ps qs where q: "mt_retryQueue mt = ps @ (t, a) # qs"
    using assms(3) by (meson map_of_SomeD split_list)
  have out: "\<forall>p \<in> set ps. fst p \<noteq> t" "\<forall>p \<in> set qs. fst p \<noteq> t"
    using assms(2) by (auto simp: q rev_image_eqI)
  let ?f = "\<lambda>s p. worker_retry env p s"
  obtain m1 h1 where s1: "foldl ?f (mt, h) ps = (m1, h1)" by force
  obtain m2 h2 where s2: "worker_retry env (t, a) (m1, h1) = (m2, h2)" by force
  have "foldl ?f (m2, h2) qs = (mt', h')"
    using assms(5) by (simp add: worker_tick_def q s1 s2)
  then show ?thesis
    using worker_tick_other [OF out(1) s1] worker_retry_busy [OF assms(1) s2 assms(4)]
      worker_tick_other [OF out(2), of env m2 h2 mt' h'] by simp
qed

lemma worker_ticks_busy:
  assumes "n \<le> 20" "\<forall>env \<in> set (take n envs). busy t env" "n \<le> length envs"
    "distinct (map fst (mt_retryQueue mt))" "map_of (mt_retryQueue mt) t = Some 0"
  shows "let s = foldl (\<lambda>s env. worker_tick env s) (mt, h) (take n envs) in
    distinct (map fst (mt_retryQueue (fst s))) \<and>
    map_of (mt_retryQueue (fst s)) t = (if n = 20 then None else Some n) \<and>
    failures t (snd s) = failures t h + (\<Sum>a<n. tried a) \<and> IsMounted (fst s) t = IsMounted mt t"
  using assms(1-3)
proof (induction n)
  case 0
  then show ?case using assms(4,5) by simp
next
  case (Suc n)
  let ?s = "foldl (\<lambda>s env. worker_tick env s) (mt, h) (take n envs)"
  obtain m1 h1 where s: "?s = (m1, h1)" by force
  have "\<forall>env \<in> set (take n envs). busy t env"
    using Suc.prems(2) set_take_subset_set_take [of n "Suc n" envs] by auto
  then have IH: "distinct (map fst (mt_retryQueue m1))" "map_of (mt_retryQueue m1) t = Some n"
    "failures t h1 = failures t h + (\<Sum>a<n. tried a)" "IsMounted m1 t = IsMounted mt t"
    using Suc.IH Suc.prems s by (auto simp: Let_def)
  have tk: "take (Suc n) envs = take n envs @ [envs ! n]"
    using Suc.prems(3) by (simp add: take_Suc_conv_app_nth)
  have b: "busy t (envs ! n)"
    using Suc.prems(2) tk by simp
  obtain m2 h2 where s2: "worker_tick (envs ! n) (m1, h1) = (m2, h2)" by force
  have "distinct (map fst (mt_retryQueue m2))"
    using distinct_tick [of "(m1, h1)" "envs ! n"] IH(1) by (simp add: s2)
  then show ?case
    using worker_tick_busy [OF b IH(1,2) _ s2] IH(3,4) Suc.prems(1)
    by (simp add: tk s s2 Let_def next_attempts_def)
qed


definition env_busy :: sys_env where
  "env_busy = env_start\<lparr>se_Unmount := (\<lambda>_. Some (SysError ''device or resource busy''))\<rparr>"

definition tracker_busy :: MountTracker where
  "tracker_busy =
     \<lparr>mt_mounts = [(''/p/v'', \<lparr>mr_VolumeID = ''/data'', mr_SourcePath = ''/data'', mr_TargetPath = ''/p/v'',
        mr_MountedAt = []\<rparr>)], mt_cleanupCh = [], mt_retryQueue = [(''/p/v'', 0)]\<rparr>"


section \<open>Gaps\<close>

definition publishable :: "sys_env \<Rightarrow> publish_request \<Rightarrow> bool" where
  "publishable env req \<longleftrightarrow> pr_VolumeId req \<noteq> [] \<and> pr_TargetPath req \<noteq> [] \<and>
     se_Stat env (publish_source env req) = StatOk \<and> se_MkdirAll env (pr_TargetPath req)"

lemma publish_tracked:
  assumes "publishable env req" "IsMounted mt (pr_TargetPath req)"
  shows "NodePublishVolume env req (Some mt, h) = (None, Some mt, log_call (MkdirAll (pr_TargetPath req)) h)"
  using assms
  by (simp add: publishable_def NodePublishVolume_def publish_prepare_def publish_finish_def sys_MkdirAll_def
      Let_def)

lemma publish_untracked:
  assumes "publishable env req" "\<not> IsMounted mt (pr_TargetPath req)"
    "isMountPoint (se_proc_mounts env) (pr_TargetPath req) = Ok False"
  shows "publish_prepare env req (Some mt) h =
    (Ok (BindMount (publish_source env req)), log_call (MkdirAll (pr_TargetPath req)) h)"
  using assms by (simp add: publishable_def publish_prepare_def sys_MkdirAll_def Let_def)

text \<open>
  A volume can lose its mount after it was published again: an unpublication that finds the
  volume busy succeeds and leaves the path to the worker; a publication that follows succeeds
  because the path is still tracked, and the worker then unmounts the volume that is in use.
\<close>

theorem republished_volume_unmounted:
  assumes "safe h" "mounted h t" "IsMounted mt t" "mt_cleanupCh mt = []" "mt_retryQueue mt = []"
    "se_Unmount env1 t = Some (SysError e)" "publishable env2 req" "pr_TargetPath req = t"
    "se_Unmount env3 t = None"
  shows "let (err1, mto1, h1) = NodeUnpublishVolume env1 t (Some mt, h);
             (err2, mto2, h2) = NodePublishVolume env2 req (mto1, h1)
         in err1 = None \<and> err2 = None \<and> mounted h2 t \<and>
            (\<exists>mt2. mto2 = Some mt2 \<and> \<not> mounted (snd (worker_tick env3 (worker_receive mt2, h2))) t)"
proof -
  have t: "t \<noteq> []"
    using assms(7,8) by (simp add: publishable_def)
  let ?h1 = "log_call (Unmount t False) h" and ?mt1 = "mt\<lparr>mt_cleanupCh := [t]\<rparr>"
  have unpub: "NodeUnpublishVolume env1 t (Some mt, h) = (None, Some ?mt1, ?h1)"
    using assms(3,4,6) t
    by (simp add: NodeUnpublishVolume_def RemoveMount_def attemptUnmount_def sys_Unmount_def enqueue_cleanup_def
        cleanupCh_cap_def)
  let ?h2 = "log_call (MkdirAll t) ?h1"
  have pub: "NodePublishVolume env2 req (Some ?mt1, ?h1) = (None, Some ?mt1, ?h2)"
    using publish_tracked [OF assms(7)] assms(3,8) by simp
  have "mounted ?h2 t"
    using assms(2) by (simp add: mounted_def log_call_def)
  moreover have "\<not> mounted (snd (worker_tick env3 (worker_receive ?mt1, ?h2))) t"
    using assms(1,5,9)
    by (auto simp: worker_receive_def worker_tick_def worker_retry_def attemptUnmount_def sys_defs mounted_def
        safe_def fst_remove_mount Let_def split: option.split sys_error.split)
  ultimately show ?thesis
    by (simp add: unpub pub)
qed

theorem republished_volume_unmounted_witness:
  "\<exists>mt h. mounted h ''/p/v'' \<and> fst (NodeUnpublishVolume env_busy ''/p/v'' (Some mt, h)) = None"
proof -
  let ?h = "host_start\<lparr>ho_mounts := [(''/p/v'', ''/data'', False)]\<rparr>" and ?mt = "tracker_busy\<lparr>mt_retryQueue := []\<rparr>"
  have "safe ?h" "mounted ?h ''/p/v''" "IsMounted ?mt ''/p/v''" "mt_cleanupCh ?mt = []" "mt_retryQueue ?mt = []"
    "se_Unmount env_busy ''/p/v'' = Some (SysError ''device or resource busy'')"
    "publishable env_start req_start" "pr_TargetPath req_start = ''/p/v''" "se_Unmount env_start ''/p/v'' = None"
    by (simp_all add: safe_def host_start_def mounted_def tracker_busy_def IsMounted_def env_busy_def
        publishable_def req_start_def publish_source_def) (simp_all add: env_start_def)
  from republished_volume_unmounted [OF this] have "fst (NodeUnpublishVolume env_busy ''/p/v'' (Some ?mt, ?h)) = None"
    by (auto simp: Let_def split: prod.splits)
  with \<open>mounted ?h ''/p/v''\<close> show ?thesis by blast
qed

text \<open>
  After a failed clean-up a publication mounts nothing and reports success: when the unmount
  works but the directory cannot be removed, the path stays tracked though nothing is mounted,
  and the next publication on it is skipped, so the container gets an empty directory.
\<close>

theorem failed_cleanup_skips_mount:
  assumes "safe h" "IsMounted mt t" "se_Unmount env1 t = None" "se_RemoveAll env1 t = Some (SysError e)"
    "publishable env2 req" "pr_TargetPath req = t"
  shows "let (err1, mto1, h1) = NodeUnpublishVolume env1 t (Some mt, h);
             (err2, mto2, h2) = NodePublishVolume env2 req (mto1, h1)
         in err1 = None \<and> err2 = None \<and> \<not> mounted h2 t"
proof -
  have t: "t \<noteq> []"
    using assms(5,6) by (simp add: publishable_def)
  obtain h1 where h1: "attemptUnmount env1 t h = (Some (SysError e), h1)" "\<not> mounted h1 t"
    using assms(1,3,4)
    by (auto simp: attemptUnmount_def sys_defs mounted_def safe_def fst_remove_mount)
  have "NodeUnpublishVolume env1 t (Some mt, h) = (None, Some (enqueue_cleanup t mt), h1)"
    using assms(2) t by (simp add: NodeUnpublishVolume_def RemoveMount_def h1(1))
  moreover have "NodePublishVolume env2 req (Some (enqueue_cleanup t mt), h1) =
      (None, Some (enqueue_cleanup t mt), log_call (MkdirAll t) h1)"
    using publish_tracked [OF assms(5)] assms(2,6) by simp
  ultimately show ?thesis
    using h1(2) by (simp add: mounted_def log_call_def)
qed

theorem failed_cleanup_skips_mount_witness:
  "let (err1, mto1, h1) = NodeUnpublishVolume (env_start\<lparr>se_RemoveAll := (\<lambda>_. Some (SysError ''EIO''))\<rparr>) ''/p/v''
         (Some tracker_busy, host_start);
       (err2, mto2, h2) = NodePublishVolume env_start req_start (mto1, h1)
   in err1 = None \<and> err2 = None \<and> \<not> mounted h2 ''/p/v''"
  by (rule failed_cleanup_skips_mount)
    (simp_all add: start_ok(3) IsMounted_def tracker_busy_def publishable_def req_start_def publish_source_def,
      simp_all add: env_start_def)

text \<open>
  Two publications of one volume at the same time endanger its data: nothing is held between
  the test for a mount point and the mount, so both mount the volume on the target, and the
  unpublication, which unmounts once, removes the directory recursively with the volume
  still mounted on it.
\<close>

theorem concurrent_publish_removes_data:
  assumes "publishable env req" "pr_TargetPath req = t" "\<not> IsMounted mt t"
    "isMountPoint (se_proc_mounts env) t = Ok False" "\<And>s ro. se_Mount env s t ro" "se_Unmount env2 t = None"
  shows "let (plan1, h1) = publish_prepare env req (Some mt) h;
             (plan2, h2) = publish_prepare env req (Some mt) h1;
             (err1, s1) = publish_finish env req plan1 (Some mt, h2);
             (err2, s2) = publish_finish env req plan2 s1;
             (err3, s3) = NodeUnpublishVolume env2 t s2
         in err1 = None \<and> err2 = None \<and> err3 = None \<and> RemoveAll t True \<in> set (ho_calls (snd s3))"
proof -
  have t: "t \<noteq> []"
    using assms(1,2) by (simp add: publishable_def)
  let ?src = "publish_source env req"
  have prep: "publish_prepare env req (Some mt) g = (Ok (BindMount ?src), log_call (MkdirAll t) g)" for g
    using publish_untracked [OF assms(1)] assms(2-4) by simp
  have bind: "\<exists>m' g'. publish_finish env req (Ok (BindMount ?src)) (Some m, g) = (None, Some m', g') \<and>
      ho_mounts g' = (t, ?src, pr_Readonly req) # ho_mounts g \<and> IsMounted m' t" for m g
    using assms(2,5)
    by (simp add: publish_finish_def sys_Mount_def log_call_def track_mount_def AddMount_def Let_def IsMounted_def
        update_conv')
  let ?h2 = "log_call (MkdirAll t) (log_call (MkdirAll t) h)"
  obtain m1 g1 where f1: "publish_finish env req (Ok (BindMount ?src)) (Some mt, ?h2) = (None, Some m1, g1)"
    "ho_mounts g1 = (t, ?src, pr_Readonly req) # ho_mounts ?h2"
    using bind [of mt ?h2] by blast
  obtain m2 g2 where f2: "publish_finish env req (Ok (BindMount ?src)) (Some m1, g1) = (None, Some m2, g2)"
    "ho_mounts g2 = (t, ?src, pr_Readonly req) # ho_mounts g1" "IsMounted m2 t"
    using bind [of m1 g1] by blast
  have "RemoveAll t True \<in> set (ho_calls (snd (attemptUnmount env2 t g2)))"
    using assms(6) f1(2) f2(2)
    by (auto simp: attemptUnmount_def sys_defs mounted_def split: option.split sys_error.split)
  then obtain err g3 where "attemptUnmount env2 t g2 = (err, g3)" "RemoveAll t True \<in> set (ho_calls g3)"
    by (metis prod.collapse)
  then have "\<exists>s3. NodeUnpublishVolume env2 t (Some m2, g2) = (None, s3) \<and> RemoveAll t True \<in> set (ho_calls (snd s3))"
    using t f2(3)
    by (auto simp: NodeUnpublishVolume_def RemoveMount_def Let_def split: option.split)
  then show ?thesis
    by (auto simp: prep f1(1) f2(1))
qed

theorem concurrent_publish_removes_data_witness:
  "\<exists>s err s3. NodeUnpublishVolume env_start ''/p/v'' s = (err, s3) \<and> RemoveAll ''/p/v'' True \<in> set (ho_calls (snd s3))"
proof -
  have "publishable env_start req_start" "pr_TargetPath req_start = ''/p/v''"
    "\<not> IsMounted (NewMountTracker host_start) ''/p/v''"
    by (simp_all add: publishable_def req_start_def env_start_simps publish_source_def IsMounted_def
        NewMountTracker_def mt_load_def host_start_def)
  from concurrent_publish_removes_data [OF this env_start_simps(7) env_start_simps(4), of env_start]
  show ?thesis
    by (fastforce simp: Let_def env_start_def split: prod.splits)
qed

text \<open>
  The base directory does not confine the source of a volume: with \<open>BASE_MOUNT_PATH\<close> set, the
  volume id \<open>..\<close> passes the filter and mounts the parent of the base directory, and the filter,
  which removes \<open>../\<close> and then \<open>./\<close> once each, can itself produce a \<open>../\<close>.
\<close>

theorem source_escapes_base:
  assumes "path_rooted (se_BASE_MOUNT_PATH env)" "pr_VolumeContext req = Map.empty"
  shows "(pr_VolumeId req = ''..'' \<longrightarrow>
       path_elements (publish_source env req) = butlast (path_elements (se_BASE_MOUNT_PATH env))) \<and>
     (pr_VolumeId req = ''.....///etc'' \<longrightarrow>
       publish_source env req = se_BASE_MOUNT_PATH env @ ''/../etc'')"
proof -
  have base: "se_BASE_MOUNT_PATH env \<noteq> []"
    using assms(1) by (auto simp: path_rooted_def HasPrefix_def)
  have "ReplaceAll (ReplaceAll ''..'' ''../'' []) ''./'' [] = ''..''"
    "ReplaceAll (ReplaceAll ''.....///etc'' ''../'' []) ''./'' [] = ''../etc''"
    by (simp_all add: ReplaceAll.simps HasPrefix_def)
  then have src: "pr_VolumeId req = ''..'' \<Longrightarrow> publish_source env req = se_BASE_MOUNT_PATH env @ ''/'' @ ''..''"
    "pr_VolumeId req = ''.....///etc'' \<Longrightarrow> publish_source env req = se_BASE_MOUNT_PATH env @ ''/../etc''"
    using base assms(2) by (simp_all add: publish_source_def)
  show ?thesis
    using src path_elements_append_dotdot [OF assms(1)] by auto
qed

theorem source_escapes_base_witness:
  "path_elements (publish_source (env_start\<lparr>se_BASE_MOUNT_PATH := ''/srv/volumes''\<rparr>)
     (req_start\<lparr>pr_VolumeId := ''..''\<rparr>)) = [''srv'']"
proof -
  have "path_elements ''/srv/volumes'' = [''srv'', ''volumes'']"
    by (simp add: path_elements_def path_step_def)
  then show ?thesis
    using source_escapes_base [of "env_start\<lparr>se_BASE_MOUNT_PATH := ''/srv/volumes''\<rparr>"
      "req_start\<lparr>pr_VolumeId := ''..''\<rparr>"]
    by (simp add: req_start_def path_rooted_def HasPrefix_def)
qed

end
