(* ===== verification/Config.thy ===== *)
theory Config
  imports Json Model
begin

text \<open>
  The node engine's configuration: the structs of \<open>config/config.go\<close> with their JSON form, the
  modes of the public address, reading and writing the file, the commands that change it
  (\<open>cmd/conf.go\<close>, \<open>cmd/root.go\<close>) and the choice of the overlay network the daemon makes
  (\<open>internal/daemon/nodeengined.go\<close>).

  A slice is a list, written as an array; \<open>null\<close> is read as the empty list. Nothing that
  reads the configuration tells a nil slice from an empty one.
\<close>

section \<open>The mode of the public address\<close>

type_synonym PublicIPMode = string

definition PublicIPFalse :: PublicIPMode where "PublicIPFalse = ''false''"
definition PublicIPAuto :: PublicIPMode where "PublicIPAuto = ''auto''"

definition ParsePublicIPMode :: "string \<Rightarrow> PublicIPMode" where
  "ParsePublicIPMode mode =
     (let normalized = TrimSpace (ToLower mode) in
      if normalized = [] \<or> normalized = PublicIPFalse then PublicIPFalse
      else if normalized = PublicIPAuto \<or> normalized = ''true'' then PublicIPAuto
      else TrimSpace mode)"

definition pip_normalized :: "PublicIPMode \<Rightarrow> string" where
  "pip_normalized m = TrimSpace (ToLower m)"

definition IsDisabled :: "PublicIPMode \<Rightarrow> bool" where
  "IsDisabled m \<longleftrightarrow> pip_normalized m = [] \<or> pip_normalized m = PublicIPFalse"

definition IsAuto :: "PublicIPMode \<Rightarrow> bool" where
  "IsAuto m \<longleftrightarrow> pip_normalized m = PublicIPAuto \<or> pip_normalized m = ''true''"

definition Value :: "PublicIPMode \<Rightarrow> string" where
  "Value m =
     (let normalized = pip_normalized m in
      if normalized = [] \<or> normalized = PublicIPFalse then PublicIPFalse
      else if normalized = PublicIPAuto \<or> normalized = ''true'' then PublicIPAuto
      else TrimSpace m)"

definition pip_MarshalJSON :: "PublicIPMode \<Rightarrow> jval" where
  "pip_MarshalJSON m = JvStr (Value m)"

fun pip_UnmarshalJSON :: "PublicIPMode decoder" where
  "pip_UnmarshalJSON old (JvBool boolMode) = Ok (if boolMode then PublicIPAuto else PublicIPFalse)"
| "pip_UnmarshalJSON old JvNull = Ok PublicIPFalse"
| "pip_UnmarshalJSON old (JvStr stringMode) = Ok (ParsePublicIPMode stringMode)"
| "pip_UnmarshalJSON old _ = Err ''invalid public_ip mode''"

section \<open>The configuration file\<close>

record Addon =
  ad_Name :: string
  ad_Active :: bool
  ad_Config :: "string list"

record Virtualization =
  vt_Name :: string
  vt_Runtime :: string
  vt_Active :: bool
  vt_Config :: "string list"

record CSIDriverType =
  cd_Name :: string
  cd_Endpoint :: string

record ConfFile =
  cf_ConfVersion :: string
  cf_ClusterAddress :: string
  cf_ClusterSSL :: bool
  cf_ClusterPort :: go_int
  cf_AppLogs :: string
  cf_OverlayNetwork :: string
  cf_PublicIp :: PublicIPMode
  cf_NetPort :: go_int
  cf_CertFile :: string
  cf_KeyFile :: string
  cf_Addons :: "Addon list"
  cf_Virtualizations :: "Virtualization list"
  cf_CSIDrivers :: "CSIDriverType list"

definition json_strs :: "string list \<Rightarrow> jval" where
  "json_strs ss = JvArr (map JvStr ss)"

definition json_Addon :: "Addon \<Rightarrow> jval" where
  "json_Addon a = JvObj [(''addon_name'', JvStr (ad_Name a)), (''addon_active'', JvBool (ad_Active a)),
     (''addon_config'', json_strs (ad_Config a))]"

definition json_Virtualization :: "Virtualization \<Rightarrow> jval" where
  "json_Virtualization v = JvObj [(''virtualization_name'', JvStr (vt_Name v)),
     (''virtualization_runtime'', JvStr (vt_Runtime v)), (''virtualization_active'', JvBool (vt_Active v)),
     (''virtualization_config'', json_strs (vt_Config v))]"

definition json_CSIDriverType :: "CSIDriverType \<Rightarrow> jval" where
  "json_CSIDriverType d = JvObj [(''csi_driver_name'', JvStr (cd_Name d)),
     (''csi_driver_endpoint'', JvStr (cd_Endpoint d))]"

definition json_ConfFile :: "ConfFile \<Rightarrow> jval" where
  "json_ConfFile c = JvObj
     [(''conf_version'', JvStr (cf_ConfVersion c)),
      (''cluster_address'', JvStr (cf_ClusterAddress c)),
      (''cluster_ssl'', JvBool (cf_ClusterSSL c)),
      (''cluster_port'', JvInt (sint (cf_ClusterPort c))),
      (''app_logs'', JvStr (cf_AppLogs c)),
      (''overlay_network'', JvStr (cf_OverlayNetwork c)),
      (''public_ip'', pip_MarshalJSON (cf_PublicIp c)),
      (''overlay_network_port'', JvInt (sint (cf_NetPort c))),
      (''mqtt_cert_file'', JvStr (cf_CertFile c)),
      (''mqtt_key_file'', JvStr (cf_KeyFile c)),
      (''addons'', JvArr (map json_Addon (cf_Addons c))),
      (''virtualizations'', JvArr (map json_Virtualization (cf_Virtualizations c))),
      (''csi_drivers'', JvArr (map json_CSIDriverType (cf_CSIDrivers c)))]"

definition dec_strs :: "string list decoder" where
  "dec_strs = dec_list [] dec_str"

text \<open>A struct is decoded field by field; the first error is the result.\<close>

definition and_then :: "'e + 'a \<Rightarrow> ('a \<Rightarrow> 'e + 'b) \<Rightarrow> 'e + 'b" where
  "and_then r f = (case r of Err e \<Rightarrow> Err e | Ok x \<Rightarrow> f x)"

lemma and_then_simps [simp]: "and_then (Ok x) f = f x" "and_then (Err e) f = Err e"
  by (simp_all add: and_then_def)

fun dec_Addon :: "Addon decoder" where
  "dec_Addon old JvNull = Ok old"
| "dec_Addon old (JvObj fs) =
     and_then (dec_field ''addon_name'' dec_str (ad_Name old) fs) (\<lambda>n.
     and_then (dec_field ''addon_active'' dec_bool (ad_Active old) fs) (\<lambda>a.
     and_then (dec_field ''addon_config'' dec_strs (ad_Config old) fs) (\<lambda>c.
     Ok \<lparr>ad_Name = n, ad_Active = a, ad_Config = c\<rparr>)))"
| "dec_Addon old _ = Err ''type''"

fun dec_Virtualization :: "Virtualization decoder" where
  "dec_Virtualization old JvNull = Ok old"
| "dec_Virtualization old (JvObj fs) =
     and_then (dec_field ''virtualization_name'' dec_str (vt_Name old) fs) (\<lambda>n.
     and_then (dec_field ''virtualization_runtime'' dec_str (vt_Runtime old) fs) (\<lambda>r.
     and_then (dec_field ''virtualization_active'' dec_bool (vt_Active old) fs) (\<lambda>a.
     and_then (dec_field ''virtualization_config'' dec_strs (vt_Config old) fs) (\<lambda>c.
     Ok \<lparr>vt_Name = n, vt_Runtime = r, vt_Active = a, vt_Config = c\<rparr>))))"
| "dec_Virtualization old _ = Err ''type''"

fun dec_CSIDriverType :: "CSIDriverType decoder" where
  "dec_CSIDriverType old JvNull = Ok old"
| "dec_CSIDriverType old (JvObj fs) =
     and_then (dec_field ''csi_driver_name'' dec_str (cd_Name old) fs) (\<lambda>n.
     and_then (dec_field ''csi_driver_endpoint'' dec_str (cd_Endpoint old) fs) (\<lambda>e.
     Ok \<lparr>cd_Name = n, cd_Endpoint = e\<rparr>))"
| "dec_CSIDriverType old _ = Err ''type''"

definition zero_Addon :: Addon where
  "zero_Addon = \<lparr>ad_Name = [], ad_Active = False, ad_Config = []\<rparr>"

definition zero_Virtualization :: Virtualization where
  "zero_Virtualization = \<lparr>vt_Name = [], vt_Runtime = [], vt_Active = False, vt_Config = []\<rparr>"

definition zero_CSIDriverType :: CSIDriverType where
  "zero_CSIDriverType = \<lparr>cd_Name = [], cd_Endpoint = []\<rparr>"

definition zero_ConfFile :: ConfFile where
  "zero_ConfFile =
     \<lparr>cf_ConfVersion = [], cf_ClusterAddress = [], cf_ClusterSSL = False, cf_ClusterPort = 0,
      cf_AppLogs = [], cf_OverlayNetwork = [], cf_PublicIp = [], cf_NetPort = 0, cf_CertFile = [],
      cf_KeyFile = [], cf_Addons = [], cf_Virtualizations = [], cf_CSIDrivers = []\<rparr>"

fun dec_ConfFile :: "ConfFile decoder" where
  "dec_ConfFile old JvNull = Ok old"
| "dec_ConfFile old (JvObj fs) =
     and_then (dec_field ''conf_version'' dec_str (cf_ConfVersion old) fs) (\<lambda>version.
     and_then (dec_field ''cluster_address'' dec_str (cf_ClusterAddress old) fs) (\<lambda>address.
     and_then (dec_field ''cluster_ssl'' dec_bool (cf_ClusterSSL old) fs) (\<lambda>ssl.
     and_then (dec_field ''cluster_port'' dec_int (cf_ClusterPort old) fs) (\<lambda>port.
     and_then (dec_field ''app_logs'' dec_str (cf_AppLogs old) fs) (\<lambda>logs.
     and_then (dec_field ''overlay_network'' dec_str (cf_OverlayNetwork old) fs) (\<lambda>overlay.
     and_then (dec_field ''public_ip'' pip_UnmarshalJSON (cf_PublicIp old) fs) (\<lambda>ip.
     and_then (dec_field ''overlay_network_port'' dec_int (cf_NetPort old) fs) (\<lambda>netport.
     and_then (dec_field ''mqtt_cert_file'' dec_str (cf_CertFile old) fs) (\<lambda>cert.
     and_then (dec_field ''mqtt_key_file'' dec_str (cf_KeyFile old) fs) (\<lambda>key.
     and_then (dec_field ''addons'' (dec_list zero_Addon dec_Addon) (cf_Addons old) fs) (\<lambda>adds.
     and_then (dec_field ''virtualizations'' (dec_list zero_Virtualization dec_Virtualization)
             (cf_Virtualizations old) fs) (\<lambda>virts.
     and_then (dec_field ''csi_drivers'' (dec_list zero_CSIDriverType dec_CSIDriverType)
             (cf_CSIDrivers old) fs) (\<lambda>drivers.
     Ok \<lparr>cf_ConfVersion = version, cf_ClusterAddress = address, cf_ClusterSSL = ssl,
         cf_ClusterPort = port, cf_AppLogs = logs, cf_OverlayNetwork = overlay, cf_PublicIp = ip,
         cf_NetPort = netport, cf_CertFile = cert, cf_KeyFile = key, cf_Addons = adds,
         cf_Virtualizations = virts, cf_CSIDrivers = drivers\<rparr>)))))))))))))"
| "dec_ConfFile old _ = Err ''type''"

section \<open>Reading and writing\<close>

datatype conf_data =
    ConfMissing
  | ConfUnreadable string
  | ConfEmpty
  | ConfMalformed
  | ConfJson jval

text \<open>The outcome of writing: creating the directory, and writing, with what a failure leaves.\<close>

record conf_env =
  ce_MkdirAll :: "string option"
  ce_WriteFile :: "(string \<times> conf_data) option"

definition DefaultLogDir :: string where "DefaultLogDir = ''/tmp''"
definition AutoOakNetwork :: string where "AutoOakNetwork = ''default''"

definition conf_Default :: ConfFile where
  "conf_Default = zero_ConfFile
     \<lparr>cf_ConfVersion := ''1.0'', cf_ClusterAddress := ''0.0.0.0'', cf_ClusterPort := 10100,
      cf_ClusterSSL := False, cf_AppLogs := DefaultLogDir, cf_OverlayNetwork := AutoOakNetwork,
      cf_PublicIp := PublicIPFalse, cf_NetPort := 0,
      cf_Virtualizations := [\<lparr>vt_Name = ''containerd'', vt_Runtime = CONTAINER_RUNTIME,
        vt_Active = True, vt_Config = []\<rparr>]\<rparr>"

definition writeLocked :: "conf_env \<Rightarrow> ConfFile \<Rightarrow> conf_data \<Rightarrow> string option \<times> conf_data" where
  "writeLocked env conf data =
     (case ce_MkdirAll env of
        Some e \<Rightarrow> (Some e, data)
      | None \<Rightarrow>
          (case ce_WriteFile env of
             Some (e, left) \<Rightarrow> (Some e, left)
           | None \<Rightarrow> (None, ConfJson (json_ConfFile conf))))"

definition conf_Write :: "conf_env \<Rightarrow> ConfFile \<Rightarrow> conf_data \<Rightarrow> string option \<times> conf_data" where
  "conf_Write env conf data = writeLocked env conf data"

definition reset_conf :: "conf_env \<Rightarrow> string \<Rightarrow> conf_data \<Rightarrow> (ConfFile \<times> string option) \<times> conf_data" where
  "reset_conf env err data =
     (case writeLocked env conf_Default data of
        (Some resetErr, data') \<Rightarrow> ((zero_ConfFile, Some resetErr), data')
      | (None, data') \<Rightarrow> ((zero_ConfFile, Some err), data'))"

definition conf_Read :: "conf_env \<Rightarrow> conf_data \<Rightarrow> (ConfFile \<times> string option) \<times> conf_data" where
  "conf_Read env data =
     (case data of
        ConfUnreadable e \<Rightarrow> ((zero_ConfFile, Some e), data)
      | ConfMalformed \<Rightarrow> reset_conf env ''syntax'' data
      | ConfJson v \<Rightarrow>
          (case dec_ConfFile zero_ConfFile v of
             Err e \<Rightarrow> reset_conf env e data
           | Ok conf \<Rightarrow> ((conf, None), data))
      | _ \<Rightarrow> (case writeLocked env conf_Default data of (err, data') \<Rightarrow> ((conf_Default, err), data')))"

section \<open>The commands\<close>

text \<open>
  Every command reads the file, changes the configuration and writes it back; the flags of the
  command line are arguments. \<open>er\<close> and \<open>ew\<close> are the outcomes of the writes while reading and
  while writing.
\<close>

type_synonym conf_cmd = "conf_env \<Rightarrow> conf_env \<Rightarrow> conf_data \<Rightarrow> string option \<times> conf_data"

definition update_conf :: "(ConfFile \<Rightarrow> ConfFile) \<Rightarrow> conf_cmd" where
  "update_conf f er ew data =
     (case conf_Read er data of
        ((_, Some e), data') \<Rightarrow> (Some e, data')
      | ((conf, None), data') \<Rightarrow> conf_Write ew (f conf) data')"

definition defaultConfig :: "conf_env \<Rightarrow> conf_data \<Rightarrow> string option \<times> conf_data" where
  "defaultConfig ew data = conf_Write ew conf_Default data"

definition configCluster :: "go_int \<Rightarrow> bool \<Rightarrow> string \<Rightarrow> conf_cmd" where
  "configCluster clusterPort clusterSSL address =
     update_conf (\<lambda>c. c\<lparr>cf_ClusterAddress := address, cf_ClusterPort := clusterPort,
                        cf_ClusterSSL := clusterSSL\<rparr>)"

definition configAddress :: "string \<Rightarrow> conf_cmd" where
  "configAddress address = update_conf (\<lambda>c. c\<lparr>cf_ClusterAddress := address\<rparr>)"

definition configPort :: "go_int \<Rightarrow> conf_cmd" where
  "configPort port = update_conf (\<lambda>c. c\<lparr>cf_ClusterPort := port\<rparr>)"

definition configSSL :: "bool \<Rightarrow> conf_cmd" where
  "configSSL encrypt = update_conf (\<lambda>c. c\<lparr>cf_ClusterSSL := encrypt\<rparr>)"

definition configLogs :: "string \<Rightarrow> conf_cmd" where
  "configLogs path = update_conf (\<lambda>c. c\<lparr>cf_AppLogs := path\<rparr>)"

definition is_on :: "string \<Rightarrow> bool" where
  "is_on trigger \<longleftrightarrow> trigger = ''on'' \<or> trigger = ''enable'' \<or> trigger = ''true''"

definition set_virt :: "string \<Rightarrow> string \<Rightarrow> bool \<Rightarrow> Virtualization list \<Rightarrow> Virtualization list" where
  "set_virt name runtime active vs =
     (let vs' = map (\<lambda>v. if vt_Runtime v = runtime then v\<lparr>vt_Active := active\<rparr> else v) vs in
      if list_ex (\<lambda>v. vt_Runtime v = runtime) vs then vs'
      else vs' @ [\<lparr>vt_Name = name, vt_Runtime = runtime, vt_Active = active, vt_Config = []\<rparr>])"

definition setUnikernel :: "string \<Rightarrow> conf_cmd" where
  "setUnikernel trigger =
     update_conf (\<lambda>c. c\<lparr>cf_Virtualizations :=
       set_virt ''unikraft'' UNIKERNEL_RUNTIME (is_on trigger) (cf_Virtualizations c)\<rparr>)"

definition setCrosvm :: "string \<Rightarrow> conf_cmd" where
  "setCrosvm trigger =
     update_conf (\<lambda>c. c\<lparr>cf_Virtualizations :=
       set_virt ''crosvm'' CROSVM_RUNTIME (is_on trigger) (cf_Virtualizations c)\<rparr>)"

definition set_addon :: "string \<Rightarrow> bool \<Rightarrow> Addon list \<Rightarrow> Addon list" where
  "set_addon name active as =
     (let as' = map (\<lambda>a. if ad_Name a = name then a\<lparr>ad_Active := active\<rparr> else a) as in
      if list_ex (\<lambda>a. ad_Name a = name) as then as'
      else as' @ [\<lparr>ad_Name = name, ad_Active = active, ad_Config = []\<rparr>])"

definition IMAGE_BUILDER :: string where "IMAGE_BUILDER = ''image-builder''"
definition FLOPS_LEARNER :: string where "FLOPS_LEARNER = ''FLOps-learner''"

text \<open>\<open>setBuilder\<close>: \<open>None\<close> when the process exits because the package is missing.\<close>

definition setBuilder :: "string + string \<Rightarrow> string \<Rightarrow> conf_env \<Rightarrow> conf_env \<Rightarrow> conf_data
    \<Rightarrow> (string option \<times> conf_data) option" where
  "setBuilder dpkg trigger er ew data =
     (if (case dpkg of Err _ \<Rightarrow> True | Ok output \<Rightarrow> \<not> Contains output ''ok installed'') then None
      else Some (update_conf (\<lambda>c. c\<lparr>cf_Addons := set_addon IMAGE_BUILDER (is_on trigger) (cf_Addons c)\<rparr>)
                   er ew data))"

definition setFLOps :: "string \<Rightarrow> conf_cmd" where
  "setFLOps trigger =
     update_conf (\<lambda>c. c\<lparr>cf_Addons := set_addon FLOPS_LEARNER (is_on trigger) (cf_Addons c)\<rparr>)"

definition setNetwork :: "string \<Rightarrow> conf_cmd" where
  "setNetwork cniName = update_conf (\<lambda>c. c\<lparr>cf_OverlayNetwork := cniName\<rparr>)"

definition enableNetwork :: conf_cmd where
  "enableNetwork = setNetwork AutoOakNetwork"

definition enableManualNetwork :: "string list \<Rightarrow> conf_cmd" where
  "enableManualNetwork args =
     setNetwork (case args of [p] \<Rightarrow> ''custom:'' @ p | _ \<Rightarrow> ''custom:/etc/netmanager/netmanager.sock'')"

definition disableNetwork :: conf_cmd where
  "disableNetwork = setNetwork []"

definition setPublicIp :: "PublicIPMode \<Rightarrow> conf_cmd" where
  "setPublicIp mode = update_conf (\<lambda>c. c\<lparr>cf_PublicIp := mode\<rparr>)"

definition setMqttAuth :: "string \<Rightarrow> string \<Rightarrow> conf_cmd" where
  "setMqttAuth certFile keyFile =
     update_conf (\<lambda>c. let c1 = (if certFile \<noteq> [] then c\<lparr>cf_CertFile := certFile\<rparr> else c)
                      in if keyFile \<noteq> [] then c1\<lparr>cf_KeyFile := keyFile\<rparr> else c1)"

primrec set_endpoint :: "string \<Rightarrow> string \<Rightarrow> CSIDriverType list \<Rightarrow> CSIDriverType list option" where
  "set_endpoint name endpoint [] = None"
| "set_endpoint name endpoint (d # ds) =
     (if cd_Name d = name then Some (d\<lparr>cd_Endpoint := endpoint\<rparr> # ds)
      else map_option ((#) d) (set_endpoint name endpoint ds))"

definition addCsiDriver :: "string \<Rightarrow> string \<Rightarrow> conf_cmd" where
  "addCsiDriver name endpoint =
     update_conf (\<lambda>c. c\<lparr>cf_CSIDrivers :=
       (case set_endpoint name endpoint (cf_CSIDrivers c) of
          Some ds \<Rightarrow> ds
        | None \<Rightarrow> cf_CSIDrivers c @ [\<lparr>cd_Name = name, cd_Endpoint = endpoint\<rparr>])\<rparr>)"

definition removeCsiDriver :: "string \<Rightarrow> conf_cmd" where
  "removeCsiDriver name er ew data =
     (case conf_Read er data of
        ((_, Some e), data') \<Rightarrow> (Some e, data')
      | ((conf, None), data') \<Rightarrow>
          let filtered = filter (\<lambda>d. cd_Name d \<noteq> name) (cf_CSIDrivers conf) in
          if \<not> list_ex (\<lambda>d. cd_Name d = name) (cf_CSIDrivers conf) then (Some ''not found'', data')
          else conf_Write ew (conf\<lparr>cf_CSIDrivers := filtered\<rparr>) data')"

text \<open>The settings \<open>NodeEngine\<close> changes before it starts the service; an error ends it.\<close>

definition after :: "string option \<times> conf_data \<Rightarrow> (conf_data \<Rightarrow> string option \<times> conf_data)
    \<Rightarrow> string option \<times> conf_data" where
  "after r f = (case r of (Some e, data) \<Rightarrow> (Some e, data) | (None, data) \<Rightarrow> f data)"

definition nodeEngineDaemonManager ::
    "bool \<Rightarrow> string \<Rightarrow> go_int \<Rightarrow> bool \<Rightarrow> string \<Rightarrow> string \<Rightarrow> conf_cmd" where
  "nodeEngineDaemonManager statOk clusterAddress clusterPort clusterSSL certFile keyFile er ew data =
     after (if statOk then (None, data) else defaultConfig ew data) (\<lambda>data.
     after (if clusterAddress \<noteq> [] then configAddress clusterAddress er ew data else (None, data)) (\<lambda>data.
     after (if clusterPort \<noteq> 10100 then configPort clusterPort er ew data else (None, data)) (\<lambda>data.
     after (if clusterSSL then configSSL clusterSSL er ew data else (None, data)) (\<lambda>data.
     if certFile \<noteq> [] \<or> keyFile \<noteq> [] then setMqttAuth certFile keyFile er ew data else (None, data)))))"

section \<open>The overlay network\<close>

definition DISABLE_NETWORK :: string where "DISABLE_NETWORK = ''disabled''"

datatype overlay_choice =
    OverlayDefault
  | OverlayDisabled
  | OverlayCustom string
  | OverlayInvalid

definition choose_overlay :: "string \<Rightarrow> overlay_choice" where
  "choose_overlay overlay =
     (if overlay = AutoOakNetwork then OverlayDefault
      else if overlay = DISABLE_NETWORK then OverlayDisabled
      else if Contains overlay ''custom:'' then OverlayCustom (Split (CHR '':'') overlay ! 1)
      else OverlayInvalid)"

section \<open>What is written is read back\<close>

lemma is_space_to_lower [simp]: "is_space (to_lower c) \<longleftrightarrow> is_space c"
proof (cases "is_upper c")
  case True
  then have "65 \<le> (of_char c :: nat)" "(of_char c :: nat) \<le> 90"
    by (simp_all add: is_upper_def char_between_def)
  with True show ?thesis
    by (simp add: is_space_def char_between_def of_char_to_lower)
next
  case False
  then show ?thesis by (simp add: to_lower_def)
qed

lemma TrimSpace_ToLower: "TrimSpace (ToLower s) = ToLower (TrimSpace s)"
  by (simp add: TrimSpace_def TrimLeftFunc_def TrimRightFunc_def ToLower_def dropWhile_map comp_def rev_map)

lemma ParsePublicIPMode_eq: "ParsePublicIPMode m = Value m"
  by (simp add: ParsePublicIPMode_def Value_def pip_normalized_def)

lemma Value_idem [simp]: "Value (Value m) = Value m"
proof (cases "IsDisabled m \<or> IsAuto m")
  case True
  then have "Value m = PublicIPFalse \<or> Value m = PublicIPAuto"
    by (auto simp: Value_def IsDisabled_def IsAuto_def Let_def)
  moreover have "Value PublicIPFalse = PublicIPFalse" "Value PublicIPAuto = PublicIPAuto"
    by (simp_all add: Value_def pip_normalized_def PublicIPFalse_def PublicIPAuto_def ToLower_def to_lower_def
        is_upper_def char_between_def TrimSpace_def TrimLeftFunc_def TrimRightFunc_def is_space_def)
  ultimately show ?thesis by auto
next
  case False
  then have v: "Value m = TrimSpace m"
    by (auto simp: Value_def IsDisabled_def IsAuto_def Let_def)
  have "pip_normalized (TrimSpace m) = pip_normalized m"
    by (simp add: pip_normalized_def TrimSpace_ToLower TrimSpace_idem)
  with False show ?thesis
    by (simp add: v) (auto simp: Value_def IsDisabled_def IsAuto_def Let_def TrimSpace_idem)
qed

lemma dec_json_strs [simp]: "dec_strs old (json_strs ss) = Ok ss"
  using dec_all_map [of ss dec_str "[]" JvStr id] by (simp add: dec_strs_def json_strs_def)

lemma dec_list_json: "(\<And>x. f zero (g x) = Ok x) \<Longrightarrow> dec_list zero f old (JvArr (map g xs)) = Ok xs"
  using dec_all_map [of xs f zero g id] by simp

lemmas dec_field_simps = dec_field_def ToLower_def to_lower_def is_upper_def char_between_def

lemma dec_json_Addon [simp]: "dec_Addon old (json_Addon a) = Ok a"
  by (simp add: json_Addon_def dec_field_simps)

lemma dec_json_Virtualization [simp]: "dec_Virtualization old (json_Virtualization v) = Ok v"
  by (simp add: json_Virtualization_def dec_field_simps)

lemma dec_json_CSIDriverType [simp]: "dec_CSIDriverType old (json_CSIDriverType d) = Ok d"
  by (simp add: json_CSIDriverType_def dec_field_simps)

definition canonical_conf :: "ConfFile \<Rightarrow> ConfFile" where
  "canonical_conf c = c\<lparr>cf_PublicIp := Value (cf_PublicIp c)\<rparr>"

lemma dec_json_ConfFile [simp]: "dec_ConfFile old (json_ConfFile c) = Ok (canonical_conf c)"
  by (simp add: json_ConfFile_def dec_field_simps dec_list_json pip_MarshalJSON_def ParsePublicIPMode_eq
      canonical_conf_def del: dec_list.simps dec_int.simps)

lemma Read_json [simp]:
  "conf_Read er (ConfJson (json_ConfFile c)) = ((canonical_conf c, None), ConfJson (json_ConfFile c))"
  by (simp add: conf_Read_def)

definition writes :: "conf_env \<Rightarrow> bool" where
  "writes env \<longleftrightarrow> ce_MkdirAll env = None \<and> ce_WriteFile env = None"

lemma Write_ok: "writes ew \<Longrightarrow> conf_Write ew c data = (None, ConfJson (json_ConfFile c))"
  by (simp add: writes_def conf_Write_def writeLocked_def)

text \<open>The outcome of a command that reads a configuration and can write.\<close>

lemma update_conf_ok:
  assumes "conf_Read er data = ((conf, None), data1)" "writes ew"
  shows "update_conf f er ew data = (None, ConfJson (json_ConfFile (f conf)))"
  using assms by (simp add: update_conf_def Write_ok)

text \<open>
  A configuration survives the file: what is written is read back field by field, without an
  error and without changing the file, and only the public address mode is brought into its
  canonical form, which reading and writing again does not change.
\<close>

theorem conf_roundtrip:
  assumes "ce_MkdirAll ew = None" "ce_WriteFile ew = None"
  shows "fst (conf_Write ew conf data) = None \<and>
     conf_Read er (snd (conf_Write ew conf data)) =
       ((conf\<lparr>cf_PublicIp := Value (cf_PublicIp conf)\<rparr>, None), snd (conf_Write ew conf data)) \<and>
     Value (Value (cf_PublicIp conf)) = Value (cf_PublicIp conf)"
  using assms Write_ok [of ew conf data] by (simp add: writes_def canonical_conf_def)

definition env_ok :: conf_env where
  "env_ok = \<lparr>ce_MkdirAll = None, ce_WriteFile = None\<rparr>"

theorem conf_roundtrip_witness:
  "fst (conf_Read env_ok (snd (conf_Write env_ok conf_Default ConfMissing))) =
     (conf_Default\<lparr>cf_PublicIp := Value PublicIPFalse\<rparr>, None)"
proof -
  have "cf_PublicIp conf_Default = PublicIPFalse"
    by (simp add: conf_Default_def)
  then show ?thesis
    using conf_roundtrip [of env_ok conf_Default ConfMissing env_ok] by (simp add: env_ok_def)
qed

section \<open>The list of CSI drivers\<close>

definition endpoint_of :: "ConfFile \<Rightarrow> string \<Rightarrow> string option" where
  "endpoint_of c = map_of (map (\<lambda>d. (cd_Name d, cd_Endpoint d)) (cf_CSIDrivers c))"

definition driver_names :: "ConfFile \<Rightarrow> string list" where
  "driver_names c = map cd_Name (cf_CSIDrivers c)"

lemma set_endpoint_None: "set_endpoint name ep ds = None \<longleftrightarrow> name \<notin> cd_Name ` set ds"
  by (induction ds) auto

lemma set_endpoint_Some:
  "set_endpoint name ep ds = Some ds' \<Longrightarrow>
   map cd_Name ds' = map cd_Name ds \<and>
   map_of (map (\<lambda>d. (cd_Name d, cd_Endpoint d)) ds') =
     (map_of (map (\<lambda>d. (cd_Name d, cd_Endpoint d)) ds))(name \<mapsto> ep)"
  by (induction ds arbitrary: ds') (auto split: if_splits)

lemma map_add_absent: "m k = None \<Longrightarrow> [k \<mapsto> v] ++ m = m(k \<mapsto> v)"
  by (rule ext) (auto simp: map_add_def split: option.split)

text \<open>
  The configured CSI drivers are a map from names to endpoints: adding a driver sets its
  endpoint, whether it was there or not, removing one deletes exactly it, the other drivers
  and all other settings stay, and no name is ever listed twice.
\<close>

theorem csi_drivers_map:
  assumes "conf_Read er data = ((conf, None), data1)" "writes ew" "distinct (driver_names conf)"
  shows "\<exists>added removed.
     addCsiDriver name ep er ew data = (None, ConfJson (json_ConfFile added)) \<and>
     endpoint_of added = (endpoint_of conf)(name \<mapsto> ep) \<and> distinct (driver_names added) \<and>
     added\<lparr>cf_CSIDrivers := cf_CSIDrivers conf\<rparr> = conf \<and>
     removeCsiDriver name er ew (ConfJson (json_ConfFile added)) = (None, ConfJson (json_ConfFile removed)) \<and>
     endpoint_of removed = (endpoint_of conf)(name := None) \<and> distinct (driver_names removed)"
proof -
  define ds where "ds = (case set_endpoint name ep (cf_CSIDrivers conf) of
      Some ds \<Rightarrow> ds | None \<Rightarrow> cf_CSIDrivers conf @ [\<lparr>cd_Name = name, cd_Endpoint = ep\<rparr>])"
  let ?added = "conf\<lparr>cf_CSIDrivers := ds\<rparr>"
  let ?removed = "(canonical_conf ?added)\<lparr>cf_CSIDrivers := filter (\<lambda>d. cd_Name d \<noteq> name) ds\<rparr>"
  let ?map = "\<lambda>ds. map_of (map (\<lambda>d. (cd_Name d, cd_Endpoint d)) ds)" and ?names = "map cd_Name"
  have ds: "?map ds = (?map (cf_CSIDrivers conf))(name \<mapsto> ep) \<and> distinct (?names ds) \<and> name \<in> set (?names ds)"
  proof (cases "set_endpoint name ep (cf_CSIDrivers conf)")
    case None
    have "name \<notin> set (?names (cf_CSIDrivers conf))"
      using None by (simp add: set_endpoint_None)
    moreover from this have "[name \<mapsto> ep] ++ ?map (cf_CSIDrivers conf) = (?map (cf_CSIDrivers conf))(name \<mapsto> ep)"
      by (intro map_add_absent) (simp add: map_of_eq_None_iff image_image)
    ultimately show ?thesis
      using assms(3) None by (simp add: ds_def driver_names_def)
  next
    case (Some ds')
    then have "name \<in> set (?names (cf_CSIDrivers conf))"
      using set_endpoint_None [of name ep "cf_CSIDrivers conf"] by simp
    then show ?thesis
      using set_endpoint_Some [OF Some] assms(3) Some by (simp only: ds_def driver_names_def option.case)
  qed
  have fil: "map_of (map (\<lambda>d. (cd_Name d, cd_Endpoint d)) (filter (\<lambda>d. cd_Name d \<noteq> name) xs)) =
      (map_of (map (\<lambda>d. (cd_Name d, cd_Endpoint d)) xs))(name := None)" for xs
    by (induction xs) auto
  have "addCsiDriver name ep er ew data = (None, ConfJson (json_ConfFile ?added))"
    using update_conf_ok [OF assms(1,2)] by (simp add: addCsiDriver_def ds_def)
  moreover have "removeCsiDriver name er ew (ConfJson (json_ConfFile ?added)) =
      (None, ConfJson (json_ConfFile ?removed))"
    using ds Write_ok [OF assms(2)]
    by (auto simp: removeCsiDriver_def Let_def list_ex_iff canonical_conf_def)
  ultimately show ?thesis
    using ds
    by - (rule exI [of _ ?added], rule exI [of _ ?removed],
        simp add: endpoint_of_def driver_names_def canonical_conf_def distinct_map_filter fil)
qed

theorem csi_drivers_map_witness:
  "\<exists>added. endpoint_of added = [''csi.oakestra.io/hostpath'' \<mapsto> ''unix:///h.sock'']"
  using csi_drivers_map [of env_ok "ConfJson (json_ConfFile conf_Default)" "canonical_conf conf_Default" _ env_ok
      "''csi.oakestra.io/hostpath''" "''unix:///h.sock''"]
  by (auto simp: writes_def env_ok_def driver_names_def endpoint_of_def canonical_conf_def conf_Default_def
      zero_ConfFile_def)

section \<open>The overlay network and the flags\<close>

lemma Contains_custom: "Contains (''custom:'' @ p) ''custom:''"
  by (simp add: Contains_def HasPrefix_def)

lemma Split_takeWhile: "hd (Split c s) = takeWhile (\<lambda>x. x \<noteq> c) s"
  by (induction c s rule: Split.induct) (auto split: list.splits)

text \<open>
  The network commands reach the daemon as follows: after \<open>network auto\<close> it uses the default
  overlay, after \<open>network manual\<close> the given socket, cut at its first colon, and after
  \<open>network off\<close> it disables the network, but as an invalid value, since the command writes an
  empty string where the daemon expects \<open>disabled\<close>.
\<close>

theorem network_commands:
  assumes "conf_Read er data = ((conf, None), data1)" "writes ew"
  shows "let overlay = (\<lambda>cmd. choose_overlay (cf_OverlayNetwork (fst (fst (conf_Read er (snd (cmd er ew data)))))))
     in overlay enableNetwork = OverlayDefault \<and>
        overlay (enableManualNetwork [p]) = OverlayCustom (takeWhile (\<lambda>c. c \<noteq> CHR '':'') p) \<and>
        overlay disableNetwork = OverlayInvalid"
proof -
  have "Split (CHR '':'') (''custom:'' @ p) = ''custom'' # Split (CHR '':'') p"
    by simp
  then have "Split (CHR '':'') (''custom:'' @ p) ! 1 = takeWhile (\<lambda>c. c \<noteq> CHR '':'') p"
    by (simp only:) (metis Split_not_Nil Split_takeWhile hd_conv_nth nth_Cons_Suc One_nat_def)
  then show ?thesis
    using Contains_custom [of p]
    by (simp add: Let_def enableNetwork_def enableManualNetwork_def disableNetwork_def setNetwork_def
        update_conf_ok [OF assms] canonical_conf_def choose_overlay_def AutoOakNetwork_def DISABLE_NETWORK_def
        Contains_def HasPrefix_def)
qed

theorem network_commands_witness:
  "choose_overlay (cf_OverlayNetwork (fst (fst (conf_Read env_ok
     (snd (disableNetwork env_ok env_ok (ConfJson (json_ConfFile conf_Default)))))))) = OverlayInvalid"
  using network_commands [of env_ok "ConfJson (json_ConfFile conf_Default)" "canonical_conf conf_Default" _ env_ok]
  by (simp add: writes_def env_ok_def Let_def)

text \<open>
  The flags of \<open>NodeEngine\<close> override exactly the settings they are given for: an address, a
  port other than the default, SSL and the certificate files; everything else stays as it was.
  So a port once configured cannot be set back to 10100 with the flag, nor SSL switched off.
\<close>

theorem daemon_flags:
  assumes "conf_Read er data = ((conf, None), data)" "writes ew"
  shows "fst (nodeEngineDaemonManager True address clusterPort ssl cert key er ew data) = None \<and>
     canonical_conf (fst (fst (conf_Read er
         (snd (nodeEngineDaemonManager True address clusterPort ssl cert key er ew data))))) =
       canonical_conf (conf\<lparr>
         cf_ClusterAddress := (if address \<noteq> [] then address else cf_ClusterAddress conf),
         cf_ClusterPort := (if clusterPort \<noteq> 10100 then clusterPort else cf_ClusterPort conf),
         cf_ClusterSSL := (ssl \<or> cf_ClusterSSL conf),
         cf_CertFile := (if cert \<noteq> [] then cert else cf_CertFile conf),
         cf_KeyFile := (if key \<noteq> [] then key else cf_KeyFile conf)\<rparr>)"
proof -
  have upd: "update_conf f er ew (ConfJson (json_ConfFile c)) = (None, ConfJson (json_ConfFile (f (canonical_conf c))))"
    for f c
    using update_conf_ok [OF Read_json assms(2)] by simp
  show ?thesis
    using assms(1)
    by (cases "address = []"; cases "clusterPort = 10100"; cases ssl; cases "cert = []"; cases "key = []")
       (simp_all add: nodeEngineDaemonManager_def after_def configAddress_def configPort_def configSSL_def
         setMqttAuth_def update_conf_ok [OF assms] upd canonical_conf_def)
qed

theorem daemon_flags_witness:
  "cf_ClusterPort (fst (fst (conf_Read env_ok (snd (nodeEngineDaemonManager True ''10.0.0.1'' 10100 False [] []
     env_ok env_ok (ConfJson (json_ConfFile (conf_Default\<lparr>cf_ClusterPort := 443\<rparr>)))))))) = 443"
proof -
  let ?c = "conf_Default\<lparr>cf_ClusterPort := 443\<rparr>"
  have "cf_ClusterPort (canonical_conf (fst (fst (conf_Read env_ok (snd (nodeEngineDaemonManager True ''10.0.0.1''
      10100 False [] [] env_ok env_ok (ConfJson (json_ConfFile ?c)))))))) = 443"
    using daemon_flags [of env_ok "ConfJson (json_ConfFile ?c)" "canonical_conf ?c" env_ok "''10.0.0.1''" 10100
        False "[]" "[]"]
    by (simp add: writes_def env_ok_def) (simp add: canonical_conf_def)
  then show ?thesis
    by (simp add: canonical_conf_def)
qed

end
