(* ===== verification/CsiManager.thy ===== *)
theory CsiManager
  imports HostPath Config
begin

text \<open>
  The node engine's side of CSI (\<open>src/go_node_engine/csi\<close>): the registry of plugins
  (\<open>csi_registry.go\<close>), and mounting and unmounting the volumes of a service
  (\<open>csi_manager.go\<close>). The plugins and the file system are an interface, the record
  \<open>csi_node\<close> of operations on a state; the locale \<open>csi_plugins\<close> states what the node engine relies
  on, and the hostpath plugin of \<open>HostPath\<close> provides it.
\<close>

section \<open>The registry\<close>

record Plugin =
  pl_Config :: CSIDriverType
  pl_DriverName :: string
  pl_DriverVersion :: string
  pl_StageUnstageRequired :: bool

type_synonym Registry = "(string \<times> Plugin) list"

datatype node_capability = STAGE_UNSTAGE_VOLUME | OtherCapability nat

text \<open>What a plugin answers while it is probed.\<close>

record probe_env =
  pe_Dial :: "string \<Rightarrow> string option"
  pe_Probe :: "string option"
  pe_GetPluginInfo :: "string + string \<times> string"
  pe_NodeGetCapabilities :: "string + node_capability list"

definition dial_target :: "string \<Rightarrow> string" where
  "dial_target endpoint =
     (if length endpoint > 0 \<and> hd endpoint = CHR ''/'' then ''unix://'' @ endpoint else endpoint)"

definition Register :: "probe_env \<Rightarrow> CSIDriverType \<Rightarrow> Registry \<Rightarrow> string option \<times> Registry" where
  "Register env cfg reg =
     (case pe_Dial env (dial_target (cd_Endpoint cfg)) of
        Some e \<Rightarrow> (Some e, reg)
      | None \<Rightarrow>
          (case pe_Probe env of
             Some e \<Rightarrow> (Some e, reg)
           | None \<Rightarrow>
               (case pe_GetPluginInfo env of
                  Err e \<Rightarrow> (Some e, reg)
                | Ok (name, version) \<Rightarrow>
                    let cfg' = (if cd_Name cfg = [] then cfg\<lparr>cd_Name := name\<rparr> else cfg)
                    in (case pe_NodeGetCapabilities env of
                          Err e \<Rightarrow> (Some e, reg)
                        | Ok caps \<Rightarrow>
                            (None, AList.update name
                               \<lparr>pl_Config = cfg', pl_DriverName = name, pl_DriverVersion = version,
                                pl_StageUnstageRequired = (STAGE_UNSTAGE_VOLUME \<in> set caps)\<rparr> reg)))))"

definition InitFromConfig :: "(CSIDriverType \<Rightarrow> probe_env) \<Rightarrow> ConfFile \<Rightarrow> Registry \<Rightarrow> Registry" where
  "InitFromConfig env conf reg = foldl (\<lambda>r d. snd (Register (env d) d r)) reg (cf_CSIDrivers conf)"

definition reg_Get :: "Registry \<Rightarrow> string \<Rightarrow> string + Plugin" where
  "reg_Get reg driverName =
     (case map_of reg driverName of None \<Rightarrow> Err ''not registered'' | Some p \<Rightarrow> Ok p)"

definition reg_List :: "Registry \<Rightarrow> CSIDriverType list" where
  "reg_List reg = map (\<lambda>(name, p). pl_Config p) reg"

text \<open>\<open>StopAll\<close>: the plugins whose connections are closed, and the registry afterwards.\<close>

definition StopAll :: "Registry \<Rightarrow> Plugin list \<times> Registry" where
  "StopAll reg = (map snd reg, [])"

section \<open>Mounting the volumes of a service\<close>

definition oakStagingBase :: string where "oakStagingBase = ''/var/lib/oakestra/csi/staging''"
definition oakPublishBase :: string where "oakPublishBase = ''/var/lib/oakestra/csi/publish''"

definition stagingDir :: "string \<Rightarrow> string \<Rightarrow> string" where
  "stagingDir driverName volumeID = path_Join [oakStagingBase, driverName, volumeID]"

definition publishDir :: "string \<Rightarrow> string \<Rightarrow> go_int \<Rightarrow> string \<Rightarrow> string" where
  "publishDir driverName sname inst volumeID =
     path_Join [oakPublishBase, driverName, sname, Itoa (sint inst), volumeID]"

record MountedVolume =
  mv_VolumeID :: string
  mv_DriverName :: string
  mv_StagingPath :: string
  mv_TargetPath :: string
  mv_MountPath :: string

definition zero_MountedVolume :: MountedVolume where
  "zero_MountedVolume = \<lparr>mv_VolumeID = [], mv_DriverName = [], mv_StagingPath = [], mv_TargetPath = [],
     mv_MountPath = []\<rparr>"

record stage_request =
  sr_VolumeId :: string
  sr_StagingTargetPath :: string
  sr_VolumeContext :: "string \<rightharpoonup> string"

text \<open>
  The operations the node engine calls, each with the driver's name: an error or none, and the
  state afterwards. A publication also passes the staging path.
\<close>

record 's csi_node =
  no_MkdirAll :: "string \<Rightarrow> 's \<Rightarrow> string option \<times> 's"
  no_Remove :: "string \<Rightarrow> 's \<Rightarrow> 's"
  no_StageVolume :: "string \<Rightarrow> stage_request \<Rightarrow> 's \<Rightarrow> string option \<times> 's"
  no_PublishVolume :: "string \<Rightarrow> string \<Rightarrow> publish_request \<Rightarrow> 's \<Rightarrow> string option \<times> 's"
  no_UnpublishVolume :: "string \<Rightarrow> string \<Rightarrow> string \<Rightarrow> 's \<Rightarrow> string option \<times> 's"
  no_UnstageVolume :: "string \<Rightarrow> string \<Rightarrow> string \<Rightarrow> 's \<Rightarrow> string option \<times> 's"

text \<open>Staging, when the plugin requires it: an error, or the staging path.\<close>

definition stage_volume ::
    "'s csi_node \<Rightarrow> Plugin \<Rightarrow> VolumeRequest \<Rightarrow> 's \<Rightarrow> (string + string) \<times> 's" where
  "stage_volume ops plugin vol s =
     (if \<not> pl_StageUnstageRequired plugin then (Ok [], s)
      else
        let stagingPath = stagingDir (pl_DriverName plugin) (vol_VolumeID vol) in
        (case no_MkdirAll ops stagingPath s of
           (Some e, s1) \<Rightarrow> (Err e, s1)
         | (None, s1) \<Rightarrow>
             (case no_StageVolume ops (pl_DriverName plugin)
                     \<lparr>sr_VolumeId = vol_VolumeID vol, sr_StagingTargetPath = stagingPath,
                      sr_VolumeContext = vol_Config vol\<rparr> s1 of
                (Some e, s2) \<Rightarrow> (Err e, s2)
              | (None, s2) \<Rightarrow> (Ok stagingPath, s2))))"

definition mountSingle ::
    "'s csi_node \<Rightarrow> Registry \<Rightarrow> Service \<Rightarrow> VolumeRequest \<Rightarrow> 's \<Rightarrow> (MountedVolume \<times> string option) \<times> 's" where
  "mountSingle ops reg service vol s =
     (case reg_Get reg (vol_CSIDriver vol) of
        Err e \<Rightarrow> ((zero_MountedVolume, Some e), s)
      | Ok plugin \<Rightarrow>
          (case stage_volume ops plugin vol s of
             (Err e, s1) \<Rightarrow> ((zero_MountedVolume, Some e), s1)
           | (Ok stagingPath, s1) \<Rightarrow>
               let mv = \<lparr>mv_VolumeID = vol_VolumeID vol, mv_DriverName = pl_DriverName plugin,
                         mv_StagingPath = stagingPath, mv_TargetPath = [], mv_MountPath = vol_MountPath vol\<rparr>;
                   targetPath = publishDir (pl_DriverName plugin) (svc_Sname service)
                                  (svc_Instance service) (vol_VolumeID vol)
               in (case no_MkdirAll ops targetPath s1 of
                     (Some e, s2) \<Rightarrow> ((mv, Some e), s2)
                   | (None, s2) \<Rightarrow>
                       (case no_PublishVolume ops (pl_DriverName plugin) stagingPath
                               \<lparr>pr_VolumeId = vol_VolumeID vol, pr_TargetPath = targetPath,
                                pr_VolumeContext = vol_Config vol, pr_Readonly = False\<rparr> s2 of
                          (Some e, s3) \<Rightarrow> ((mv, Some e), s3)
                        | (None, s3) \<Rightarrow> ((mv\<lparr>mv_TargetPath := targetPath\<rparr>, None), s3)))))"

primrec mount_loop ::
    "'s csi_node \<Rightarrow> Registry \<Rightarrow> Service \<Rightarrow> VolumeRequest list \<Rightarrow> MountedVolume list \<Rightarrow> 's
      \<Rightarrow> (MountedVolume list \<times> string option) \<times> 's" where
  "mount_loop ops reg service [] mvs s = ((mvs, None), s)"
| "mount_loop ops reg service (vol # vols) mvs s =
     (case mountSingle ops reg service vol s of
        ((_, Some e), s1) \<Rightarrow> ((mvs, Some e), s1)
      | ((mv, None), s1) \<Rightarrow> mount_loop ops reg service vols (mvs @ [mv]) s1)"

definition MountVolumes ::
    "'s csi_node \<Rightarrow> Registry \<Rightarrow> Service \<Rightarrow> 's \<Rightarrow> (MountedVolume list \<times> string option) \<times> 's" where
  "MountVolumes ops reg service s = mount_loop ops reg service (svc_Volumes service) [] s"

definition unmountSingle :: "'s csi_node \<Rightarrow> Registry \<Rightarrow> MountedVolume \<Rightarrow> 's \<Rightarrow> 's" where
  "unmountSingle ops reg mv s =
     (case reg_Get reg (mv_DriverName mv) of
        Err _ \<Rightarrow> s
      | Ok plugin \<Rightarrow>
          let s1 = (if mv_TargetPath mv = [] then s
                    else no_Remove ops (mv_TargetPath mv)
                      (snd (no_UnpublishVolume ops (pl_DriverName plugin) (mv_VolumeID mv) (mv_TargetPath mv) s)))
          in if mv_StagingPath mv = [] then s1
             else no_Remove ops (mv_StagingPath mv)
               (snd (no_UnstageVolume ops (pl_DriverName plugin) (mv_VolumeID mv) (mv_StagingPath mv) s1)))"

definition UnmountVolumes :: "'s csi_node \<Rightarrow> Registry \<Rightarrow> MountedVolume list \<Rightarrow> 's \<Rightarrow> 's" where
  "UnmountVolumes ops reg mvs s = foldl (\<lambda>s mv. unmountSingle ops reg mv s) s mvs"

section \<open>The volumes a mount returns\<close>

text \<open>The mounted volumes extend those before; each describes its request.\<close>

lemma mount_loop_extends:
  "mount_loop ops reg service vols mvs s = ((mvs', err), s') \<Longrightarrow> \<exists>new. mvs' = mvs @ new"
proof (induction vols arbitrary: mvs s)
  case (Cons vol vols)
  then show ?case by (fastforce split: prod.splits option.splits)
qed simp

definition registry_ok :: "Registry \<Rightarrow> bool" where
  "registry_ok reg \<longleftrightarrow> list_all (\<lambda>(k, p). pl_DriverName p = k) reg"

lemma registry_ok_Get: "registry_ok reg \<Longrightarrow> reg_Get reg d = Ok p \<Longrightarrow> pl_DriverName p = d"
  by (auto simp: registry_ok_def reg_Get_def list_all_iff dest: map_of_SomeD split: option.splits)

lemma registry_ok_Register: "registry_ok reg \<Longrightarrow> registry_ok (snd (Register env cfg reg))"
  using set_update_subset [of _ _ reg]
  by (fastforce simp: Register_def registry_ok_def list_all_iff Let_def split: option.splits sum.splits)

lemma registry_ok_Init: "registry_ok reg \<Longrightarrow> registry_ok (InitFromConfig env conf reg)"
proof -
  have "registry_ok reg \<Longrightarrow> registry_ok (foldl (\<lambda>r d. snd (Register (env d) d r)) reg ds)" for ds
    by (induction ds arbitrary: reg) (simp_all add: registry_ok_Register)
  then show "registry_ok reg \<Longrightarrow> registry_ok (InitFromConfig env conf reg)"
    by (simp add: InitFromConfig_def)
qed

text \<open>What a mounted volume says of its request.\<close>

definition describes :: "Service \<Rightarrow> VolumeRequest \<Rightarrow> MountedVolume \<Rightarrow> bool" where
  "describes service vol mv \<longleftrightarrow>
     mv_VolumeID mv = vol_VolumeID vol \<and> mv_DriverName mv = vol_CSIDriver vol \<and>
     mv_MountPath mv = vol_MountPath vol \<and>
     mv_TargetPath mv =
       publishDir (vol_CSIDriver vol) (svc_Sname service) (svc_Instance service) (vol_VolumeID vol) \<and>
     mv_StagingPath mv \<in> {[], stagingDir (vol_CSIDriver vol) (vol_VolumeID vol)}"

lemma mountSingle_describes:
  "registry_ok reg \<Longrightarrow> mountSingle ops reg service vol s = ((mv, None), s') \<Longrightarrow> describes service vol mv"
  by (auto simp: mountSingle_def stage_volume_def Let_def describes_def
      dest!: registry_ok_Get split: sum.splits prod.splits option.splits if_splits)

lemma mount_loop_describes:
  "registry_ok reg \<Longrightarrow> mount_loop ops reg service vols mvs s = ((mvs', err), s') \<Longrightarrow>
   \<exists>new. mvs' = mvs @ new \<and> list_all2 (describes service) (take (length new) vols) new \<and>
     (err = None \<longleftrightarrow> length new = length vols)"
proof (induction vols arbitrary: mvs s)
  case (Cons vol vols)
  obtain mv e s1 where 1: "mountSingle ops reg service vol s = ((mv, e), s1)" by (metis prod.exhaust)
  show ?case
  proof (cases e)
    case None
    obtain new where "mvs' = (mvs @ [mv]) @ new" "list_all2 (describes service) (take (length new) vols) new"
      "err = None \<longleftrightarrow> length new = length vols"
      using Cons.IH [of "mvs @ [mv]" s1] Cons.prems 1 None by auto
    then show ?thesis
      using mountSingle_describes [OF Cons.prems(1) 1 [unfolded None]]
      by (intro exI [of _ "mv # new"]) simp
  next
    case (Some x)
    then show ?thesis using Cons.prems(2) 1 by auto
  qed
qed auto

section \<open>What the node engine relies on\<close>

text \<open>
  \<open>published s t\<close>: the plugin answers for a volume at the target \<open>t\<close>. A publication that succeeds
  establishes it for its target and touches no other; unpublishing only takes targets away;
  nothing else changes it.
\<close>

locale csi_plugins =
  fixes ops :: "'s csi_node"
    and published :: "'s \<Rightarrow> string \<Rightarrow> bool"
  assumes publish_ok: "no_PublishVolume ops d staging req s = (None, s') \<Longrightarrow> published s' (pr_TargetPath req)"
    and publish_frame: "no_PublishVolume ops d staging req s = (err, s') \<Longrightarrow>
      err \<noteq> None \<or> t \<noteq> pr_TargetPath req \<Longrightarrow> published s' t = published s t"
    and unpublish_frame: "t \<noteq> target \<Longrightarrow> published (snd (no_UnpublishVolume ops d v target s)) t = published s t"
    and unpublish_mono: "published (snd (no_UnpublishVolume ops d v target s)) t \<Longrightarrow> published s t"
    and stage_keeps: "published (snd (no_StageVolume ops d sreq s)) = published s"
    and unstage_keeps: "published (snd (no_UnstageVolume ops d v p s)) = published s"
    and mkdir_keeps: "published (snd (no_MkdirAll ops p s)) = published s"
    and remove_keeps: "published (no_Remove ops p s) = published s"

context csi_plugins
begin

lemma mkdir_eq: "no_MkdirAll ops p s = (err, s') \<Longrightarrow> published s' = published s"
  using mkdir_keeps [of p s] by simp

lemma stage_eq: "no_StageVolume ops d req s = (err, s') \<Longrightarrow> published s' = published s"
  using stage_keeps [of d req s] by simp

lemma stage_volume_keeps: "stage_volume ops plugin vol s = (r, s') \<Longrightarrow> published s' = published s"
  by (auto simp: stage_volume_def Let_def dest!: mkdir_eq stage_eq split: if_splits prod.splits option.splits)

text \<open>Mounting one volume: it is published at its target, and nothing else changes.\<close>

lemma mountSingle_published:
  assumes "mountSingle ops reg service vol s = ((mv, err), s')"
  shows "err = None \<Longrightarrow> published s' (mv_TargetPath mv)"
    and "published s t \<Longrightarrow> err = None \<Longrightarrow> published s' t"
    and "err \<noteq> None \<or> t \<noteq> mv_TargetPath mv \<Longrightarrow> published s' t = published s t"
  using assms
  by (auto simp: mountSingle_def Let_def publish_frame
      dest!: mkdir_eq stage_volume_keeps dest: publish_ok
      split: sum.splits prod.splits option.splits)
     (metis publish_frame publish_ok publish_request.select_convs(2))+

lemma mount_loop_published:
  assumes "mount_loop ops reg service vols mvs s = ((mvs', err), s')"
    and "\<forall>mv \<in> set mvs. published s (mv_TargetPath mv)"
  shows "(\<forall>mv \<in> set mvs'. published s' (mv_TargetPath mv)) \<and>
    (\<forall>t. t \<notin> mv_TargetPath ` set mvs' \<longrightarrow> published s' t = published s t)"
  using assms
proof (induction vols arbitrary: mvs s)
  case Nil
  then show ?case by auto
next
  case (Cons vol vols)
  obtain mv e s1 where 1: "mountSingle ops reg service vol s = ((mv, e), s1)" by (metis prod.exhaust)
  note P = mountSingle_published [OF 1]
  show ?case
  proof (cases e)
    case None
    have "\<forall>m \<in> set (mvs @ [mv]). published s1 (mv_TargetPath m)"
      using Cons.prems(2) P(1,2) None by auto
    with Cons.IH [of "mvs @ [mv]" s1] Cons.prems(1) 1 None
    have A: "\<forall>m \<in> set mvs'. published s' (mv_TargetPath m)"
      and B: "\<forall>t. t \<notin> mv_TargetPath ` set mvs' \<longrightarrow> published s' t = published s1 t" by auto
    have "mv \<in> set mvs'"
      using Cons.prems(1) 1 None mount_loop_extends [of ops reg service vols "mvs @ [mv]" s1] by auto
    then show ?thesis using A B P(3) None by (metis image_eqI)
  next
    case (Some x)
    then show ?thesis using Cons.prems 1 P(3) by auto
  qed
qed

lemma unmountSingle_published:
  "published (unmountSingle ops reg mv s) t \<Longrightarrow> published s t"
  "t \<noteq> mv_TargetPath mv \<Longrightarrow> published (unmountSingle ops reg mv s) t = published s t"
  by (auto simp: unmountSingle_def Let_def remove_keeps unstage_keeps unpublish_frame
      dest: unpublish_mono split: sum.splits if_splits)

lemma UnmountVolumes_published:
  "published (UnmountVolumes ops reg mvs s) t \<Longrightarrow> published s t"
  "t \<notin> mv_TargetPath ` set mvs \<Longrightarrow> published (UnmountVolumes ops reg mvs s) t = published s t"
  by (induction mvs arbitrary: s) (auto simp: UnmountVolumes_def dest: unmountSingle_published(1)
      simp: unmountSingle_published(2))

end

section \<open>The hostpath plugin as provider\<close>

text \<open>
  The hostpath plugin runs with its tracker; the engine's directory calls act on the file system
  \<open>'f\<close>, and the answers the plugin gets from the system depend on the state.
\<close>

type_synonym 'f hp_state = "'f \<times> MountTracker \<times> host"

definition hp_driver :: string where
  "hp_driver = ''csi.oakestra.io/hostpath''"

definition hp_publish :: "('f hp_state \<Rightarrow> sys_env) \<Rightarrow> publish_request \<Rightarrow> 'f hp_state \<Rightarrow> string option \<times> 'f hp_state" where
  "hp_publish env req s =
     (case s of (f, mt, h) \<Rightarrow>
        case NodePublishVolume (env s) req (Some mt, h) of
          (code, mto, h') \<Rightarrow> (map_option (\<lambda>_. ''NodePublishVolume'') code,
                             f, (case mto of Some mt' \<Rightarrow> mt' | None \<Rightarrow> mt), h'))"

definition hp_unpublish :: "('f hp_state \<Rightarrow> sys_env) \<Rightarrow> string \<Rightarrow> 'f hp_state \<Rightarrow> string option \<times> 'f hp_state" where
  "hp_unpublish env target s =
     (case s of (f, mt, h) \<Rightarrow>
        case NodeUnpublishVolume (env s) target (Some mt, h) of
          (code, mto, h') \<Rightarrow> (map_option (\<lambda>_. ''NodeUnpublishVolume'') code,
                             f, (case mto of Some mt' \<Rightarrow> mt' | None \<Rightarrow> mt), h'))"

definition hostpath_node ::
    "('f hp_state \<Rightarrow> sys_env) \<Rightarrow> (string \<Rightarrow> 'f \<Rightarrow> string option \<times> 'f) \<Rightarrow> (string \<Rightarrow> 'f \<Rightarrow> 'f)
      \<Rightarrow> 'f hp_state csi_node" where
  "hostpath_node env mkdir rm =
     \<lparr>no_MkdirAll = (\<lambda>p (f, s). case mkdir p f of (e, f') \<Rightarrow> (e, f', s)),
      no_Remove = (\<lambda>p (f, s). (rm p f, s)),
      no_StageVolume = (\<lambda>_ _ s. (Some ''Unimplemented'', s)),
      no_PublishVolume = (\<lambda>_ _. hp_publish env),
      no_UnpublishVolume = (\<lambda>_ _. hp_unpublish env),
      no_UnstageVolume = (\<lambda>_ _ _ s. (Some ''Unimplemented'', s))\<rparr>"

definition hp_published :: "'f hp_state \<Rightarrow> string \<Rightarrow> bool" where
  "hp_published s = (case s of (f, mt, h) \<Rightarrow> IsMounted mt)"

lemma IsMounted_track_mount:
  "track_mount env req src (Some mt, h) = (mto, h') \<Longrightarrow>
   \<exists>mt'. mto = Some mt' \<and> IsMounted mt' = (\<lambda>t. t = pr_TargetPath req \<or> IsMounted mt t)"
  by (auto simp: track_mount_def AddMount_def IsMounted_def Let_def update_conv' fun_eq_iff)

lemma publish_tracks:
  assumes "NodePublishVolume env req (Some mt, h) = (code, mto, h')"
  shows "\<exists>mt'. mto = Some mt' \<and>
    IsMounted mt' = (\<lambda>t. (code = None \<and> t = pr_TargetPath req) \<or> IsMounted mt t)"
proof -
  obtain plan h1 where 1: "publish_prepare env req (Some mt) h = (plan, h1)" by fastforce
  have 2: "plan = Ok AlreadyTracked \<Longrightarrow> IsMounted mt (pr_TargetPath req)"
    using 1 by (auto simp: publish_prepare_def Let_def split: prod.splits if_splits option.splits)
  show ?thesis
    using assms 1 2
    by (auto simp: NodePublishVolume_def publish_finish_def fun_eq_iff dest!: IsMounted_track_mount
        split: sum.splits publish_plan.splits prod.splits if_splits)
qed

lemma unpublish_tracks:
  assumes "NodeUnpublishVolume env tgt (Some mt, h) = (code, mto, h')"
  shows "\<exists>mt'. mto = Some mt' \<and> (IsMounted mt' = IsMounted mt \<or> IsMounted mt' = (IsMounted mt)(tgt := False))"
  using assms
  by (auto simp: NodeUnpublishVolume_def RemoveMount_def untrack_def enqueue_cleanup_def IsMounted_def
      Let_def delete_conv' fun_eq_iff split: prod.splits option.splits if_splits)

lemma hp_publish_published:
  assumes "hp_publish env req s = (err, s')"
  shows "hp_published s' = (\<lambda>t. (err = None \<and> t = pr_TargetPath req) \<or> hp_published s t)"
  using assms
  by (auto simp: hp_publish_def hp_published_def fun_eq_iff dest!: publish_tracks split: prod.splits)

lemma hp_unpublish_published:
  "hp_published (snd (hp_unpublish env tgt s)) = hp_published s \<or>
   hp_published (snd (hp_unpublish env tgt s)) = (hp_published s)(tgt := False)"
  by (auto simp: hp_unpublish_def hp_published_def dest!: unpublish_tracks split: prod.splits)

interpretation hostpath: csi_plugins "hostpath_node env mkdir rm" hp_published
proof
  fix d staging req and s s' :: "'a hp_state" and err t
  assume "no_PublishVolume (hostpath_node env mkdir rm) d staging req s = (None, s')"
  then have "hp_publish env req s = (None, s')" by (simp add: hostpath_node_def)
  then show "hp_published s' (pr_TargetPath req)" by (simp add: hp_publish_published)
next
  fix d staging req and s s' :: "'a hp_state" and err t
  assume "no_PublishVolume (hostpath_node env mkdir rm) d staging req s = (err, s')"
    and *: "err \<noteq> None \<or> t \<noteq> pr_TargetPath req"
  then have "hp_publish env req s = (err, s')" by (simp add: hostpath_node_def)
  with * show "hp_published s' t = hp_published s t" by (auto simp: hp_publish_published)
next
  fix d v target and s :: "'a hp_state" and t :: string
  assume "t \<noteq> target"
  then show "hp_published (snd (no_UnpublishVolume (hostpath_node env mkdir rm) d v target s)) t =
      hp_published s t"
    using hp_unpublish_published [of env target s] by (auto simp: hostpath_node_def)
next
  fix d v target and s :: "'a hp_state" and t
  assume "hp_published (snd (no_UnpublishVolume (hostpath_node env mkdir rm) d v target s)) t"
  then show "hp_published s t"
    using hp_unpublish_published [of env target s] by (cases "t = target") (auto simp: hostpath_node_def)
qed (auto simp: hostpath_node_def hp_published_def split: prod.splits)

section \<open>Mounting and unmounting with the hostpath plugin\<close>


definition hp_plugin :: Plugin where
  "hp_plugin = \<lparr>pl_Config = \<lparr>cd_Name = hp_driver, cd_Endpoint = ''/run/csi.sock''\<rparr>,
     pl_DriverName = hp_driver, pl_DriverVersion = ''1'', pl_StageUnstageRequired = False\<rparr>"

definition vol_service :: Service where
  "vol_service = zero_Service\<lparr>svc_Sname := ''db'',
     svc_Volumes := [\<lparr>vol_VolumeID = ''data'', vol_CSIDriver = hp_driver, vol_MountPath = ''/data'',
                      vol_Config = Map.empty\<rparr>]\<rparr>"


lemma plain_Itoa: "plain (Itoa i)"
proof -
  have "CHR ''.'' \<notin> set (Itoa i)" "CHR ''/'' \<notin> set (Itoa i)"
    using Itoa_chars [of _ i] by (fastforce simp: is_digit_def char_between_def)+
  then show ?thesis by (auto simp: plain_def Itoa_not_Nil)
qed

lemma path_elements_publishDir:
  assumes "plain s" "plain v"
  shows "path_elements (publishDir d s i v) =
    path_elements (oakPublishBase @ ''/'' @ d) @ [s, Itoa (sint i), v]"
proof -
  let ?p = "oakPublishBase @ ''/'' @ d"
  have r: "path_rooted ?p" by (simp add: oakPublishBase_def)
  have "publishDir d s i v = Clean (((?p @ ''/'' @ s) @ ''/'' @ Itoa (sint i)) @ ''/'' @ v)"
    by (simp add: publishDir_def path_Join_def oakPublishBase_def Let_def)
  then have "path_elements (publishDir d s i v) =
      path_elements (((?p @ ''/'' @ s) @ ''/'' @ Itoa (sint i)) @ ''/'' @ v)"
    using r by (simp only: path_elements_Clean_rooted path_rooted_append)
  also have "\<dots> = ((path_elements ?p @ [s]) @ [Itoa (sint i)]) @ [v]"
    using r assms plain_Itoa by (simp only: path_elements_append_plain path_rooted_append)
  finally show ?thesis by simp
qed

text \<open>
  Volumes of different services, instances or ids get different publication targets, as long as
  names and ids are plain path elements.
\<close>

theorem publish_targets_distinct:
  assumes "plain s" "plain v" "plain s'" "plain v'"
  shows "publishDir d s i v = publishDir d s' i' v' \<longleftrightarrow> s = s' \<and> i = i' \<and> v = v'"
  using path_elements_publishDir [OF assms(1,2), of d i] path_elements_publishDir [OF assms(3,4), of d i']
  by (metis Itoa_sint_inject append_same_eq same_append_eq list.inject)

theorem publish_targets_distinct_witness:
  "publishDir hp_driver ''db'' 0 ''data'' \<noteq> publishDir hp_driver ''db'' 1 ''data''"
  using publish_targets_distinct [of "''db''" "''data''" "''db''" "''data''" hp_driver 0 1]
  by (simp add: plain_def)

text \<open>Other ids reach another instance's volume.\<close>

lemma volume_id_reaches_other_instance:
  "publishDir hp_driver ''db'' 0 ''../1/data'' = publishDir hp_driver ''db'' 1 ''data''"
  by (simp add: publishDir_def path_Join_def oakPublishBase_def hp_driver_def Clean_def path_elements_def
      path_rooted_def path_step_def HasPrefix_def Itoa_def utoa.simps digit_char_def Let_def)
     (simp add: char_of_def bit_simps)

section \<open>A staged volume that cannot be published\<close>

text \<open>
  When staging succeeds and publishing fails, the volume is not among the returned ones: what
  the caller unmounts leaves it staged.
\<close>

theorem staged_volume_leaks:
  assumes "reg_Get reg (vol_CSIDriver vol) = Ok plugin" "pl_StageUnstageRequired plugin"
    and "svc_Volumes service = [vol]"
    and "stage_volume ops plugin vol s = (Ok staging, s1)"
    and "no_MkdirAll ops (publishDir (pl_DriverName plugin) (svc_Sname service) (svc_Instance service)
           (vol_VolumeID vol)) s1 = (None, s2)"
    and "\<And>req. no_PublishVolume ops (pl_DriverName plugin) staging req s2 = (Some e, s3)"
  shows "MountVolumes ops reg service s = (([], Some e), s3) \<and>
    UnmountVolumes ops reg (fst (fst (MountVolumes ops reg service s))) s3 = s3"
  using assms by (simp add: MountVolumes_def mountSingle_def Let_def UnmountVolumes_def)

end
