(* ===== verification/Containerd.thy ===== *)
theory Containerd
  imports CsiManager Names GoFloat Stats "HOL-Library.Multiset"
begin

text \<open>
  The container runtime (\<open>virtualization/internal/containerd/ContainersManagement.go\<close>), one
  task at a time: the options a container is created with, GPU selection
  (\<open>model/gpu\<close> included), the start of a container with every early return, its end after an exit
  or a kill, and the report of its resources. What containerd and the file system answer are
  arguments. \<open>ContainerRuntime\<close> models how the tasks interleave.
\<close>

section \<open>GPUs\<close>

definition NvsmiQuery :: "(string list \<Rightarrow> string + string) \<Rightarrow> string \<Rightarrow> string \<Rightarrow> string + string" where
  "NvsmiQuery run gpu query =
     (case run [''--id='' @ gpu, ''--query-gpu='' @ query, ''--format=csv,noheader,nounits''] of
        Err e \<Rightarrow> Err e
      | Ok out \<Rightarrow> Ok (TrimSpace out))"

definition NvsmiDeviceCount :: "(string list \<Rightarrow> string + string) \<Rightarrow> string + nat" where
  "NvsmiDeviceCount run =
     (case run [''--query-gpu=gpu_name'', ''--format=csv,noheader,nounits''] of
        Err e \<Rightarrow> Err e
      | Ok out \<Rightarrow> Ok (length (Split (CHR 0x0A) (TrimSuffix out [CHR 0x0A]))))"

record gpuInfo =
  gpu_index :: nat
  gpu_freeMemory :: int
  gpu_totalMemory :: int

definition query_gpu :: "(string list \<Rightarrow> string + string) \<Rightarrow> nat \<Rightarrow> gpuInfo list" where
  "query_gpu run i =
     (case NvsmiQuery run (Itoa (int i)) ''memory.free'' of
        Err _ \<Rightarrow> []
      | Ok freeMemStr \<Rightarrow>
          (case NvsmiQuery run (Itoa (int i)) ''memory.total'' of
             Err _ \<Rightarrow> []
           | Ok totalMemStr \<Rightarrow>
               (case Atoi freeMemStr of
                  (_, Some _) \<Rightarrow> []
                | (freeMem, None) \<Rightarrow>
                    (case Atoi totalMemStr of
                       (_, Some _) \<Rightarrow> []
                     | (totalMem, None) \<Rightarrow>
                         [\<lparr>gpu_index = i, gpu_freeMemory = freeMem, gpu_totalMemory = totalMem\<rparr>]))))"

text \<open>\<open>sort.Slice\<close> is not stable; \<open>sorter\<close> is any descending sort by free memory.\<close>

definition selectBestGPUs ::
    "(gpuInfo list \<Rightarrow> gpuInfo list) \<Rightarrow> (string list \<Rightarrow> string + string) \<Rightarrow> int \<Rightarrow> string + nat list" where
  "selectBestGPUs sorter run requested =
     (case NvsmiDeviceCount run of
        Err e \<Rightarrow> Err (''failed to query GPU count: '' @ e)
      | Ok totalGPUs \<Rightarrow>
          if totalGPUs = 0 then Err ''no GPUs available''
          else
            let numGPUs = (if requested > int totalGPUs then int totalGPUs else requested);
                gpuList = concat (map (query_gpu run) [0..<totalGPUs])
            in if gpuList = [] then Err ''failed to query memory for any GPU''
               else Ok (map gpu_index (take (nat numGPUs) (sorter gpuList))))"

definition descending_sort :: "(gpuInfo list \<Rightarrow> gpuInfo list) \<Rightarrow> bool" where
  "descending_sort sorter \<longleftrightarrow>
     (\<forall>xs. mset (sorter xs) = mset xs \<and>
       sorted_wrt (\<lambda>a b. gpu_freeMemory b \<le> gpu_freeMemory a) (sorter xs))"

lemma query_gpu_index: "g \<in> set (query_gpu run i) \<Longrightarrow> gpu_index g = i"
  by (auto simp: query_gpu_def split: sum.splits option.splits prod.splits)

lemma length_query_gpu: "length (query_gpu run i) \<le> 1"
  by (auto simp: query_gpu_def split: sum.splits option.splits prod.splits)

lemma gpu_list_indices:
  "distinct (map gpu_index (concat (map (query_gpu run) [0..<n]))) \<and>
   gpu_index ` set (concat (map (query_gpu run) [0..<n])) \<subseteq> {..<n}"
proof (induction n)
  case (Suc n)
  have "distinct (map gpu_index (query_gpu run n))"
    using length_query_gpu [of run n] by (cases "query_gpu run n") auto
  then show ?case using Suc by (fastforce dest: query_gpu_index)
qed simp

text \<open>
  GPU selection returns distinct devices, as many as were requested or can be queried, and
  among those that answer never leaves out a device with more free memory than a selected one.
\<close>

theorem best_gpus_selected:
  assumes "descending_sort sorter" "selectBestGPUs sorter run requested = Ok selected"
    and "NvsmiDeviceCount run = Ok n" "requested \<ge> 0"
    and "answering = concat (map (query_gpu run) [0..<n])"
  shows "distinct selected \<and> set selected \<subseteq> gpu_index ` set answering \<and>
    length selected = min (min (nat requested) n) (length answering) \<and>
    (\<forall>g \<in> set answering. \<forall>g' \<in> set answering.
       gpu_index g \<in> set selected \<longrightarrow> gpu_index g' \<notin> set selected \<longrightarrow>
       gpu_freeMemory g' \<le> gpu_freeMemory g)"
proof -
  define k where "k = nat (if requested > int n then int n else requested)"
  define sorted where "sorted = sorter answering"
  have ms: "mset sorted = mset answering"
    and sw: "sorted_wrt (\<lambda>a b. gpu_freeMemory b \<le> gpu_freeMemory a) sorted"
    using assms(1) by (simp_all add: descending_sort_def sorted_def)
  have set_eq: "set sorted = set answering" using ms by (rule mset_eq_setD)
  have len: "length sorted = length answering" using ms by (rule mset_eq_length)
  have "mset (map gpu_index sorted) = mset (map gpu_index answering)" using ms by simp
  then have dist: "distinct (map gpu_index sorted)"
    using gpu_list_indices [of run n] assms(5) by (metis mset_eq_imp_distinct_iff)
  have sel: "selected = map gpu_index (take k sorted)"
    using assms(2,3,5) by (auto simp: selectBestGPUs_def Let_def k_def sorted_def split: if_splits)
  have k: "k = min (nat requested) n" using assms(4) by (auto simp: k_def)
  have "gpu_freeMemory g' \<le> gpu_freeMemory g"
    if g: "g \<in> set answering" "g' \<in> set answering" "gpu_index g \<in> set selected" "gpu_index g' \<notin> set selected"
    for g g'
  proof -
    have inj: "inj_on gpu_index (set sorted)" using dist by (simp add: distinct_map)
    have "g \<in> set (take k sorted)"
      using g(1,3) inj set_eq by (auto simp: sel dest: inj_onD in_set_takeD)
    moreover have "g' \<in> set (drop k sorted)"
      using g(2,4) set_eq by (metis (no_types) UnE append_take_drop_id image_eqI list.set_map sel set_append)
    ultimately show ?thesis
      using sw by (metis append_take_drop_id sorted_wrt_append)
  qed
  moreover have "distinct selected"
    using dist by (metis distinct_take sel take_map)
  moreover have "set selected \<subseteq> gpu_index ` set answering"
    using set_eq by (auto simp: sel dest: in_set_takeD)
  ultimately show ?thesis using len k by (auto simp: sel)
qed

lemma device_count_positive: "NvsmiDeviceCount run = Ok n \<Longrightarrow> n > 0"
  by (auto simp: NvsmiDeviceCount_def split: sum.splits)


definition gpu_sort :: "gpuInfo list \<Rightarrow> gpuInfo list" where
  "gpu_sort = sort_key (\<lambda>g. - gpu_freeMemory g)"

lemma gpu_sort_descending: "descending_sort gpu_sort"
  using sorted_sort_key [of "\<lambda>g. - gpu_freeMemory g"]
  by (auto simp: descending_sort_def gpu_sort_def sorted_map)

text \<open>Two devices, the second with more free memory.\<close>

definition two_gpus :: "string list \<Rightarrow> string + string" where
  "two_gpus args =
     (if length args = 2 then Ok [CHR ''A'', CHR 0x0A, CHR ''B'']
      else if hd args = ''--id=0'' then Ok ''4'' else Ok ''8'')"

lemma two_gpus_answers:
  "NvsmiDeviceCount two_gpus = Ok 2"
  "query_gpu two_gpus 0 = [\<lparr>gpu_index = 0, gpu_freeMemory = 4, gpu_totalMemory = 4\<rparr>]"
  "query_gpu two_gpus 1 = [\<lparr>gpu_index = 1, gpu_freeMemory = 8, gpu_totalMemory = 8\<rparr>]"
proof -
  have d: "Itoa 0 = ''0''" "Itoa 1 = ''1''" by (code_simp, code_simp)
  have a: "Atoi ''4'' = (4, None)" "Atoi ''8'' = (8, None)" by (code_simp, code_simp)
  have s: "TrimSpace ''4'' = ''4''" "TrimSpace ''8'' = ''8''" by (code_simp, code_simp)
  show "NvsmiDeviceCount two_gpus = Ok 2"
    by (simp add: NvsmiDeviceCount_def two_gpus_def TrimSuffix_def HasSuffix_def)
  show "query_gpu two_gpus 0 = [\<lparr>gpu_index = 0, gpu_freeMemory = 4, gpu_totalMemory = 4\<rparr>]"
    "query_gpu two_gpus 1 = [\<lparr>gpu_index = 1, gpu_freeMemory = 8, gpu_totalMemory = 8\<rparr>]"
    by (simp_all add: query_gpu_def NvsmiQuery_def two_gpus_def d a s)
qed

theorem best_gpus_selected_witness:
  "selectBestGPUs gpu_sort two_gpus 1 = Ok [1] \<and> distinct [1::nat] \<and>
   length [1::nat] = min (min (nat 1) 2) (length (concat (map (query_gpu two_gpus) [0..<2])))"
proof -
  have q: "concat (map (query_gpu two_gpus) [0..<2]) =
      [\<lparr>gpu_index = 0, gpu_freeMemory = 4, gpu_totalMemory = 4\<rparr>,
       \<lparr>gpu_index = 1, gpu_freeMemory = 8, gpu_totalMemory = 8\<rparr>]"
    by (simp add: upt_rec [of 0 2] upt_rec [of 1 2] two_gpus_answers flip: One_nat_def)
  have "selectBestGPUs gpu_sort two_gpus 1 = Ok [1]"
    by (simp add: selectBestGPUs_def two_gpus_answers q gpu_sort_def)
  then show ?thesis
    using best_gpus_selected [OF gpu_sort_descending, of two_gpus 1 "[1]" 2] two_gpus_answers(1) by simp
qed

section \<open>The container's options\<close>

record oci_mount =
  om_Destination :: string
  om_Type :: string
  om_Source :: string
  om_Options :: "string list"

datatype spec_opt =
    WithImageConfig
  | WithHostHostsFile
  | WithHostname string
  | WithEnv "string list"
  | WithDevices string string string
  | WithProcessArgs "string list"
  | WithGPUs "nat list"
  | AppendMounts "oci_mount list"

text \<open>\<open>WithRuncBinary\<close> is containerd's own runc shim (\<open>plugin.RuntimeRuncV2\<close>) with a binary to run.\<close>

datatype container_opt =
    WithRuntime string
  | WithRuncBinary string
  | WithNewSnapshot string
  | WithImage
  | WithNewSpec "spec_opt list"
  | WithLabel string string

definition TASK_ID_LABEL :: string where "TASK_ID_LABEL = ''io.oakestra.taskid''"

definition runtime_opts :: "(string \<Rightarrow> string) \<Rightarrow> Service \<Rightarrow> container_opt list" where
  "runtime_opts lookPath service =
     (if svc_Runtime service \<noteq> CONTAINER_RUNTIME
      then if Contains ''io.containerd'' (svc_Runtime service)
           then [WithRuntime (svc_Runtime service)]
           else [WithRuncBinary (lookPath (svc_Runtime service))]
      else [])"

definition withCustomResolvConf :: "string \<Rightarrow> oci_mount list" where
  "withCustomResolvConf src =
     [\<lparr>om_Destination = ''/etc/resolv.conf'', om_Type = ''bind'', om_Source = src,
       om_Options = [''rbind'', ''ro'']\<rparr>]"

definition withCSIVolumeMounts :: "MountedVolume list \<Rightarrow> oci_mount list" where
  "withCSIVolumeMounts mounts =
     map (\<lambda>mv. \<lparr>om_Destination = (if mv_MountPath mv = [] then ''/mnt/csi/'' @ mv_VolumeID mv
                                 else mv_MountPath mv),
               om_Type = ''bind'', om_Source = mv_TargetPath mv, om_Options = [''rbind'', ''rw'']\<rparr>) mounts"

definition base_spec :: "(int \<Rightarrow> string + nat list) \<Rightarrow> Service \<Rightarrow> spec_opt list" where
  "base_spec selectGPUs service =
     (let hostname = ''instance-'' @ Itoa (sint (svc_Instance service)) in
      [WithImageConfig, WithHostHostsFile, WithHostname hostname,
       WithEnv ((''HOSTNAME='' @ hostname) # svc_Env service)]
      @ (if svc_Privileged service then [WithDevices ''/dev/fuse'' ''/dev/fuse'' ''rwm''] else [])
      @ (if svc_Commands service \<noteq> [] then [WithProcessArgs (svc_Commands service)] else [])
      @ (if sint (svc_Vgpus service) > 0
         then (case selectGPUs (sint (svc_Vgpus service)) of
                 Err _ \<Rightarrow> [WithGPUs [0]]
               | Ok gpuDevices \<Rightarrow> [WithGPUs gpuDevices])
         else []))"

definition container_opts ::
    "(string \<Rightarrow> string) \<Rightarrow> (int \<Rightarrow> string + nat list) \<Rightarrow> Service \<Rightarrow> MountedVolume list \<Rightarrow> string
      \<Rightarrow> container_opt list" where
  "container_opts lookPath selectGPUs service mvs resolvconf =
     (let taskId = Generate (svc_Sname service) (svc_Instance service) in
      runtime_opts lookPath service
      @ [WithNewSnapshot (taskId @ ''-snapshotter''), WithImage,
         WithNewSpec (base_spec selectGPUs service
           @ (if svc_Volumes service \<noteq> [] then [AppendMounts (withCSIVolumeMounts mvs)] else [])
           @ [AppendMounts (withCustomResolvConf resolvconf)]),
         WithLabel TASK_ID_LABEL taskId])"

text \<open>\<open>getResolveConfFile\<close>: \<open>os.Stat\<close>, \<open>os.CreateTemp\<close> and \<open>WriteString\<close> answer.\<close>

record resolv_env =
  rv_Stat :: bool
  rv_CreateTemp :: "string + string"
  rv_WriteString :: "string \<Rightarrow> string option"

definition getResolveConfFile :: "resolv_env \<Rightarrow> string + string" where
  "getResolveConfFile env =
     (if rv_Stat env then Ok ''/run/systemd/resolve/resolv.conf''
      else (case rv_CreateTemp env of
              Err e \<Rightarrow> Err e
            | Ok file \<Rightarrow>
                (case rv_WriteString env (''nameserver 8.8.8.8'' @ [CHR 0x0A]) of
                   Some e \<Rightarrow> Err e
                 | None \<Rightarrow> Ok file)))"

text \<open>
  The runtimes of the containerd configuration: the decoded \<open>plugins\<close> in the order the map is
  ranged over; \<open>None\<close> is the panic of the unchecked type assertion.
\<close>

datatype toml = TomlTable "(string \<times> toml) list" | TomlOther

definition toml_table :: "toml option \<Rightarrow> (string \<times> toml) list option" where
  "toml_table v = (case v of Some (TomlTable t) \<Rightarrow> Some t | _ \<Rightarrow> None)"

fun additional_runtimes :: "toml list \<Rightarrow> string list option" where
  "additional_runtimes [] = Some []"
| "additional_runtimes (ctdPlugin # plugins) =
     (case toml_table (Some ctdPlugin) of
        None \<Rightarrow> None
      | Some plugin \<Rightarrow>
          (case Option.bind (toml_table (map_of plugin ''containerd'')) (\<lambda>inner. toml_table (map_of inner ''runtimes'')) of
             Some runtimes \<Rightarrow> Some (map fst runtimes)
           | None \<Rightarrow> additional_runtimes plugins))"

definition findAdditionalRuntimePluginsAt ::
    "string + string \<Rightarrow> (string \<Rightarrow> string + (string \<times> toml) list) \<Rightarrow> string list option" where
  "findAdditionalRuntimePluginsAt file unmarshal =
     (case file of
        Err _ \<Rightarrow> Some []
      | Ok data \<Rightarrow>
          (case unmarshal data of
             Err _ \<Rightarrow> Some []
           | Ok plugins \<Rightarrow> additional_runtimes (map snd plugins)))"


text \<open>
  A runtime named by a containerd shim is not used as one: only names inside \<open>io.containerd\<close>
  itself, the empty one among them, are passed on; a shim's name is looked up as a program.
\<close>

lemma Contains_length: "Contains s sub \<Longrightarrow> length sub \<le> length s"
proof -
  have "Index s sub = Some i \<Longrightarrow> length sub \<le> length s" for i
    using Index_Some_prefix [of s sub i] by (auto simp: HasPrefix_def) (metis length_drop diff_le_self le_trans length_take min.cobounded1)
  then show "Contains s sub \<Longrightarrow> ?thesis" by (auto simp: Contains_def)
qed

theorem shim_runtime_looked_up:
  "svc_Runtime service = ''io.containerd.'' @ v \<Longrightarrow>
   runtime_opts lookPath service = [WithRuncBinary (lookPath (svc_Runtime service))]"
  using Contains_length [of "''io.containerd''" "svc_Runtime service"]
  by (auto simp: runtime_opts_def CONTAINER_RUNTIME_def)

section \<open>The image\<close>

datatype pull_opt = PullUnpack | PullPlatform string | PlainHTTPResolver

text \<open>
  The image of a deployment, from containerd or pulled; the answer is an error or none. A
  registry that speaks plain HTTP is asked again without TLS.
\<close>

definition fetch_image :: "(string \<Rightarrow> bool) \<Rightarrow> (string \<Rightarrow> pull_opt list \<Rightarrow> string option) \<Rightarrow> Service \<Rightarrow> string option" where
  "fetch_image present pull service =
     (if present (svc_Image service) then None
      else
        (case pull (svc_Image service)
                (PullUnpack # (if svc_Platform service \<noteq> [] then [PullPlatform (svc_Platform service)] else [])) of
           None \<Rightarrow> None
         | Some e \<Rightarrow>
             if Contains e ''http: server gave HTTP response to HTTPS client''
             then pull (svc_Image service) [PullUnpack, PlainHTTPResolver]
             else Some e))"

text \<open>The second pull is the same for every platform the service asks for.\<close>

lemma http_pull_ignores_platform:
  assumes "\<And>opts. PlainHTTPResolver \<notin> set opts \<Longrightarrow>
      pull (svc_Image service) opts = Some ''http: server gave HTTP response to HTTPS client''"
    and "\<not> present (svc_Image service)"
  shows "fetch_image present pull service = pull (svc_Image service) [PullUnpack, PlainHTTPResolver]"
proof -
  have "Contains e e" for e by (cases e) (simp_all add: Contains_def HasPrefix_def)
  with assms show ?thesis by (simp add: fetch_image_def)
qed

section \<open>Containers, tasks and what a task leaves behind\<close>

text \<open>
  containerd's containers with the key of their snapshot, the ids with a task, and the
  snapshots; and what containerd answers while a task is killed or a container removed.
\<close>

record ctd_state =
  cs_containers :: "(string \<times> string) list"
  cs_tasks :: "string list"
  cs_snapshots :: "string list"

record ctd_env =
  cd_LoadProcess :: "string option"
  cd_ProcessDelete :: "string option"
  cd_Info :: bool
  cd_Task :: bool
  cd_SnapshotRemove :: bool
  cd_Delete :: "string option"

definition delete_container :: "ctd_env \<Rightarrow> string \<Rightarrow> ctd_state \<Rightarrow> string option \<times> ctd_state" where
  "delete_container env cid s =
     (case cd_Delete env of
        Some e \<Rightarrow> (Some e, s)
      | None \<Rightarrow> (None, s\<lparr>cs_containers := AList.delete cid (cs_containers s)\<rparr>))"

definition killTask :: "ctd_env \<Rightarrow> string \<Rightarrow> ctd_state \<Rightarrow> string option \<times> ctd_state" where
  "killTask env cid s =
     (case cd_LoadProcess env of
        Some e \<Rightarrow> (Some e, s)
      | None \<Rightarrow>
          (case cd_ProcessDelete env of
             Some e \<Rightarrow> (Some e, s)
           | None \<Rightarrow> (None, snd (delete_container env cid (s\<lparr>cs_tasks := removeAll cid (cs_tasks s)\<rparr>)))))"

definition removeContainer :: "ctd_env \<Rightarrow> string \<Rightarrow> ctd_state \<Rightarrow> string option \<times> ctd_state" where
  "removeContainer env cid s =
     (let snapshot = (if cd_Info env then map_of (cs_containers s) cid else None);
          s1 = (if cd_Task env then snd (killTask env cid s) else s);
          s2 = (case snapshot of
                  None \<Rightarrow> s1
                | Some key \<Rightarrow>
                    if cd_SnapshotRemove env then s1\<lparr>cs_snapshots := removeAll key (cs_snapshots s1)\<rparr> else s1)
      in delete_container env cid s2)"

definition forceContainerCleanup :: "(string \<Rightarrow> ctd_env) \<Rightarrow> ctd_state \<Rightarrow> ctd_state" where
  "forceContainerCleanup env s =
     foldl (\<lambda>s cid. snd (removeContainer (env cid) cid s)) s (map fst (cs_containers s))"

text \<open>Everything a task touches: the CSI plugins, containerd, the networks, the runtime's tables, the reports.\<close>

record 's ctr_world =
  w_csi :: 's
  w_ctd :: ctd_state
  w_networks :: "string list"
  w_killQueue :: "string list"
  w_mountedVolumes :: "(string \<times> MountedVolume list) list"
  w_reports :: "Service list"

record start_env =
  st_lookPath :: "string \<Rightarrow> string"
  st_selectGPUs :: "int \<Rightarrow> string + nat list"
  st_resolv :: resolv_env
  st_NewContainer :: "string \<Rightarrow> container_opt list \<Rightarrow> string option"
  st_OpenFile :: "string option"
  st_NewTask :: "string option"
  st_Wait :: "string option"
  st_Overlay :: bool
  st_Attach :: "string option"
  st_Start :: "string option"
  st_ctd :: ctd_env

definition task_of :: "Service \<Rightarrow> string" where
  "task_of service = Generate (svc_Sname service) (svc_Instance service)"

definition container_of :: "Service \<Rightarrow> string" where
  "container_of service = convertTaskIdToContainerId (task_of service)"

definition dequeue :: "Service \<Rightarrow> 's ctr_world \<Rightarrow> 's ctr_world" where
  "dequeue service w = w\<lparr>w_killQueue := removeAll (task_of service) (w_killQueue w)\<rparr>"

text \<open>The CSI volumes of the service are mounted, or a partial mount undone.\<close>

definition mount_step ::
    "'s csi_node \<Rightarrow> Registry \<Rightarrow> Service \<Rightarrow> 's ctr_world \<Rightarrow> (string + MountedVolume list) \<times> 's ctr_world" where
  "mount_step ops reg service w =
     (if svc_Volumes service = [] then (Ok [], w)
      else
        (case MountVolumes ops reg service (w_csi w) of
           ((mvs, Some e), s) \<Rightarrow> (Err e, w\<lparr>w_csi := UnmountVolumes ops reg mvs s\<rparr>)
         | ((mvs, None), s) \<Rightarrow>
             (Ok mvs, w\<lparr>w_csi := s,
                        w_mountedVolumes := AList.update (task_of service) mvs (w_mountedVolumes w)\<rparr>)))"

definition run_task :: "start_env \<Rightarrow> Service \<Rightarrow> 's ctr_world \<Rightarrow> string option \<times> 's ctr_world" where
  "run_task env service w =
     (case st_Wait env of
        Some e \<Rightarrow> (Some e, w)
      | None \<Rightarrow>
          (case (if st_Overlay env then st_Attach env else None) of
             Some e \<Rightarrow> (Some e, w)
           | None \<Rightarrow>
               let w1 = (if st_Overlay env then w\<lparr>w_networks := task_of service # w_networks w\<rparr> else w)
               in (st_Start env, w1)))"

definition create_container ::
    "start_env \<Rightarrow> Service \<Rightarrow> MountedVolume list \<Rightarrow> string \<Rightarrow> 's ctr_world \<Rightarrow> string option \<times> 's ctr_world" where
  "create_container env service mvs resolvconf w =
     (let cid = container_of service; snapshot = task_of service @ ''-snapshotter'' in
      case st_NewContainer env cid (container_opts (st_lookPath env) (st_selectGPUs env) service mvs resolvconf) of
        Some e \<Rightarrow> (Some e, w)
      | None \<Rightarrow>
          let w1 = w\<lparr>w_ctd := (w_ctd w)\<lparr>cs_containers := (cid, snapshot) # cs_containers (w_ctd w),
                                       cs_snapshots := snapshot # cs_snapshots (w_ctd w)\<rparr>\<rparr>
          in (case st_OpenFile env of
                Some e \<Rightarrow> (Some e, w1)
              | None \<Rightarrow>
                  (case st_NewTask env of
                     Some e \<Rightarrow> (Some e, w1\<lparr>w_ctd := snd (delete_container (st_ctd env) cid (w_ctd w1))\<rparr>)
                   | None \<Rightarrow>
                       let w2 = w1\<lparr>w_ctd := (w_ctd w1)\<lparr>cs_tasks := cid # cs_tasks (w_ctd w1)\<rparr>\<rparr>
                       in (case run_task env service w2 of
                             (Some e, w3) \<Rightarrow> (Some e, w3\<lparr>w_ctd := snd (killTask (st_ctd env) cid (w_ctd w3))\<rparr>)
                           | (None, w3) \<Rightarrow> (None, w3)))))"

text \<open>\<open>containerCreationRoutine\<close> up to \<open>startup <- true\<close>; an error is what \<open>revert\<close> sends.\<close>

definition container_start ::
    "start_env \<Rightarrow> 's csi_node \<Rightarrow> Registry \<Rightarrow> Service \<Rightarrow> 's ctr_world \<Rightarrow> string option \<times> 's ctr_world" where
  "container_start env ops reg service w =
     (case mount_step ops reg service w of
        (Err e, w1) \<Rightarrow> (Some e, dequeue service w1)
      | (Ok mvs, w1) \<Rightarrow>
          (case getResolveConfFile (st_resolv env) of
             Err e \<Rightarrow> (Some e, dequeue service w1)
           | Ok resolvconf \<Rightarrow>
               (case create_container env service mvs resolvconf w1 of
                  (Some e, w2) \<Rightarrow> (Some e, dequeue service w2)
                | (None, w2) \<Rightarrow> (None, w2))))"

text \<open>The end of a running task: an exit with a code, or a kill.\<close>

datatype task_end = Exited nat | Killed

definition end_status :: "Service \<Rightarrow> task_end \<Rightarrow> string" where
  "end_status service e =
     (case e of
        Killed \<Rightarrow> SERVICE_DEAD
      | Exited code \<Rightarrow> if code = 0 \<and> svc_OneShot service then SERVICE_COMPLETED else SERVICE_DEAD)"

definition csi_teardown :: "'s csi_node \<Rightarrow> Registry \<Rightarrow> Service \<Rightarrow> 's ctr_world \<Rightarrow> 's ctr_world" where
  "csi_teardown ops reg service w =
     (case map_of (w_mountedVolumes w) (task_of service) of
        None \<Rightarrow> w
      | Some mvs \<Rightarrow> w\<lparr>w_csi := UnmountVolumes ops reg mvs (w_csi w)\<rparr>)
     \<lparr>w_mountedVolumes := AList.delete (task_of service) (w_mountedVolumes w)\<rparr>"

definition container_finish ::
    "bool \<Rightarrow> bool \<Rightarrow> ctd_env \<Rightarrow> ctd_env \<Rightarrow> 's csi_node \<Rightarrow> Registry \<Rightarrow> Service \<Rightarrow> task_end
      \<Rightarrow> 's ctr_world \<Rightarrow> 's ctr_world" where
  "container_finish overlay detached env kenv ops reg service e w =
     (let cid = container_of service;
          w1 = (if overlay \<and> detached then w\<lparr>w_networks := removeAll (task_of service) (w_networks w)\<rparr> else w);
          w2 = dequeue service w1;
          w3 = w2\<lparr>w_ctd := snd (removeContainer env cid (w_ctd w2))\<rparr>;
          w4 = (case e of Killed \<Rightarrow> w3 | Exited _ \<Rightarrow> csi_teardown ops reg service w3);
          w5 = w4\<lparr>w_reports := w_reports w4 @
                  [service\<lparr>svc_Status := end_status service e, svc_StatusDetail := ''Container is starting up''\<rparr>]\<rparr>
      in w5\<lparr>w_ctd := snd (killTask kenv cid (w_ctd w5))\<rparr>)"


section \<open>What a start and an end leave\<close>

text \<open>containerd answers every removal.\<close>

definition removals_ok :: "ctd_env \<Rightarrow> bool" where
  "removals_ok env \<longleftrightarrow> cd_LoadProcess env = None \<and> cd_ProcessDelete env = None \<and> cd_Info env \<and>
     cd_Task env \<and> cd_SnapshotRemove env \<and> cd_Delete env = None"

definition no_container :: "Service \<Rightarrow> ctd_state \<Rightarrow> bool" where
  "no_container service s \<longleftrightarrow> container_of service \<notin> fst ` set (cs_containers s) \<and>
     container_of service \<notin> set (cs_tasks s) \<and> task_of service @ ''-snapshotter'' \<notin> set (cs_snapshots s)"

lemma killTask_ok:
  "removals_ok env \<Longrightarrow> killTask env cid s =
     (None, s\<lparr>cs_tasks := removeAll cid (cs_tasks s), cs_containers := AList.delete cid (cs_containers s)\<rparr>)"
  by (simp add: removals_ok_def killTask_def delete_container_def)

lemma removeContainer_ok:
  "removals_ok env \<Longrightarrow> removeContainer env cid s =
     (None, s\<lparr>cs_tasks := removeAll cid (cs_tasks s), cs_containers := AList.delete cid (cs_containers s),
              cs_snapshots := (case map_of (cs_containers s) cid of None \<Rightarrow> cs_snapshots s
                                | Some key \<Rightarrow> removeAll key (cs_snapshots s))\<rparr>)"
  by (auto simp: removeContainer_def removals_ok_def killTask_def delete_container_def delete_idem Let_def
      split: option.splits)

text \<open>The steps before the container exists all succeed.\<close>

definition created :: "start_env \<Rightarrow> 's csi_node \<Rightarrow> Registry \<Rightarrow> Service \<Rightarrow> 's ctr_world \<Rightarrow> bool" where
  "created env ops reg service w =
     (case (fst (mount_step ops reg service w), getResolveConfFile (st_resolv env)) of
        (Ok mvs, Ok resolvconf) \<Rightarrow>
          st_NewContainer env (container_of service)
            (container_opts (st_lookPath env) (st_selectGPUs env) service mvs resolvconf) = None
      | _ \<Rightarrow> False)"

lemma mount_step_frame:
  "mount_step ops reg service w = (r, w1) \<Longrightarrow>
   w_ctd w1 = w_ctd w \<and> w_networks w1 = w_networks w \<and> w_killQueue w1 = w_killQueue w \<and>
   w_reports w1 = w_reports w"
  by (auto simp: mount_step_def split: if_splits prod.splits option.splits)

lemma not_in_delete [simp]: "(k, v) \<notin> set (AList.delete k xs)"
  by (simp add: AList.delete_eq)

lemma run_task_failed:
  "run_task env service w = (Some e, w') \<Longrightarrow> task_of service \<notin> set (w_networks w) \<Longrightarrow>
   w_ctd w' = w_ctd w \<and> w_reports w' = w_reports w \<and> w_csi w' = w_csi w \<and>
   w_mountedVolumes w' = w_mountedVolumes w \<and>
   (task_of service \<in> set (w_networks w') \<longleftrightarrow>
      st_Wait env = None \<and> st_Overlay env \<and> st_Attach env = None)"
  by (auto simp: run_task_def Let_def split: option.splits if_splits)

lemma create_failed:
  assumes "create_container env service mvs resolvconf w = (Some e, w')"
    and "removals_ok (st_ctd env)" "no_container service (w_ctd w)" "task_of service \<notin> set (w_networks w)"
  defines "made \<equiv> st_NewContainer env (container_of service)
      (container_opts (st_lookPath env) (st_selectGPUs env) service mvs resolvconf) = None"
  shows "container_of service \<notin> set (cs_tasks (w_ctd w')) \<and> w_reports w' = w_reports w \<and>
    w_csi w' = w_csi w \<and> w_mountedVolumes w' = w_mountedVolumes w \<and>
    (container_of service \<in> fst ` set (cs_containers (w_ctd w')) \<longleftrightarrow> made \<and> st_OpenFile env \<noteq> None) \<and>
    (task_of service \<in> set (w_networks w') \<longleftrightarrow>
       made \<and> st_OpenFile env = None \<and> st_NewTask env = None \<and>
       st_Wait env = None \<and> st_Overlay env \<and> st_Attach env = None)"
proof -
  have D: "cd_Delete (st_ctd env) = None" using assms(2) by (simp add: removals_ok_def)
  show ?thesis
  proof (cases "made \<and> st_OpenFile env = None \<and> st_NewTask env = None")
    case True
    then show ?thesis
      using assms(1-4)
      by (auto simp: create_container_def Let_def made_def killTask_ok
          dest!: run_task_failed split: prod.splits option.splits)
  next
    case False
    then show ?thesis
      using assms(1,3,4)
      by (auto simp: create_container_def Let_def made_def delete_container_def D no_container_def
          split: option.splits)
  qed
qed

text \<open>
  A start that fails takes the task out of the kill queue, leaves no task in containerd and
  reports nothing itself. It leaves the container and its snapshot behind exactly when the log
  file cannot be opened, the network attached exactly when the task itself does not start, and
  the CSI volumes mounted, and still registered, whenever the failure comes after their mount.
\<close>

theorem failed_start_residue:
  assumes "container_start env ops reg service w = (Some e, w')"
    and "removals_ok (st_ctd env)" "no_container service (w_ctd w)" "task_of service \<notin> set (w_networks w)"
  shows "task_of service \<notin> set (w_killQueue w') \<and> container_of service \<notin> set (cs_tasks (w_ctd w')) \<and>
    w_reports w' = w_reports w \<and>
    (container_of service \<in> fst ` set (cs_containers (w_ctd w')) \<longleftrightarrow>
       created env ops reg service w \<and> st_OpenFile env \<noteq> None) \<and>
    (task_of service \<in> set (w_networks w') \<longleftrightarrow>
       created env ops reg service w \<and> st_OpenFile env = None \<and> st_NewTask env = None \<and>
       st_Wait env = None \<and> st_Overlay env \<and> st_Attach env = None) \<and>
    w_csi w' = w_csi (snd (mount_step ops reg service w)) \<and>
    w_mountedVolumes w' = w_mountedVolumes (snd (mount_step ops reg service w))"
proof -
  obtain r w1 where 1: "mount_step ops reg service w = (r, w1)" by fastforce
  show ?thesis
  proof (cases "\<exists>mvs resolvconf. r = Ok mvs \<and> getResolveConfFile (st_resolv env) = Ok resolvconf")
    case True
    then obtain mvs resolvconf where 2: "r = Ok mvs" "getResolveConfFile (st_resolv env) = Ok resolvconf"
      by auto
    obtain w2 where 3: "create_container env service mvs resolvconf w1 = (Some e, w2)"
      and 4: "w' = dequeue service w2"
      using assms(1) by (auto simp: container_start_def 1 2 split: prod.splits option.splits)
    show ?thesis
      using create_failed [OF 3] assms(2-4) mount_step_frame [OF 1]
      by (simp add: 1 2 4 created_def dequeue_def)
  next
    case False
    then show ?thesis
      using assms mount_step_frame [OF 1]
      by (auto simp: container_start_def 1 created_def dequeue_def no_container_def
          split: sum.splits)
  qed
qed

definition quiet_ops :: "unit csi_node" where
  "quiet_ops = \<lparr>no_MkdirAll = (\<lambda>_ s. (None, s)), no_Remove = (\<lambda>_ s. s),
     no_StageVolume = (\<lambda>_ _ s. (None, s)), no_PublishVolume = (\<lambda>_ _ _ s. (None, s)),
     no_UnpublishVolume = (\<lambda>_ _ _ s. (None, s)), no_UnstageVolume = (\<lambda>_ _ _ s. (None, s))\<rparr>"

definition quiet_ctd :: ctd_env where
  "quiet_ctd = \<lparr>cd_LoadProcess = None, cd_ProcessDelete = None, cd_Info = True, cd_Task = True,
     cd_SnapshotRemove = True, cd_Delete = None\<rparr>"

definition quiet_start :: "string option \<Rightarrow> start_env" where
  "quiet_start start_error = \<lparr>st_lookPath = (\<lambda>_. []), st_selectGPUs = (\<lambda>_. Ok []),
     st_resolv = \<lparr>rv_Stat = True, rv_CreateTemp = Err [], rv_WriteString = (\<lambda>_. None)\<rparr>,
     st_NewContainer = (\<lambda>_ _. None), st_OpenFile = None, st_NewTask = None, st_Wait = None,
     st_Overlay = True, st_Attach = None, st_Start = start_error, st_ctd = quiet_ctd\<rparr>"

definition empty_world :: "unit ctr_world" where
  "empty_world = \<lparr>w_csi = (), w_ctd = \<lparr>cs_containers = [], cs_tasks = [], cs_snapshots = []\<rparr>,
     w_networks = [], w_killQueue = [task_of vol_service], w_mountedVolumes = [], w_reports = []\<rparr>"

definition test_registry :: Registry where
  "test_registry = [(hp_driver, hp_plugin)]"

definition test_mounted :: MountedVolume where
  "test_mounted = \<lparr>mv_VolumeID = ''data'', mv_DriverName = hp_driver, mv_StagingPath = [],
     mv_TargetPath = publishDir hp_driver ''db'' 0 ''data'', mv_MountPath = ''/data''\<rparr>"

lemma test_mount: "MountVolumes quiet_ops test_registry vol_service () = (([test_mounted], None), ())"
  by (simp add: MountVolumes_def mountSingle_def stage_volume_def vol_service_def reg_Get_def test_registry_def
      hp_plugin_def quiet_ops_def test_mounted_def zero_Service_def Let_def)

lemma test_volumes: "svc_Volumes vol_service \<noteq> []"
  by (simp add: vol_service_def)

lemma quiet_ok: "removals_ok quiet_ctd" "no_container service (w_ctd empty_world)"
  "task_of service \<notin> set (w_networks empty_world)"
  by (simp_all add: removals_ok_def quiet_ctd_def no_container_def empty_world_def)

lemma test_start:
  "fst (container_start (quiet_start err) quiet_ops test_registry vol_service empty_world) = err"
  "created (quiet_start err) quiet_ops test_registry vol_service empty_world"
  using test_mount test_volumes
  by (auto simp: container_start_def created_def mount_step_def create_container_def run_task_def
      quiet_start_def getResolveConfFile_def Let_def empty_world_def split: option.split)

theorem failed_start_residue_witness:
  "fst (container_start (quiet_start (Some ''e'')) quiet_ops test_registry vol_service empty_world) = Some ''e'' \<and>
   task_of vol_service \<in> set (w_networks (snd
     (container_start (quiet_start (Some ''e'')) quiet_ops test_registry vol_service empty_world)))"
proof -
  obtain w' where 1: "container_start (quiet_start (Some ''e'')) quiet_ops test_registry vol_service empty_world
      = (Some ''e'', w')"
    using test_start(1) [of "Some ''e''"] by (metis prod.collapse)
  have "st_ctd (quiet_start (Some ''e'')) = quiet_ctd" by (simp add: quiet_start_def)
  then show ?thesis
    using failed_start_residue [OF 1] quiet_ok test_start(2) [of "Some ''e''"]
    by (simp add: 1) (simp add: quiet_start_def)
qed

lemma finish_fields:
  assumes "removals_ok renv" "removals_ok kenv"
    and "w' = container_finish overlay True renv kenv ops reg service e w"
  shows "w_ctd w' = (w_ctd w)\<lparr>
      cs_containers := AList.delete (container_of service) (cs_containers (w_ctd w)),
      cs_tasks := removeAll (container_of service) (cs_tasks (w_ctd w)),
      cs_snapshots := (case map_of (cs_containers (w_ctd w)) (container_of service) of
                         None \<Rightarrow> cs_snapshots (w_ctd w)
                       | Some key \<Rightarrow> removeAll key (cs_snapshots (w_ctd w)))\<rparr>"
    and "w_networks w' = (if overlay then removeAll (task_of service) (w_networks w) else w_networks w)"
    and "w_killQueue w' = removeAll (task_of service) (w_killQueue w)"
    and "map svc_Status (w_reports w') = map svc_Status (w_reports w) @ [end_status service e]"
    and "w_csi w' = (case e of Killed \<Rightarrow> w_csi w | Exited _ \<Rightarrow>
      (case map_of (w_mountedVolumes w) (task_of service) of
         None \<Rightarrow> w_csi w | Some mvs \<Rightarrow> UnmountVolumes ops reg mvs (w_csi w)))"
    and "w_mountedVolumes w' = (case e of Killed \<Rightarrow> w_mountedVolumes w
      | Exited _ \<Rightarrow> AList.delete (task_of service) (w_mountedVolumes w))"
  by (simp_all add: assms container_finish_def removeContainer_ok killTask_ok csi_teardown_def
      dequeue_def Let_def delete_idem split: task_end.split option.split)



section \<open>The resource report\<close>

datatype process_status = PsRunning | PsCreated | PsStopped | PsPaused | PsPausing | PsOther string

definition taskStatus :: "string + process_status \<times> nat \<Rightarrow> string" where
  "taskStatus status =
     (case status of
        Err _ \<Rightarrow> SERVICE_UNKNOWN
      | Ok (PsRunning, _) \<Rightarrow> SERVICE_RUNNING
      | Ok (PsCreated, _) \<Rightarrow> SERVICE_CREATED
      | Ok (PsStopped, exit) \<Rightarrow> if exit \<noteq> 0 then SERVICE_FAILED else SERVICE_DEAD
      | Ok (PsPaused, _) \<Rightarrow> SERVICE_FAILED
      | Ok (PsPausing, _) \<Rightarrow> SERVICE_FAILED
      | Ok (PsOther _, _) \<Rightarrow> SERVICE_UNKNOWN)"

fun sum_percent :: "f64 \<Rightarrow> (string + f64) list \<Rightarrow> string + f64" where
  "sum_percent totCpu [] = Ok totCpu"
| "sum_percent totCpu (Err e # children) = Err e"
| "sum_percent totCpu (Ok cpuUsage # children) = sum_percent (f64_add totCpu cpuUsage) children"

text \<open>The children of a process with what \<open>CPUPercent\<close> answers for each.\<close>

definition getTotalCpuUsageByPid :: "go_int \<Rightarrow> string + (string + (string + f64) list) \<Rightarrow> string + f64" where
  "getTotalCpuUsageByPid cpuCores proc =
     (case proc of
        Err e \<Rightarrow> Err e
      | Ok (Err e) \<Rightarrow> Err e
      | Ok (Ok children) \<Rightarrow>
          (case sum_percent (f64_of_int 0) children of
             Err e \<Rightarrow> Err e
           | Ok totCpu \<Rightarrow> Ok (f64_div totCpu (f64_of_int (sint cpuCores)))))"

definition getContainerMemoryUsage ::
    "string + u64 \<Rightarrow> string + u64 \<Rightarrow> string + f64 \<Rightarrow> go_int \<Rightarrow> string + f64" where
  "getContainerMemoryUsage v1 v2 pid_memory memoryMB =
     (case (case v1 of Ok mem \<Rightarrow> Ok mem | Err _ \<Rightarrow> v2) of
        Err _ \<Rightarrow> (case pid_memory of Err e \<Rightarrow> Err e | Ok m \<Rightarrow> Ok m)
      | Ok mem \<Rightarrow>
          if memoryMB = 0 then Ok (f64_of_int 100)
          else Ok (f64_div (f64_of_int (uint mem)) (f64_of_int (sint (memoryMB * 1024 * 1024)))))"

text \<open>\<open>logutils.GetLogs\<close>: the last bytes of the task's log file, if it can be opened and its size read.\<close>

definition LOG_SIZE :: nat where
  "LOG_SIZE = 1024"

definition GetLogs :: "string option \<Rightarrow> bool \<Rightarrow> string" where
  "GetLogs file stat_ok =
     (case file of
        None \<Rightarrow> []
      | Some content \<Rightarrow>
          if \<not> stat_ok then []
          else let start = (if length content < LOG_SIZE then 0 else length content - LOG_SIZE)
               in take LOG_SIZE (drop start content))"

text \<open>What the report asks about one container; \<open>ci_Age_small\<close>: created less than ten seconds ago.\<close>

record container_info =
  ci_id :: string
  ci_Task :: bool
  ci_Age_small :: "bool option"
  ci_cpu :: "string + (string + (string + f64) list)"
  ci_pid_cpu :: "string + f64"
  ci_mem_v1 :: "string + u64"
  ci_mem_v2 :: "string + u64"
  ci_pid_mem :: "string + f64"
  ci_Labels :: "(string \<times> string) list option"
  ci_usage_Size :: go_int
  ci_Status :: "string + process_status \<times> nat"
  ci_ctd :: ctd_env

definition container_cpu :: "go_int \<Rightarrow> container_info \<Rightarrow> f64 option" where
  "container_cpu cpuCores c =
     (case getTotalCpuUsageByPid cpuCores (ci_cpu c) of
        Ok cpu \<Rightarrow> Some cpu
      | Err _ \<Rightarrow>
          (case ci_pid_cpu c of
             Err _ \<Rightarrow> None
           | Ok cpu \<Rightarrow> Some (f64_div cpu (f64_of_int (sint cpuCores)))))"

definition monitor_container ::
    "(f64 \<Rightarrow> string) \<Rightarrow> (string \<Rightarrow> string) \<Rightarrow> go_int \<Rightarrow> go_int \<Rightarrow> container_info \<Rightarrow> ctd_state
      \<Rightarrow> Resources list \<times> ctd_state" where
  "monitor_container fmt logs cpuCores memoryMB c s =
     (if \<not> ci_Task c
      then (case ci_Age_small c of
              None \<Rightarrow> ([], s)
            | Some young \<Rightarrow> if young then ([], s) else ([], snd (removeContainer (ci_ctd c) (ci_id c) s)))
      else
        (case container_cpu cpuCores c of
           None \<Rightarrow> ([], s)
         | Some cpuUsage \<Rightarrow>
             let memUsage = (case getContainerMemoryUsage (ci_mem_v1 c) (ci_mem_v2 c) (ci_pid_mem c) memoryMB of
                               Err _ \<Rightarrow> f64_of_int 0 | Ok m \<Rightarrow> m)
             in (case Option.bind (ci_Labels c) (\<lambda>labels. map_of labels TASK_ID_LABEL) of
                   None \<Rightarrow> ([], s)
                 | Some taskId \<Rightarrow>
                     ([\<lparr>res_Cpu = fmt cpuUsage, res_Memory = fmt memUsage,
                        res_Disk = Itoa (sint (ci_usage_Size c)), res_Logs = logs taskId,
                        res_Sname = ExtractServiceName taskId, res_Runtime = CONTAINER_RUNTIME,
                        res_Instance = ExtractInstanceNumber taskId, res_Status = taskStatus (ci_Status c)\<rparr>], s))))"

primrec monitor_containers ::
    "(f64 \<Rightarrow> string) \<Rightarrow> (string \<Rightarrow> string) \<Rightarrow> go_int \<Rightarrow> go_int \<Rightarrow> container_info list \<Rightarrow> ctd_state
      \<Rightarrow> Resources list \<times> ctd_state" where
  "monitor_containers fmt logs cpuCores memoryMB [] s = ([], s)"
| "monitor_containers fmt logs cpuCores memoryMB (c # cs) s =
     (case monitor_container fmt logs cpuCores memoryMB c s of
        (r, s1) \<Rightarrow> (case monitor_containers fmt logs cpuCores memoryMB cs s1 of (rs, s2) \<Rightarrow> (r @ rs, s2)))"

text \<open>One tick of \<open>ResourceMonitoring\<close>: the report and containerd afterwards.\<close>

definition ResourceMonitoring_tick ::
    "(f64 \<Rightarrow> string) \<Rightarrow> (string \<Rightarrow> string) \<Rightarrow> go_int \<Rightarrow> go_int \<Rightarrow> container_info list \<Rightarrow> instantiating
      \<Rightarrow> ctd_state \<Rightarrow> Resources list \<times> ctd_state" where
  "ResourceMonitoring_tick fmt logs cpuCores memoryMB cs registry s =
     (case monitor_containers fmt logs cpuCores memoryMB cs s of
        (rs, s') \<Rightarrow> (rs @ InstantiatingResources CONTAINER_RUNTIME registry, s'))"

end
