(* ===== verification/ContainerRuntime.thy ===== *)
theory ContainerRuntime
  imports Containerd
begin

text \<open>
  How the tasks of the container runtime interleave
  (\<open>virtualization/internal/containerd/ContainersManagement.go\<close>): \<open>Deploy\<close> starts one goroutine
  per task with a kill channel of capacity one, filed in \<open>killQueue\<close>; \<open>Undeploy\<close> sends on that
  channel; the goroutine creates the container, waits for its end or a kill, and cleans up. Each
  event is one step between two synchronisations of the code. A goroutine's channel has the
  goroutine's number. containerd knows one task per container id, whoever created it.
\<close>

section \<open>Goroutines and steps\<close>

datatype phase =
    GStarting
  | GPrepared
  | GRunning
  | GEnded task_end
  | GUnqueued task_end
  | GRemoved task_end
  | GReported
  | GReverting bool
  | GReverted bool
  | GFinished bool

record rt_state =
  rs_gs :: "(Service \<times> phase) list"
  rs_killQueue :: "string \<rightharpoonup> nat"
  rs_tokens :: "nat set"
  rs_blocked :: "nat list"
  rs_owner :: "string \<rightharpoonup> nat"
  rs_reports :: "(nat \<times> string) list"
  rs_replies :: "(nat \<times> bool) list"

datatype rt_event =
    EvDeploy Service
  | EvUndeploy string go_int
  | EvSend nat
  | EvCreate nat
  | EvCreateFail nat
  | EvStart nat
  | EvStartFail nat
  | EvRevert nat
  | EvExit nat nat
  | EvKill nat
  | EvUnqueue nat
  | EvRemove nat
  | EvReport nat
  | EvCleanup nat

definition rs_init :: rt_state where
  "rs_init = \<lparr>rs_gs = [], rs_killQueue = Map.empty, rs_tokens = {}, rs_blocked = [],
     rs_owner = Map.empty, rs_reports = [], rs_replies = []\<rparr>"

definition phase_of :: "rt_state \<Rightarrow> nat \<Rightarrow> phase" where
  "phase_of s g = (if g < length (rs_gs s) then snd (rs_gs s ! g) else GFinished False)"

definition task_id :: "rt_state \<Rightarrow> nat \<Rightarrow> string" where
  "task_id s g = task_of (fst (rs_gs s ! g))"

definition set_phase :: "nat \<Rightarrow> phase \<Rightarrow> rt_state \<Rightarrow> rt_state" where
  "set_phase g p s = s\<lparr>rs_gs := (rs_gs s)[g := (fst (rs_gs s ! g), p)]\<rparr>"

definition drop_queue :: "nat \<Rightarrow> rt_state \<Rightarrow> rt_state" where
  "drop_queue g s = s\<lparr>rs_killQueue := (rs_killQueue s)(task_id s g := None)\<rparr>"

definition drop_task :: "nat \<Rightarrow> rt_state \<Rightarrow> rt_state" where
  "drop_task g s = s\<lparr>rs_owner := (rs_owner s)(task_id s g := None)\<rparr>"

text \<open>\<open>Deploy\<close> after the image is there: the error of a task that is already deployed, or a new goroutine.\<close>

definition rt_Deploy :: "Service \<Rightarrow> rt_state \<Rightarrow> string option \<times> rt_state" where
  "rt_Deploy service s =
     (if rs_killQueue s (task_of service) \<noteq> None then (Some ''task already deployed'', s)
      else (None, s\<lparr>rs_gs := rs_gs s @ [(service, GStarting)],
                    rs_killQueue := (rs_killQueue s)(task_of service \<mapsto> length (rs_gs s))\<rparr>))"

text \<open>\<open>Undeploy\<close>: an error, or a send on the task's channel that waits for room in it.\<close>

definition rt_Undeploy :: "string \<Rightarrow> go_int \<Rightarrow> rt_state \<Rightarrow> string option \<times> rt_state" where
  "rt_Undeploy service inst s =
     (case rs_killQueue s (Generate service inst) of
        None \<Rightarrow> (Some ''service not found'', s)
      | Some g \<Rightarrow> (None, s\<lparr>rs_blocked := g # rs_blocked s\<rparr>))"

fun rt_exec :: "rt_event \<Rightarrow> rt_state \<Rightarrow> rt_state option" where
  "rt_exec (EvDeploy service) s = Some (snd (rt_Deploy service s))"
| "rt_exec (EvUndeploy service inst) s = Some (snd (rt_Undeploy service inst s))"
| "rt_exec (EvSend g) s =
     (if g \<in> set (rs_blocked s) \<and> g \<notin> rs_tokens s
      then Some (s\<lparr>rs_blocked := remove1 g (rs_blocked s), rs_tokens := insert g (rs_tokens s)\<rparr>) else None)"
| "rt_exec (EvCreate g) s =
     (if phase_of s g = GStarting \<and> rs_owner s (task_id s g) = None
      then Some (set_phase g GPrepared (s\<lparr>rs_owner := (rs_owner s)(task_id s g \<mapsto> g)\<rparr>)) else None)"
| "rt_exec (EvCreateFail g) s =
     (if phase_of s g = GStarting
      then Some (set_phase g (GReverting False) (s\<lparr>rs_replies := (g, False) # rs_replies s\<rparr>)) else None)"
| "rt_exec (EvStart g) s =
     (if phase_of s g = GPrepared
      then Some (set_phase g GRunning (s\<lparr>rs_replies := (g, True) # rs_replies s\<rparr>)) else None)"
| "rt_exec (EvStartFail g) s =
     (if phase_of s g = GPrepared
      then Some (set_phase g (GReverting True) (s\<lparr>rs_replies := (g, False) # rs_replies s\<rparr>)) else None)"
| "rt_exec (EvRevert g) s =
     (case phase_of s g of
        GReverting made \<Rightarrow> Some (set_phase g (GReverted made) (drop_queue g s))
      | _ \<Rightarrow> None)"
| "rt_exec (EvExit g code) s =
     (if phase_of s g = GRunning then Some (set_phase g (GEnded (Exited code)) s) else None)"
| "rt_exec (EvKill g) s =
     (if phase_of s g = GRunning \<and> g \<in> rs_tokens s
      then Some (set_phase g (GEnded Killed) (s\<lparr>rs_tokens := rs_tokens s - {g}\<rparr>)) else None)"
| "rt_exec (EvUnqueue g) s =
     (case phase_of s g of
        GEnded e \<Rightarrow> Some (set_phase g (GUnqueued e) (drop_queue g s))
      | _ \<Rightarrow> None)"
| "rt_exec (EvRemove g) s =
     (case phase_of s g of
        GUnqueued e \<Rightarrow> Some (set_phase g (GRemoved e) (drop_task g s))
      | _ \<Rightarrow> None)"
| "rt_exec (EvReport g) s =
     (case phase_of s g of
        GRemoved e \<Rightarrow> Some (set_phase g GReported
          (s\<lparr>rs_reports := (g, end_status (fst (rs_gs s ! g)) e) # rs_reports s\<rparr>))
      | _ \<Rightarrow> None)"
| "rt_exec (EvCleanup g) s =
     (case phase_of s g of
        GReported \<Rightarrow> Some (set_phase g (GFinished True) (drop_task g s))
      | GReverted made \<Rightarrow>
          Some (set_phase g (GFinished False) (if made then drop_task g s else s))
      | _ \<Rightarrow> None)"

primrec rt_run :: "rt_event list \<Rightarrow> rt_state \<Rightarrow> rt_state option" where
  "rt_run [] s = Some s"
| "rt_run (e # es) s = Option.bind (rt_exec e s) (rt_run es)"

text \<open>\<open>Stop\<close> calls \<open>Undeploy\<close> for the ids it found in the kill queue.\<close>

definition rt_Stop :: "string list \<Rightarrow> rt_state \<Rightarrow> rt_state" where
  "rt_Stop taskIDs s =
     foldl (\<lambda>s taskId. snd (rt_Undeploy (ExtractServiceName taskId) (ExtractInstanceNumber taskId) s)) s taskIDs"

inductive reachable :: "rt_state \<Rightarrow> bool" where
  init: "reachable rs_init"
| step: "reachable s \<Longrightarrow> rt_exec e s = Some s' \<Longrightarrow> reachable s'"

section \<open>The kill queue lists the live tasks\<close>

fun queued :: "phase \<Rightarrow> bool" where
  "queued GStarting = True"
| "queued GPrepared = True"
| "queued GRunning = True"
| "queued (GEnded _) = True"
| "queued (GReverting _) = True"
| "queued _ = False"

definition queue_exact :: "rt_state \<Rightarrow> bool" where
  "queue_exact s \<longleftrightarrow>
     (\<forall>t g. rs_killQueue s t = Some g \<longleftrightarrow> g < length (rs_gs s) \<and> task_id s g = t \<and> queued (phase_of s g))"

fun reported :: "phase \<Rightarrow> bool" where
  "reported GReported = True"
| "reported (GFinished b) = b"
| "reported _ = False"

fun replied :: "phase \<Rightarrow> bool" where
  "replied GStarting = False"
| "replied GPrepared = False"
| "replied _ = True"

text \<open>Every goroutine has answered its \<open>Deploy\<close> and reported its end once, at its time.\<close>

definition signals_once :: "rt_state \<Rightarrow> bool" where
  "signals_once s \<longleftrightarrow>
     (\<forall>g. count_list (map fst (rs_reports s)) g = (if reported (phase_of s g) then 1 else 0)) \<and>
     (\<forall>g. count_list (map fst (rs_replies s)) g =
        (if g < length (rs_gs s) \<and> replied (phase_of s g) then 1 else 0))"

lemma phase_of_set [simp]:
  "phase_of (set_phase g p s) g' = (if g' = g \<and> g < length (rs_gs s) then p else phase_of s g')"
  by (auto simp: phase_of_def set_phase_def)

lemma fst_nth_update: "fst (xs[g := (fst (xs ! g), p)] ! g') = fst (xs ! g')"
  by (cases "g < length xs") (auto simp: nth_list_update list_update_beyond not_less)

lemma set_phase_simps [simp]:
  "length (rs_gs (set_phase g p s)) = length (rs_gs s)"
  "task_id (set_phase g p s) g' = task_id s g'"
  "rs_killQueue (set_phase g p s) = rs_killQueue s"
  "rs_tokens (set_phase g p s) = rs_tokens s"
  "rs_blocked (set_phase g p s) = rs_blocked s"
  "rs_owner (set_phase g p s) = rs_owner s"
  "rs_reports (set_phase g p s) = rs_reports s"
  "rs_replies (set_phase g p s) = rs_replies s"
  by (simp_all add: task_id_def set_phase_def fst_nth_update)

lemma drop_simps [simp]:
  "rs_gs (drop_queue g s) = rs_gs s" "phase_of (drop_queue g s) = phase_of s" "task_id (drop_queue g s) = task_id s"
  "rs_gs (drop_task g s) = rs_gs s" "phase_of (drop_task g s) = phase_of s" "task_id (drop_task g s) = task_id s"
  "rs_killQueue (drop_queue g s) = (rs_killQueue s)(task_id s g := None)"
  "rs_killQueue (drop_task g s) = rs_killQueue s"
  "rs_reports (drop_queue g s) = rs_reports s" "rs_reports (drop_task g s) = rs_reports s"
  "rs_replies (drop_queue g s) = rs_replies s" "rs_replies (drop_task g s) = rs_replies s"
  "rs_tokens (drop_queue g s) = rs_tokens s" "rs_tokens (drop_task g s) = rs_tokens s"
  "rs_blocked (drop_queue g s) = rs_blocked s" "rs_blocked (drop_task g s) = rs_blocked s"
  by (auto simp: drop_queue_def drop_task_def phase_of_def task_id_def fun_eq_iff)

lemma update_simps [simp]:
  "phase_of (s\<lparr>rs_tokens := x1\<rparr>) = phase_of s" "phase_of (s\<lparr>rs_blocked := x2\<rparr>) = phase_of s"
  "phase_of (s\<lparr>rs_owner := x3\<rparr>) = phase_of s" "phase_of (s\<lparr>rs_reports := x4\<rparr>) = phase_of s"
  "phase_of (s\<lparr>rs_replies := x5\<rparr>) = phase_of s"
  "task_id (s\<lparr>rs_tokens := x1\<rparr>) = task_id s" "task_id (s\<lparr>rs_blocked := x2\<rparr>) = task_id s"
  "task_id (s\<lparr>rs_owner := x3\<rparr>) = task_id s" "task_id (s\<lparr>rs_reports := x4\<rparr>) = task_id s"
  "task_id (s\<lparr>rs_replies := x5\<rparr>) = task_id s"
  by (auto simp: phase_of_def task_id_def fun_eq_iff)

lemma active_bound: "phase_of s g \<noteq> GFinished False \<Longrightarrow> g < length (rs_gs s)"
  by (simp add: phase_of_def split: if_splits)


text \<open>A goroutine that moves between queued phases, or leaves the queue when it is taken out.\<close>

lemma queue_exact_move:
  "queue_exact s \<Longrightarrow> queued (phase_of s g) = queued p \<Longrightarrow> queue_exact (set_phase g p s)"
  unfolding queue_exact_def by (auto simp: active_bound)

lemma queue_exact_unique:
  "queue_exact s \<Longrightarrow> g < length (rs_gs s) \<Longrightarrow> g' < length (rs_gs s) \<Longrightarrow> task_id s g = task_id s g' \<Longrightarrow>
   queued (phase_of s g) \<Longrightarrow> queued (phase_of s g') \<Longrightarrow> g = g'"
  unfolding queue_exact_def by (metis option.inject)

lemma queue_exact_drop:
  assumes "queue_exact s" "queued (phase_of s g)" "\<not> queued p"
  shows "queue_exact (set_phase g p (drop_queue g s))"
proof -
  have g: "g < length (rs_gs s)" using assms(2) by (intro active_bound) auto
  have "\<forall>g'. g' < length (rs_gs s) \<and> task_id s g' = task_id s g \<and> queued (phase_of s g') \<longrightarrow> g' = g"
    using queue_exact_unique [OF assms(1)] g assms(2) by metis
  then show ?thesis
    using assms g unfolding queue_exact_def by auto
qed

lemma Deploy_gs:
  assumes "rt_Deploy service s = (r, s')"
  shows "(r \<noteq> None \<and> s' = s) \<or>
    (r = None \<and> rs_killQueue s (task_of service) = None \<and>
     s' = s\<lparr>rs_gs := rs_gs s @ [(service, GStarting)],
            rs_killQueue := (rs_killQueue s)(task_of service \<mapsto> length (rs_gs s))\<rparr>)"
  using assms by (auto simp: rt_Deploy_def split: if_splits)

lemma phase_of_append:
  "phase_of (s\<lparr>rs_gs := rs_gs s @ [(v, p)], rs_killQueue := q\<rparr>) g =
     (if g = length (rs_gs s) then p else phase_of s g)"
  "g < length (rs_gs s) \<Longrightarrow> task_id (s\<lparr>rs_gs := rs_gs s @ [(v, p)], rs_killQueue := q\<rparr>) g = task_id s g"
  "task_id (s\<lparr>rs_gs := rs_gs s @ [(v, p)], rs_killQueue := q\<rparr>) (length (rs_gs s)) = task_of v"
  by (auto simp: phase_of_def task_id_def nth_append)

lemma queue_exact_Deploy:
  assumes "queue_exact s"
  shows "queue_exact (snd (rt_Deploy service s))"
proof (cases "rs_killQueue s (task_of service)")
  case None
  then have "g < length (rs_gs s) \<Longrightarrow> queued (phase_of s g) \<Longrightarrow> task_id s g \<noteq> task_of service" for g
    using assms unfolding queue_exact_def by (metis option.distinct(1))
  then show ?thesis
    using assms None unfolding queue_exact_def
    by (auto simp: rt_Deploy_def phase_of_append less_Suc_eq)
qed (simp add: rt_Deploy_def assms)

lemma queue_exact_exec:
  assumes "queue_exact s" "rt_exec e s = Some s'"
  shows "queue_exact s'"
proof -
  have other: "queue_exact (s\<lparr>rs_tokens := x1\<rparr>)" "queue_exact (s\<lparr>rs_blocked := x2\<rparr>)"
    "queue_exact (s\<lparr>rs_owner := x3\<rparr>)" "queue_exact (s\<lparr>rs_reports := x4\<rparr>)"
    "queue_exact (s\<lparr>rs_replies := x5\<rparr>)" "queue_exact (s\<lparr>rs_blocked := x2, rs_tokens := x1\<rparr>)"
    "queue_exact (drop_task g s)" for x1 x2 x3 x4 x5 g
    using assms(1) by (simp_all add: queue_exact_def)
  have drop: "phase_of s g = q \<Longrightarrow> queued q \<Longrightarrow> \<not> queued p \<Longrightarrow> queue_exact (set_phase g p (drop_queue g s))"
    for g p q using queue_exact_drop [OF assms(1)] by simp
  show ?thesis
    using assms
    by (cases e)
       (auto simp: other queue_exact_Deploy rt_Undeploy_def drop queue_exact_move
        split: if_splits phase.splits option.splits)
qed

text \<open>The signals of a goroutine that gives none, answers, or reports.\<close>

lemma signals_move:
  "signals_once s \<Longrightarrow> reported (phase_of s g) = reported p \<Longrightarrow> replied (phase_of s g) = replied p \<Longrightarrow>
   signals_once (set_phase g p s)"
  unfolding signals_once_def by auto

lemma signals_reply:
  "signals_once s \<Longrightarrow> reported (phase_of s g) = reported p \<Longrightarrow> \<not> replied (phase_of s g) \<Longrightarrow> replied p \<Longrightarrow>
   signals_once (set_phase g p (s\<lparr>rs_replies := (g, b) # rs_replies s\<rparr>))"
  using active_bound [of s g] unfolding signals_once_def by (cases "phase_of s g = GFinished False") auto

lemma signals_report:
  "signals_once s \<Longrightarrow> \<not> reported (phase_of s g) \<Longrightarrow> reported p \<Longrightarrow> replied (phase_of s g) \<Longrightarrow> replied p \<Longrightarrow>
   g < length (rs_gs s) \<Longrightarrow>
   signals_once (set_phase g p (s\<lparr>rs_reports := (g, b) # rs_reports s\<rparr>))"
  unfolding signals_once_def by auto

lemma signals_Deploy:
  assumes "signals_once s"
  shows "signals_once (snd (rt_Deploy service s))"
proof (cases "rs_killQueue s (task_of service)")
  case None
  have "\<not> reported (phase_of s (length (rs_gs s)))" by (simp add: phase_of_def)
  then show ?thesis
    using assms None unfolding signals_once_def by (auto simp: rt_Deploy_def phase_of_append)
qed (simp add: rt_Deploy_def assms)

lemma signals_exec:
  assumes "signals_once s" "rt_exec e s = Some s'"
  shows "signals_once s'"
proof -
  have other: "signals_once (s\<lparr>rs_tokens := x1\<rparr>)" "signals_once (s\<lparr>rs_blocked := x2\<rparr>)"
    "signals_once (s\<lparr>rs_owner := x3\<rparr>)" "signals_once (s\<lparr>rs_blocked := x2, rs_tokens := x1\<rparr>)"
    "signals_once (drop_task g s)" "signals_once (drop_queue g s)" for x1 x2 x3 g
    using assms(1) by (simp_all add: signals_once_def)
  have bound: "phase_of s g = GRemoved x \<Longrightarrow> g < length (rs_gs s)" for g x
    by (intro active_bound) simp
  show ?thesis
    using assms bound
    by (cases e)
       (auto simp: other signals_Deploy rt_Undeploy_def signals_move signals_reply signals_report
        split: if_splits phase.splits option.splits)
qed


lemma reachable_invariant: "reachable s \<Longrightarrow> queue_exact s \<and> signals_once s"
proof (induction rule: reachable.induct)
  case init
  then show ?case by (simp add: queue_exact_def signals_once_def rs_init_def phase_of_def)
qed (auto simp: queue_exact_exec signals_exec)

text \<open>
  C2: In every reachable state the kill queue names exactly the goroutines whose task is live, so
  a task id has at most one; and every goroutine has answered its \<open>Deploy\<close> exactly once
  since it left its start-up, and has reported a final status exactly once if its task ran and
  was removed, and never otherwise.
\<close>

theorem live_tasks_queued:
  assumes "reachable s"
  shows "(rs_killQueue s t = Some g \<longleftrightarrow>
      g < length (rs_gs s) \<and> task_id s g = t \<and> queued (phase_of s g)) \<and>
    count_list (map fst (rs_reports s)) g = (if reported (phase_of s g) then 1 else 0) \<and>
    count_list (map fst (rs_replies s)) g =
      (if g < length (rs_gs s) \<and> replied (phase_of s g) then 1 else 0)"
  using reachable_invariant [OF assms] by (auto simp: queue_exact_def signals_once_def)

text \<open>A run of the events is reachable.\<close>

lemma reachable_run: "reachable s \<Longrightarrow> rt_run es s = Some s' \<Longrightarrow> reachable s'"
  by (induction es arbitrary: s) (auto simp: bind_eq_Some_conv intro: reachable.step)

definition deployed_twice :: "rt_event list" where
  "deployed_twice =
     [EvDeploy vol_service, EvCreate 0, EvStart 0, EvUndeploy ''db'' 0, EvSend 0, EvKill 0, EvUnqueue 0,
      EvRemove 0, EvReport 0, EvDeploy vol_service, EvCreate 1, EvStart 1]"

definition redeployed :: rt_state where
  "redeployed = \<lparr>rs_gs = [(vol_service, GReported), (vol_service, GRunning)],
     rs_killQueue = [task_of vol_service \<mapsto> 1], rs_tokens = {}, rs_blocked = [],
     rs_owner = [task_of vol_service \<mapsto> 1], rs_reports = [(0, SERVICE_DEAD)],
     rs_replies = [(1, True), (0, True)]\<rparr>"

lemma vol_task: "Generate ''db'' 0 = task_of vol_service"
  by (simp add: task_of_def vol_service_def zero_Service_def)

lemmas run_simps = rs_init_def rt_Deploy_def rt_Undeploy_def phase_of_def task_id_def set_phase_def
  drop_queue_def drop_task_def vol_task end_status_def

lemma run_redeployed: "rt_run deployed_twice rs_init = Some redeployed"
  by (simp add: deployed_twice_def redeployed_def run_simps fun_eq_iff)

lemma reachable_redeployed: "reachable redeployed"
  using reachable_run [OF reachable.init run_redeployed] .

theorem live_tasks_queued_witness:
  "rs_killQueue redeployed (task_of vol_service) = Some 1 \<and> queued (phase_of redeployed 1) \<and>
   count_list (map fst (rs_reports redeployed)) 0 = 1"
  using live_tasks_queued [OF reachable_redeployed, of "task_of vol_service" 1]
    live_tasks_queued [OF reachable_redeployed, of "task_of vol_service" 0]
  by (auto simp: redeployed_def phase_of_def)

text \<open>
  The last step of a killed task's goroutine, the deferred kill of its task, reaches the task
  that a redeployment of the same id has meanwhile started: it is gone from containerd while
  its goroutine runs on.
\<close>

theorem deferred_kill_hits_redeployed_task:
  "\<exists>s s'. reachable s \<and> phase_of s 1 = GRunning \<and> task_id s 0 = task_id s 1 \<and>
     rs_owner s (task_id s 1) = Some 1 \<and> rt_exec (EvCleanup 0) s = Some s' \<and>
     phase_of s' 1 = GRunning \<and> rs_owner s' (task_id s' 1) = None"
proof -
  have "rt_exec (EvCleanup 0) redeployed = Some (set_phase 0 (GFinished True) (drop_task 0 redeployed))"
    by (simp add: redeployed_def phase_of_def)
  moreover have "phase_of redeployed 1 = GRunning \<and> task_id redeployed 0 = task_id redeployed 1 \<and>
      rs_owner redeployed (task_id redeployed 1) = Some 1"
    by (simp add: redeployed_def phase_of_def task_id_def)
  moreover have "rs_owner (drop_task 0 redeployed) (task_id redeployed 0) = None"
    by (simp add: drop_task_def)
  ultimately show ?thesis
    using reachable_redeployed by (intro exI conjI) auto
qed

section \<open>An undeployment that never returns\<close>

fun past_select :: "phase \<Rightarrow> bool" where
  "past_select GStarting = False"
| "past_select GPrepared = False"
| "past_select GRunning = False"
| "past_select _ = True"

definition stuck :: "nat \<Rightarrow> rt_state \<Rightarrow> bool" where
  "stuck g s \<longleftrightarrow> g < length (rs_gs s) \<and> past_select (phase_of s g) \<and> g \<in> rs_tokens s"

lemma stuck_move: "stuck g s \<Longrightarrow> g' = g \<longrightarrow> past_select p \<Longrightarrow> stuck g (set_phase g' p s)"
  by (auto simp: stuck_def)

lemma stuck_exec:
  assumes "stuck g s" "rt_exec e s = Some s'"
  shows "stuck g s' \<and> count_list (rs_blocked s) g \<le> count_list (rs_blocked s') g"
proof -
  have other: "stuck g (s\<lparr>rs_tokens := insert h (rs_tokens s)\<rparr>)" "stuck g (s\<lparr>rs_blocked := x2\<rparr>)"
    "stuck g (s\<lparr>rs_blocked := x2, rs_tokens := insert h (rs_tokens s)\<rparr>)"
    "stuck g (s\<lparr>rs_owner := x3\<rparr>)" "stuck g (s\<lparr>rs_reports := x4\<rparr>)"
    "stuck g (s\<lparr>rs_replies := x5\<rparr>)" "stuck g (drop_task h s)" "stuck g (drop_queue h s)"
    "h \<noteq> g \<Longrightarrow> stuck g (s\<lparr>rs_tokens := rs_tokens s - {h}\<rparr>)" for x2 x3 x4 x5 h
    using assms(1) by (simp_all add: stuck_def)
  have cnt: "h \<noteq> g \<Longrightarrow> count_list (remove1 h xs) g = count_list xs g" for h xs
    by (induction xs) auto
  show ?thesis
  proof (cases e)
    case (EvDeploy service)
    then show ?thesis
      using assms by (auto simp: rt_Deploy_def stuck_def phase_of_append split: if_splits)
  qed (use assms other cnt in \<open>auto intro!: stuck_move simp: rt_Undeploy_def stuck_def
         split: if_splits phase.splits option.splits\<close>)
qed

lemma stuck_run:
  "stuck g s \<Longrightarrow> rt_run es s = Some s' \<Longrightarrow> count_list (rs_blocked s) g \<le> count_list (rs_blocked s') g"
  by (induction es arbitrary: s) (auto simp: bind_eq_Some_conv dest: stuck_exec intro: le_trans)


text \<open>
  When a goroutine is past its wait and a kill already fills its channel, a further
  \<open>Undeploy\<close> waits for room in it for ever: no continuation lets it return.
\<close>

theorem second_undeploy_blocks:
  assumes "g < length (rs_gs s)" "past_select (phase_of s g)" "g \<in> rs_tokens s"
    and "rs_killQueue s (Generate service inst) = Some g"
    and "rt_run es (snd (rt_Undeploy service inst s)) = Some s'"
  shows "count_list (rs_blocked s') g > count_list (rs_blocked s) g"
proof -
  have "stuck g (snd (rt_Undeploy service inst s))"
    using assms(1-4) by (simp add: stuck_def rt_Undeploy_def)
  from stuck_run [OF this assms(5)] show ?thesis
    using assms(4) by (simp add: rt_Undeploy_def)
qed

definition exited_undeployed :: rt_state where
  "exited_undeployed = \<lparr>rs_gs = [(vol_service, GEnded (Exited 0))],
     rs_killQueue = [task_of vol_service \<mapsto> 0], rs_tokens = {0}, rs_blocked = [],
     rs_owner = [task_of vol_service \<mapsto> 0], rs_reports = [], rs_replies = [(0, True)]\<rparr>"

lemma run_exited:
  "rt_run [EvDeploy vol_service, EvCreate 0, EvStart 0, EvExit 0 0, EvUndeploy ''db'' 0, EvSend 0] rs_init
   = Some exited_undeployed"
  by (simp add: exited_undeployed_def run_simps fun_eq_iff)

theorem second_undeploy_blocks_witness:
  "count_list (rs_blocked (snd (rt_Undeploy ''db'' 0 exited_undeployed))) 0 > 0"
proof -
  have "0 < length (rs_gs exited_undeployed)" "past_select (phase_of exited_undeployed 0)"
    "0 \<in> rs_tokens exited_undeployed" "rs_killQueue exited_undeployed (Generate ''db'' 0) = Some 0"
    by (simp_all add: exited_undeployed_def phase_of_def vol_task)
  from second_undeploy_blocks [OF this, of "[]"] show ?thesis by simp
qed

section \<open>The runtime settles\<close>

fun internal :: "rt_event \<Rightarrow> bool" where
  "internal (EvDeploy _) = False"
| "internal (EvUndeploy _ _) = False"
| "internal _ = True"

fun rank :: "phase \<Rightarrow> nat" where
  "rank GStarting = 7"
| "rank GPrepared = 6"
| "rank GRunning = 5"
| "rank (GEnded _) = 4"
| "rank (GUnqueued _) = 3"
| "rank (GRemoved _) = 2"
| "rank GReported = 1"
| "rank (GReverting _) = 2"
| "rank (GReverted _) = 1"
| "rank (GFinished _) = 0"

text \<open>The steps the goroutines and the waiting calls have left at most.\<close>

definition work :: "rt_state \<Rightarrow> nat" where
  "work s = sum_list (map (\<lambda>p. rank (snd p)) (rs_gs s)) + length (rs_blocked s)"

text \<open>Nothing moves on by itself; running tasks may still exit.\<close>

definition settled :: "rt_state \<Rightarrow> bool" where
  "settled s \<longleftrightarrow> (\<forall>e. internal e \<longrightarrow> (\<forall>g code. e \<noteq> EvExit g code) \<longrightarrow> rt_exec e s = None)"

lemma sum_list_update_less:
  "i < length xs \<Longrightarrow> f y < f (xs ! i) \<Longrightarrow> sum_list (map f (xs[i := y])) < (sum_list (map f xs) :: nat)"
  by (induction xs arbitrary: i) (auto split: nat.splits)

lemma work_set_phase:
  assumes "rank p < rank (phase_of s g)" "rs_gs s' = rs_gs s" "rs_blocked s' = rs_blocked s"
  shows "work (set_phase g p s') < work s"
proof -
  have "g < length (rs_gs s)" using assms(1) by (intro active_bound) auto
  then show ?thesis
    using assms sum_list_update_less [of g "rs_gs s" "\<lambda>p. rank (snd p)"]
    by (simp add: work_def set_phase_def phase_of_def)
qed

lemma work_exec: "internal e \<Longrightarrow> rt_exec e s = Some s' \<Longrightarrow> work s' < work s"
proof (cases e)
  case (EvSend g)
  then show "rt_exec e s = Some s' \<Longrightarrow> work s' < work s"
    using length_pos_if_in_set [of g "rs_blocked s"]
    by (auto simp: work_def length_remove1 split: if_splits)
qed (auto simp: work_set_phase drop_queue_def drop_task_def split: if_splits phase.splits)

text \<open>
  The runtime always comes to rest: after the last call, it makes at most \<open>work s\<close> more steps,
  a number fixed by the phases of the goroutines and the waiting calls.
\<close>

theorem runtime_settles:
  assumes "list_all internal es" "rt_run es s = Some s'"
  shows "length es + work s' \<le> work s"
  using assms
  by (induction es arbitrary: s) (auto simp: bind_eq_Some_conv dest!: work_exec, fastforce)

theorem runtime_settles_witness:
  "\<exists>s'. rt_run [EvCreate 0, EvStart 0] (snd (rt_Deploy vol_service rs_init)) = Some s' \<and> 2 + work s' \<le> 7"
proof -
  obtain s' where 1: "rt_run [EvCreate 0, EvStart 0] (snd (rt_Deploy vol_service rs_init)) = Some s'"
    by (simp add: run_simps)
  have "work (snd (rt_Deploy vol_service rs_init)) = 7" by (simp add: work_def run_simps)
  with runtime_settles [OF _ 1] 1 show ?thesis by simp
qed

text \<open>A goroutine whose end is decided: a kill is waiting or buffered, or it is past its wait.\<close>

definition doomed :: "rt_state \<Rightarrow> nat \<Rightarrow> bool" where
  "doomed s g \<longleftrightarrow> g \<in> rs_tokens s \<or> g \<in> set (rs_blocked s) \<or> past_select (phase_of s g)"

lemma set_remove1_other: "x \<in> set xs \<Longrightarrow> x \<noteq> y \<Longrightarrow> x \<in> set (remove1 y xs)"
  by (induction xs) auto

lemma doomed_set_phase:
  "phase_of s' = phase_of s \<Longrightarrow> rs_gs s' = rs_gs s \<Longrightarrow> rs_tokens s' = rs_tokens s \<Longrightarrow>
   rs_blocked s' = rs_blocked s \<Longrightarrow> past_select (phase_of s h) \<longrightarrow> past_select p \<Longrightarrow>
   doomed s g \<longrightarrow> doomed (set_phase h p s') g"
  by (auto simp: doomed_def)

lemma doomed_exec:
  assumes "internal e" "rt_exec e s = Some s'"
  shows "length (rs_gs s') = length (rs_gs s) \<and> (doomed s g \<longrightarrow> doomed s' g)"
proof (cases e)
  case (EvSend h)
  then show ?thesis
    using assms set_remove1_other [of g "rs_blocked s" h] by (auto simp: doomed_def split: if_splits)
next
  case (EvKill h)
  have s': "phase_of s h = GRunning" "s' = set_phase h (GEnded Killed) (s\<lparr>rs_tokens := rs_tokens s - {h}\<rparr>)"
    using assms EvKill by (simp_all split: if_splits)
  have "h < length (rs_gs s)" using s'(1) by (intro active_bound) simp
  then have "length (rs_gs s') = length (rs_gs s)" "rs_tokens s' = rs_tokens s - {h}" "rs_blocked s' = rs_blocked s"
    "phase_of s' g = (if g = h then GEnded Killed else phase_of s g)"
    by (simp_all add: s'(2))
  then show ?thesis by (cases "g = h") (simp_all add: doomed_def)
qed (use assms in \<open>auto simp: doomed_set_phase split: if_splits phase.splits\<close>)

lemma doomed_run:
  "list_all internal es \<Longrightarrow> rt_run es s = Some s' \<Longrightarrow>
   length (rs_gs s') = length (rs_gs s) \<and> (doomed s g \<longrightarrow> doomed s' g)"
  by (induction es arbitrary: s) (auto simp: bind_eq_Some_conv dest: doomed_exec)

lemma settled_doomed:
  assumes "settled s" "doomed s g"
  shows "\<exists>b. phase_of s g = GFinished b"
proof -
  have N: "rt_exec e s = None" if "internal e" "\<forall>g code. e \<noteq> EvExit g code" for e
    using assms(1) that by (simp add: settled_def)
  show ?thesis
    using N [of "EvSend g"] N [of "EvCreateFail g"] N [of "EvStart g"] N [of "EvRevert g"] N [of "EvKill g"]
      N [of "EvUnqueue g"] N [of "EvRemove g"] N [of "EvReport g"] N [of "EvCleanup g"] assms(2)
    by (cases "phase_of s g") (auto simp: doomed_def split: if_splits)
qed

lemma Stop_blocked:
  assumes "\<forall>t \<in> set ids. \<exists>sv i. t = Generate sv i"
  shows "rs_gs (rt_Stop ids s) = rs_gs s \<and> rs_killQueue (rt_Stop ids s) = rs_killQueue s \<and>
    set (rs_blocked s) \<subseteq> set (rs_blocked (rt_Stop ids s)) \<and>
    (\<forall>t \<in> set ids. \<forall>g. rs_killQueue s t = Some g \<longrightarrow> g \<in> set (rs_blocked (rt_Stop ids s)))"
  using assms
proof (induction ids arbitrary: s)
  case (Cons t ids)
  obtain sv i where t: "t = Generate sv i" using Cons.prems by auto
  let ?s = "snd (rt_Undeploy sv i s)"
  have "rt_Stop (t # ids) s = rt_Stop ids ?s" by (simp add: rt_Stop_def t)
  moreover have "rs_gs ?s = rs_gs s" "rs_killQueue ?s = rs_killQueue s"
    "set (rs_blocked s) \<subseteq> set (rs_blocked ?s)" "rs_killQueue s t = Some g \<Longrightarrow> g \<in> set (rs_blocked ?s)" for g
    by (auto simp: rt_Undeploy_def t split: option.splits)
  ultimately show ?case using Cons.IH [of ?s] Cons.prems by (auto; blast)
qed (simp add: rt_Stop_def)


definition running_task :: rt_state where
  "running_task = \<lparr>rs_gs = [(vol_service, GRunning)], rs_killQueue = [task_of vol_service \<mapsto> 0],
     rs_tokens = {}, rs_blocked = [], rs_owner = [task_of vol_service \<mapsto> 0], rs_reports = [],
     rs_replies = [(0, True)]\<rparr>"

definition stopped_task :: rt_state where
  "stopped_task = \<lparr>rs_gs = [(vol_service, GFinished True)], rs_killQueue = Map.empty,
     rs_tokens = {}, rs_blocked = [], rs_owner = Map.empty, rs_reports = [(0, SERVICE_DEAD)],
     rs_replies = [(0, True)]\<rparr>"

lemma run_running: "rt_run [EvDeploy vol_service, EvCreate 0, EvStart 0] rs_init = Some running_task"
  by (simp add: running_task_def run_simps fun_eq_iff)

lemma run_stopped:
  "rt_run [EvSend 0, EvKill 0, EvUnqueue 0, EvRemove 0, EvReport 0, EvCleanup 0]
     (rt_Stop [task_of vol_service] running_task) = Some stopped_task"
proof -
  have "rt_Stop [task_of vol_service] running_task = running_task\<lparr>rs_blocked := [0]\<rparr>"
    by (simp add: rt_Stop_def rt_Undeploy_def task_of_def running_task_def)
  then show ?thesis by (simp add: running_task_def stopped_task_def run_simps fun_eq_iff)
qed


end
