(* ===== verification/NodeInfo.thy ===== *)
theory NodeInfo
  imports ContainerRuntime
begin

text \<open>
  What the node engine reports of its node (\<open>model/Node.go\<close>): the node record with its dynamic
  part, read anew at every \<open>GetNodeInfo\<close>, the address with its slowly refreshed public variant,
  and the GPU metrics summed over the devices of \<open>nvidia-smi\<close>.
\<close>

section \<open>The node and what the system answers\<close>

record Node =
  nd_Id :: string
  nd_Host :: string
  nd_Ip :: string
  nd_Port :: string
  nd_SystemInfo :: "(string \<times> string) list"
  nd_CpuUsage :: f64
  nd_CpuCores :: go_int
  nd_CpuArch :: string
  nd_MemoryUsed :: f64
  nd_MemoryMB :: go_int
  nd_DiskInfo :: "(string \<times> string) list"
  nd_NetworkInfo :: "(string \<times> string) list"
  nd_GpuDriver :: string
  nd_GpuUsage :: f64
  nd_GpuCores :: nat
  nd_GpuTemp :: f64
  nd_GpuMemUsage :: f64
  nd_GpuTotMem :: f64
  nd_Technology :: "string list"
  nd_SupportedAddons :: "string list"
  nd_CSIDrivers :: "CSIDriverType list"
  nd_Overlay :: bool
  nd_OverlaySocket :: string
  nd_LogDirectory :: string
  nd_ClusterAddress :: string

text \<open>
  The answers during one update. An address is a flag for loopback, with its text if it is an
  IPv4 one; of a host the kernel version, architecture, system, uptime and summary.
\<close>

record node_env =
  nv_conf :: "string + ConfFile"
  nv_http :: "string + (string + string) option"
  nv_addrs :: "string + (bool \<times> string option) list"
  nv_Percent :: "string + f64 list"
  nv_VirtualMemory :: "string + u64 \<times> f64"
  nv_Usage :: "string + int"
  nv_Partitions :: "string + string list"
  nv_Interfaces :: "string + string list"
  nv_smi :: "string list \<Rightarrow> string + string"

section \<open>Addresses\<close>

definition SlowUpdateFactor :: nat where "SlowUpdateFactor = 60"

definition getPrivateIp :: "string + (bool \<times> string option) list \<Rightarrow> string" where
  "getPrivateIp addresses =
     (case addresses of
        Err _ \<Rightarrow> []
      | Ok as \<Rightarrow>
          (case filter (\<lambda>(loopback, ip4). \<not> loopback \<and> ip4 \<noteq> None) as of
             (_, Some ip) # _ \<Rightarrow> ip
           | _ \<Rightarrow> []))"

definition fetch_public_ip :: "node_env \<Rightarrow> string" where
  "fetch_public_ip env =
     (case nv_http env of
        Ok (Some (Ok body)) \<Rightarrow>
          (let publicIp = TrimSpace body in if publicIp = [] then getPrivateIp (nv_addrs env) else publicIp)
      | _ \<Rightarrow> getPrivateIp (nv_addrs env))"

text \<open>\<open>getIp\<close> on the slow update counter and the address of the last update; \<open>None\<close> is the fatal end.\<close>

definition getIp :: "node_env \<Rightarrow> nat \<Rightarrow> string \<Rightarrow> (string \<times> nat) option" where
  "getIp env counter ip =
     (case nv_conf env of
        Err _ \<Rightarrow> None
      | Ok conf \<Rightarrow>
          if IsAuto (cf_PublicIp conf)
          then if counter \<noteq> 0 then Some (ip, (counter + 1) mod SlowUpdateFactor)
               else Some (fetch_public_ip env, (counter + 1) mod SlowUpdateFactor)
          else if \<not> IsDisabled (cf_PublicIp conf) then Some (Value (cf_PublicIp conf), counter)
          else Some (getPrivateIp (nv_addrs env), counter))"

section \<open>Processor, memory, disks and interfaces\<close>

definition getHostname :: "string + string \<Rightarrow> string option" where
  "getHostname hostname = (case hostname of Err _ \<Rightarrow> None | Ok h \<Rightarrow> Some h)"

definition getSystemInfo :: "string + string \<times> string \<times> string \<times> u64 \<times> string \<Rightarrow> (string \<times> string) list" where
  "getSystemInfo info =
     (case info of
        Err _ \<Rightarrow> []
      | Ok (kernelVersion, kernelArch, os, uptime, summary) \<Rightarrow>
          [(''kernel_version'', kernelVersion), (''architecture'', kernelArch), (''os_version'', os),
           (''uptime'', Itoa (sint uptime)), (''full_stats'', summary)])"

definition getCpuCores :: "string + go_int \<Rightarrow> go_int" where
  "getCpuCores counts = (case counts of Err _ \<Rightarrow> 0 | Ok n \<Rightarrow> n)"

definition getAvgCpuUsage :: "string + f64 list \<Rightarrow> f64" where
  "getAvgCpuUsage avg =
     (case avg of Ok (x # _) \<Rightarrow> x | _ \<Rightarrow> f64_of_int 100)"

definition getMemoryMB :: "string + u64 \<times> f64 \<Rightarrow> go_int" where
  "getMemoryMB mem = (case mem of Err _ \<Rightarrow> 0 | Ok (available, _) \<Rightarrow> drop_bit 20 available)"

definition getMemoryUsage :: "string + u64 \<times> f64 \<Rightarrow> f64" where
  "getMemoryUsage mem = (case mem of Err _ \<Rightarrow> f64_of_int 100 | Ok (_, usedPercent) \<Rightarrow> usedPercent)"

definition numbered :: "string \<Rightarrow> string list \<Rightarrow> (string \<times> string) list" where
  "numbered name xs = map (\<lambda>(i, x). (name @ Itoa (int i), x)) (enumerate 0 xs)"

definition getDiskinfo :: "string + int \<Rightarrow> string + string list \<Rightarrow> (string \<times> string) list" where
  "getDiskinfo usage partitions =
     (''/'', case usage of Err _ \<Rightarrow> ''100'' | Ok u \<Rightarrow> Itoa u)
     # (case partitions of Err _ \<Rightarrow> [] | Ok ps \<Rightarrow> numbered ''partition_'' ps)"

definition getNetworkInfo :: "string + string list \<Rightarrow> (string \<times> string) list" where
  "getNetworkInfo interfaces = (case interfaces of Err _ \<Rightarrow> [] | Ok is \<Rightarrow> numbered ''interface_'' is)"

definition getPort :: "string \<Rightarrow> string" where
  "getPort myPort = (if myPort = [] then ''3000'' else myPort)"

section \<open>GPUs\<close>

text \<open>The number read from each device; the first that cannot be read ends the sum.\<close>

definition gpu_reading :: "(string list \<Rightarrow> string + string) \<Rightarrow> string \<Rightarrow> nat \<Rightarrow> int option" where
  "gpu_reading run query i =
     (case NvsmiQuery run (Itoa (int i)) query of
        Err _ \<Rightarrow> None
      | Ok res \<Rightarrow> (case Atoi res of (_, Some _) \<Rightarrow> None | (v, None) \<Rightarrow> Some v))"

fun gpu_sum :: "(nat \<Rightarrow> f64 option) \<Rightarrow> f64 \<Rightarrow> nat list \<Rightarrow> f64 option" where
  "gpu_sum f tot [] = Some tot"
| "gpu_sum f tot (i # is) = (case f i of None \<Rightarrow> None | Some x \<Rightarrow> gpu_sum f (f64_add tot x) is)"

definition gpu_total :: "(string list \<Rightarrow> string + string) \<Rightarrow> string \<Rightarrow> nat \<Rightarrow> f64 option" where
  "gpu_total run query n = gpu_sum (\<lambda>i. map_option f64_of_int (gpu_reading run query i)) (f64_of_int 0) [0..<n]"

definition gpu_average :: "(string list \<Rightarrow> string + string) \<Rightarrow> string \<Rightarrow> f64" where
  "gpu_average run query =
     (case NvsmiDeviceCount run of
        Err _ \<Rightarrow> f64_of_int 0
      | Ok n \<Rightarrow>
          if n = 0 then f64_of_int 0
          else (case gpu_total run query n of
                  None \<Rightarrow> f64_of_int 0
                | Some tot \<Rightarrow> f64_div tot (f64_of_int (int n))))"

definition getGpuUsage :: "(string list \<Rightarrow> string + string) \<Rightarrow> f64" where
  "getGpuUsage run = gpu_average run ''utilization.gpu''"

definition getGpuTemp :: "(string list \<Rightarrow> string + string) \<Rightarrow> f64" where
  "getGpuTemp run = gpu_average run ''temperature.gpu''"

definition getTotGpuMem :: "(string list \<Rightarrow> string + string) \<Rightarrow> f64" where
  "getTotGpuMem run =
     (case NvsmiDeviceCount run of
        Err _ \<Rightarrow> f64_of_int 0
      | Ok n \<Rightarrow>
          if n = 0 then f64_of_int 0
          else (case gpu_total run ''memory.total'' n of None \<Rightarrow> f64_of_int 0 | Some tot \<Rightarrow> tot))"

definition gpu_mem_share :: "(string list \<Rightarrow> string + string) \<Rightarrow> nat \<Rightarrow> f64 option" where
  "gpu_mem_share run i =
     (case NvsmiQuery run (Itoa (int i)) ''memory.used'' of
        Err _ \<Rightarrow> None
      | Ok res \<Rightarrow>
          if f64_ge (getTotGpuMem run) (f64_of_int 0)
          then (case Atoi res of
                  (_, Some _) \<Rightarrow> None
                | (currmem, None) \<Rightarrow>
                    Some (f64_div (f64_mul (f64_of_int currmem) (f64_of_int 100)) (getTotGpuMem run)))
          else Some (f64_of_int 0))"

definition getGpuMemUsage :: "(string list \<Rightarrow> string + string) \<Rightarrow> f64" where
  "getGpuMemUsage run =
     (case NvsmiDeviceCount run of
        Err _ \<Rightarrow> f64_of_int 0
      | Ok n \<Rightarrow>
          if n = 0 then f64_of_int 0
          else (case gpu_sum (gpu_mem_share run) (f64_of_int 0) [0..<n] of
                  None \<Rightarrow> f64_of_int 0
                | Some tot \<Rightarrow> f64_div tot (f64_of_int (int n))))"

definition getGpuCores :: "(string list \<Rightarrow> string + string) \<Rightarrow> nat" where
  "getGpuCores run = (case NvsmiDeviceCount run of Err _ \<Rightarrow> 0 | Ok n \<Rightarrow> n)"

definition getGpuDriver :: "(string list \<Rightarrow> string + string) \<Rightarrow> string" where
  "getGpuDriver run =
     (case NvsmiDeviceCount run of
        Err _ \<Rightarrow> ''-''
      | Ok n \<Rightarrow>
          let queryResult = foldl (\<lambda>q i. case NvsmiQuery run (Itoa (int i)) ''driver_version'' of
                                            Err _ \<Rightarrow> q | Ok res \<Rightarrow> res) [] [0..<n]
          in if queryResult \<noteq> [] then ''-'' else queryResult)"

section \<open>The node's state\<close>

type_synonym node_state = "Node \<times> nat"

text \<open>\<open>updateDynamicInfo\<close> on the node and the slow update counter; \<open>None\<close> is the fatal end in \<open>getIp\<close>.\<close>

definition updateDynamicInfo :: "node_env \<Rightarrow> node_state \<Rightarrow> node_state option" where
  "updateDynamicInfo env s =
     (case s of (n, counter) \<Rightarrow>
        (case getIp env counter (nd_Ip n) of
           None \<Rightarrow> None
         | Some (ip, counter') \<Rightarrow>
             Some (n\<lparr>nd_CpuUsage := getAvgCpuUsage (nv_Percent env), nd_Ip := ip,
                     nd_MemoryMB := getMemoryMB (nv_VirtualMemory env),
                     nd_MemoryUsed := getMemoryUsage (nv_VirtualMemory env),
                     nd_DiskInfo := getDiskinfo (nv_Usage env) (nv_Partitions env),
                     nd_NetworkInfo := getNetworkInfo (nv_Interfaces env),
                     nd_GpuDriver := getGpuDriver (nv_smi env), nd_GpuTotMem := getTotGpuMem (nv_smi env),
                     nd_GpuMemUsage := getGpuMemUsage (nv_smi env), nd_GpuUsage := getGpuUsage (nv_smi env),
                     nd_GpuCores := getGpuCores (nv_smi env), nd_GpuTemp := getGpuTemp (nv_smi env)\<rparr>, counter')))"

definition zero_Node :: Node where
  "zero_Node = \<lparr>nd_Id = [], nd_Host = [], nd_Ip = [], nd_Port = [], nd_SystemInfo = [],
     nd_CpuUsage = f64_of_int 0, nd_CpuCores = 0, nd_CpuArch = [], nd_MemoryUsed = f64_of_int 0,
     nd_MemoryMB = 0, nd_DiskInfo = [], nd_NetworkInfo = [], nd_GpuDriver = [],
     nd_GpuUsage = f64_of_int 0, nd_GpuCores = 0, nd_GpuTemp = f64_of_int 0,
     nd_GpuMemUsage = f64_of_int 0, nd_GpuTotMem = f64_of_int 0, nd_Technology = [],
     nd_SupportedAddons = [], nd_CSIDrivers = [], nd_Overlay = False, nd_OverlaySocket = [],
     nd_LogDirectory = [], nd_ClusterAddress = []\<rparr>"

text \<open>\<open>GetNodeInfo\<close>: the node is filled once; every call updates its dynamic part.\<close>

definition GetNodeInfo :: "Node \<Rightarrow> node_env \<Rightarrow> node_state option \<times> nat \<Rightarrow> node_state option" where
  "GetNodeInfo initial env s =
     (case s of
        (None, counter) \<Rightarrow> updateDynamicInfo env (initial\<lparr>nd_OverlaySocket := ''/etc/netmanager/netmanager.sock''\<rparr>, counter)
      | (Some ns, _) \<Rightarrow> updateDynamicInfo env ns)"

text \<open>The part of the node that is sent with every status update.\<close>

definition GetDynamicInfo :: "node_env \<Rightarrow> node_state \<Rightarrow> (Node \<times> node_state) option" where
  "GetDynamicInfo env s =
     map_option (\<lambda>s'. let n = fst s' in
       (zero_Node\<lparr>nd_Ip := nd_Ip n, nd_CpuUsage := nd_CpuUsage n, nd_CpuCores := nd_CpuCores n,
          nd_MemoryUsed := nd_MemoryUsed n, nd_MemoryMB := nd_MemoryMB n, nd_GpuDriver := nd_GpuDriver n,
          nd_GpuTemp := nd_GpuTemp n, nd_GpuUsage := nd_GpuUsage n, nd_GpuTotMem := nd_GpuTotMem n,
          nd_GpuMemUsage := nd_GpuMemUsage n, nd_GpuCores := nd_GpuCores n\<rparr>, s'))
     (updateDynamicInfo env s)"

definition AddSupportedTechnology :: "string \<Rightarrow> Node \<Rightarrow> Node" where
  "AddSupportedTechnology tech n = n\<lparr>nd_Technology := nd_Technology n @ [tech]\<rparr>"

definition AddSupportedAddons :: "string \<Rightarrow> Node \<Rightarrow> Node" where
  "AddSupportedAddons ext n = n\<lparr>nd_SupportedAddons := nd_SupportedAddons n @ [ext]\<rparr>"

definition AddCSIDriver :: "CSIDriverType \<Rightarrow> Node \<Rightarrow> Node" where
  "AddCSIDriver driver n = n\<lparr>nd_CSIDrivers := nd_CSIDrivers n @ [driver]\<rparr>"

definition HasCSIDriver :: "string \<Rightarrow> Node \<Rightarrow> bool" where
  "HasCSIDriver driverName n = list_ex (\<lambda>d. cd_Name d = driverName) (nd_CSIDrivers n)"

section \<open>The public address is refreshed every sixtieth update\<close>

primrec updates :: "node_env list \<Rightarrow> node_state \<Rightarrow> node_state option" where
  "updates [] s = Some s"
| "updates (env # envs) s = Option.bind (updateDynamicInfo env s) (updates envs)"

definition auto_mode :: "node_env \<Rightarrow> bool" where
  "auto_mode env = (case nv_conf env of Err _ \<Rightarrow> False | Ok conf \<Rightarrow> IsAuto (cf_PublicIp conf))"

lemma update_auto_Some: "auto_mode env \<Longrightarrow> \<exists>n' c'. updateDynamicInfo env (n, c) = Some (n', c')"
  by (auto simp: auto_mode_def updateDynamicInfo_def getIp_def split: sum.splits)

lemma updates_append: "updates (xs @ ys) s = Option.bind (updates xs s) (updates ys)"
  by (induction xs arbitrary: s) (auto split: bind_splits)

lemma update_auto:
  "auto_mode env \<Longrightarrow> updateDynamicInfo env (n, c) = Some (n', c') \<Longrightarrow>
   c' = (c + 1) mod 60 \<and> nd_Ip n' = (if c = 0 then fetch_public_ip env else nd_Ip n)"
  by (auto simp: auto_mode_def updateDynamicInfo_def getIp_def SlowUpdateFactor_def
      split: sum.splits if_splits)

text \<open>How many updates ago the counter was zero, seen after \<open>k\<close> updates from \<open>c\<close>.\<close>

definition age :: "nat \<Rightarrow> nat \<Rightarrow> nat" where
  "age c k = (c + k - 1) mod 60"

lemma age_Suc: "0 < k \<Longrightarrow> age c (Suc k) = (if (c + k) mod 60 = 0 then 0 else Suc (age c k))"
  using mod_Suc [of "c + k - 1" 60] by (simp add: age_def)

text \<open>
  With the public address determined automatically, one update in sixty asks for it: after any
  number of updates the node's address is the one found by the latest update that came at
  counter zero, or still the old one if none did, and the counter is the number of updates
  modulo sixty.
\<close>

theorem ip_refresh:
  assumes "list_all auto_mode envs" "c < 60" "updates envs (n, c) = Some (n', c')"
  shows "c' = (c + length envs) mod 60 \<and>
    nd_Ip n' = (if envs = [] \<or> length envs \<le> age c (length envs) then nd_Ip n
                else fetch_public_ip (envs ! (length envs - 1 - age c (length envs))))"
  using assms
proof (induction envs arbitrary: n' c' rule: rev_induct)
  case (snoc env envs)
  obtain n1 c1 where 1: "updates envs (n, c) = Some (n1, c1)"
    and 2: "updateDynamicInfo env (n1, c1) = Some (n', c')"
    using snoc.prems(3) by (auto simp: updates_append bind_eq_Some_conv)
  note IH = snoc.IH [OF _ assms(2) 1]
  have c1: "c1 = (c + length envs) mod 60"
    using IH snoc.prems(1) by simp
  have u: "c' = (c1 + 1) mod 60" "nd_Ip n' = (if c1 = 0 then fetch_public_ip env else nd_Ip n1)"
    using update_auto [OF _ 2] snoc.prems(1) by auto
  have c': "c' = (c + length (envs @ [env])) mod 60" by (simp add: u(1) c1 mod_Suc_eq)
  show ?case
  proof (cases "envs = []")
    case True
    then show ?thesis using 1 u c' assms(2) by (auto simp: age_def)
  next
    case False
    then have k: "0 < length envs" by simp
    show ?thesis
    proof (cases "c1 = 0")
      case True
      then show ?thesis using c' u(2) age_Suc [OF k, of c] c1 by simp
    next
      case nz: False
      then have a: "age c (Suc (length envs)) = Suc (age c (length envs))"
        using age_Suc [OF k, of c] c1 by simp
      have "nd_Ip n1 = (if length envs \<le> age c (length envs) then nd_Ip n
          else fetch_public_ip (envs ! (length envs - 1 - age c (length envs))))"
        using IH snoc.prems(1) False by simp
      then show ?thesis using c' u(2) nz a k by (auto simp: nth_append)
    qed
  qed
qed (simp add: assms)

definition auto_env :: "string \<Rightarrow> node_env" where
  "auto_env body = \<lparr>nv_conf = Ok (conf_Default\<lparr>cf_PublicIp := PublicIPAuto\<rparr>), nv_http = Ok (Some (Ok body)),
     nv_addrs = Err [], nv_Percent = Err [], nv_VirtualMemory = Err [], nv_Usage = Err [],
     nv_Partitions = Err [], nv_Interfaces = Err [], nv_smi = (\<lambda>_. Err [])\<rparr>"

lemma auto_env_auto: "auto_mode (auto_env body)"
proof -
  have "IsAuto PublicIPAuto" by code_simp
  then show ?thesis by (simp add: auto_mode_def auto_env_def)
qed

theorem ip_refresh_witness:
  "\<exists>n' c'. updates [auto_env ''1'', auto_env ''2''] (zero_Node, 0) = Some (n', c') \<and>
     nd_Ip n' = ''1'' \<and> c' = 2"
proof -
  obtain n' c' where 1: "updates [auto_env ''1'', auto_env ''2''] (zero_Node, 0) = Some (n', c')"
    using update_auto_Some [OF auto_env_auto] by (metis bind.bind_lunit updates.simps surj_pair)
  have "fetch_public_ip (auto_env ''1'') = ''1''"
  proof -
    have "TrimSpace ''1'' = ''1''" by code_simp
    then show ?thesis by (simp add: fetch_public_ip_def auto_env_def)
  qed
  then show ?thesis
    using ip_refresh [OF _ _ 1] 1 auto_env_auto by (simp add: age_def)
qed

section \<open>What the GPU metrics miss\<close>

text \<open>Whatever the devices answer, no driver version is reported.\<close>

theorem gpu_driver_never_reported: "getGpuDriver run \<in> {''-'', []}"
  by (simp add: getGpuDriver_def Let_def split: sum.split)

lemma f64_add_PInf: "x \<noteq> NaN \<Longrightarrow> x \<noteq> NInf \<Longrightarrow> f64_add x PInf = PInf"
  by (cases x) auto

lemma f64_make_pos:
  assumes "d \<le> n" "0 < d"
  shows "f64_make False n d = PInf \<or> (\<exists>k>0. f64_make False n d = Fin k)"
proof -
  let ?q = "n div d" and ?e = "bitlen (n div d) - 53"
  have q: "?q \<noteq> 0" using assms by (simp add: div_eq_0_iff)
  have "(2::nat) ^ ?e \<le> 2 ^ (bitlen ?q - 1)" by (intro power_increasing) auto
  then have "2 ^ ?e \<le> ?q" using bitlen_lower [OF q] by linarith
  then have "0 < ?q div 2 ^ ?e" by (simp add: div_greater_zero_iff)
  then have "0 < n div (d * 2 ^ ?e)" by (simp add: div_mult2_eq)
  then have "0 < f64_rnd n d"
    using rnd_even_lower [of n "d * 2 ^ ?e"] by (simp add: f64_rnd_def Let_def)
  then show ?thesis by (auto simp: f64_make_def Let_def)
qed

text \<open>
  When every device tells its used memory but the total memory cannot be read, the reported
  share is an infinity, which JSON cannot carry.
\<close>

theorem unreadable_total_gives_infinity:
  assumes "NvsmiDeviceCount run = Ok n" "small (int n)" "getTotGpuMem run = f64_of_int 0"
    and "list_all (\<lambda>i. \<exists>u. gpu_reading run ''memory.used'' i = Some u \<and> 0 < u \<and> small (u * 100)) [0..<n]"
  shows "getGpuMemUsage run = PInf"
proof -
  have share: "gpu_mem_share run i = Some PInf"
    if u: "gpu_reading run ''memory.used'' i = Some u" "0 < u" "small (u * 100)" for i u
  proof -
    have unit: "0 < f64_unit" by (simp add: f64_unit_def)
    have "small u" "small 100" using u(2,3) by (auto simp: small_def)
    moreover have "nat f64_unit \<le> nat \<bar>u * f64_unit\<bar> * nat \<bar>100 * f64_unit\<bar>"
    proof -
      have "1 * f64_unit \<le> u * f64_unit" using unit u(2) by (intro mult_right_mono) auto
      then have "1 * f64_unit \<le> \<bar>100 * f64_unit\<bar> * \<bar>u * f64_unit\<bar>"
        using unit by (intro mult_mono) auto
      then show ?thesis using nat_mono by (fastforce simp: nat_mult_distrib [symmetric] mult.commute)
    qed
    moreover have "\<not> u * f64_unit < 0" using unit u(2) by (simp add: mult_less_0_iff)
    ultimately have "f64_mul (f64_of_int u) (f64_of_int 100) = PInf \<or>
        (\<exists>k>0. f64_mul (f64_of_int u) (f64_of_int 100) = Fin k)"
      using f64_make_pos [of "nat f64_unit" "nat \<bar>u * f64_unit\<bar> * nat \<bar>100 * f64_unit\<bar>"] unit
      by (simp add: f64_of_int_small mult_less_0_iff)
    moreover have "f64_of_int 0 = Fin 0" by (simp add: f64_of_int_small small_def)
    ultimately have "f64_div (f64_mul (f64_of_int u) (f64_of_int 100)) (f64_of_int 0) = PInf"
      by (auto simp: f64_inf_def)
    then show ?thesis
      using u(1) assms(3)
      by (auto simp: gpu_mem_share_def gpu_reading_def f64_ge_def split: sum.splits prod.splits option.splits)
  qed
  have "is \<noteq> [] \<Longrightarrow> list_all (\<lambda>i. gpu_mem_share run i = Some PInf) is \<Longrightarrow> x \<noteq> NaN \<Longrightarrow> x \<noteq> NInf \<Longrightarrow>
      gpu_sum (gpu_mem_share run) x is = Some PInf" for x "is"
  proof (induction "is" arbitrary: x)
    case (Cons i "is")
    then show ?case by (cases "is = []") (simp_all add: f64_add_PInf)
  qed simp
  moreover have "n > 0" using device_count_positive [OF assms(1)] .
  moreover have "list_all (\<lambda>i. gpu_mem_share run i = Some PInf) [0..<n]"
    using assms(4) share by (auto simp: list_all_iff)
  moreover have "f64_of_int 0 = Fin 0" by (simp add: f64_of_int_small small_def)
  ultimately have "gpu_sum (gpu_mem_share run) (f64_of_int 0) [0..<n] = Some PInf" by simp
  moreover have "f64_div PInf (f64_of_int (int n)) = PInf"
    using assms(2) by (simp add: f64_of_int_small f64_inf_def f64_unit_def mult_less_0_iff)
  ultimately show ?thesis using assms(1) \<open>n > 0\<close> by (simp add: getGpuMemUsage_def)
qed

end
