(* ===== verification/Dispatch.thy ===== *)
theory Dispatch
  imports NodeInfo
begin

text \<open>
  How the node engine starts, and what it does with the cluster's messages: the runtimes behind
  their names (\<open>virtualization/RuntimeDispatcher.go\<close>, \<open>internal/runtime/registry.go\<close>), the start
  of runtimes and monitors (\<open>internal/daemon/nodeengined.go\<close>,
  \<open>jobs/ServicesResourcesUpdater.go\<close>), the deploy and delete handlers with their status reports
  (\<open>mqtt/MqttClient.go\<close>), and the requests to the network manager (\<open>requests\<close>).
\<close>

section \<open>Runtimes by name\<close>

text \<open>The engine: its node, containerd, the names already initialised, the monitors started.\<close>

record engine =
  en_node :: Node
  en_ctd :: ctd_state
  en_runtimes :: "string list"
  en_monitors :: "string list"

text \<open>
  The outcomes of what starting a runtime does: the container client, containerd's answers to
  a removal, and the additional runtimes in its configuration.
\<close>

record runtime_world =
  rw_client :: bool
  rw_ctd :: "string \<Rightarrow> ctd_env"
  rw_additional :: "string list"

definition registered_runtimes :: "runtime_world \<Rightarrow> string list" where
  "registered_runtimes rw = [CONTAINER_RUNTIME, UNIKERNEL_RUNTIME, CROSVM_RUNTIME] @ rw_additional rw"

definition newContainerdRuntime :: "runtime_world \<Rightarrow> engine \<Rightarrow> engine" where
  "newContainerdRuntime rw en =
     (if \<not> rw_client rw then en
      else en\<lparr>en_ctd := forceContainerCleanup (rw_ctd rw) (en_ctd en),
              en_node := foldl (\<lambda>n name. AddSupportedTechnology name n) (en_node en) (rw_additional rw)\<rparr>)"

definition container_name :: "runtime_world \<Rightarrow> string \<Rightarrow> bool" where
  "container_name rw name \<longleftrightarrow> name = CONTAINER_RUNTIME \<or> name \<in> set (rw_additional rw)"

text \<open>
  \<open>GetRuntime\<close>: the initialiser of a name runs at its first use; a name without one is a call of
  a nil function, \<open>None\<close>. The unikernel and crosvm runtimes leave containerd and the node alone.
\<close>

definition GetRuntime :: "runtime_world \<Rightarrow> string \<Rightarrow> engine \<Rightarrow> engine option" where
  "GetRuntime rw name en =
     (if name \<notin> set (registered_runtimes rw) then None
      else if name \<in> set (en_runtimes en) then Some en
      else Some ((if container_name rw name then newContainerdRuntime rw en else en)
                 \<lparr>en_runtimes := name # en_runtimes en\<rparr>))"

primrec start_virtualizations :: "runtime_world \<Rightarrow> Virtualization list \<Rightarrow> engine \<Rightarrow> engine option" where
  "start_virtualizations rw [] en = Some en"
| "start_virtualizations rw (v # vs) en =
     (if vt_Active v
      then (case GetRuntime rw (vt_Runtime v) en of
              None \<Rightarrow> None
            | Some en' \<Rightarrow> start_virtualizations rw vs
                (en'\<lparr>en_node := AddSupportedTechnology (vt_Runtime v) (en_node en')\<rparr>))
      else start_virtualizations rw vs en)"

primrec start_monitors :: "runtime_world \<Rightarrow> string list \<Rightarrow> engine \<Rightarrow> engine option" where
  "start_monitors rw [] en = Some en"
| "start_monitors rw (name # names) en =
     (case GetRuntime rw name en of
        None \<Rightarrow> None
      | Some en' \<Rightarrow> start_monitors rw names (en'\<lparr>en_monitors := en_monitors en' @ [name]\<rparr>))"

definition StartServicesMonitoring :: "runtime_world \<Rightarrow> engine \<Rightarrow> engine option" where
  "StartServicesMonitoring rw en = start_monitors rw (nd_Technology (en_node en)) en"

definition register_drivers :: "CSIDriverType list \<Rightarrow> engine \<Rightarrow> engine" where
  "register_drivers drivers en =
     en\<lparr>en_node := foldl (\<lambda>n d. AddCSIDriver d n) (en_node en) drivers\<rparr>"

text \<open>\<open>main\<close> from the runtimes to the monitors; the configuration's other parts are in \<open>Config\<close>.\<close>

definition engine_start ::
    "runtime_world \<Rightarrow> (CSIDriverType \<Rightarrow> probe_env) \<Rightarrow> ConfFile \<Rightarrow> engine \<Rightarrow> engine option" where
  "engine_start rw probe conf en =
     (case start_virtualizations rw (cf_Virtualizations conf) en of
        None \<Rightarrow> None
      | Some en' \<Rightarrow>
          StartServicesMonitoring rw (register_drivers (reg_List (InitFromConfig probe conf [])) en'))"

section \<open>Status reports\<close>

definition service_status :: "string \<Rightarrow> Service \<Rightarrow> jval" where
  "service_status ip service =
     JvObj [(''sname'', JvStr (svc_Sname service)), (''status'', JvStr (svc_Status service)),
            (''status_detail'', JvStr (svc_StatusDetail service)),
            (''instance'', JvInt (sint (svc_Instance service))), (''publicip'', JvStr ip)]"

definition node_topic :: "string \<Rightarrow> string \<Rightarrow> string" where
  "node_topic clientID topic = ''nodes/'' @ clientID @ ''/'' @ topic"

definition ReportServiceStatus :: "string \<Rightarrow> string \<Rightarrow> Service \<Rightarrow> string \<times> jval" where
  "ReportServiceStatus clientID ip service = (node_topic clientID ''job'', service_status ip service)"

definition json_Resources :: "Resources \<Rightarrow> jval" where
  "json_Resources r =
     JvObj [(''cpu_percent'', JvStr (res_Cpu r)), (''memory_percent'', JvStr (res_Memory r)),
            (''disk'', JvStr (res_Disk r)), (''logs'', JvStr (res_Logs r)), (''job_name'', JvStr (res_Sname r)),
            (''virtualization'', JvStr (res_Runtime r)), (''instance'', JvInt (sint (res_Instance r))),
            (''status'', JvStr (res_Status r))]"

definition ReportServiceResources :: "string \<Rightarrow> Resources list \<Rightarrow> string \<times> jval" where
  "ReportServiceResources clientID services =
     (node_topic clientID ''jobs/resources'', JvObj [(''services'', slice_value json_Resources services)])"

text \<open>JSON has no NaN and no infinities: a node with one is sent as an empty payload.\<close>

fun finite_f64 :: "f64 \<Rightarrow> bool" where
  "finite_f64 (Fin _) = True"
| "finite_f64 _ = False"

definition encodable :: "Node \<Rightarrow> bool" where
  "encodable n \<longleftrightarrow> finite_f64 (nd_CpuUsage n) \<and> finite_f64 (nd_MemoryUsed n) \<and> finite_f64 (nd_GpuUsage n) \<and>
     finite_f64 (nd_GpuTemp n) \<and> finite_f64 (nd_GpuMemUsage n) \<and> finite_f64 (nd_GpuTotMem n)"

definition ReportNodeInformation :: "(Node \<Rightarrow> string) \<Rightarrow> string \<Rightarrow> Node \<Rightarrow> string \<times> string" where
  "ReportNodeInformation enc clientID n =
     (node_topic clientID ''information'', if encodable n then enc n else [])"

section \<open>The MQTT client\<close>

record mqtt_client =
  mc_clientID :: string
  mc_TOPICS :: "(string \<times> bool) list"
  mc_brokers :: "string list"

text \<open>The topics with \<open>True\<close> for the deploy handler; a second initialisation changes nothing.\<close>

definition InitMqtt :: "string \<Rightarrow> string \<Rightarrow> string \<Rightarrow> string \<Rightarrow> mqtt_client \<Rightarrow> mqtt_client" where
  "InitMqtt clientid brokerurl brokerport certFile c =
     (if mc_clientID c \<noteq> [] then c
      else \<lparr>mc_clientID = clientid,
            mc_TOPICS = AList.update (node_topic clientid ''control/delete'') False
                          (AList.update (node_topic clientid ''control/deploy'') True (mc_TOPICS c)),
            mc_brokers = (''tcp://'' @ brokerurl @ '':'' @ brokerport) #
              (if certFile \<noteq> [] then [''tls://'' @ brokerurl @ '':'' @ brokerport] else [])\<rparr>)"

definition subscribeHandlerDispatcher :: "mqtt_client \<Rightarrow> string \<Rightarrow> bool list" where
  "subscribeHandlerDispatcher c topic = map snd (filter (\<lambda>(key, _). Contains topic key) (mc_TOPICS c))"

section \<open>Decoding a service\<close>

fun dec_strmap :: "(string \<rightharpoonup> string) decoder" where
  "dec_strmap old JvNull = Ok Map.empty"
| "dec_strmap old (JvObj fs) =
     foldl (\<lambda>r (k, v). and_then r (\<lambda>m. and_then (dec_str [] v) (\<lambda>s. Ok (m(k \<mapsto> s))))) (Ok old) fs"
| "dec_strmap old _ = Err ''type''"

definition zero_VolumeRequest :: VolumeRequest where
  "zero_VolumeRequest = \<lparr>vol_VolumeID = [], vol_CSIDriver = [], vol_MountPath = [], vol_Config = Map.empty\<rparr>"

fun dec_VolumeRequest :: "VolumeRequest decoder" where
  "dec_VolumeRequest old JvNull = Ok old"
| "dec_VolumeRequest old (JvObj fs) =
     and_then (dec_field ''volume_id'' dec_str (vol_VolumeID old) fs) (\<lambda>i.
     and_then (dec_field ''csi_driver'' dec_str (vol_CSIDriver old) fs) (\<lambda>d.
     and_then (dec_field ''mount_path'' dec_str (vol_MountPath old) fs) (\<lambda>p.
     and_then (dec_field ''config'' dec_strmap (vol_Config old) fs) (\<lambda>c.
     Ok \<lparr>vol_VolumeID = i, vol_CSIDriver = d, vol_MountPath = p, vol_Config = c\<rparr>))))"
| "dec_VolumeRequest old _ = Err ''type''"

fun dec_Service :: "Service decoder" where
  "dec_Service old JvNull = Ok old"
| "dec_Service old (JvObj fs) =
     and_then (dec_field ''_id'' dec_str (svc_JobID old) fs) (\<lambda>jobid.
     and_then (dec_field ''job_name'' dec_str (svc_Sname old) fs) (\<lambda>sname.
     and_then (dec_field ''instance_number'' dec_int (svc_Instance old) fs) (\<lambda>inst.
     and_then (dec_field ''image'' dec_str (svc_Image old) fs) (\<lambda>image.
     and_then (dec_field ''cmd'' dec_strs (svc_Commands old) fs) (\<lambda>cmds.
     and_then (dec_field ''environment'' dec_strs (svc_Env old) fs) (\<lambda>envs.
     and_then (dec_field ''port'' dec_str (svc_Ports old) fs) (\<lambda>ports.
     and_then (dec_field ''status'' dec_str (svc_Status old) fs) (\<lambda>status.
     and_then (dec_field ''virtualization'' dec_str (svc_Runtime old) fs) (\<lambda>rt.
     and_then (dec_field ''platform'' dec_str (svc_Platform old) fs) (\<lambda>platform.
     and_then (dec_field ''status_detail'' dec_str (svc_StatusDetail old) fs) (\<lambda>detail.
     and_then (dec_field ''vtpus'' dec_int (svc_Vtpus old) fs) (\<lambda>vtpus.
     and_then (dec_field ''vgpus'' dec_int (svc_Vgpus old) fs) (\<lambda>vgpus.
     and_then (dec_field ''vcpus'' dec_int (svc_Vcpus old) fs) (\<lambda>vcpus.
     and_then (dec_field ''memory'' dec_int (svc_Memory old) fs) (\<lambda>memory.
     and_then (dec_field ''vm_images'' dec_strs (svc_UnikernelImages old) fs) (\<lambda>vmimages.
     and_then (dec_field ''arch'' dec_strs (svc_Architectures old) fs) (\<lambda>arch.
     and_then (dec_field ''volumes'' (dec_list zero_VolumeRequest dec_VolumeRequest) (svc_Volumes old) fs) (\<lambda>volumes.
     and_then (dec_field ''storage'' dec_int (svc_Storage old) fs) (\<lambda>storage.
     and_then (dec_field ''pid'' dec_int (svc_Pid old) fs) (\<lambda>pid.
     and_then (dec_field ''one_shot'' dec_bool (svc_OneShot old) fs) (\<lambda>oneshot.
     and_then (dec_field ''privileged'' dec_bool (svc_Privileged old) fs) (\<lambda>privileged.
     Ok \<lparr>svc_JobID = jobid, svc_Sname = sname, svc_Instance = inst, svc_Image = image,
         svc_Commands = cmds, svc_Env = envs, svc_Ports = ports, svc_Status = status, svc_Runtime = rt,
         svc_Platform = platform, svc_StatusDetail = detail, svc_Vtpus = vtpus, svc_Vgpus = vgpus,
         svc_Vcpus = vcpus, svc_Memory = memory, svc_UnikernelImages = vmimages,
         svc_Architectures = arch, svc_Volumes = volumes, svc_Storage = storage, svc_Pid = pid,
         svc_OneShot = oneshot, svc_Privileged = privileged\<rparr>))))))))))))))))))))))"
| "dec_Service old _ = Err ''type''"

section \<open>The deploy and delete handlers\<close>

text \<open>
  The services registered as instantiating, the goroutines of the deployments with their
  outcome once \<open>Deploy\<close> has returned, the services reported (with the deployment that reports),
  and whether the process has panicked.
\<close>

record mq_state =
  mq_registry :: instantiating
  mq_deploys :: "(Service \<times> string option option) list"
  mq_reports :: "(nat option \<times> Service) list"
  mq_panicked :: bool

definition mq_init :: mq_state where
  "mq_init = \<lparr>mq_registry = [], mq_deploys = [], mq_reports = [], mq_panicked = False\<rparr>"

definition report :: "nat option \<Rightarrow> Service \<Rightarrow> mq_state \<Rightarrow> mq_state" where
  "report i service s = s\<lparr>mq_reports := mq_reports s @ [(i, service)]\<rparr>"

definition deployHandler :: "string + jval \<Rightarrow> mq_state \<Rightarrow> mq_state" where
  "deployHandler payload s =
     (case and_then payload (dec_Service zero_Service) of
        Err _ \<Rightarrow> s
      | Ok msg \<Rightarrow>
          let service = msg\<lparr>svc_Status := SERVICE_INSTANTIATION\<rparr>;
              s1 = report (Some (length (mq_deploys s))) service s
          in s1\<lparr>mq_registry := TrackInstantiating service (mq_registry s1),
                mq_deploys := mq_deploys s1 @ [(service, None)]\<rparr>)"

definition deploy_outcome :: "Service \<Rightarrow> string option \<Rightarrow> Service" where
  "deploy_outcome service err =
     (case err of
        None \<Rightarrow> service\<lparr>svc_Status := SERVICE_CREATED\<rparr>
      | Some e \<Rightarrow> service\<lparr>svc_Status := SERVICE_FAILED, svc_StatusDetail := e\<rparr>)"

text \<open>The deployment's goroutine, when \<open>Deploy\<close> of the runtime returns.\<close>

definition deploy_goroutine :: "string list \<Rightarrow> nat \<Rightarrow> string option \<Rightarrow> mq_state \<Rightarrow> mq_state" where
  "deploy_goroutine runtimes i err s =
     (let service = fst (mq_deploys s ! i) in
      if svc_Runtime service \<notin> set runtimes then s\<lparr>mq_panicked := True\<rparr>
      else
        let s1 = report (Some i) (deploy_outcome service err) s
        in s1\<lparr>mq_registry := UntrackInstantiating (svc_Sname service) (svc_Instance service) (mq_registry s1),
              mq_deploys := (mq_deploys s1)[i := (service, Some err)]\<rparr>)"

definition deleteHandler :: "string list \<Rightarrow> string + jval \<Rightarrow> (Service \<Rightarrow> string option) \<Rightarrow> mq_state \<Rightarrow> mq_state" where
  "deleteHandler runtimes payload undeploy s =
     (case and_then payload (dec_Service zero_Service) of
        Err _ \<Rightarrow> s
      | Ok service \<Rightarrow>
          if svc_Runtime service \<notin> set runtimes then s\<lparr>mq_panicked := True\<rparr>
          else (case undeploy service of
                  Some _ \<Rightarrow> s
                | None \<Rightarrow> report None (service\<lparr>svc_Status := SERVICE_UNDEPLOYED\<rparr>) s))"

datatype mq_event =
    MqDeploy "string + jval"
  | MqDeployed nat "string option"
  | MqDelete "string + jval" "Service \<Rightarrow> string option"

text \<open>One event; a panicked process handles none, and a goroutine returns once.\<close>

fun mq_step :: "string list \<Rightarrow> mq_state \<Rightarrow> mq_event \<Rightarrow> mq_state" where
  "mq_step runtimes s (MqDeploy payload) = (if mq_panicked s then s else deployHandler payload s)"
| "mq_step runtimes s (MqDeployed i err) =
     (if \<not> mq_panicked s \<and> i < length (mq_deploys s) \<and> snd (mq_deploys s ! i) = None
      then deploy_goroutine runtimes i err s else s)"
| "mq_step runtimes s (MqDelete payload undeploy) =
     (if mq_panicked s then s else deleteHandler runtimes payload undeploy s)"

definition mq_run :: "string list \<Rightarrow> mq_event list \<Rightarrow> mq_state \<Rightarrow> mq_state" where
  "mq_run runtimes es s = foldl (mq_step runtimes) s es"

section \<open>Every deployment is reported\<close>

definition reports_of :: "nat \<Rightarrow> mq_state \<Rightarrow> Service list" where
  "reports_of i s = map snd (filter (\<lambda>r. fst r = Some i) (mq_reports s))"

definition expected :: "Service \<times> string option option \<Rightarrow> Service list" where
  "expected d = fst d # (case snd d of None \<Rightarrow> [] | Some err \<Rightarrow> [deploy_outcome (fst d) err])"

definition reports_ok :: "mq_state \<Rightarrow> bool" where
  "reports_ok s \<longleftrightarrow>
     (\<forall>i. reports_of i s = (if i < length (mq_deploys s) then expected (mq_deploys s ! i) else [])) \<and>
     (\<forall>d \<in> set (mq_deploys s). svc_Status (fst d) = SERVICE_INSTANTIATION)"

lemma reports_of_report [simp]:
  "reports_of i (report j v s) = reports_of i s @ (if j = Some i then [v] else [])"
  "mq_deploys (report j v s) = mq_deploys s" "mq_registry (report j v s) = mq_registry s"
  "mq_panicked (report j v s) = mq_panicked s"
  by (simp_all add: reports_of_def report_def)

lemma reports_of_update [simp]:
  "reports_of i (s\<lparr>mq_registry := x\<rparr>) = reports_of i s" "reports_of i (s\<lparr>mq_deploys := y\<rparr>) = reports_of i s"
  "reports_of i (s\<lparr>mq_panicked := z\<rparr>) = reports_of i s"
  "reports_of i (s\<lparr>mq_registry := x, mq_deploys := y\<rparr>) = reports_of i s"
  by (simp_all add: reports_of_def)

lemma expected_new: "expected (v, None) = [v]"
  by (simp add: expected_def)

lemma reports_ok_step:
  assumes "reports_ok s"
  shows "reports_ok (mq_step runtimes s e)"
proof (cases e)
  case (MqDeploy payload)
  then show ?thesis
    using assms
    by (auto simp: deployHandler_def reports_ok_def Let_def nth_append expected_new less_Suc_eq split: sum.split)
next
  case (MqDeployed i err)
  show ?thesis
  proof (cases "\<not> mq_panicked s \<and> i < length (mq_deploys s) \<and> snd (mq_deploys s ! i) = None")
    case True
    let ?v = "fst (mq_deploys s ! i)"
    have i: "i < length (mq_deploys s)" "expected (mq_deploys s ! i) = [?v]" "svc_Status ?v = SERVICE_INSTANTIATION"
      using True assms nth_mem [of i "mq_deploys s"] by (auto simp: expected_def reports_ok_def)
    have "\<forall>d \<in> set ((mq_deploys s)[i := (?v, Some err)]). svc_Status (fst d) = SERVICE_INSTANTIATION"
      using assms i(3) set_update_subset_insert [of "mq_deploys s" i "(?v, Some err)"]
      by (auto simp: reports_ok_def)
    moreover have "expected (?v, Some err) = [?v, deploy_outcome ?v err]" by (simp add: expected_def)
    ultimately show ?thesis
      using assms True i(1,2)
      by (simp add: MqDeployed deploy_goroutine_def reports_ok_def Let_def nth_list_update)
  qed (use assms in \<open>auto simp: MqDeployed\<close>)
next
  case (MqDelete payload undeploy)
  then show ?thesis
    using assms
    by (auto simp: deleteHandler_def reports_ok_def split: sum.split option.split)
qed

lemma reports_ok_run: "reports_ok s \<Longrightarrow> reports_ok (mq_run runtimes es s)"
  by (induction es arbitrary: s) (simp_all add: mq_run_def reports_ok_step)


lemma reports_ok_init: "reports_ok mq_init"
  by (simp add: reports_ok_def mq_init_def reports_of_def)


definition deploy_payload :: "string + jval" where
  "deploy_payload = Ok (JvObj [(''job_name'', JvStr ''db''), (''virtualization'', JvStr ''docker'')])"

definition payload_service :: Service where
  "payload_service = zero_Service\<lparr>svc_Sname := ''db'', svc_Runtime := ''docker''\<rparr>"

lemma ToLower_keys: "ToLower ''job_name'' = ''job_name''" "ToLower ''virtualization'' = ''virtualization''"
  by (code_simp, code_simp)

lemma dec_payload: "and_then deploy_payload (dec_Service zero_Service) = Ok payload_service"
  by (simp add: deploy_payload_def payload_service_def dec_field_def ToLower_keys zero_Service_def)

lemma run_payload:
  "mq_deploys (mq_run [''docker''] [MqDeploy deploy_payload, MqDeployed 0 (Some ''e'')] mq_init) =
   [(payload_service\<lparr>svc_Status := SERVICE_INSTANTIATION\<rparr>, Some (Some ''e''))]"
  by (simp add: mq_run_def deployHandler_def dec_payload deploy_goroutine_def mq_init_def report_def Let_def)
     (simp add: payload_service_def)


text \<open>
  A second deployment of the same instance, rejected by its runtime, takes the first one out of
  the registry while the first is still being instantiated.
\<close>

theorem duplicate_deploy_untracks:
  "\<exists>s. s = mq_run [''docker''] [MqDeploy deploy_payload, MqDeploy deploy_payload,
         MqDeployed 1 (Some ''task already deployed'')] mq_init \<and>
     snd (mq_deploys s ! 0) = None \<and> mq_registry s = []"
proof -
  have "mq_deploys (mq_run [''docker''] [MqDeploy deploy_payload, MqDeploy deploy_payload] mq_init) =
      replicate 2 (payload_service\<lparr>svc_Status := SERVICE_INSTANTIATION\<rparr>, None)"
    by (simp add: mq_run_def deployHandler_def dec_payload mq_init_def report_def Let_def numeral_2_eq_2)
  then show ?thesis
    by (simp add: mq_run_def deployHandler_def dec_payload deploy_goroutine_def mq_init_def report_def Let_def
        TrackInstantiating_def UntrackInstantiating_def)
       (simp add: payload_service_def)
qed

text \<open>A deployment for a runtime nobody registered ends the process.\<close>

theorem unknown_runtime_panics:
  assumes "\<not> mq_panicked s" "and_then payload (dec_Service zero_Service) = Ok service"
    and "svc_Runtime service \<notin> set runtimes"
  shows "mq_panicked (mq_run runtimes [MqDeploy payload, MqDeployed (length (mq_deploys s)) err] s)"
  using assms by (simp add: mq_run_def deployHandler_def deploy_goroutine_def Let_def)

section \<open>Starting the runtimes\<close>

lemma foldl_remove_all:
  "(\<And>cid. removals_ok (env cid)) \<Longrightarrow>
   set (cs_containers (foldl (\<lambda>s cid. snd (removeContainer (env cid) cid s)) s cids)) =
   {c \<in> set (cs_containers s). fst c \<notin> set cids}"
proof (induction cids arbitrary: s)
  case (Cons cid cids)
  have "set (AList.delete cid xs) = {c \<in> set xs. fst c \<noteq> cid}" for xs :: "(string \<times> string) list"
    by (auto simp: AList.delete_eq)
  with Cons show ?case by (auto simp: removeContainer_ok)
qed auto

lemma forceContainerCleanup_all:
  "(\<And>cid. removals_ok (env cid)) \<Longrightarrow> cs_containers (forceContainerCleanup env s) = []"
proof -
  assume "\<And>cid. removals_ok (env cid)"
  from foldl_remove_all [of env s "map fst (cs_containers s)", OF this]
  have "set (cs_containers (forceContainerCleanup env s)) = {}" by (auto simp: forceContainerCleanup_def)
  then show ?thesis by simp
qed

text \<open>
  The first use of an additional container runtime removes every container, those running under
  the other names included: each name gets a container runtime of its own, whose start cleans
  up the one namespace they share.
\<close>

theorem additional_runtime_removes_all:
  assumes "name \<in> set (rw_additional rw)" "name \<notin> set (en_runtimes en)" "rw_client rw"
    and "\<And>cid. removals_ok (rw_ctd rw cid)"
  shows "\<exists>en'. GetRuntime rw name en = Some en' \<and> cs_containers (en_ctd en') = []"
  using assms forceContainerCleanup_all [of "rw_ctd rw" "en_ctd en"]
  by (auto simp: GetRuntime_def registered_runtimes_def newContainerdRuntime_def container_name_def)

definition runc_world :: runtime_world where
  "runc_world = \<lparr>rw_client = True, rw_ctd = (\<lambda>_. quiet_ctd), rw_additional = [''runc'']\<rparr>"

definition busy_engine :: engine where
  "busy_engine = \<lparr>en_node = zero_Node, en_ctd = \<lparr>cs_containers = [(''db'', ''snap'')], cs_tasks = [''db''],
     cs_snapshots = [''snap'']\<rparr>, en_runtimes = [CONTAINER_RUNTIME], en_monitors = [CONTAINER_RUNTIME]\<rparr>"

theorem additional_runtime_removes_all_witness:
  "cs_containers (en_ctd busy_engine) \<noteq> [] \<and>
   map_option (\<lambda>en'. cs_containers (en_ctd en')) (GetRuntime runc_world ''runc'' busy_engine) = Some []"
  using additional_runtime_removes_all [of "''runc''" runc_world busy_engine] quiet_ok(1)
  by (auto simp: runc_world_def busy_engine_def CONTAINER_RUNTIME_def)

theorem unknown_runtime_panics_witness:
  "mq_panicked (mq_run [''crosvm''] [MqDeploy deploy_payload, MqDeployed 0 None] mq_init)"
  using unknown_runtime_panics [of mq_init deploy_payload payload_service "[''crosvm'']" None] dec_payload
  by (simp add: mq_init_def payload_service_def)

text \<open>
  An engine with the container runtime and one additional runtime advertises the additional one
  twice and monitors the same containers under both names, so that every report of a container
  is sent twice.
\<close>

definition docker_conf :: ConfFile where
  "docker_conf = zero_ConfFile\<lparr>cf_Virtualizations :=
     [\<lparr>vt_Name = ''containerd'', vt_Runtime = CONTAINER_RUNTIME, vt_Active = True, vt_Config = []\<rparr>]\<rparr>"

theorem runtimes_monitored_twice:
  "map_option (\<lambda>en. (en_monitors en, nd_Technology (en_node en)))
     (engine_start runc_world probe docker_conf
        (busy_engine\<lparr>en_runtimes := [], en_monitors := []\<rparr>)) =
   Some ([''runc'', ''docker''], [''runc'', ''docker'', ''runc''])"
  by (simp add: engine_start_def docker_conf_def zero_ConfFile_def GetRuntime_def registered_runtimes_def
      newContainerdRuntime_def container_name_def runc_world_def busy_engine_def zero_Node_def
      CONTAINER_RUNTIME_def UNIKERNEL_RUNTIME_def CROSVM_RUNTIME_def AddSupportedTechnology_def
      StartServicesMonitoring_def register_drivers_def InitFromConfig_def reg_List_def)

section \<open>Requests to the network manager and the cluster\<close>

definition connectNetworkRequest :: "int \<Rightarrow> string \<Rightarrow> go_int \<Rightarrow> string \<Rightarrow> jval" where
  "connectNetworkRequest pid servicename inst portMappings =
     JvObj [(''pid'', JvInt pid), (''serviceName'', JvStr servicename),
            (''instanceNumber'', JvInt (sint inst)), (''portMappings'', JvStr portMappings)]"

text \<open>A post answers with an error or a status code; the request is the URL and the body.\<close>

type_synonym http_post = "string \<Rightarrow> jval \<Rightarrow> string + int"

definition net_request :: "http_post \<Rightarrow> go_int \<Rightarrow> string \<Rightarrow> string \<Rightarrow> jval \<Rightarrow> string option" where
  "net_request post port path what body =
     (case post (''http://localhost:'' @ Itoa (sint port) @ path) body of
        Err e \<Rightarrow> Some e
      | Ok code \<Rightarrow>
          if code \<noteq> 200 then Some (''NetManager '' @ what @ '' failed, status code: '' @ Itoa code) else None)"

definition AttachNetworkToTask :: "http_post \<Rightarrow> go_int \<Rightarrow> int \<Rightarrow> string \<Rightarrow> go_int \<Rightarrow> string \<Rightarrow> string option" where
  "AttachNetworkToTask post port pid servicename inst portMappings =
     net_request post port ''/container/deploy'' ''deploy''
       (connectNetworkRequest pid servicename inst portMappings)"

definition DetachNetworkFromTask :: "http_post \<Rightarrow> go_int \<Rightarrow> string \<Rightarrow> go_int \<Rightarrow> string option" where
  "DetachNetworkFromTask post port servicename inst =
     net_request post port ''/container/undeploy'' ''undeploy'' (connectNetworkRequest (-1) servicename inst [])"

definition CreateNetworkNamespaceForUnikernel ::
    "http_post \<Rightarrow> go_int \<Rightarrow> string \<Rightarrow> go_int \<Rightarrow> string \<Rightarrow> string option" where
  "CreateNetworkNamespaceForUnikernel post port servicename inst portMappings =
     net_request post port ''/unikernel/deploy'' ''deploy'' (connectNetworkRequest 0 servicename inst portMappings)"

definition DeleteNamespaceForUnikernel :: "http_post \<Rightarrow> go_int \<Rightarrow> string \<Rightarrow> go_int \<Rightarrow> string option" where
  "DeleteNamespaceForUnikernel post port servicename inst =
     net_request post port ''/unikernel/undeploy'' ''undeploy'' (connectNetworkRequest (-1) servicename inst [])"

text \<open>Without a port of its own the network manager is reached through the overlay socket.\<close>

definition RegisterSelfToNetworkComponent ::
    "(string option \<Rightarrow> http_post) \<Rightarrow> go_int \<Rightarrow> ConfFile \<Rightarrow> Node \<Rightarrow> string option" where
  "RegisterSelfToNetworkComponent dial port conf n =
     (let publicIp = (if \<not> IsAuto (cf_PublicIp conf) \<and> \<not> IsDisabled (cf_PublicIp conf)
                      then Value (cf_PublicIp conf) else [])
      in net_request (dial (if port = 0 then Some (nd_OverlaySocket n) else None)) port
           ''/register'' ''registration''
           (JvObj [(''client_id'', JvStr (nd_Id n)), (''cluster_address'', JvStr (nd_ClusterAddress n)),
                   (''node_public_address'', JvStr publicIp)]))"

text \<open>\<open>ClusterHandshake\<close>: the broker's port and the node's id, or the fatal end.\<close>

definition dec_HandshakeAnswer :: "jval \<Rightarrow> string + string \<times> string" where
  "dec_HandshakeAnswer v =
     (case v of
        JvNull \<Rightarrow> Ok ([], [])
      | JvObj fs \<Rightarrow>
          and_then (dec_field ''mqtt_broker_port'' dec_str [] fs) (\<lambda>port.
          and_then (dec_field ''id'' dec_str [] fs) (\<lambda>nodeid. Ok (port, nodeid)))
      | _ \<Rightarrow> Err ''type'')"

definition ClusterHandshake ::
    "(string \<Rightarrow> string \<Rightarrow> string + int \<times> (string + jval)) \<Rightarrow> (Node \<Rightarrow> string) \<Rightarrow> string + ConfFile
      \<Rightarrow> string \<Rightarrow> go_int \<Rightarrow> Node \<Rightarrow> (string \<times> string) option" where
  "ClusterHandshake post enc conf address port n =
     (if \<not> encodable n then None
      else
        (case conf of
           Err _ \<Rightarrow> None
         | Ok cfg \<Rightarrow>
             (case post ((if cf_ClusterSSL cfg then ''https'' else ''http'') @ ''://'' @ address @ '':'' @
                         Itoa (sint port) @ ''/api/node/register'') (enc n) of
                Ok (code, Ok body) \<Rightarrow>
                  if code \<noteq> 200 then None
                  else (case dec_HandshakeAnswer body of Err _ \<Rightarrow> None | Ok answer \<Rightarrow> Some answer)
              | _ \<Rightarrow> None)))"

text \<open>A node whose GPU share is an infinity never registers, and later sends empty status updates.\<close>

lemma infinite_share_blocks:
  "nd_GpuMemUsage n = PInf \<Longrightarrow> ClusterHandshake post enc conf address port n = None \<and>
   snd (ReportNodeInformation enc clientID n) = []"
  by (simp add: ClusterHandshake_def ReportNodeInformation_def encodable_def)

end
