(* ===== verification/Unikernel.thy ===== *)
theory Unikernel
  imports Dispatch "HOL-Library.Sublist"
begin

text \<open>
  The unikernel runtime (\<open>virtualization/internal/unikernel/UnikernelManagement.go\<close>): fetching and
  unpacking the kernel archive into the node's file system, the addresses read from the network
  namespace (\<open>networkutils/networkutils.go\<close>), and the command line of QEMU. Paths resolve lexically,
  without symbolic links. What the network and the programs \<open>cp\<close> and \<open>mv\<close> do is an argument.
\<close>

section \<open>Files\<close>

datatype tar_flag = TypeDir | TypeReg | TypeOther

record tar_entry =
  te_Name :: string
  te_Typeflag :: tar_flag
  te_Mode :: nat
  te_Data :: string

text \<open>A downloaded body: no gzip stream, or the entries the tar reader gives with the error it ends in.\<close>

datatype tarball = NotGzip | Tar "tar_entry list" "string option"

datatype content = Plain string | Archive tarball

datatype node = DirNode | FileNode content "nat option"

type_synonym fs = "string list \<rightharpoonup> node"

text \<open>The environment can make an operation on a path fail.\<close>

type_synonym io_env = "string \<Rightarrow> string \<Rightarrow> string option"

datatype stat = Exists | NotExist | StatErr string

definition ends_in_slash :: "string \<Rightarrow> bool" where
  "ends_in_slash p = HasSuffix p ''/''"

fun is_file :: "node option \<Rightarrow> bool" where
  "is_file (Some (FileNode _ _)) = True"
| "is_file _ = False"

definition below_file :: "fs \<Rightarrow> string list \<Rightarrow> bool" where
  "below_file fs k = list_ex (\<lambda>n. is_file (fs (take n k))) [0..<length k]"

definition os_Stat :: "io_env \<Rightarrow> string \<Rightarrow> fs \<Rightarrow> stat" where
  "os_Stat io p fs =
     (case io ''stat'' p of
        Some e \<Rightarrow> StatErr e
      | None \<Rightarrow>
          if below_file fs (path_elements p) then StatErr ''not a directory''
          else (case fs (path_elements p) of
                  None \<Rightarrow> NotExist
                | Some DirNode \<Rightarrow> Exists
                | Some (FileNode _ _) \<Rightarrow> if ends_in_slash p then StatErr ''not a directory'' else Exists))"

definition parent_dir :: "fs \<Rightarrow> string list \<Rightarrow> bool" where
  "parent_dir fs k \<longleftrightarrow> k \<noteq> [] \<and> fs (butlast k) = Some DirNode"

definition os_Mkdir :: "io_env \<Rightarrow> string \<Rightarrow> fs \<Rightarrow> fs" where
  "os_Mkdir io p fs =
     (if io ''mkdir'' p = None \<and> fs (path_elements p) = None \<and> parent_dir fs (path_elements p)
      then fs(path_elements p \<mapsto> DirNode) else fs)"

definition os_Create :: "io_env \<Rightarrow> string \<Rightarrow> fs \<Rightarrow> string + fs" where
  "os_Create io p fs =
     (case io ''create'' p of
        Some e \<Rightarrow> Err e
      | None \<Rightarrow>
          if fs (path_elements p) = Some DirNode \<or> ends_in_slash p then Err ''is a directory''
          else if is_file (fs (path_elements p)) \<or> parent_dir fs (path_elements p)
          then Ok (fs(path_elements p \<mapsto> FileNode (Plain []) None))
          else Err ''no such file or directory'')"

definition os_Remove :: "io_env \<Rightarrow> string \<Rightarrow> fs \<Rightarrow> fs" where
  "os_Remove io p fs = (if io ''remove'' p = None then fs(path_elements p := None) else fs)"

definition os_RemoveAll :: "string \<Rightarrow> fs \<Rightarrow> fs" where
  "os_RemoveAll p fs = (\<lambda>k. if prefix (path_elements p) k then None else fs k)"

section \<open>The kernel image\<close>

record download =
  dl_body :: tarball
  dl_err :: "string option"

record image_env =
  ie_io :: io_env
  ie_Get :: "string \<Rightarrow> string + download"
  ie_run :: "string list \<Rightarrow> fs \<Rightarrow> fs"

datatype image_result = ImagePanic | NoImage | Image string

definition kernel_path :: string where "kernel_path = ''/tmp/node_engine/kernel/''"
definition inst_path :: string where "inst_path = ''/tmp/node_engine/inst/''"

definition kernel_tar :: "string \<Rightarrow> string" where
  "kernel_tar sname = kernel_path @ sname @ ''.tar.gz''"

definition kernel_location :: "string \<Rightarrow> string" where
  "kernel_location sname = kernel_path @ sname @ ''/''"

text \<open>One regular file of the archive: created, given its mode, written. Each failure is only logged.\<close>

definition unpack_file :: "io_env \<Rightarrow> string \<Rightarrow> tar_entry \<Rightarrow> fs \<Rightarrow> fs" where
  "unpack_file io p e fs =
     (case os_Create io p fs of
        Err _ \<Rightarrow> fs
      | Ok fs1 \<Rightarrow>
          fs1(path_elements p \<mapsto> FileNode (Plain (if io ''write'' p = None then te_Data e else []))
                                  (if io ''chmod'' p = None then Some (te_Mode e) else None)))"

fun unpack :: "io_env \<Rightarrow> string \<Rightarrow> string option \<Rightarrow> tar_entry list \<Rightarrow> fs \<Rightarrow> string option \<times> fs" where
  "unpack io loc end_err [] fs = (end_err, fs)"
| "unpack io loc end_err (e # es) fs =
     (case te_Typeflag e of
        TypeDir \<Rightarrow> unpack io loc end_err es (os_Mkdir io (loc @ te_Name e) fs)
      | TypeReg \<Rightarrow> unpack io loc end_err es (unpack_file io (loc @ te_Name e) e fs)
      | TypeOther \<Rightarrow> (Some ''incorrect typeflag'', fs))"

text \<open>
  The archive is downloaded and unpacked. A result is an early return. \<open>gzip.NewReader\<close> gives a nil
  reader together with its error, and the tar reader then dereferences it.
\<close>

definition unpack_archive :: "image_env \<Rightarrow> string \<Rightarrow> tarball \<Rightarrow> fs \<Rightarrow> image_result option \<times> fs" where
  "unpack_archive env sname body fs =
     (if ie_io env ''open'' (kernel_tar sname) \<noteq> None then (Some ImagePanic, fs)
      else
        (case body of
           NotGzip \<Rightarrow> (Some ImagePanic, fs)
         | Tar es end_err \<Rightarrow>
             (case unpack (ie_io env) (kernel_location sname) end_err es fs of
                (Some _, fs1) \<Rightarrow> (Some NoImage, fs1)
              | (None, fs1) \<Rightarrow> (None, fs1))))"

definition fetch_kernel :: "image_env \<Rightarrow> string \<Rightarrow> string \<Rightarrow> fs \<Rightarrow> image_result option \<times> fs" where
  "fetch_kernel env url sname fs =
     (case os_Create (ie_io env) (kernel_tar sname) fs of
        Err _ \<Rightarrow> (Some NoImage, fs)
      | Ok fs1 \<Rightarrow>
          (case ie_Get env url of
             Err _ \<Rightarrow> (Some NoImage, os_Remove (ie_io env) (kernel_tar sname) fs1)
           | Ok d \<Rightarrow>
               if dl_err d \<noteq> None then (Some NoImage, os_Remove (ie_io env) (kernel_tar sname) fs1)
               else unpack_archive env sname (dl_body d)
                      (os_Mkdir (ie_io env) (kernel_location sname)
                        (fs1(path_elements (kernel_tar sname) \<mapsto> FileNode (Archive (dl_body d)) None)))))"

text \<open>What the instance gets a copy of.\<close>

definition present :: "image_env \<Rightarrow> string \<Rightarrow> fs \<Rightarrow> bool" where
  "present env p fs \<longleftrightarrow> os_Stat (ie_io env) p fs \<noteq> NotExist"

definition instance_files :: "image_env \<Rightarrow> string \<Rightarrow> string \<Rightarrow> fs \<Rightarrow> fs" where
  "instance_files env sname instance_path fs =
     (let loc = kernel_location sname; run = ie_run env;
          fs1 = (if present env (loc @ ''files'') fs
                 then run [''cp'', ''-r'', loc @ ''files'', instance_path] fs else fs);
          fs2 = (if present env (loc @ ''files1'') fs1
                 then run [''mv'', instance_path @ ''/files1'', instance_path @ ''/files'']
                        (run [''cp'', ''-r'', loc @ ''files1'', instance_path] fs1)
                 else fs1)
      in if present env (loc @ ''initramfs.cpio'') fs2
         then run [''cp'', ''-r'', loc @ ''initramfs.cpio'', instance_path] fs2 else fs2)"

definition GetKernelImage :: "image_env \<Rightarrow> string \<Rightarrow> string \<Rightarrow> string \<Rightarrow> fs \<Rightarrow> image_result \<times> fs" where
  "GetKernelImage env url name sname fs =
     (let instance_path = inst_path @ name in
      if os_Stat (ie_io env) instance_path fs \<noteq> NotExist then (NoImage, fs)
      else
        (let fs1 = os_Mkdir (ie_io env) instance_path fs;
             fetched = (if os_Stat (ie_io env) (kernel_tar sname) fs1 = Exists then (None, fs1)
                        else fetch_kernel env url sname fs1)
         in case fetched of
              (Some r, fs2) \<Rightarrow> (r, fs2)
            | (None, fs2) \<Rightarrow>
                let fs3 = instance_files env sname instance_path fs2
                in (if os_Stat (ie_io env) (kernel_location sname @ ''kernel'') fs3 = Exists
                    then Image instance_path else NoImage, fs3)))"

definition getUnikernelURL :: "int \<Rightarrow> string \<Rightarrow> string" where
  "getUnikernelURL position code =
     (let addr = Split (CHR '','') code
      in if position \<ge> int (length addr) then [] else addr ! nat position)"

text \<open>The image of the last architecture that is the node's.\<close>

fun kernel_image :: "string \<Rightarrow> string \<Rightarrow> nat \<Rightarrow> string list \<Rightarrow> string \<Rightarrow> string" where
  "kernel_image goarch code i [] found = found"
| "kernel_image goarch code i (a # as) found =
     kernel_image goarch code (Suc i) as (if a = goarch then getUnikernelURL (int i) code else found)"

section \<open>Unpacking\<close>

text \<open>Where an entry goes, and the archives whose directories come before what is in them.\<close>

definition rel :: "string \<Rightarrow> string list" where
  "rel name = filter (\<lambda>c. c \<noteq> [] \<and> c \<noteq> ''.'') (Split (CHR ''/'') name)"

fun well_packed :: "string list set \<Rightarrow> string list set \<Rightarrow> tar_entry list \<Rightarrow> bool" where
  "well_packed dirs seen [] = True"
| "well_packed dirs seen (e # es) =
     (''..'' \<notin> set (Split (CHR ''/'') (te_Name e)) \<and> rel (te_Name e) \<notin> seen \<and> rel (te_Name e) \<noteq> [] \<and>
      butlast (rel (te_Name e)) \<in> dirs \<and>
      (case te_Typeflag e of
         TypeDir \<Rightarrow> well_packed (insert (rel (te_Name e)) dirs) (insert (rel (te_Name e)) seen) es
       | TypeReg \<Rightarrow> \<not> ends_in_slash (te_Name e) \<and> well_packed dirs (insert (rel (te_Name e)) seen) es
       | TypeOther \<Rightarrow> False))"

definition entry_node :: "tar_entry \<Rightarrow> node" where
  "entry_node e = (if te_Typeflag e = TypeDir then DirNode else FileNode (Plain (te_Data e)) (Some (te_Mode e)))"

definition packed :: "tar_entry list \<Rightarrow> fs" where
  "packed es = map_of (map (\<lambda>e. (rel (te_Name e), entry_node e)) es)"

definition no_io :: io_env where "no_io = (\<lambda>op p. None)"

definition location_key :: "string \<Rightarrow> string list" where
  "location_key sname = [''tmp'', ''node_engine'', ''kernel'', sname]"

lemma foldl_tame:
  "''..'' \<notin> set els \<Longrightarrow> foldl (path_step b) stack els = stack @ filter (\<lambda>c. c \<noteq> [] \<and> c \<noteq> ''.'') els"
  by (induction els arbitrary: stack) (auto simp: path_step_def)

lemma base_keys:
  "plain c \<Longrightarrow> path_elements (inst_path @ c) = [''tmp'', ''node_engine'', ''inst'', c]"
  "plain c \<Longrightarrow> path_elements (kernel_path @ c) = [''tmp'', ''node_engine'', ''kernel'', c]"
proof -
  have e: "path_elements ''/tmp/node_engine/inst'' = [''tmp'', ''node_engine'', ''inst'']"
      "path_elements ''/tmp/node_engine/kernel'' = [''tmp'', ''node_engine'', ''kernel'']"
    by (simp_all add: path_elements_def path_rooted_def HasPrefix_def path_step_def)
  assume c: "plain c"
  show "path_elements (inst_path @ c) = [''tmp'', ''node_engine'', ''inst'', c]"
    using path_elements_append_plain [of "''/tmp/node_engine/inst''" c] c e
    by (simp add: inst_path_def path_rooted_def HasPrefix_def)
  show "path_elements (kernel_path @ c) = [''tmp'', ''node_engine'', ''kernel'', c]"
    using path_elements_append_plain [of "''/tmp/node_engine/kernel''" c] c e
    by (simp add: kernel_path_def path_rooted_def HasPrefix_def)
qed

lemma plain_tar: "plain sname \<Longrightarrow> plain (sname @ ''.tar.gz'')"
  by (auto simp: plain_def append_eq_Cons_conv)

lemma kernel_tar_key:
  "plain sname \<Longrightarrow> path_elements (kernel_tar sname) = [''tmp'', ''node_engine'', ''kernel'', sname @ ''.tar.gz'']"
  using base_keys(2) [OF plain_tar [of sname]] by (simp add: kernel_tar_def)

lemma location_entry_key:
  assumes "plain sname" "''..'' \<notin> set (Split (CHR ''/'') name)"
  shows "path_elements (kernel_location sname @ name) = location_key sname @ rel name"
proof -
  have root: "path_rooted (kernel_path @ sname)" by (simp add: kernel_path_def path_rooted_def HasPrefix_def)
  have "path_elements (kernel_location sname @ name) =
      foldl (path_step True) (path_elements (kernel_path @ sname)) (Split (CHR ''/'') name)"
    using root path_rooted_append [OF root, of "''/'' @ name"]
    using Split_append_cons [of "CHR ''/''" "kernel_path @ sname" name]
    by (simp add: path_elements_def kernel_location_def)
  then show ?thesis
    using assms by (simp add: base_keys foldl_tame location_key_def rel_def)
qed

lemma location_keys [simp]:
  "plain sname \<Longrightarrow> path_elements (kernel_location sname) = location_key sname"
  "plain sname \<Longrightarrow> plain name \<Longrightarrow> path_elements (kernel_location sname @ name) = location_key sname @ [name]"
  using location_entry_key [of sname "[]"] location_entry_key [of sname name]
  by (auto simp: rel_def plain_def Split_single)

text \<open>An operation on one entry, and the whole loop.\<close>

lemma unpack_dir:
  assumes "plain sname" "''..'' \<notin> set (Split (CHR ''/'') name)" "rel name \<noteq> []"
    and "fs (location_key sname @ butlast (rel name)) = Some DirNode" "fs (location_key sname @ rel name) = None"
  shows "os_Mkdir no_io (kernel_location sname @ name) fs = fs(location_key sname @ rel name \<mapsto> DirNode)"
  using assms by (simp add: os_Mkdir_def location_entry_key no_io_def parent_dir_def butlast_append)

lemma unpack_reg:
  assumes "plain sname" "''..'' \<notin> set (Split (CHR ''/'') (te_Name e))" "rel (te_Name e) \<noteq> []"
    and "fs (location_key sname @ butlast (rel (te_Name e))) = Some DirNode"
    and "fs (location_key sname @ rel (te_Name e)) = None" "\<not> ends_in_slash (te_Name e)"
  shows "unpack_file no_io (kernel_location sname @ te_Name e) e fs =
    fs(location_key sname @ rel (te_Name e) \<mapsto> FileNode (Plain (te_Data e)) (Some (te_Mode e)))"
proof -
  have "te_Name e \<noteq> []" using assms(3) by (auto simp: rel_def)
  then have "\<not> ends_in_slash (kernel_location sname @ te_Name e)"
    using assms(6) by (auto simp: ends_in_slash_def HasSuffix_iff append_eq_append_conv2 append_eq_Cons_conv Cons_eq_append_conv)
  then show ?thesis
    using assms by (simp add: unpack_file_def os_Create_def location_entry_key no_io_def parent_dir_def butlast_append)
qed

lemma packed_Cons:
  "packed (e # es) r = (if r = rel (te_Name e) then Some (entry_node e) else packed es r)"
  by (simp add: packed_def)

lemma unpack_exact:
  assumes "plain sname" "well_packed dirs seen es"
    and "\<And>d. d \<in> dirs \<Longrightarrow> fs (location_key sname @ d) = Some DirNode"
    and "\<And>r. r \<notin> seen \<Longrightarrow> fs (location_key sname @ r) = None"
  shows "\<exists>fs'. unpack no_io (kernel_location sname) end_err es fs = (end_err, fs') \<and>
    (\<forall>r. fs' (location_key sname @ r) =
       (if r \<in> seen then fs (location_key sname @ r) else packed es r)) \<and>
    (\<forall>k. \<not> prefix (location_key sname) k \<longrightarrow> fs' k = fs k)"
  using assms(2-4)
proof (induction es arbitrary: dirs seen fs)
  case Nil
  then show ?case by (auto simp: packed_def)
next
  case (Cons e es)
  define r0 where "r0 = rel (te_Name e)"
  define n where "n = entry_node e"
  define fs1 where "fs1 = fs(location_key sname @ r0 \<mapsto> n)"
  have wp: "''..'' \<notin> set (Split (CHR ''/'') (te_Name e))" "r0 \<notin> seen" "r0 \<noteq> []" "butlast r0 \<in> dirs"
    using Cons.prems(1) by (auto simp: r0_def)
  have at: "fs (location_key sname @ butlast r0) = Some DirNode" "fs (location_key sname @ r0) = None"
    using Cons.prems(2,3) wp by auto
  have step: "unpack no_io (kernel_location sname) end_err (e # es) fs =
        unpack no_io (kernel_location sname) end_err es fs1 \<and>
      (\<exists>dirs'. well_packed dirs' (insert r0 seen) es \<and> (\<forall>d \<in> dirs'. fs1 (location_key sname @ d) = Some DirNode))"
  proof (cases "te_Typeflag e")
    case TypeDir
    then have "well_packed (insert r0 dirs) (insert r0 seen) es" using Cons.prems(1) by (simp add: r0_def)
    moreover have "os_Mkdir no_io (kernel_location sname @ te_Name e) fs = fs1"
      using unpack_dir [OF assms(1) wp(1)] wp at TypeDir by (simp add: r0_def fs1_def n_def entry_node_def)
    ultimately show ?thesis
      using TypeDir Cons.prems(2) by (intro conjI exI [of _ "insert r0 dirs"]) (auto simp: fs1_def n_def entry_node_def)
  next
    case TypeReg
    then have "well_packed dirs (insert r0 seen) es" "\<not> ends_in_slash (te_Name e)"
      using Cons.prems(1) by (simp_all add: r0_def)
    moreover from this have "unpack_file no_io (kernel_location sname @ te_Name e) e fs = fs1"
      using unpack_reg [OF assms(1) wp(1)] wp at TypeReg by (simp add: r0_def fs1_def n_def entry_node_def)
    moreover have "d \<in> dirs \<Longrightarrow> fs1 (location_key sname @ d) = Some DirNode" for d
      using Cons.prems(2) [of d] at by (auto simp: fs1_def)
    ultimately show ?thesis using TypeReg by auto
  next
    case TypeOther
    then show ?thesis using Cons.prems(1) by simp
  qed
  then obtain dirs' where dirs': "well_packed dirs' (insert r0 seen) es"
      "\<And>d. d \<in> dirs' \<Longrightarrow> fs1 (location_key sname @ d) = Some DirNode" by blast
  have "\<And>r. r \<notin> insert r0 seen \<Longrightarrow> fs1 (location_key sname @ r) = None"
    using Cons.prems(3) by (simp add: fs1_def)
  then have "\<exists>fs'. unpack no_io (kernel_location sname) end_err es fs1 = (end_err, fs') \<and>
      (\<forall>r. fs' (location_key sname @ r) =
         (if r \<in> insert r0 seen then fs1 (location_key sname @ r) else packed es r)) \<and>
      (\<forall>k. \<not> prefix (location_key sname) k \<longrightarrow> fs' k = fs1 k)"
    by (intro Cons.IH [where dirs = dirs' and seen = "insert r0 seen"] dirs') 
  then obtain fs' where
    "unpack no_io (kernel_location sname) end_err es fs1 = (end_err, fs')"
    "\<And>r. fs' (location_key sname @ r) =
       (if r \<in> insert r0 seen then fs1 (location_key sname @ r) else packed es r)"
    "\<And>k. \<not> prefix (location_key sname) k \<Longrightarrow> fs' k = fs1 k" by blast
  then show ?case
    using step wp(2) by (auto simp: packed_Cons fs1_def n_def r0_def)
qed

section \<open>The image of a new service\<close>

text \<open>The directories the runtime makes at its start, and a service and an instance that are new.\<close>

definition base_dirs :: "fs \<Rightarrow> bool" where
  "base_dirs fs \<longleftrightarrow>
     fs [] = Some DirNode \<and> fs [''tmp''] = Some DirNode \<and> fs [''tmp'', ''node_engine''] = Some DirNode \<and>
     fs [''tmp'', ''node_engine'', ''kernel''] = Some DirNode \<and>
     fs [''tmp'', ''node_engine'', ''inst''] = Some DirNode"

definition inst_key :: "string \<Rightarrow> string list" where
  "inst_key name = [''tmp'', ''node_engine'', ''inst'', name]"

definition tar_key :: "string \<Rightarrow> string list" where
  "tar_key sname = [''tmp'', ''node_engine'', ''kernel'', sname @ ''.tar.gz'']"

text \<open>
  The runtime's start: the QEMU program for the node's architecture, and the directories, made with
  their parents.
\<close>

fun mkdir_all :: "string list \<Rightarrow> string list \<Rightarrow> fs \<Rightarrow> fs" where
  "mkdir_all made [] fs = fs"
| "mkdir_all made (c # rest) fs =
     (case fs (made @ [c]) of
        None \<Rightarrow> mkdir_all (made @ [c]) rest (fs(made @ [c] \<mapsto> DirNode))
      | Some DirNode \<Rightarrow> mkdir_all (made @ [c]) rest fs
      | Some (FileNode _ _) \<Rightarrow> fs)"

definition os_MkdirAll :: "string \<Rightarrow> fs \<Rightarrow> fs" where
  "os_MkdirAll p fs = mkdir_all [] (path_elements p) fs"

definition newUnikernelQemuRuntime :: "string \<Rightarrow> (string \<Rightarrow> string) \<Rightarrow> fs \<Rightarrow> string \<times> fs" where
  "newUnikernelQemuRuntime goarch lookPath fs =
     (lookPath (if goarch = ''amd64'' then ''qemu-system-x86_64'' else ''qemu-system-aarch64''),
      os_MkdirAll ''/tmp/node_engine/inst/'' (os_MkdirAll ''/tmp/node_engine/kernel/tmp/'' fs))"

lemma mkdir_all_step:
  "\<not> is_file (fs (made @ [c])) \<Longrightarrow>
   mkdir_all made (c # rest) fs = mkdir_all (made @ [c]) rest (fs(made @ [c] \<mapsto> DirNode))"
  by (auto simp: fun_upd_idem split: option.splits node.splits)

lemma runtime_makes_base_dirs:
  assumes "fs [] = Some DirNode" "\<And>k. \<not> is_file (fs k)"
  shows "base_dirs (snd (newUnikernelQemuRuntime goarch lookPath fs))"
proof -
  have "path_elements ''/tmp/node_engine/inst/'' = [''tmp'', ''node_engine'', ''inst'']"
      "path_elements ''/tmp/node_engine/kernel/tmp/'' = [''tmp'', ''node_engine'', ''kernel'', ''tmp'']"
    by (simp_all add: path_elements_def path_rooted_def HasPrefix_def path_step_def)
  then show ?thesis
    using assms
    by (simp add: newUnikernelQemuRuntime_def os_MkdirAll_def base_dirs_def mkdir_all_step del: mkdir_all.simps(2))
qed

text \<open>\<open>cp\<close> and \<open>mv\<close> into an instance's directory change nothing outside it.\<close>

definition confined :: "image_env \<Rightarrow> string \<Rightarrow> bool" where
  "confined env name \<longleftrightarrow>
     (\<forall>args fs k. \<not> prefix (inst_key name) k \<longrightarrow> ie_run env args fs k = fs k)"

lemma key_simps [simp]:
  "plain name \<Longrightarrow> path_elements (inst_path @ name) = inst_key name"
  "plain sname \<Longrightarrow> path_elements (kernel_tar sname) = tar_key sname"
  by (simp_all add: base_keys kernel_tar_key inst_key_def tar_key_def)

lemma instance_files_outside:
  "confined env name \<Longrightarrow> plain name \<Longrightarrow> \<not> prefix (inst_key name) k \<Longrightarrow>
   instance_files env sname (inst_path @ name) fs k = fs k"
  by (simp add: instance_files_def Let_def confined_def)

lemma outside_inst [simp]:
  "\<not> prefix (inst_key name) (tar_key sname)" "\<not> prefix (inst_key name) (location_key sname @ r)"
  "\<not> prefix (location_key sname) (tar_key sname)" "\<not> prefix (location_key sname) (inst_key name)"
  by (simp_all add: inst_key_def tar_key_def location_key_def)

lemma base_dirs_at:
  "base_dirs fs \<Longrightarrow> n < 4 \<Longrightarrow> fs (take n (inst_key name)) = Some DirNode"
  "base_dirs fs \<Longrightarrow> n < 4 \<Longrightarrow> fs (take n (tar_key sname)) = Some DirNode"
  "base_dirs fs \<Longrightarrow> n < 4 \<Longrightarrow> fs (take n (location_key sname)) = Some DirNode"
  by (auto simp: base_dirs_def inst_key_def tar_key_def location_key_def less_Suc_eq numeral_eq_Suc)

lemma not_below_dirs: "(\<And>n. n < length k \<Longrightarrow> fs (take n k) = Some DirNode) \<Longrightarrow> \<not> below_file fs k"
  by (auto simp: below_file_def list_ex_iff)

lemma not_below [simp]:
  "base_dirs fs \<Longrightarrow> \<not> below_file fs (inst_key name)"
  "base_dirs fs \<Longrightarrow> \<not> below_file fs (tar_key sname)"
  "base_dirs fs \<Longrightarrow> \<not> below_file fs (location_key sname)"
proof -
  assume b: "base_dirs fs"
  have l: "length (inst_key name) = 4" "length (tar_key sname) = 4" "length (location_key sname) = 4"
    by (simp_all add: inst_key_def tar_key_def location_key_def)
  show "\<not> below_file fs (inst_key name)" "\<not> below_file fs (tar_key sname)" "\<not> below_file fs (location_key sname)"
    using base_dirs_at [OF b] by (auto intro!: not_below_dirs simp: l)
qed

lemma plain_kernel [simp]: "plain ''kernel''" "plain ''files''" "plain ''files1''" "plain ''initramfs.cpio''"
  by (simp_all add: plain_def)

lemma stat_no_io:
  "os_Stat no_io p fs =
     (if below_file fs (path_elements p) then StatErr ''not a directory''
      else (case fs (path_elements p) of
              None \<Rightarrow> NotExist
            | Some DirNode \<Rightarrow> Exists
            | Some (FileNode _ _) \<Rightarrow> if ends_in_slash p then StatErr ''not a directory'' else Exists))"
  by (simp add: os_Stat_def no_io_def)

lemma below_location:
  assumes "base_dirs fs" "fs (location_key sname) = Some DirNode"
  shows "\<not> below_file fs (location_key sname @ [c])"
proof -
  have "n < 5 \<Longrightarrow> fs (take n (location_key sname @ [c])) = Some DirNode" for n
    using assms by (auto simp: base_dirs_def location_key_def less_Suc_eq numeral_eq_Suc)
  then show ?thesis by (intro not_below_dirs) (simp add: location_key_def)
qed

lemma kernel_no_slash: "\<not> ends_in_slash (p @ ''kernel'')" "\<not> ends_in_slash (kernel_tar sname)"
  by (auto simp: ends_in_slash_def HasSuffix_def kernel_tar_def)

lemma base_dirs_upd:
  "base_dirs fs \<Longrightarrow> base_dirs (fs(inst_key name \<mapsto> n))"
  "base_dirs fs \<Longrightarrow> base_dirs (fs(tar_key sname \<mapsto> n))"
  "base_dirs fs \<Longrightarrow> base_dirs (fs(location_key sname \<mapsto> n))"
  by (simp_all add: base_dirs_def inst_key_def tar_key_def location_key_def)

lemma keys_differ [simp]:
  "tar_key sname \<noteq> inst_key name" "location_key sname @ r \<noteq> inst_key name" "location_key sname @ r \<noteq> tar_key sname"
  "inst_key name \<noteq> tar_key sname" "inst_key name \<noteq> location_key sname" "tar_key sname \<noteq> location_key sname"
  "location_key sname \<noteq> tar_key sname" "location_key sname \<noteq> inst_key name"
  by (auto simp: inst_key_def tar_key_def location_key_def)

lemma inst_key_inject [simp]: "inst_key a = inst_key b \<longleftrightarrow> a = b"
  by (simp add: inst_key_def)

lemma base_dirs_agree:
  "base_dirs fs \<Longrightarrow> (\<And>k. \<not> prefix (location_key sname) k \<Longrightarrow> fs' k = fs k) \<Longrightarrow> base_dirs fs'"
  "base_dirs fs \<Longrightarrow> (\<And>k. \<not> prefix (inst_key name) k \<Longrightarrow> fs' k = fs k) \<Longrightarrow> base_dirs fs'"
  by (simp_all add: base_dirs_def inst_key_def location_key_def)

lemma parents [simp]:
  "base_dirs fs \<Longrightarrow> parent_dir fs (inst_key name)"
  "base_dirs fs \<Longrightarrow> parent_dir fs (tar_key sname)"
  "base_dirs fs \<Longrightarrow> parent_dir fs (location_key sname)"
  by (simp_all add: base_dirs_def parent_dir_def inst_key_def tar_key_def location_key_def)

text \<open>The state after the archive of a new service was stored and its directory made.\<close>

definition stored :: "string \<Rightarrow> string \<Rightarrow> tarball \<Rightarrow> fs \<Rightarrow> fs" where
  "stored name sname body fs =
     fs(inst_key name \<mapsto> DirNode, tar_key sname \<mapsto> FileNode (Archive body) None, location_key sname \<mapsto> DirNode)"

definition new_service :: "string \<Rightarrow> string \<Rightarrow> fs \<Rightarrow> bool" where
  "new_service name sname fs \<longleftrightarrow>
     plain name \<and> plain sname \<and> base_dirs fs \<and> fs (inst_key name) = None \<and> fs (tar_key sname) = None \<and>
     (\<forall>r. fs (location_key sname @ r) = None)"

lemma new_service_location: "new_service name sname fs \<Longrightarrow> fs (location_key sname) = None"
  unfolding new_service_def by (metis append_Nil2)

lemma new_service_fetch:
  assumes "new_service name sname fs" "ie_io env = no_io" "ie_Get env url = Ok \<lparr>dl_body = body, dl_err = None\<rparr>"
  shows "GetKernelImage env url name sname fs =
    (case unpack_archive env sname body (stored name sname body fs) of
       (Some r, fs2) \<Rightarrow> (r, fs2)
     | (None, fs2) \<Rightarrow>
         let fs3 = instance_files env sname (inst_path @ name) fs2
         in (if os_Stat no_io (kernel_location sname @ ''kernel'') fs3 = Exists
             then Image (inst_path @ name) else NoImage, fs3))"
proof -
  note n = assms(1) [unfolded new_service_def]
  have p: "plain name" "plain sname" and b: "base_dirs fs" using n by auto
  have b1: "base_dirs (fs(inst_key name \<mapsto> DirNode))" using b by (rule base_dirs_upd)
  have "os_Stat no_io (inst_path @ name) fs = NotExist"
    using n p b by (simp add: stat_no_io)
  moreover have "os_Mkdir no_io (inst_path @ name) fs = fs(inst_key name \<mapsto> DirNode)"
    using n p b by (simp add: os_Mkdir_def no_io_def)
  moreover have "os_Stat no_io (kernel_tar sname) (fs(inst_key name \<mapsto> DirNode)) = NotExist"
    using n p b1 by (simp add: stat_no_io)
  moreover have "os_Create no_io (kernel_tar sname) (fs(inst_key name \<mapsto> DirNode)) =
      Ok (fs(inst_key name \<mapsto> DirNode, tar_key sname \<mapsto> FileNode (Plain []) None))"
    using n p b1 by (simp add: os_Create_def no_io_def kernel_no_slash)
  moreover have "os_Mkdir no_io (kernel_location sname)
      (fs(inst_key name \<mapsto> DirNode, tar_key sname \<mapsto> FileNode (Archive body) None)) = stored name sname body fs"
    using new_service_location [OF assms(1)] p base_dirs_upd(2) [OF b1]
    by (simp add: os_Mkdir_def no_io_def stored_def)
  ultimately show ?thesis
    using assms(2,3) p by (simp add: GetKernelImage_def fetch_kernel_def Let_def split: prod.split option.split)
qed

lemma stat_agree:
  assumes "\<And>k. \<not> prefix (inst_key name) k \<Longrightarrow> fs' k = fs k" "plain sname"
  shows "os_Stat no_io (kernel_location sname @ ''kernel'') fs' = os_Stat no_io (kernel_location sname @ ''kernel'') fs"
proof -
  have "\<not> prefix (inst_key name) (take n (location_key sname @ [''kernel'']))" for n
    by (auto simp: inst_key_def location_key_def prefix_def take_Cons' split: if_splits)
  then have "below_file fs' (location_key sname @ [''kernel'']) = below_file fs (location_key sname @ [''kernel''])"
    using assms(1) by (simp add: below_file_def)
  then show ?thesis
    using assms(1) [OF outside_inst(2) [of name sname "[''kernel'']"]] assms(2) by (simp add: stat_no_io)
qed

text \<open>The unpacked archive of a new service, whether its reader ends in an error or not.\<close>

lemma new_service_unpack:
  assumes "new_service name sname fs" "ie_io env = no_io" "well_packed {[]} {[]} es"
  shows "\<exists>fs2. unpack_archive env sname (Tar es err) (stored name sname (Tar es err) fs) =
      ((case err of None \<Rightarrow> None | Some _ \<Rightarrow> Some NoImage), fs2) \<and>
    (\<forall>r. fs2 (location_key sname @ r) = (if r = [] then Some DirNode else packed es r)) \<and>
    (\<forall>k. \<not> prefix (location_key sname) k \<longrightarrow> fs2 k = stored name sname (Tar es err) fs k) \<and> base_dirs fs2 \<and>
    (os_Stat no_io (kernel_location sname @ ''kernel'') fs2 = Exists \<longleftrightarrow> packed es [''kernel''] \<noteq> None)"
proof -
  note n = assms(1) [unfolded new_service_def]
  define st where "st = stored name sname (Tar es err) fs"
  have at: "st (location_key sname) = Some DirNode" "r \<noteq> [] \<Longrightarrow> st (location_key sname @ r) = None" for r
    using n by (simp_all add: st_def stored_def)
  have bst: "base_dirs st" using n by (simp add: st_def stored_def base_dirs_upd)
  have "\<exists>fs2. unpack no_io (kernel_location sname) err es st = (err, fs2) \<and>
      (\<forall>r. fs2 (location_key sname @ r) =
         (if r \<in> {[]} then st (location_key sname @ r) else packed es r)) \<and>
      (\<forall>k. \<not> prefix (location_key sname) k \<longrightarrow> fs2 k = st k)"
    using n at by (intro unpack_exact [OF _ assms(3)]) auto
  then obtain fs2 where u: "unpack no_io (kernel_location sname) err es st = (err, fs2)"
    and r2: "\<And>r. fs2 (location_key sname @ r) = (if r = [] then Some DirNode else packed es r)"
    and o2: "\<And>k. \<not> prefix (location_key sname) k \<Longrightarrow> fs2 k = st k"
    using at(1) by auto
  have b2: "base_dirs fs2" using base_dirs_agree(1) [OF bst o2] by auto
  have "fs2 (location_key sname) = Some DirNode" using r2 [of "[]"] by simp
  then have "os_Stat no_io (kernel_location sname @ ''kernel'') fs2 = Exists \<longleftrightarrow> packed es [''kernel''] \<noteq> None"
    using n below_location [OF b2] r2 [of "[''kernel'']"] kernel_no_slash
    by (auto simp: stat_no_io split: option.splits node.splits)
  moreover have "unpack_archive env sname (Tar es err) st = ((case err of None \<Rightarrow> None | Some _ \<Rightarrow> Some NoImage), fs2)"
    using u assms(2) by (simp add: unpack_archive_def no_io_def split: option.split)
  ultimately show ?thesis using r2 o2 b2 unfolding st_def by blast
qed

lemma new_service_image:
  assumes "new_service name sname fs" "ie_io env = no_io" "confined env name"
    and "ie_Get env url = Ok \<lparr>dl_body = Tar es None, dl_err = None\<rparr>" "well_packed {[]} {[]} es"
    and "unpack_archive env sname (Tar es None) (stored name sname (Tar es None) fs) = (None, fs2)"
  shows "GetKernelImage env url name sname fs =
    (if packed es [''kernel''] \<noteq> None then Image (inst_path @ name) else NoImage,
     instance_files env sname (inst_path @ name) fs2)"
proof -
  have p: "plain name" "plain sname" using assms(1) by (simp_all add: new_service_def)
  have "os_Stat no_io (kernel_location sname @ ''kernel'') (instance_files env sname (inst_path @ name) fs2) =
      os_Stat no_io (kernel_location sname @ ''kernel'') fs2"
    by (rule stat_agree [OF instance_files_outside [OF assms(3) p(1)] p(2)])
  then show ?thesis
    using new_service_fetch [OF assms(1,2,4)] new_service_unpack [OF assms(1,2,5), of None] assms(6) by simp
qed

text \<open>
  C13: A new service whose archive lists directories before their contents: its kernel directory holds
  exactly the archive, the archive is kept, and the instance gets its image if and only if there
  is a kernel in it.
\<close>

theorem image_unpacked:
  assumes "new_service name sname fs" "ie_io env = no_io" "confined env name"
    and "ie_Get env url = Ok \<lparr>dl_body = Tar es None, dl_err = None\<rparr>" "well_packed {[]} {[]} es"
  shows "\<exists>fs'. GetKernelImage env url name sname fs =
      (if packed es [''kernel''] \<noteq> None then Image (inst_path @ name) else NoImage, fs') \<and>
    fs' (tar_key sname) = Some (FileNode (Archive (Tar es None)) None) \<and>
    fs' (location_key sname) = Some DirNode \<and>
    (\<forall>r. r \<noteq> [] \<longrightarrow> fs' (location_key sname @ r) = packed es r)"
proof -
  have p: "plain name" using assms(1) by (simp add: new_service_def)
  obtain fs2 where u: "unpack_archive env sname (Tar es None) (stored name sname (Tar es None) fs) = (None, fs2)"
    and r2: "\<And>r. fs2 (location_key sname @ r) = (if r = [] then Some DirNode else packed es r)"
    and o2: "\<And>k. \<not> prefix (location_key sname) k \<Longrightarrow> fs2 k = stored name sname (Tar es None) fs k"
    using new_service_unpack [OF assms(1,2,5), of None] by auto
  define fs3 where "fs3 = instance_files env sname (inst_path @ name) fs2"
  have out: "\<not> prefix (inst_key name) k \<Longrightarrow> fs3 k = fs2 k" for k
    using instance_files_outside [OF assms(3) p] by (simp add: fs3_def)
  have r3: "fs3 (location_key sname @ r) = (if r = [] then Some DirNode else packed es r)" for r
    using r2 out [of "location_key sname @ r"] by simp
  have "fs3 (tar_key sname) = Some (FileNode (Archive (Tar es None)) None)"
    using out [of "tar_key sname"] o2 [of "tar_key sname"] by (simp add: stored_def)
  then show ?thesis
    using new_service_image [OF assms u] r3 r3 [of "[]"] by (auto simp: fs3_def)
qed

definition small_archive :: "tar_entry list" where
  "small_archive =
     [\<lparr>te_Name = ''./files/'', te_Typeflag = TypeDir, te_Mode = 493, te_Data = []\<rparr>,
      \<lparr>te_Name = ''./files/index.html'', te_Typeflag = TypeReg, te_Mode = 420, te_Data = ''hello''\<rparr>,
      \<lparr>te_Name = ''./kernel'', te_Typeflag = TypeReg, te_Mode = 493, te_Data = ''elf''\<rparr>]"

definition base_fs :: fs where
  "base_fs = [[] \<mapsto> DirNode, [''tmp''] \<mapsto> DirNode, [''tmp'', ''node_engine''] \<mapsto> DirNode,
     [''tmp'', ''node_engine'', ''kernel''] \<mapsto> DirNode, [''tmp'', ''node_engine'', ''inst''] \<mapsto> DirNode]"

definition image_server :: "tarball \<Rightarrow> image_env" where
  "image_server body = \<lparr>ie_io = no_io, ie_Get = (\<lambda>url. Ok \<lparr>dl_body = body, dl_err = None\<rparr>), ie_run = (\<lambda>args fs. fs)\<rparr>"

lemma new_service_base: "plain name \<Longrightarrow> plain sname \<Longrightarrow> new_service name sname base_fs"
  by (auto simp: new_service_def base_dirs_def base_fs_def inst_key_def tar_key_def location_key_def)

lemma small_archive_ok: "well_packed {[]} {[]} small_archive"
  by (simp add: small_archive_def rel_def ends_in_slash_def HasSuffix_def)

lemma small_archive_kernel: "packed small_archive [''kernel''] \<noteq> None"
  by (simp add: small_archive_def packed_def rel_def)

lemma server_simps [simp]:
  "ie_io (image_server body) = no_io" "confined (image_server body) name"
  "ie_Get (image_server body) url = Ok \<lparr>dl_body = body, dl_err = None\<rparr>"
  by (simp_all add: image_server_def confined_def)

lemma plain_names [simp]: "plain ''web''" "plain ''web.instance.0''" "plain ''web.instance.1''"
  by (simp_all add: plain_def)

theorem image_unpacked_witness:
  "\<exists>fs'. GetKernelImage (image_server (Tar small_archive None)) ''http://a/k'' ''web.instance.0'' ''web'' base_fs =
      (Image (inst_path @ ''web.instance.0''), fs') \<and>
    fs' (location_key ''web'' @ [''files'', ''index.html'']) = Some (FileNode (Plain ''hello'') (Some 420))"
proof -
  have "packed small_archive [''files'', ''index.html''] = Some (FileNode (Plain ''hello'') (Some 420))"
    by (simp add: small_archive_def packed_def rel_def entry_node_def)
  then show ?thesis
    using image_unpacked [of "''web.instance.0''" "''web''" base_fs "image_server (Tar small_archive None)"
      "''http://a/k''" small_archive] small_archive_kernel small_archive_ok new_service_base
    by fastforce
qed

section \<open>An archive that was stored once\<close>

text \<open>The archive is there: nothing is downloaded, whatever came of unpacking it.\<close>

lemma cached_call:
  assumes "plain name" "plain sname" "base_dirs fs" "is_file (fs (tar_key sname))" "fs (inst_key name) = None"
    and "ie_io env = no_io" "confined env name"
  shows "fst (GetKernelImage env url name sname fs) =
    (if os_Stat no_io (kernel_location sname @ ''kernel'') fs = Exists then Image (inst_path @ name) else NoImage)"
proof -
  define fs1 where "fs1 = fs(inst_key name \<mapsto> DirNode)"
  define fs3 where "fs3 = instance_files env sname (inst_path @ name) fs1"
  have o: "\<not> prefix (inst_key name) k \<Longrightarrow> fs3 k = fs k" for k
    using instance_files_outside [OF assms(7,1)] by (auto simp: fs3_def fs1_def)
  obtain c m where tar: "fs (tar_key sname) = Some (FileNode c m)"
    using assms(4) by (auto elim!: is_file.elims)
  have "base_dirs fs1" using assms(3) by (simp add: fs1_def base_dirs_upd)
  then have "os_Stat no_io (kernel_tar sname) fs1 = Exists"
    using assms(2) tar by (simp add: stat_no_io fs1_def kernel_no_slash)
  moreover have "os_Stat no_io (inst_path @ name) fs = NotExist" "os_Mkdir no_io (inst_path @ name) fs = fs1"
    using assms(1,3,5) by (simp_all add: stat_no_io os_Mkdir_def fs1_def) (simp add: no_io_def)
  ultimately show ?thesis
    using assms(6) stat_agree [of name fs3 fs sname, OF o assms(2)]
    by (simp add: GetKernelImage_def Let_def fs3_def)
qed

text \<open>
  The archive of a new service breaks off in the middle: the first deployment fails, and every
  later instance of the service is given whatever was unpacked, without another download: it
  runs with missing files if the kernel was among it, and fails for good otherwise.
\<close>

theorem truncated_archive_reused:
  assumes "new_service name sname fs" "ie_io env = no_io"
    and "ie_Get env url = Ok \<lparr>dl_body = Tar es (Some e), dl_err = None\<rparr>" "well_packed {[]} {[]} es"
    and "GetKernelImage env url name sname fs = (r, fs1)"
    and "ie_io env' = no_io" "confined env' name'" "plain name'" "name' \<noteq> name" "fs (inst_key name') = None"
  shows "r = NoImage \<and>
    fst (GetKernelImage env' url' name' sname fs1) =
      (if packed es [''kernel''] \<noteq> None then Image (inst_path @ name') else NoImage)"
proof -
  note n = assms(1) [unfolded new_service_def]
  obtain fs2 where u: "unpack_archive env sname (Tar es (Some e)) (stored name sname (Tar es (Some e)) fs) = (Some NoImage, fs2)"
    and o2: "\<And>k. \<not> prefix (location_key sname) k \<Longrightarrow> fs2 k = stored name sname (Tar es (Some e)) fs k"
    and b2: "base_dirs fs2"
    and kernel: "os_Stat no_io (kernel_location sname @ ''kernel'') fs2 = Exists \<longleftrightarrow> packed es [''kernel''] \<noteq> None"
    using new_service_unpack [OF assms(1,2,4), of "Some e"] by auto
  have "r = NoImage" "fs1 = fs2"
    using new_service_fetch [OF assms(1-3)] assms(5) u by simp_all
  moreover have "is_file (fs2 (tar_key sname))" "fs2 (inst_key name') = None"
    using o2 [of "tar_key sname"] o2 [of "inst_key name'"] assms(9,10) by (simp_all add: stored_def)
  ultimately show ?thesis
    using cached_call [OF assms(8) _ b2 _ _ assms(6,7)] n kernel by auto
qed

theorem truncated_archive_reused_witness:
  "fst (GetKernelImage (image_server (Tar small_archive None)) ''http://a/k'' ''web.instance.1'' ''web''
     (snd (GetKernelImage (image_server (Tar (take 2 small_archive) (Some ''unexpected EOF''))) ''http://a/k''
       ''web.instance.0'' ''web'' base_fs))) = NoImage"
proof -
  have w: "well_packed {[]} {[]} (take 2 small_archive)"
    by (simp add: small_archive_def rel_def ends_in_slash_def HasSuffix_def)
  have k: "packed (take 2 small_archive) [''kernel''] = None"
    by (simp add: small_archive_def packed_def rel_def)
  show ?thesis
    using truncated_archive_reused [OF new_service_base, of "''web.instance.0''" "''web''"
        "image_server (Tar (take 2 small_archive) (Some ''unexpected EOF''))" "''http://a/k''"
        "take 2 small_archive" "''unexpected EOF''" _ _ "image_server (Tar small_archive None)" "''web.instance.1''",
        OF _ _ _ _ w prod.collapse [symmetric]] k
    by (simp add: base_fs_def inst_key_def)
qed

text \<open>
  While the first instance of a service downloads, the archive is an empty file that is already
  there: a second instance does not wait for it and fails.
\<close>

theorem second_instance_fails_during_download:
  assumes "new_service name sname fs" "ie_io env = no_io" "confined env name'" "plain name'" "name' \<noteq> name"
    and "fs (inst_key name') = None" "fs1 = os_Mkdir no_io (inst_path @ name) fs"
    and "os_Create no_io (kernel_tar sname) fs1 = Ok fs2"
  shows "fst (GetKernelImage env url name' sname fs2) = NoImage"
proof -
  note n = assms(1) [unfolded new_service_def]
  have b1: "base_dirs (fs(inst_key name \<mapsto> DirNode))" using n by (simp add: base_dirs_upd)
  have "fs1 = fs(inst_key name \<mapsto> DirNode)"
    using n assms(7) by (simp add: os_Mkdir_def no_io_def)
  then have fs2: "fs2 = fs(inst_key name \<mapsto> DirNode, tar_key sname \<mapsto> FileNode (Plain []) None)"
    using n b1 assms(8) by (simp add: os_Create_def no_io_def kernel_no_slash)
  have "fs2 (location_key sname @ [''kernel'']) = None" using n by (simp add: fs2)
  then have "os_Stat no_io (kernel_location sname @ ''kernel'') fs2 \<noteq> Exists"
    using n by (simp add: stat_no_io)
  then show ?thesis
    using cached_call [of name' sname fs2 env url] assms n base_dirs_upd(2) [OF b1]
    by (simp add: fs2)
qed

text \<open>A body that is no gzip stream, such as the page of an error, ends the node engine.\<close>

theorem download_without_gzip_panics:
  assumes "new_service name sname fs" "ie_io env = no_io" "ie_Get env url = Ok \<lparr>dl_body = NotGzip, dl_err = None\<rparr>"
  shows "fst (GetKernelImage env url name sname fs) = ImagePanic"
  using new_service_fetch [OF assms] assms(2) by (simp add: unpack_archive_def no_io_def)

text \<open>An entry whose name climbs out of the kernel directory replaces the kernel of another service.\<close>

theorem entry_replaces_other_kernel:
  "path_elements (kernel_location ''web'' @ ''../db/kernel'') = location_key ''db'' @ [''kernel''] \<and>
   unpack no_io (kernel_location ''web'') None
     [\<lparr>te_Name = ''../db/kernel'', te_Typeflag = TypeReg, te_Mode = 493, te_Data = ''evil''\<rparr>]
     [location_key ''db'' @ [''kernel''] \<mapsto> FileNode (Plain ''elf'') (Some 493)] =
   (None, [location_key ''db'' @ [''kernel''] \<mapsto> FileNode (Plain ''evil'') (Some 493)])"
proof -
  have k: "path_elements (kernel_location ''web'' @ ''../db/kernel'') = location_key ''db'' @ [''kernel'']"
    by (simp add: kernel_location_def kernel_path_def path_elements_def path_rooted_def HasPrefix_def
        path_step_def location_key_def)
  then show ?thesis
    by (simp add: unpack_file_def os_Create_def no_io_def ends_in_slash_def HasSuffix_def kernel_location_def)
qed

section \<open>The network namespace\<close>

record ns_env =
  ns_Get :: "string option"
  ns_GetFromName :: "string option"
  ns_Set :: "string option"
  ns_Routes :: "string + (nat \<times> string) list"
  ns_LinkByIndex :: "nat \<Rightarrow> string option"
  ns_tap0 :: "string + string"
  ns_AddrList :: "nat \<Rightarrow> string + (string \<times> string) list"
  ns_AddrDel :: "string option"

definition execInsideNsByName :: "ns_env \<Rightarrow> 'a \<Rightarrow> 'a \<times> string option \<Rightarrow> 'a \<times> string option" where
  "execInsideNsByName env zero inside =
     (if ns_Get env \<noteq> None then (zero, ns_Get env)
      else if ns_GetFromName env \<noteq> None then (zero, ns_GetFromName env)
      else if ns_Set env \<noteq> None then (zero, ns_Set env)
      else inside)"

definition RetrieveTapMacInNamespace :: "ns_env \<Rightarrow> string \<times> string option" where
  "RetrieveTapMacInNamespace env =
     execInsideNsByName env [] (case ns_tap0 env of Err e \<Rightarrow> ([], Some e) | Ok mac \<Rightarrow> (mac, None))"

record addresses =
  ad_ip :: string
  ad_gw :: string
  ad_mask :: string
  ad_mac :: string

definition no_addresses :: addresses where
  "no_addresses = \<lparr>ad_ip = [], ad_gw = [], ad_mask = [], ad_mac = []\<rparr>"

text \<open>Without exactly one default route the error is nil and the addresses are empty.\<close>

definition DeleteDefaultIpGwMask :: "ns_env \<Rightarrow> addresses \<times> string option" where
  "DeleteDefaultIpGwMask env =
     execInsideNsByName env no_addresses
       (case ns_Routes env of
          Err e \<Rightarrow> (no_addresses, Some e)
        | Ok routes \<Rightarrow>
            if length routes \<noteq> 1 then (no_addresses, None)
            else
              (let (idx, gw) = hd routes in
               if ns_LinkByIndex env idx \<noteq> None then (no_addresses, ns_LinkByIndex env idx)
               else
                 (case ns_tap0 env of
                    Err e \<Rightarrow> (no_addresses, Some e)
                  | Ok mac \<Rightarrow>
                      (case ns_AddrList env idx of
                         Err e \<Rightarrow> (no_addresses, Some e)
                       | Ok [] \<Rightarrow> (no_addresses, Some ''no IP address found'')
                       | Ok ((ip, netmask) # _) \<Rightarrow>
                           (\<lparr>ad_ip = ip, ad_gw = gw, ad_mask = netmask, ad_mac = mac\<rparr>, ns_AddrDel env)))))"

section \<open>The command line of QEMU\<close>

record QemuConfiguration =
  qc_Name :: string
  qc_Memory :: go_int
  qc_CPU :: go_int
  qc_Instancepath :: string
  qc_Kernel :: string
  qc_KernelArgs :: "string list"
  qc_NSname :: string

record qemu_env =
  qe_qemuPath :: string
  qe_Overlay :: bool
  qe_LogDirectory :: string
  qe_GOARCH :: string
  qe_addresses :: "addresses \<times> string option"
  qe_io :: io_env

definition network_args :: "QemuConfiguration \<Rightarrow> addresses \<Rightarrow> string list" where
  "network_args q a =
     [''-netdev'', ''tap,id=tap0,vhost=on'',
      ''-device'', ''virtio-net-pci,id=nic1,addr=0x0a,netdev=tap0,mac='' @ ad_mac a,
      ''-append'',
      ''netdev.ipv4_addr='' @ ad_ip a @ '' netdev.ipv4_gw_addr='' @ ad_gw a @
      '' netdev.ipv4_subnet_mask='' @ ad_mask a @ '' --'' @
      '' '' @ concat (map (\<lambda>kernelarg. kernelarg @ '' '') (qc_KernelArgs q))]"

definition fsdev :: "string \<Rightarrow> string \<Rightarrow> string list" where
  "fsdev i path = [''-fsdev'', ''local,security_model=passthrough,id='' @ i @ '',path='' @ path]"

definition fs_device :: "string \<Rightarrow> string \<Rightarrow> string list" where
  "fs_device i tag = [''-device'', ''virtio-9p-pci,fsdev='' @ i @ '',mount_tag='' @ tag]"

definition folder_args :: "QemuConfiguration \<Rightarrow> string list" where
  "folder_args q =
     fsdev ''hvirtio0'' (qc_Instancepath q @ ''/files'') @ fsdev ''hvirtio1'' (qc_Instancepath q @ ''/files'') @
     fs_device ''hvirtio0'' ''fs0'' @ fs_device ''hvirtio1'' ''fs1''"

definition ramdisk_args :: "QemuConfiguration \<Rightarrow> string list" where
  "ramdisk_args q =
     fsdev ''hvirtio1'' (qc_Instancepath q @ ''/initramfs.cpio'') @ fs_device ''hvirtio1'' ''fs1''"

definition GenerateArgs :: "qemu_env \<Rightarrow> fs \<Rightarrow> QemuConfiguration \<Rightarrow> string + string \<times> string list" where
  "GenerateArgs env fs q =
     (let overlay = qe_Overlay env;
          command = (if overlay then ''ip'' else qe_qemuPath env);
          args0 = (if overlay then [''netns'', ''exec'', qc_NSname q, qe_qemuPath env] else []) @
            [''-name'', qc_Name q @ '',debug-threads=on'',
             ''-serial'', ''file:'' @ qe_LogDirectory env @ ''/'' @ qc_Name q,
             ''-kernel'', qc_Kernel q, ''-nographic'', ''-nodefaults'', ''-no-user-config'',
             ''-m'', Itoa (sint (qc_Memory q)), ''-smp'', Itoa (sint (qc_CPU q))];
          rest =
            (if os_Stat (qe_io env) (qc_Instancepath q @ ''/files/'') fs = Exists then folder_args q else []) @
            (if os_Stat (qe_io env) (qc_Instancepath q @ ''/initramfs.cpio'') fs = Exists
             then ramdisk_args q else []) @
            [''-qmp'', ''unix:'' @ qc_Instancepath q @ ''/'' @ qc_Name q @ '',server,nowait'',
             ''-cpu'', ''host'', ''-enable-kvm''] @
            (if qe_GOARCH env \<noteq> ''amd64'' then [''-machine'', ''virt''] else [])
      in if overlay
         then (case qe_addresses env of
                 (_, Some e) \<Rightarrow> Err e
               | (a, None) \<Rightarrow> Ok (command, args0 @ network_args q a @ rest))
         else Ok (command, args0 @ rest))"

end
