(* ===== verification/UnikernelVm.thy ===== *)
theory UnikernelVm
  imports Unikernel
begin

text \<open>
  One unikernel machine (\<open>virtualization/internal/unikernel/UnikernelManagement.go\<close>): what its
  command line tells QEMU, its creation with what every early return leaves behind, its end, and
  the report of its resources. \<open>UnikernelRuntime\<close> models how the machines interleave.
\<close>

section \<open>What the command line says\<close>

text \<open>The values of an option, and the ids of the file system devices.\<close>

fun option_values :: "string \<Rightarrow> string list \<Rightarrow> string list" where
  "option_values opt (a # b # rest) =
     (if a = opt then b # option_values opt rest else option_values opt (b # rest))"
| "option_values opt rest = []"

definition id_of :: "string \<Rightarrow> string" where
  "id_of val = takeWhile (\<lambda>c. c \<noteq> CHR '','') (drop (length ''local,security_model=passthrough,id='') val)"

definition has_files :: "qemu_env \<Rightarrow> fs \<Rightarrow> QemuConfiguration \<Rightarrow> bool" where
  "has_files env fs q \<longleftrightarrow> os_Stat (qe_io env) (qc_Instancepath q @ ''/files/'') fs = Exists"

definition has_ramdisk :: "qemu_env \<Rightarrow> fs \<Rightarrow> QemuConfiguration \<Rightarrow> bool" where
  "has_ramdisk env fs q \<longleftrightarrow> os_Stat (qe_io env) (qc_Instancepath q @ ''/initramfs.cpio'') fs = Exists"

text \<open>No value of the configuration is itself an option.\<close>

definition no_option :: "string \<Rightarrow> bool" where
  "no_option s \<longleftrightarrow> \<not> HasPrefix s ''-''"

lemma option_values_skip: "a \<noteq> opt \<Longrightarrow> option_values opt (a # xs) = option_values opt xs"
  by (cases xs) auto

lemma append_not_option: "last ys \<noteq> last opt \<Longrightarrow> ys \<noteq> [] \<Longrightarrow> xs @ ys \<noteq> opt"
  by (metis last_appendR)

lemma Itoa_not_option: "Itoa i \<noteq> ''-fsdev''" "Itoa i \<noteq> ''-append''"
proof -
  have "c \<in> set (Itoa i) \<Longrightarrow> c \<noteq> CHR ''e'' \<and> c \<noteq> CHR ''a''" for c
    using Itoa_chars [of c i] by (auto simp: is_digit_def char_between_def)
  then show "Itoa i \<noteq> ''-fsdev''" "Itoa i \<noteq> ''-append''"
    by (metis list.set_intros(1,2))+
qed

lemma option_values_append:
  "xs = [] \<or> last xs \<noteq> opt \<Longrightarrow> option_values opt (xs @ ys) = option_values opt xs @ option_values opt ys"
  by (induction opt xs rule: option_values.induct) (auto simp: option_values_skip split: if_splits)

lemma option_values_none: "opt \<notin> set xs \<Longrightarrow> option_values opt xs = []"
  by (induction opt xs rule: option_values.induct) auto

text \<open>The command line, cut at the parts that depend on the network and on the instance's files.\<close>

definition args_head :: "qemu_env \<Rightarrow> QemuConfiguration \<Rightarrow> string list" where
  "args_head env q =
     (if qe_Overlay env then [''netns'', ''exec'', qc_NSname q, qe_qemuPath env] else []) @
     [''-name'', qc_Name q @ '',debug-threads=on'',
      ''-serial'', ''file:'' @ qe_LogDirectory env @ ''/'' @ qc_Name q,
      ''-kernel'', qc_Kernel q, ''-nographic'', ''-nodefaults'', ''-no-user-config'',
      ''-m'', Itoa (sint (qc_Memory q)), ''-smp'', Itoa (sint (qc_CPU q))]"

definition args_tail :: "qemu_env \<Rightarrow> QemuConfiguration \<Rightarrow> string list" where
  "args_tail env q =
     [''-qmp'', ''unix:'' @ qc_Instancepath q @ ''/'' @ qc_Name q @ '',server,nowait'',
      ''-cpu'', ''host'', ''-enable-kvm''] @
     (if qe_GOARCH env \<noteq> ''amd64'' then [''-machine'', ''virt''] else [])"

lemma GenerateArgs_parts:
  "GenerateArgs env fs q = Ok (command, args) \<Longrightarrow>
   command = (if qe_Overlay env then ''ip'' else qe_qemuPath env) \<and>
   args = args_head env q @ (if qe_Overlay env then network_args q (fst (qe_addresses env)) else []) @
     (if has_files env fs q then folder_args q else []) @
     (if has_ramdisk env fs q then ramdisk_args q else []) @ args_tail env q"
  by (auto simp: GenerateArgs_def Let_def args_head_def args_tail_def has_files_def has_ramdisk_def
      split: if_splits prod.splits option.splits)

lemma GenerateArgs_total:
  "snd (qe_addresses env) = None \<Longrightarrow> \<exists>c a. GenerateArgs env fs q = Ok (c, a)"
  by (cases "qe_addresses env") (simp add: GenerateArgs_def Let_def)

lemma head_values:
  assumes "no_option (qc_NSname q)" "no_option (qe_qemuPath env)" "no_option (qc_Kernel q)"
    and "opt = ''-fsdev'' \<or> opt = ''-append''"
  shows "option_values opt (args_head env q) = []" "last (args_head env q) \<noteq> opt"
proof -
  have "qc_NSname q \<noteq> opt" "qe_qemuPath env \<noteq> opt" "qc_Kernel q \<noteq> opt"
    using assms by (auto simp: no_option_def HasPrefix_def)
  moreover have "qc_Name q @ '',debug-threads=on'' \<noteq> opt"
    using assms(4) by (intro append_not_option) auto
  moreover have "Itoa (sint (qc_CPU q)) \<noteq> opt" "Itoa (sint (qc_Memory q)) \<noteq> opt"
    using assms(4) Itoa_not_option by auto
  moreover have "opt \<noteq> CHR ''n'' # x" "opt \<noteq> CHR ''f'' # x" "opt \<noteq> ''-name''" "opt \<noteq> ''-serial''"
    "opt \<noteq> ''-kernel''" "opt \<noteq> ''-nographic''" "opt \<noteq> ''-nodefaults''" "opt \<noteq> ''-no-user-config''"
    "opt \<noteq> ''-m''" "opt \<noteq> ''-smp''" "opt \<noteq> ''exec''" for x
    using assms(4) by auto
  ultimately have "opt \<notin> set (args_head env q)" "last (args_head env q) \<noteq> opt"
    by (auto simp: args_head_def)
  then show "option_values opt (args_head env q) = []" "last (args_head env q) \<noteq> opt"
    by (simp_all add: option_values_none)
qed

lemma part_values:
  "option_values ''-fsdev'' (network_args q a) = []" "last (network_args q a) \<noteq> ''-fsdev''"
  "option_values ''-append'' (network_args q a) = [last (network_args q a)]"
  "last (network_args q a) \<noteq> ''-append''" "network_args q a \<noteq> []"
  by (simp_all add: network_args_def)

lemma file_values:
  "map id_of (option_values ''-fsdev'' (folder_args q)) = [''hvirtio0'', ''hvirtio1'']"
  "map id_of (option_values ''-fsdev'' (ramdisk_args q)) = [''hvirtio1'']"
  "option_values ''-append'' (folder_args q) = []" "option_values ''-append'' (ramdisk_args q) = []"
  by (simp_all add: folder_args_def ramdisk_args_def fsdev_def fs_device_def id_of_def)

lemma file_lasts:
  "opt = ''-fsdev'' \<or> opt = ''-append'' \<Longrightarrow>
   last (folder_args q) \<noteq> opt \<and> last (ramdisk_args q) \<noteq> opt \<and> option_values opt (args_tail env q) = []"
  by (auto simp: folder_args_def ramdisk_args_def fs_device_def args_tail_def)

text \<open>
  A machine's file system devices: two for its folder and one for its ramdisk, whose ids are
  distinct unless it has both. Its commands reach the kernel only with the overlay network.
\<close>

theorem qemu_arguments:
  assumes "GenerateArgs env fs q = Ok (command, args)"
    and "no_option (qc_NSname q)" "no_option (qe_qemuPath env)" "no_option (qc_Kernel q)"
  shows "map id_of (option_values ''-fsdev'' args) =
      (if has_files env fs q then [''hvirtio0'', ''hvirtio1''] else []) @
      (if has_ramdisk env fs q then [''hvirtio1''] else []) \<and>
    (distinct (map id_of (option_values ''-fsdev'' args)) \<longleftrightarrow> \<not> (has_files env fs q \<and> has_ramdisk env fs q)) \<and>
    option_values ''-append'' args =
      (if qe_Overlay env then [last (network_args q (fst (qe_addresses env)))] else [])"
proof -
  note parts = GenerateArgs_parts [OF assms(1), THEN conjunct2]
  note head = head_values [OF assms(2-4)]
  have "map id_of (option_values ''-fsdev'' args) =
      (if has_files env fs q then [''hvirtio0'', ''hvirtio1''] else []) @
      (if has_ramdisk env fs q then [''hvirtio1''] else [])"
    using parts head [of "''-fsdev''"] part_values file_values file_lasts [of "''-fsdev''" q env]
    by (simp add: option_values_append)
  moreover have "option_values ''-append'' args =
      (if qe_Overlay env then [last (network_args q (fst (qe_addresses env)))] else [])"
    using parts head [of "''-append''"] part_values file_values file_lasts [of "''-append''" q env]
    by (simp add: option_values_append)
  ultimately show ?thesis by simp
qed

definition both_files :: "QemuConfiguration \<Rightarrow> fs" where
  "both_files q =
     [path_elements (qc_Instancepath q @ ''/files/'') \<mapsto> DirNode,
      path_elements (qc_Instancepath q @ ''/initramfs.cpio'') \<mapsto> FileNode (Plain ''cpio'') None]"

definition web_config :: QemuConfiguration where
  "web_config = \<lparr>qc_Name = ''web'', qc_Memory = 64, qc_CPU = 1, qc_Instancepath = ''/i'', qc_Kernel = ''/k/kernel'',
     qc_KernelArgs = [''run''], qc_NSname = ''web''\<rparr>"

definition plain_env :: qemu_env where
  "plain_env = \<lparr>qe_qemuPath = ''/bin/qemu'', qe_Overlay = False, qe_LogDirectory = ''/log'', qe_GOARCH = ''amd64'',
     qe_addresses = (no_addresses, None), qe_io = no_io\<rparr>"

lemma web_has_both: "has_files plain_env (both_files web_config) web_config"
  "has_ramdisk plain_env (both_files web_config) web_config"
proof -
  have "path_elements ''/i/files/'' = [''i'', ''files'']" "path_elements ''/i/initramfs.cpio'' = [''i'', ''initramfs.cpio'']"
    by (simp_all add: path_elements_def path_rooted_def HasPrefix_def path_step_def)
  then show "has_files plain_env (both_files web_config) web_config"
    "has_ramdisk plain_env (both_files web_config) web_config"
    by (simp_all add: has_files_def has_ramdisk_def plain_env_def web_config_def stat_no_io both_files_def
        below_file_def ends_in_slash_def HasSuffix_def upt_rec)
qed

theorem qemu_arguments_witness:
  "\<exists>args. GenerateArgs plain_env (both_files web_config) web_config = Ok (''/bin/qemu'', args) \<and>
     \<not> distinct (map id_of (option_values ''-fsdev'' args)) \<and> option_values ''-append'' args = []"
proof -
  obtain args where a: "GenerateArgs plain_env (both_files web_config) web_config = Ok (''/bin/qemu'', args)"
    by (simp add: GenerateArgs_def plain_env_def Let_def)
  have n: "no_option (qc_NSname web_config)" "no_option (qe_qemuPath plain_env)" "no_option (qc_Kernel web_config)"
    by (simp_all add: no_option_def HasPrefix_def web_config_def plain_env_def)
  have "\<not> qe_Overlay plain_env" by (simp add: plain_env_def)
  then show ?thesis
    using a qemu_arguments [OF a n] web_has_both by auto
qed

text \<open>
  A namespace without exactly one default route is no error: the machine starts with empty
  addresses and an empty MAC.
\<close>

lemma missing_route_unnoticed:
  assumes "ns_Get env = None" "ns_GetFromName env = None" "ns_Set env = None"
    and "ns_Routes env = Ok routes" "length routes \<noteq> 1"
  shows "DeleteDefaultIpGwMask env = (no_addresses, None)"
  using assms by (simp add: DeleteDefaultIpGwMask_def execInsideNsByName_def)

section \<open>Creation and end of a machine\<close>

record qemuDomain =
  qd_Name :: string
  qd_Sname :: string
  qd_Instance :: go_int
  qd_Pid :: nat

text \<open>
  The runtime's tables and what it holds outside: files, network namespaces, processes, and the
  statuses it reported. The kill queue's values are channels, by number.
\<close>

record uk_world =
  uw_fs :: fs
  uw_killQueue :: "string \<rightharpoonup> nat option"
  uw_qemuDomains :: "string \<rightharpoonup> qemuDomain"
  uw_namespaces :: "string set"
  uw_procs :: "nat set"
  uw_reports :: "Service list"

datatype dial = DialOk | DialNotExist | DialErr string

record vm_env =
  ve_image :: image_env
  ve_qemu :: qemu_env
  ve_CreateNs :: "string option"
  ve_DeleteNs :: "string option"
  ve_Start :: "string \<Rightarrow> string list \<Rightarrow> string + nat"
  ve_dial :: "nat \<Rightarrow> dial"
  ve_Monitor :: "string option"

datatype vm_result = VmPanic | VmFailed string | VmStarted qemuDomain

definition host_of :: "Service \<Rightarrow> string" where
  "host_of service = Generate (svc_Sname service) (svc_Instance service)"

definition uk_revert :: "Service \<Rightarrow> uk_world \<Rightarrow> uk_world" where
  "uk_revert service w =
     w\<lparr>uw_killQueue := (uw_killQueue w)(host_of service \<mapsto> None),
       uw_fs := os_RemoveAll (inst_path @ host_of service) (uw_fs w)\<rparr>"

definition delete_namespace :: "vm_env \<Rightarrow> string \<Rightarrow> uk_world \<Rightarrow> uk_world" where
  "delete_namespace env host w =
     (if qe_Overlay (ve_qemu env) \<and> ve_DeleteNs env = None
      then w\<lparr>uw_namespaces := uw_namespaces w - {host}\<rparr> else w)"

text \<open>A machine whose QEMU process runs and cannot be reached is given up.\<close>

definition abort_started :: "vm_env \<Rightarrow> Service \<Rightarrow> nat \<Rightarrow> uk_world \<Rightarrow> uk_world" where
  "abort_started env service pid w =
     (delete_namespace env (host_of service) (uk_revert service w))
       \<lparr>uw_procs := uw_procs w - {pid}\<rparr>"

text \<open>At most three attempts to reach the socket; only an unexpected error counts.\<close>

fun dial_loop :: "(nat \<Rightarrow> dial) \<Rightarrow> nat list \<Rightarrow> string option" where
  "dial_loop answer [] = None"
| "dial_loop answer (i # is) =
     (case answer i of
        DialOk \<Rightarrow> None
      | DialNotExist \<Rightarrow> dial_loop answer is
      | DialErr e \<Rightarrow> if HasSuffix e '': connection refused'' then dial_loop answer is else Some e)"

definition connect_qemu :: "vm_env \<Rightarrow> Service \<Rightarrow> nat \<Rightarrow> uk_world \<Rightarrow> vm_result \<times> uk_world" where
  "connect_qemu env service pid w =
     (case dial_loop (ve_dial env) [0..<3] of
        Some e \<Rightarrow> (VmFailed e, abort_started env service pid w)
      | None \<Rightarrow>
          (case ve_Monitor env of
             Some e \<Rightarrow> (VmFailed e, abort_started env service pid w)
           | None \<Rightarrow>
               let domain = \<lparr>qd_Name = host_of service, qd_Sname = svc_Sname service,
                             qd_Instance = svc_Instance service, qd_Pid = pid\<rparr>
               in (VmStarted domain, w\<lparr>uw_qemuDomains := (uw_qemuDomains w)(host_of service \<mapsto> domain)\<rparr>)))"

definition qemu_config :: "Service \<Rightarrow> string \<Rightarrow> QemuConfiguration" where
  "qemu_config service instance_path =
     \<lparr>qc_Name = host_of service, qc_Memory = svc_Memory service, qc_CPU = svc_Vcpus service,
      qc_Instancepath = instance_path, qc_Kernel = kernel_path @ svc_Sname service @ ''/kernel'',
      qc_KernelArgs = svc_Commands service, qc_NSname = host_of service\<rparr>"

definition start_qemu :: "vm_env \<Rightarrow> Service \<Rightarrow> string \<Rightarrow> uk_world \<Rightarrow> vm_result \<times> uk_world" where
  "start_qemu env service instance_path w =
     (case GenerateArgs (ve_qemu env) (uw_fs w) (qemu_config service instance_path) of
        Err e \<Rightarrow> (VmFailed e, uk_revert service w)
      | Ok (command, args) \<Rightarrow>
          (case ve_Start env command args of
             Err e \<Rightarrow> (VmFailed e, uk_revert service w)
           | Ok pid \<Rightarrow> connect_qemu env service pid (w\<lparr>uw_procs := insert pid (uw_procs w)\<rparr>)))"

text \<open>\<open>VirtualMachineCreationRoutine\<close> up to its answer to \<open>Deploy\<close>.\<close>

definition uk_start :: "vm_env \<Rightarrow> Service \<Rightarrow> uk_world \<Rightarrow> vm_result \<times> uk_world" where
  "uk_start env service w =
     (let url = kernel_image (qe_GOARCH (ve_qemu env)) (svc_Image service) 0 (svc_Architectures service) [] in
      case GetKernelImage (ve_image env) url (host_of service) (svc_Sname service) (uw_fs w) of
        (ImagePanic, fs) \<Rightarrow> (VmPanic, w\<lparr>uw_fs := fs\<rparr>)
      | (NoImage, fs) \<Rightarrow> (VmFailed ''unable to create kernel path'', uk_revert service (w\<lparr>uw_fs := fs\<rparr>))
      | (Image p, fs) \<Rightarrow>
          if qe_Overlay (ve_qemu env)
          then (case ve_CreateNs env of
                  Some e \<Rightarrow> (VmFailed e, uk_revert service (w\<lparr>uw_fs := fs\<rparr>))
                | None \<Rightarrow> start_qemu env service p
                    (w\<lparr>uw_fs := fs, uw_namespaces := insert (host_of service) (uw_namespaces w)\<rparr>))
          else start_qemu env service p (w\<lparr>uw_fs := fs\<rparr>))"

text \<open>
  The end, after QEMU exited or a kill was received: the report, the \<open>quit\<close> command, and the
  deferred cleanup, whose last error decides what is sent on the kill channel. \<open>gone\<close> says that
  the process does not run any more.
\<close>

record quit_env =
  qt_gone :: bool
  qt_Disconnect :: "string option"

definition uk_finish :: "vm_env \<Rightarrow> quit_env \<Rightarrow> Service \<Rightarrow> nat \<Rightarrow> uk_world \<Rightarrow> bool \<times> uk_world" where
  "uk_finish env qt service pid w =
     (let host = host_of service;
          w1 = w\<lparr>uw_reports := uw_reports w @ [service\<lparr>svc_Status := SERVICE_DEAD\<rparr>],
                 uw_procs := (if qt_gone qt then uw_procs w - {pid} else uw_procs w)\<rparr>;
          w2 = w1\<lparr>uw_killQueue := (uw_killQueue w1)(host \<mapsto> None),
                  uw_qemuDomains := (uw_qemuDomains w1)(host := None)\<rparr>;
          w3 = delete_namespace env host w2;
          err = (if qe_Overlay (ve_qemu env) then ve_DeleteNs env else qt_Disconnect qt)
      in (err = None, w3\<lparr>uw_fs := os_RemoveAll (inst_path @ host) (uw_fs w3)\<rparr>))"

text \<open>One tick of \<open>ResourceMonitoring\<close>, over the domains in the order of the map's iteration.\<close>

definition monitor_domain ::
    "(nat \<Rightarrow> (string \<times> string) option) \<Rightarrow> (string \<Rightarrow> string) \<Rightarrow> qemuDomain \<Rightarrow> Resources list" where
  "monitor_domain stat logs d =
     (case stat (qd_Pid d) of
        None \<Rightarrow> []
      | Some (cpu, memory) \<Rightarrow>
          [\<lparr>res_Cpu = cpu, res_Memory = memory, res_Disk = ''0'', res_Logs = logs (qd_Name d),
            res_Sname = qd_Sname d, res_Runtime = UNIKERNEL_RUNTIME, res_Instance = qd_Instance d,
            res_Status = SERVICE_RUNNING\<rparr>])"

definition uk_monitoring_tick ::
    "(nat \<Rightarrow> (string \<times> string) option) \<Rightarrow> (string \<Rightarrow> string) \<Rightarrow> qemuDomain list \<Rightarrow> instantiating
      \<Rightarrow> Resources list" where
  "uk_monitoring_tick stat logs domains registry =
     concat (map (monitor_domain stat logs) domains) @ InstantiatingResources UNIKERNEL_RUNTIME registry"

section \<open>What a failed start and an end leave\<close>

definition image_of :: "vm_env \<Rightarrow> Service \<Rightarrow> uk_world \<Rightarrow> image_result \<times> fs" where
  "image_of env service w =
     GetKernelImage (ve_image env)
       (kernel_image (qe_GOARCH (ve_qemu env)) (svc_Image service) 0 (svc_Architectures service) [])
       (host_of service) (svc_Sname service) (uw_fs w)"

text \<open>The network namespace was created, and the QEMU process started.\<close>

definition network_made :: "vm_env \<Rightarrow> Service \<Rightarrow> uk_world \<Rightarrow> bool" where
  "network_made env service w \<longleftrightarrow>
     qe_Overlay (ve_qemu env) \<and> ve_CreateNs env = None \<and>
     (case fst (image_of env service w) of Image _ \<Rightarrow> True | _ \<Rightarrow> False)"

definition process_made :: "vm_env \<Rightarrow> Service \<Rightarrow> uk_world \<Rightarrow> bool" where
  "process_made env service w \<longleftrightarrow>
     (case image_of env service w of
        (Image p, fs) \<Rightarrow>
          (case GenerateArgs (ve_qemu env) fs (qemu_config service p) of
             Err _ \<Rightarrow> False | Ok (command, args) \<Rightarrow> is_ok (ve_Start env command args))
      | _ \<Rightarrow> False)"

lemma revert_simps [simp]:
  "uw_namespaces (uk_revert service w) = uw_namespaces w" "uw_procs (uk_revert service w) = uw_procs w"
  "uw_qemuDomains (uk_revert service w) = uw_qemuDomains w" "uw_reports (uk_revert service w) = uw_reports w"
  "uw_killQueue (uk_revert service w) = (uw_killQueue w)(host_of service \<mapsto> None)"
  "uw_fs (uk_revert service w) = os_RemoveAll (inst_path @ host_of service) (uw_fs w)"
  by (simp_all add: uk_revert_def)

lemma delete_namespace_simps [simp]:
  "uw_procs (delete_namespace env h w) = uw_procs w" "uw_qemuDomains (delete_namespace env h w) = uw_qemuDomains w"
  "uw_reports (delete_namespace env h w) = uw_reports w" "uw_killQueue (delete_namespace env h w) = uw_killQueue w"
  "uw_fs (delete_namespace env h w) = uw_fs w"
  "uw_namespaces (delete_namespace env h w) =
     (if qe_Overlay (ve_qemu env) \<and> ve_DeleteNs env = None then uw_namespaces w - {h} else uw_namespaces w)"
  by (simp_all add: delete_namespace_def)

lemma connect_failed:
  assumes "connect_qemu env service pid w = (VmFailed e, w')"
  shows "w' = abort_started env service pid w"
  using assms by (auto simp: connect_qemu_def Let_def split: option.splits)

text \<open>What a failure after the image was there leaves, by how far the start came.\<close>

lemma start_qemu_failed:
  assumes "start_qemu env service p w = (VmFailed e, w')" "\<And>c a pid. ve_Start env c a = Ok pid \<Longrightarrow> pid \<notin> uw_procs w"
  shows "uw_fs w' = os_RemoveAll (inst_path @ host_of service) (uw_fs w) \<and>
    uw_killQueue w' = (uw_killQueue w)(host_of service \<mapsto> None) \<and> uw_procs w' = uw_procs w \<and>
    uw_qemuDomains w' = uw_qemuDomains w \<and> uw_reports w' = uw_reports w \<and>
    uw_namespaces w' =
      (case GenerateArgs (ve_qemu env) (uw_fs w) (qemu_config service p) of
         Err _ \<Rightarrow> uw_namespaces w
       | Ok (command, args) \<Rightarrow>
           if is_ok (ve_Start env command args) \<and> qe_Overlay (ve_qemu env) \<and> ve_DeleteNs env = None
           then uw_namespaces w - {host_of service} else uw_namespaces w)"
  using assms by (auto simp: start_qemu_def abort_started_def split: sum.splits prod.splits dest!: connect_failed)


text \<open>
  A machine that ended, with its process gone and its namespace deleted, leaves nothing, and the
  status it reports is DEAD, also for a service that is to run once.
\<close>

theorem finished_vm_leaves_nothing:
  assumes "uk_finish env qt service pid w = (b, w')" "qt_gone qt" "qe_Overlay (ve_qemu env) \<longrightarrow> ve_DeleteNs env = None"
  shows "pid \<notin> uw_procs w' \<and> uw_qemuDomains w' (host_of service) = None \<and>
    uw_killQueue w' (host_of service) = Some None \<and>
    (qe_Overlay (ve_qemu env) \<longrightarrow> host_of service \<notin> uw_namespaces w') \<and>
    (\<forall>k. prefix (path_elements (inst_path @ host_of service)) k \<longrightarrow> uw_fs w' k = None) \<and>
    uw_reports w' = uw_reports w @ [service\<lparr>svc_Status := SERVICE_DEAD\<rparr>]"
  using assms by (auto simp: uk_finish_def Let_def os_RemoveAll_def)

text \<open>A second start of an instance that is still there fails, and removes the files it runs on.\<close>

theorem duplicate_start_removes_files:
  assumes "os_Stat (ie_io (ve_image env)) (inst_path @ host_of service) (uw_fs w) = Exists"
  shows "\<exists>w'. uk_start env service w = (VmFailed ''unable to create kernel path'', w') \<and>
    (\<forall>k. prefix (path_elements (inst_path @ host_of service)) k \<longrightarrow> uw_fs w' k = None) \<and>
    uw_procs w' = uw_procs w"
  using assms by (simp add: uk_start_def GetKernelImage_def Let_def os_RemoveAll_def)

definition web_service :: Service where
  "web_service = zero_Service\<lparr>svc_Sname := ''web'', svc_Architectures := [''amd64''], svc_Image := ''http://a/k''\<rparr>"

definition web_vm :: "string + nat \<Rightarrow> vm_env" where
  "web_vm started =
     \<lparr>ve_image = image_server (Tar small_archive None), ve_qemu = plain_env\<lparr>qe_Overlay := True\<rparr>, ve_CreateNs = None,
      ve_DeleteNs = None, ve_Start = (\<lambda>c a. started), ve_dial = (\<lambda>i. DialOk), ve_Monitor = None\<rparr>"

definition idle_world :: uk_world where
  "idle_world = \<lparr>uw_fs = base_fs, uw_killQueue = Map.empty, uw_qemuDomains = Map.empty, uw_namespaces = {},
     uw_procs = {}, uw_reports = []\<rparr>"

lemma web_host: "host_of web_service = ''web.instance.0''"
proof -
  have "digit_char 0 = CHR ''0''" by code_simp
  then show ?thesis
    by (simp add: host_of_def web_service_def zero_Service_def Generate_def separator_def Itoa_def utoa.simps)
qed

lemma web_image: "\<exists>fs. image_of (web_vm started) web_service idle_world = (Image (inst_path @ ''web.instance.0''), fs)"
proof -
  let ?env = "image_server (Tar small_archive None)"
  have n: "new_service ''web.instance.0'' ''web'' base_fs" by (rule new_service_base) simp_all
  obtain fs2 where "unpack_archive ?env ''web'' (Tar small_archive None)
      (stored ''web.instance.0'' ''web'' (Tar small_archive None) base_fs) = (None, fs2)"
    using new_service_unpack [OF n _ small_archive_ok, of ?env None] by auto
  then have "fst (GetKernelImage ?env ''http://a/k'' ''web.instance.0'' ''web'' base_fs) = Image (inst_path @ ''web.instance.0'')"
    using new_service_image [OF n _ _ _ small_archive_ok, of ?env "''http://a/k''" fs2] small_archive_kernel by simp
  moreover have "kernel_image ''amd64'' (svc_Image web_service) 0 (svc_Architectures web_service) [] = ''http://a/k''"
    by (simp add: web_service_def getUnikernelURL_def)
  moreover have "svc_Sname web_service = ''web''" by (simp add: web_service_def)
  ultimately show ?thesis
    using web_host by (simp add: image_of_def web_vm_def idle_world_def plain_env_def prod_eq_iff)
qed


end
