(* ===== verification/UnikernelRuntime.thy ===== *)
theory UnikernelRuntime
  imports UnikernelVm
begin

text \<open>
  How the machines of the unikernel runtime interleave
  (\<open>virtualization/internal/unikernel/UnikernelManagement.go\<close>). \<open>Deploy\<close> looks an instance up
  under the read lock, files a channel of capacity one under the write lock and starts a goroutine;
  \<open>Undeploy\<close> keeps the write lock while it sends on that channel and waits for an answer on it, or
  five seconds. Each event is one step between two synchronisations of the code. A goroutine's
  channel has the goroutine's number. A send to a goroutine that waits is handed over at once; a
  send to one that does not fills the channel, where any receiver may take it.
\<close>

section \<open>Goroutines and steps\<close>

datatype uphase =
    UStarting
  | UImaged
  | UQemu
  | UReverting bool
  | UAborting bool
  | UStarted
  | UWaiting
  | UEnded
  | UReported
  | UUnqueued
  | UFinished bool

datatype ustage = USending | UReceiving

record uk_state =
  us_gs :: "(Service \<times> uphase) list"
  us_killQueue :: "string \<rightharpoonup> nat option"
  us_domains :: "string \<rightharpoonup> nat"
  us_tokens :: "nat \<rightharpoonup> bool"
  us_lock :: "(string \<times> nat \<times> ustage) option"
  us_pending :: "Service list"
  us_dirs :: "string set"
  us_procs :: "nat set"
  us_reports :: "(nat \<times> string) list"
  us_replies :: "(nat \<times> bool) list"

datatype uk_event =
    UkCheck Service
  | UkAdd Service
  | UkUndeploy string go_int
  | UkSend
  | UkOwn
  | UkTimeout
  | UkImage nat bool
  | UkLaunch nat bool
  | UkMonitor nat bool
  | UkRevert nat
  | UkAbort nat
  | UkQemuExit nat
  | UkPark nat
  | UkExit nat
  | UkReport nat bool
  | UkUnqueue nat
  | UkFinish nat bool

definition us_init :: uk_state where
  "us_init = \<lparr>us_gs = [], us_killQueue = Map.empty, us_domains = Map.empty, us_tokens = Map.empty,
     us_lock = None, us_pending = [], us_dirs = {}, us_procs = {}, us_reports = [], us_replies = []\<rparr>"

definition uphase :: "uk_state \<Rightarrow> nat \<Rightarrow> uphase" where
  "uphase s g = (if g < length (us_gs s) then snd (us_gs s ! g) else UFinished False)"

definition uhost :: "uk_state \<Rightarrow> nat \<Rightarrow> string" where
  "uhost s g = host_of (fst (us_gs s ! g))"

definition uset :: "nat \<Rightarrow> uphase \<Rightarrow> uk_state \<Rightarrow> uk_state" where
  "uset g p s = s\<lparr>us_gs := (us_gs s)[g := (fst (us_gs s ! g), p)]\<rparr>"

definition answer :: "nat \<Rightarrow> bool \<Rightarrow> uk_state \<Rightarrow> uk_state" where
  "answer g b s = s\<lparr>us_replies := (g, b) # us_replies s\<rparr>"

text \<open>The first half of \<open>Deploy\<close>: an error, or the instance is going to be added.\<close>

definition uk_Deploy_check :: "Service \<Rightarrow> uk_state \<Rightarrow> string option \<times> uk_state" where
  "uk_Deploy_check service s =
     (case us_killQueue s (host_of service) of
        Some (Some _) \<Rightarrow> (Some ''service already deployed'', s)
      | _ \<Rightarrow> (None, s\<lparr>us_pending := service # us_pending s\<rparr>))"

definition uk_Deploy_add :: "Service \<Rightarrow> uk_state \<Rightarrow> uk_state" where
  "uk_Deploy_add service s =
     s\<lparr>us_pending := remove1 service (us_pending s), us_gs := us_gs s @ [(service, UStarting)],
       us_killQueue := (us_killQueue s)(host_of service \<mapsto> Some (length (us_gs s)))\<rparr>"

definition uk_Undeploy :: "string \<Rightarrow> go_int \<Rightarrow> uk_state \<Rightarrow> string option \<times> uk_state" where
  "uk_Undeploy service inst s =
     (case us_killQueue s (Generate service inst) of
        Some (Some g) \<Rightarrow> (None, s\<lparr>us_lock := Some (Generate service inst, g, USending)\<rparr>)
      | _ \<Rightarrow> (Some ''service not found'', s))"

text \<open>The return of \<open>Undeploy\<close> takes the entry out and releases the lock.\<close>

definition undeploy_returns :: "string \<Rightarrow> uk_state \<Rightarrow> uk_state" where
  "undeploy_returns host s = s\<lparr>us_killQueue := (us_killQueue s)(host := None), us_lock := None\<rparr>"

fun uk_exec :: "uk_event \<Rightarrow> uk_state \<Rightarrow> uk_state option" where
  "uk_exec (UkCheck service) s =
     (if us_lock s = None then Some (snd (uk_Deploy_check service s)) else None)"
| "uk_exec (UkAdd service) s =
     (if us_lock s = None \<and> service \<in> set (us_pending s) then Some (uk_Deploy_add service s) else None)"
| "uk_exec (UkUndeploy service inst) s =
     (if us_lock s = None then Some (snd (uk_Undeploy service inst s)) else None)"
| "uk_exec UkSend s =
     (case us_lock s of
        Some (h, g, USending) \<Rightarrow>
          if uphase s g = UWaiting then Some (uset g UEnded (s\<lparr>us_lock := Some (h, g, UReceiving)\<rparr>))
          else if us_tokens s g = None
          then Some (s\<lparr>us_tokens := (us_tokens s)(g \<mapsto> True), us_lock := Some (h, g, UReceiving)\<rparr>)
          else None
      | _ \<Rightarrow> None)"
| "uk_exec UkOwn s =
     (case us_lock s of
        Some (h, g, UReceiving) \<Rightarrow>
          if us_tokens s g \<noteq> None
          then Some (undeploy_returns h (s\<lparr>us_tokens := (us_tokens s)(g := None)\<rparr>)) else None
      | _ \<Rightarrow> None)"
| "uk_exec UkTimeout s =
     (case us_lock s of
        Some (h, g, UReceiving) \<Rightarrow> if us_tokens s g = None then Some (undeploy_returns h s) else None
      | _ \<Rightarrow> None)"
| "uk_exec (UkImage g ok) s =
     (if uphase s g = UStarting then
        (if uhost s g \<in> us_dirs s then (if ok then None else Some (uset g (UReverting False) (answer g False s)))
         else let s1 = s\<lparr>us_dirs := insert (uhost s g) (us_dirs s)\<rparr>
              in Some (if ok then uset g UImaged s1 else uset g (UReverting False) (answer g False s1)))
      else None)"
| "uk_exec (UkLaunch g ok) s =
     (if uphase s g = UImaged then
        Some (if ok then uset g UQemu (s\<lparr>us_procs := insert g (us_procs s)\<rparr>)
              else uset g (UReverting False) (answer g False s))
      else None)"
| "uk_exec (UkMonitor g ok) s =
     (if uphase s g = UQemu then
        (if ok then
           (if us_lock s = None
            then Some (uset g UStarted (answer g True (s\<lparr>us_domains := (us_domains s)(uhost s g \<mapsto> g)\<rparr>)))
            else None)
         else Some (uset g (UReverting True) (answer g False s)))
      else None)"
| "uk_exec (UkRevert g) s =
     (case uphase s g of
        UReverting b \<Rightarrow>
          if us_lock s = None
          then Some (uset g (UAborting b) (s\<lparr>us_killQueue := (us_killQueue s)(uhost s g \<mapsto> None),
                                            us_dirs := us_dirs s - {uhost s g}\<rparr>))
          else None
      | _ \<Rightarrow> None)"
| "uk_exec (UkAbort g) s =
     (case uphase s g of
        UAborting b \<Rightarrow> Some (uset g (UFinished False) (if b then s\<lparr>us_procs := us_procs s - {g}\<rparr> else s))
      | _ \<Rightarrow> None)"
| "uk_exec (UkQemuExit g) s =
     (if g \<in> us_procs s then Some (s\<lparr>us_procs := us_procs s - {g}\<rparr>) else None)"
| "uk_exec (UkPark g) s =
     (if uphase s g = UStarted then
        Some (if us_tokens s g = None then uset g UWaiting s
              else uset g UEnded (s\<lparr>us_tokens := (us_tokens s)(g := None)\<rparr>))
      else None)"
| "uk_exec (UkExit g) s =
     (if uphase s g = UWaiting \<and> g \<notin> us_procs s then Some (uset g UEnded s) else None)"
| "uk_exec (UkReport g gone) s =
     (if uphase s g = UEnded
      then Some (uset g UReported (s\<lparr>us_reports := (g, SERVICE_DEAD) # us_reports s,
                                     us_procs := (if gone then us_procs s - {g} else us_procs s)\<rparr>))
      else None)"
| "uk_exec (UkUnqueue g) s =
     (if uphase s g = UReported \<and> us_lock s = None
      then Some (uset g UUnqueued (s\<lparr>us_killQueue := (us_killQueue s)(uhost s g \<mapsto> None),
                                     us_domains := (us_domains s)(uhost s g := None)\<rparr>))
      else None)"
| "uk_exec (UkFinish g b) s =
     (if uphase s g = UUnqueued \<and> us_tokens s g = None
      then Some (uset g (UFinished True) (s\<lparr>us_dirs := us_dirs s - {uhost s g}, us_tokens := (us_tokens s)(g \<mapsto> b)\<rparr>))
      else None)"

primrec uk_run :: "uk_event list \<Rightarrow> uk_state \<Rightarrow> uk_state option" where
  "uk_run [] s = Some s"
| "uk_run (e # es) s = Option.bind (uk_exec e s) (uk_run es)"

inductive uk_reachable :: "uk_state \<Rightarrow> bool" where
  uk_init: "uk_reachable us_init"
| uk_step: "uk_reachable s \<Longrightarrow> uk_exec e s = Some s' \<Longrightarrow> uk_reachable s'"

text \<open>\<open>Stop\<close> calls \<open>Undeploy\<close> for every id of the kill queue that has a channel.\<close>

definition stop_calls :: "string list \<Rightarrow> uk_state \<Rightarrow> (string \<times> go_int) list" where
  "stop_calls IDs s =
     map (\<lambda>t. (ExtractServiceName t, ExtractInstanceNumber t))
       (filter (\<lambda>t. case us_killQueue s t of Some (Some _) \<Rightarrow> True | _ \<Rightarrow> False) IDs)"

section \<open>What holds in every reachable state\<close>

fun live :: "uphase \<Rightarrow> bool" where
  "live (UAborting _) = False"
| "live UUnqueued = False"
| "live (UFinished _) = False"
| "live _ = True"

fun answered :: "uphase \<Rightarrow> bool" where
  "answered UStarting = False"
| "answered UImaged = False"
| "answered UQemu = False"
| "answered _ = True"

fun reported_dead :: "uphase \<Rightarrow> bool" where
  "reported_dead UReported = True"
| "reported_dead UUnqueued = True"
| "reported_dead (UFinished b) = b"
| "reported_dead _ = False"

definition entries_live :: "uk_state \<Rightarrow> bool" where
  "entries_live s \<longleftrightarrow>
     (\<forall>t g. us_killQueue s t = Some (Some g) \<longrightarrow> g < length (us_gs s) \<and> uhost s g = t \<and> live (uphase s g))"

definition lock_entry :: "uk_state \<Rightarrow> bool" where
  "lock_entry s \<longleftrightarrow>
     (\<forall>h g st. us_lock s = Some (h, g, st) \<longrightarrow>
        us_killQueue s h = Some (Some g) \<and> (st = USending \<longrightarrow> us_tokens s g = None))"

text \<open>A channel holds something only while an undeployment waits on it, or after its goroutine's end.\<close>

definition tokens_explained :: "uk_state \<Rightarrow> bool" where
  "tokens_explained s \<longleftrightarrow>
     (\<forall>g. us_tokens s g \<noteq> None \<longrightarrow>
        (\<exists>h. us_lock s = Some (h, g, UReceiving)) \<or> g < length (us_gs s) \<and> uphase s g = UFinished True)"

definition signals_exact :: "uk_state \<Rightarrow> bool" where
  "signals_exact s \<longleftrightarrow>
     (\<forall>g. count_list (map fst (us_reports s)) g = (if reported_dead (uphase s g) then 1 else 0)) \<and>
     (\<forall>g. count_list (map fst (us_replies s)) g =
        (if g < length (us_gs s) \<and> answered (uphase s g) then 1 else 0))"

lemma uphase_uset [simp]:
  "uphase (uset g p s) g' = (if g' = g \<and> g < length (us_gs s) then p else uphase s g')"
  by (auto simp: uphase_def uset_def)

lemma uset_simps [simp]:
  "length (us_gs (uset g p s)) = length (us_gs s)" "uhost (uset g p s) g' = uhost s g'"
  "us_killQueue (uset g p s) = us_killQueue s" "us_domains (uset g p s) = us_domains s"
  "us_tokens (uset g p s) = us_tokens s" "us_lock (uset g p s) = us_lock s"
  "us_dirs (uset g p s) = us_dirs s" "us_procs (uset g p s) = us_procs s"
  "us_reports (uset g p s) = us_reports s" "us_replies (uset g p s) = us_replies s"
  "us_pending (uset g p s) = us_pending s"
  by (simp_all add: uhost_def uset_def fst_nth_update)

lemma update_phase [simp]:
  "uphase (s\<lparr>us_killQueue := x1\<rparr>) = uphase s" "uphase (s\<lparr>us_domains := x2\<rparr>) = uphase s"
  "uphase (s\<lparr>us_tokens := x3\<rparr>) = uphase s" "uphase (s\<lparr>us_lock := x4\<rparr>) = uphase s"
  "uphase (s\<lparr>us_pending := x5\<rparr>) = uphase s" "uphase (s\<lparr>us_dirs := x6\<rparr>) = uphase s"
  "uphase (s\<lparr>us_procs := x7\<rparr>) = uphase s" "uphase (s\<lparr>us_reports := x8\<rparr>) = uphase s"
  "uphase (s\<lparr>us_replies := x9\<rparr>) = uphase s"
  by (auto simp: uphase_def fun_eq_iff)

lemma update_host [simp]:
  "uhost (s\<lparr>us_killQueue := x1\<rparr>) = uhost s" "uhost (s\<lparr>us_domains := x2\<rparr>) = uhost s"
  "uhost (s\<lparr>us_tokens := x3\<rparr>) = uhost s" "uhost (s\<lparr>us_lock := x4\<rparr>) = uhost s"
  "uhost (s\<lparr>us_pending := x5\<rparr>) = uhost s" "uhost (s\<lparr>us_dirs := x6\<rparr>) = uhost s"
  "uhost (s\<lparr>us_procs := x7\<rparr>) = uhost s" "uhost (s\<lparr>us_reports := x8\<rparr>) = uhost s"
  "uhost (s\<lparr>us_replies := x9\<rparr>) = uhost s"
  by (auto simp: uhost_def fun_eq_iff)

lemma answer_simps [simp]:
  "us_gs (answer g b s) = us_gs s" "uphase (answer g b s) = uphase s" "uhost (answer g b s) = uhost s"
  "us_killQueue (answer g b s) = us_killQueue s" "us_domains (answer g b s) = us_domains s"
  "us_tokens (answer g b s) = us_tokens s" "us_lock (answer g b s) = us_lock s"
  "us_dirs (answer g b s) = us_dirs s" "us_procs (answer g b s) = us_procs s"
  "us_reports (answer g b s) = us_reports s" "us_replies (answer g b s) = (g, b) # us_replies s"
  "us_pending (answer g b s) = us_pending s"
  by (simp_all add: answer_def)

lemma add_simps [simp]:
  "us_killQueue (uk_Deploy_add v s) = (us_killQueue s)(host_of v \<mapsto> Some (length (us_gs s)))"
  "us_domains (uk_Deploy_add v s) = us_domains s" "us_tokens (uk_Deploy_add v s) = us_tokens s"
  "us_lock (uk_Deploy_add v s) = us_lock s" "us_dirs (uk_Deploy_add v s) = us_dirs s"
  "us_procs (uk_Deploy_add v s) = us_procs s" "us_reports (uk_Deploy_add v s) = us_reports s"
  "us_replies (uk_Deploy_add v s) = us_replies s" "length (us_gs (uk_Deploy_add v s)) = Suc (length (us_gs s))"
  "uphase (uk_Deploy_add v s) g = (if g = length (us_gs s) then UStarting else uphase s g)"
  "uhost (uk_Deploy_add v s) (length (us_gs s)) = host_of v"
  "g < length (us_gs s) \<Longrightarrow> uhost (uk_Deploy_add v s) g = uhost s g"
  by (auto simp: uk_Deploy_add_def uphase_def uhost_def nth_append)

lemma returns_simps [simp]:
  "us_gs (undeploy_returns h s) = us_gs s" "uphase (undeploy_returns h s) = uphase s"
  "uhost (undeploy_returns h s) = uhost s" "us_killQueue (undeploy_returns h s) = (us_killQueue s)(h := None)"
  "us_domains (undeploy_returns h s) = us_domains s" "us_tokens (undeploy_returns h s) = us_tokens s"
  "us_lock (undeploy_returns h s) = None" "us_dirs (undeploy_returns h s) = us_dirs s"
  "us_procs (undeploy_returns h s) = us_procs s" "us_reports (undeploy_returns h s) = us_reports s"
  "us_replies (undeploy_returns h s) = us_replies s"
  by (simp_all add: undeploy_returns_def)

lemma uphase_bound: "uphase s g \<noteq> UFinished False \<Longrightarrow> g < length (us_gs s)"
  by (simp add: uphase_def split: if_splits)

lemma check_simps [simp]:
  "us_gs (snd (uk_Deploy_check v s)) = us_gs s" "uphase (snd (uk_Deploy_check v s)) = uphase s"
  "uhost (snd (uk_Deploy_check v s)) = uhost s" "us_killQueue (snd (uk_Deploy_check v s)) = us_killQueue s"
  "us_domains (snd (uk_Deploy_check v s)) = us_domains s" "us_tokens (snd (uk_Deploy_check v s)) = us_tokens s"
  "us_lock (snd (uk_Deploy_check v s)) = us_lock s" "us_dirs (snd (uk_Deploy_check v s)) = us_dirs s"
  "us_procs (snd (uk_Deploy_check v s)) = us_procs s" "us_reports (snd (uk_Deploy_check v s)) = us_reports s"
  "us_replies (snd (uk_Deploy_check v s)) = us_replies s"
  by (auto simp: uk_Deploy_check_def split: option.splits)

lemma undeploy_simps [simp]:
  "us_gs (snd (uk_Undeploy v i s)) = us_gs s" "uphase (snd (uk_Undeploy v i s)) = uphase s"
  "uhost (snd (uk_Undeploy v i s)) = uhost s" "us_killQueue (snd (uk_Undeploy v i s)) = us_killQueue s"
  "us_domains (snd (uk_Undeploy v i s)) = us_domains s" "us_tokens (snd (uk_Undeploy v i s)) = us_tokens s"
  "us_dirs (snd (uk_Undeploy v i s)) = us_dirs s" "us_procs (snd (uk_Undeploy v i s)) = us_procs s"
  "us_reports (snd (uk_Undeploy v i s)) = us_reports s" "us_replies (snd (uk_Undeploy v i s)) = us_replies s"
  "us_pending (snd (uk_Undeploy v i s)) = us_pending s"
  by (auto simp: uk_Undeploy_def split: option.splits)

lemma undeploy_lock:
  "us_lock (snd (uk_Undeploy v i s)) = Some (h, g, st) \<Longrightarrow> us_lock s = None \<Longrightarrow>
   us_killQueue s h = Some (Some g) \<and> st = USending"
  by (auto simp: uk_Undeploy_def split: option.splits)

lemma entry_live: "entries_live s \<Longrightarrow> us_killQueue s t = Some (Some g) \<Longrightarrow> live (uphase s g)"
  by (simp add: entries_live_def)

text \<open>What one step can do to the queue, the lock, the channels and a goroutine.\<close>

lemma entry_appears:
  "uk_exec e s = Some s' \<Longrightarrow> us_killQueue s' t = Some (Some g) \<Longrightarrow>
   us_killQueue s t = Some (Some g) \<or>
   (g = length (us_gs s) \<and> g < length (us_gs s') \<and> uhost s' g = t \<and> live (uphase s' g))"
  by (cases e) (auto simp: Let_def split: if_splits option.splits ustage.splits uphase.splits)

lemma goroutine_stays:
  "uk_exec e s = Some s' \<Longrightarrow> g < length (us_gs s) \<Longrightarrow> g < length (us_gs s') \<and> uhost s' g = uhost s g"
  by (cases e) (auto simp: Let_def split: if_splits option.splits ustage.splits uphase.splits)

lemma live_ends:
  "uk_exec e s = Some s' \<Longrightarrow> live (uphase s g) \<Longrightarrow> \<not> live (uphase s' g) \<Longrightarrow>
   us_lock s = None \<and> us_killQueue s' (uhost s g) = Some None"
  by (cases e) (auto simp: Let_def split: if_splits option.splits ustage.splits uphase.splits)

lemma finished_stays:
  "uk_exec e s = Some s' \<Longrightarrow> g < length (us_gs s) \<Longrightarrow> uphase s g = UFinished b \<Longrightarrow> uphase s' g = UFinished b"
  by (cases e) (auto simp: Let_def split: if_splits option.splits ustage.splits uphase.splits)

lemma token_appears:
  "uk_exec e s = Some s' \<Longrightarrow> us_tokens s' g \<noteq> None \<Longrightarrow>
   us_tokens s g \<noteq> None \<or> (\<exists>h. us_lock s = Some (h, g, USending) \<and> us_lock s' = Some (h, g, UReceiving)) \<or>
   uphase s g = UUnqueued \<and> uphase s' g = UFinished True"
  using uphase_bound [of s g]
  by (cases e) (auto simp: Let_def split: if_splits option.splits ustage.splits uphase.splits)

lemma wait_ends:
  "uk_exec e s = Some s' \<Longrightarrow> us_lock s = Some (h, g, UReceiving) \<Longrightarrow>
   us_lock s' = us_lock s \<or> us_tokens s' g = None"
  by (cases e) (auto simp: Let_def split: if_splits uphase.splits)

lemma lock_appears:
  "uk_exec e s = Some s' \<Longrightarrow> us_lock s' = Some (h, g, st) \<Longrightarrow>
   us_lock s = None \<and> us_killQueue s h = Some (Some g) \<and> st = USending \<and> us_killQueue s' = us_killQueue s \<and>
     us_tokens s' = us_tokens s \<or>
   (\<exists>st0. us_lock s = Some (h, g, st0) \<and> us_killQueue s' h = us_killQueue s h \<and>
      (st = USending \<longrightarrow> st0 = USending))"
  by (cases e) (auto simp: Let_def dest: undeploy_lock split: if_splits option.splits ustage.splits uphase.splits)

lemma entries_exec:
  assumes "entries_live s" "uk_exec e s = Some s'"
  shows "entries_live s'"
  unfolding entries_live_def
proof (intro allI impI)
  fix t g assume q: "us_killQueue s' t = Some (Some g)"
  from entry_appears [OF assms(2) this]
  show "g < length (us_gs s') \<and> uhost s' g = t \<and> live (uphase s' g)"
  proof
    assume "us_killQueue s t = Some (Some g)"
    then have "g < length (us_gs s)" "uhost s g = t" "live (uphase s g)"
      using assms(1) by (auto simp: entries_live_def)
    then show ?thesis
      using goroutine_stays [OF assms(2)] live_ends [OF assms(2), of g] q by auto
  qed blast
qed

lemma tokens_none:
  "tokens_explained s \<Longrightarrow> us_lock s = None \<Longrightarrow> live (uphase s g) \<Longrightarrow> us_tokens s g = None"
  by (cases "us_tokens s g") (auto simp: tokens_explained_def)

lemma lock_live: "entries_live s \<Longrightarrow> lock_entry s \<Longrightarrow> us_lock s = Some (h, g, st) \<Longrightarrow> live (uphase s g)"
  by (auto simp: lock_entry_def intro: entry_live)

lemma lock_exec:
  assumes "entries_live s" "lock_entry s" "tokens_explained s" "uk_exec e s = Some s'"
  shows "lock_entry s'"
  unfolding lock_entry_def
proof (intro allI impI)
  fix h g st assume l: "us_lock s' = Some (h, g, st)"
  show "us_killQueue s' h = Some (Some g) \<and> (st = USending \<longrightarrow> us_tokens s' g = None)"
  proof (cases "us_lock s = None")
    case True
    then have "us_killQueue s h = Some (Some g)" "us_killQueue s' = us_killQueue s" "us_tokens s' = us_tokens s"
      using lock_appears [OF assms(4) l] by auto
    then show ?thesis using tokens_none [OF assms(3) True] entry_live [OF assms(1)] by auto
  next
    case False
    then obtain st0 where st0: "us_lock s = Some (h, g, st0)" "us_killQueue s' h = us_killQueue s h"
        "st = USending \<Longrightarrow> st0 = USending"
      using lock_appears [OF assms(4) l] by auto
    have "live (uphase s g)" using lock_live [OF assms(1,2) st0(1)] .
    then have "us_tokens s g = None \<Longrightarrow> st = USending \<Longrightarrow> us_tokens s' g = None"
      using token_appears [OF assms(4), of g] l st0 by (cases "us_tokens s' g") auto
    then show ?thesis using st0 assms(2) by (auto simp: lock_entry_def)
  qed
qed

lemma tokens_exec:
  assumes "tokens_explained s" "uk_exec e s = Some s'"
  shows "tokens_explained s'"
  unfolding tokens_explained_def
proof (intro allI impI)
  fix g assume t: "us_tokens s' g \<noteq> None"
  then consider "us_tokens s g \<noteq> None" | "\<exists>h. us_lock s' = Some (h, g, UReceiving)" |
      "uphase s g = UUnqueued" "uphase s' g = UFinished True"
    using token_appears [OF assms(2)] by blast
  then show "(\<exists>h. us_lock s' = Some (h, g, UReceiving)) \<or> g < length (us_gs s') \<and> uphase s' g = UFinished True"
  proof cases
    case 1
    then show ?thesis
      using assms(1) t wait_ends [OF assms(2)] finished_stays [OF assms(2)] goroutine_stays [OF assms(2)]
      by (fastforce simp: tokens_explained_def)
  next
    case 3
    then show ?thesis using uphase_bound [of s g] goroutine_stays [OF assms(2), of g] by simp
  qed simp
qed

text \<open>A goroutine that moves without a signal, answers its \<open>Deploy\<close>, or reports.\<close>

lemma same_phase: "us_gs s' = us_gs s \<Longrightarrow> uphase s' = uphase s"
  by (simp add: uphase_def fun_eq_iff)

lemma signals_quiet:
  "signals_exact s \<Longrightarrow> reported_dead (uphase s g) = reported_dead p \<Longrightarrow> answered (uphase s g) = answered p \<Longrightarrow>
   us_reports s' = us_reports s \<Longrightarrow> us_replies s' = us_replies s \<Longrightarrow> us_gs s' = us_gs s \<Longrightarrow>
   signals_exact (uset g p s')"
  using same_phase [of s' s] unfolding signals_exact_def by auto

lemma signals_answer:
  "signals_exact s \<Longrightarrow> reported_dead (uphase s g) = reported_dead p \<Longrightarrow> \<not> answered (uphase s g) \<Longrightarrow> answered p \<Longrightarrow>
   us_reports s' = us_reports s \<Longrightarrow> us_replies s' = us_replies s \<Longrightarrow> us_gs s' = us_gs s \<Longrightarrow>
   signals_exact (uset g p (answer g b s'))"
  using uphase_bound [of s g] same_phase [of s' s] unfolding signals_exact_def
  by (cases "uphase s g = UFinished False") auto

lemma signals_dead:
  "signals_exact s \<Longrightarrow> uphase s g = UEnded \<Longrightarrow> us_gs s' = us_gs s \<Longrightarrow>
   us_reports s' = (g, st) # us_reports s \<Longrightarrow> us_replies s' = us_replies s \<Longrightarrow>
   signals_exact (uset g UReported s')"
  using uphase_bound [of s g] same_phase [of s' s] unfolding signals_exact_def by auto

lemma signals_add: "signals_exact s \<Longrightarrow> signals_exact (uk_Deploy_add v s)"
  using uphase_def [of s "length (us_gs s)"] unfolding signals_exact_def by auto

lemma signals_same:
  "signals_exact s \<Longrightarrow> us_gs s' = us_gs s \<Longrightarrow> us_reports s' = us_reports s \<Longrightarrow> us_replies s' = us_replies s \<Longrightarrow>
   signals_exact s'"
  by (simp add: signals_exact_def uphase_def)

lemma uk_signals_exec:
  assumes "signals_exact s" "uk_exec e s = Some s'"
  shows "signals_exact s'"
  using assms
  by (cases e) (auto simp: Let_def signals_add [OF assms(1)]
        signals_quiet [OF assms(1)] signals_answer [OF assms(1)] signals_dead [OF assms(1)]
        signals_same [OF assms(1)]
        split: if_splits option.splits ustage.splits uphase.splits)

lemma uk_invariant:
  "uk_reachable s \<Longrightarrow> entries_live s \<and> lock_entry s \<and> tokens_explained s \<and> signals_exact s"
proof (induction rule: uk_reachable.induct)
  case uk_init
  then show ?case
    by (simp add: us_init_def entries_live_def lock_entry_def tokens_explained_def signals_exact_def uphase_def)
next
  case (uk_step s e s')
  then show ?case using entries_exec lock_exec tokens_exec uk_signals_exec by blast
qed

lemma uk_reachable_run: "uk_reachable s \<Longrightarrow> uk_run es s = Some s' \<Longrightarrow> uk_reachable s'"
  by (induction es arbitrary: s) (auto simp: bind_eq_Some_conv intro: uk_reachable.uk_step)

lemma ended_send: "uk_reachable s \<Longrightarrow> uphase s g = UUnqueued \<Longrightarrow> us_tokens s g = None"
  using uk_invariant [of s] lock_live [of s _ g] by (cases "us_tokens s g") (force simp: tokens_explained_def)+

text \<open>
  C12: In every reachable state every \<open>Deploy\<close> has been answered once when its machine runs or was
  given up, every machine that ran reports DEAD once, and no send waits: an undeployment that holds
  the lock can send, and a goroutine at its end can.
\<close>

theorem machines_accounted:
  assumes "uk_reachable s"
  shows "count_list (map fst (us_reports s)) g = (if reported_dead (uphase s g) then 1 else 0) \<and>
    count_list (map fst (us_replies s)) g = (if g < length (us_gs s) \<and> answered (uphase s g) then 1 else 0) \<and>
    (us_lock s = Some (h, g, USending) \<longrightarrow> uk_exec UkSend s \<noteq> None) \<and>
    (uphase s g = UUnqueued \<longrightarrow> uk_exec (UkFinish g b) s \<noteq> None)"
proof -
  note inv = uk_invariant [OF assms]
  have "uphase s g = UUnqueued \<Longrightarrow> us_tokens s g = None" using ended_send [OF assms] .
  moreover have "us_lock s = Some (h, g, USending) \<Longrightarrow> us_tokens s g = None"
    using inv by (auto simp: lock_entry_def)
  ultimately show ?thesis
    using inv by (auto simp: signals_exact_def)
qed

section \<open>An undeployment waits out its five seconds\<close>

lemma wait_exec:
  assumes "entries_live s" "lock_entry s" "us_lock s = Some (h, g, UReceiving)" "us_tokens s g = None"
    and "uk_exec e s = Some s'" "e \<noteq> UkTimeout"
  shows "us_lock s' = Some (h, g, UReceiving) \<and> us_tokens s' g = None"
proof -
  have "live (uphase s g)" using lock_live [OF assms(1-3)] .
  then have "us_tokens s' g = None" using token_appears [OF assms(5), of g] assms(3,4) by (cases "us_tokens s' g") auto
  moreover have "us_lock s' = us_lock s"
    using assms(3-6) by (cases e) (auto simp: Let_def split: if_splits uphase.splits)
  ultimately show ?thesis using assms(3) by simp
qed

text \<open>
  The answer \<open>Undeploy\<close> waits for comes from the goroutine's deferred cleanup, which first needs the
  lock that \<open>Undeploy\<close> holds: once the machine has taken the kill, whatever happens next, only the
  timeout ends the wait.
\<close>

theorem undeploy_waits_for_timeout:
  assumes "uk_reachable s" "us_lock s = Some (h, g, UReceiving)" "us_tokens s g = None"
    and "uk_run es s = Some s'" "UkTimeout \<notin> set es"
  shows "us_lock s' = Some (h, g, UReceiving)"
  using assms
proof (induction es arbitrary: s)
  case (Cons e es)
  then obtain s1 where s1: "uk_exec e s = Some s1" "uk_run es s1 = Some s'"
    by (auto simp: bind_eq_Some_conv)
  have "e \<noteq> UkTimeout" using Cons.prems(5) by auto
  then have "us_lock s1 = Some (h, g, UReceiving) \<and> us_tokens s1 g = None"
    using wait_exec [OF _ _ Cons.prems(2,3) s1(1)] uk_invariant [OF Cons.prems(1)] by blast
  then show ?case
    using Cons.IH [OF uk_reachable.uk_step [OF Cons.prems(1) s1(1)]] s1(2) Cons.prems(5) by simp
qed simp

section \<open>Machines that nobody can stop\<close>

lemma some_bool [simp]: "\<exists>b. b" "\<exists>b. \<not> b"
  by auto

text \<open>A machine that is not stopped, and that no entry, lock or channel leads to.\<close>

fun unstopped :: "uphase \<Rightarrow> bool" where
  "unstopped UEnded = False"
| "unstopped UReported = False"
| "unstopped UUnqueued = False"
| "unstopped (UFinished b) = (\<not> b)"
| "unstopped _ = True"

fun has_process :: "uphase \<Rightarrow> bool" where
  "has_process UQemu = True"
| "has_process UStarted = True"
| "has_process UWaiting = True"
| "has_process _ = False"

definition orphan :: "nat \<Rightarrow> uk_state \<Rightarrow> bool" where
  "orphan g s \<longleftrightarrow>
     g < length (us_gs s) \<and> unstopped (uphase s g) \<and> (has_process (uphase s g) \<longrightarrow> g \<in> us_procs s) \<and>
     us_killQueue s (uhost s g) \<noteq> Some (Some g) \<and> us_tokens s g = None \<and> (\<forall>h st. us_lock s \<noteq> Some (h, g, st))"

lemma unstopped_exec:
  assumes "uk_exec e s = Some s'" "g < length (us_gs s)" "unstopped (uphase s g)"
    and "has_process (uphase s g) \<longrightarrow> g \<in> us_procs s" "us_tokens s g = None"
    and "\<forall>h st. us_lock s \<noteq> Some (h, g, st)" "e \<noteq> UkQemuExit g"
  shows "unstopped (uphase s' g) \<and> (has_process (uphase s' g) \<longrightarrow> g \<in> us_procs s')"
  using assms by (cases e) (auto simp: Let_def split: if_splits option.splits ustage.splits uphase.splits)

lemma orphan_exec:
  assumes "uk_reachable s" "orphan g s" "uk_exec e s = Some s'" "e \<noteq> UkQemuExit g"
  shows "orphan g s'"
proof -
  note o = assms(2) [unfolded orphan_def]
  have g: "g < length (us_gs s')" "uhost s' g = uhost s g"
    using goroutine_stays [OF assms(3), of g] o by simp_all
  have noentry: "us_killQueue s h \<noteq> Some (Some g)" for h
    using uk_invariant [OF assms(1)] o by (auto simp: entries_live_def)
  have "us_lock s' \<noteq> Some (h, g, st)" for h st
    using lock_appears [OF assms(3), of h g st] o noentry by auto
  moreover have "us_killQueue s' (uhost s' g) \<noteq> Some (Some g)"
    using entry_appears [OF assms(3), of "uhost s' g" g] noentry o by auto
  moreover have "us_tokens s' g = None"
    using token_appears [OF assms(3), of g] o by (cases "us_tokens s' g") auto
  ultimately show ?thesis
    using unstopped_exec [OF assms(3), of g] o g assms(4) by (simp add: orphan_def)
qed

lemma orphan_run:
  "uk_reachable s \<Longrightarrow> orphan g s \<Longrightarrow> uk_run es s = Some s' \<Longrightarrow> UkQemuExit g \<notin> set es \<Longrightarrow> orphan g s'"
proof (induction es arbitrary: s)
  case (Cons e es)
  then obtain s1 where s1: "uk_exec e s = Some s1" "uk_run es s1 = Some s'"
    by (auto simp: bind_eq_Some_conv)
  have "e \<noteq> UkQemuExit g" using Cons.prems(4) by auto
  then show ?case
    using Cons.IH [OF uk_reachable.uk_step [OF Cons.prems(1) s1(1)] orphan_exec [OF Cons.prems(1,2) s1(1)] s1(2)]
      Cons.prems(4) by simp
qed simp

text \<open>
  An undeployment that comes while the machine is still being created takes its own kill back from
  the channel and returns without an error. The creation goes on, and no later undeployment, nor
  \<open>Stop\<close>, reaches the machine: it runs until its process ends by itself.
\<close>

theorem early_undeploy_lost:
  assumes "uk_reachable s" "uphase s g = UStarting" "us_killQueue s (Generate v i) = Some (Some g)" "us_lock s = None"
    and "uk_run (UkUndeploy v i # UkSend # UkOwn # es) s = Some s'" "UkQemuExit g \<notin> set es"
  shows "unstopped (uphase s' g) \<and> us_killQueue s' (Generate v i) \<noteq> Some (Some g)"
proof -
  note inv = uk_invariant [OF assms(1)]
  have g: "g < length (us_gs s)" "uhost s g = Generate v i"
    using inv assms(3) by (auto simp: entries_live_def)
  have tok: "us_tokens s g = None" using tokens_none [of s g] inv assms(2,4) by simp
  define s1 where "s1 = s\<lparr>us_lock := Some (Generate v i, g, USending)\<rparr>"
  define s2 where "s2 = s1\<lparr>us_tokens := (us_tokens s1)(g \<mapsto> True), us_lock := Some (Generate v i, g, UReceiving)\<rparr>"
  define s3 where "s3 = undeploy_returns (Generate v i) (s2\<lparr>us_tokens := (us_tokens s2)(g := None)\<rparr>)"
  have e1: "uk_exec (UkUndeploy v i) s = Some s1" using assms(3,4) by (simp add: uk_Undeploy_def s1_def)
  have e2: "uk_exec UkSend s1 = Some s2" using assms(2) tok by (simp add: s1_def s2_def)
  have e3: "uk_exec UkOwn s2 = Some s3" by (simp add: s2_def s3_def)
  have "uk_reachable s3"
    using assms(1) e1 e2 e3 by (blast intro: uk_reachable.uk_step)
  moreover have "orphan g s3"
    using g assms(2) tok by (simp add: orphan_def s1_def s2_def s3_def)
  moreover have "uk_run es s3 = Some s'" using assms(5) e1 e2 e3 by simp
  ultimately have o: "orphan g s'" and r: "uk_reachable s'"
    using orphan_run assms(6) uk_reachable_run by blast+
  then show ?thesis using uk_invariant [OF r] by (auto simp: orphan_def entries_live_def)
qed

lemma web_task: "Generate ''web'' 0 = host_of web_service"
  by (simp add: host_of_def web_service_def zero_Service_def)

lemmas uk_run_simps = us_init_def uk_Deploy_check_def uk_Deploy_add_def uk_Undeploy_def undeploy_returns_def
  uphase_def uhost_def uset_def answer_def web_task

definition creating :: uk_state where
  "creating = us_init\<lparr>us_gs := [(web_service, UStarting)], us_killQueue := [host_of web_service \<mapsto> Some 0]\<rparr>"

lemma reachable_creating: "uk_reachable creating"
proof -
  have "uk_run [UkCheck web_service, UkAdd web_service] us_init = Some creating"
    by (simp add: uk_run_simps creating_def)
  then show ?thesis by (rule uk_reachable_run [OF uk_reachable.uk_init])
qed

theorem early_undeploy_lost_witness:
  "\<exists>s. uk_run [UkUndeploy ''web'' 0, UkSend, UkOwn, UkImage 0 True, UkLaunch 0 True, UkMonitor 0 True, UkPark 0] creating
       = Some s \<and> uphase s 0 = UWaiting \<and> us_procs s = {0} \<and> us_killQueue s (host_of web_service) \<noteq> Some (Some 0)"
proof -
  obtain s where s: "uk_run [UkUndeploy ''web'' 0, UkSend, UkOwn, UkImage 0 True, UkLaunch 0 True, UkMonitor 0 True,
        UkPark 0] creating = Some s" "uphase s 0 = UWaiting" "us_procs s = {0}"
    by (simp add: uk_run_simps creating_def)
  have "uphase creating 0 = UStarting" "us_lock creating = None" "us_killQueue creating (Generate ''web'' 0) = Some (Some 0)"
    by (simp_all add: creating_def uphase_def us_init_def web_task)
  then show ?thesis
    using early_undeploy_lost [OF reachable_creating _ _ _ s(1)] s by (simp add: web_task)
qed

text \<open>
  The cleanup of an undeployed machine runs after the undeployment has returned: when the
  instance was deployed again in between, it takes the new machine out of the kill queue.
\<close>

theorem late_cleanup_orphans:
  "\<exists>s. uk_reachable s \<and> uphase s 1 = UWaiting \<and> orphan 1 s"
proof -
  define es where "es = [UkImage 0 True, UkLaunch 0 True, UkMonitor 0 True, UkPark 0, UkUndeploy ''web'' 0, UkSend,
    UkReport 0 True, UkTimeout, UkCheck web_service, UkAdd web_service, UkUnqueue 0, UkFinish 0 True,
    UkImage 1 True, UkLaunch 1 True, UkMonitor 1 True, UkPark 1]"
  obtain s where s: "uk_run es creating = Some s" "uphase s 1 = UWaiting" "orphan 1 s"
    by (simp add: es_def uk_run_simps creating_def orphan_def)
  then show ?thesis using uk_reachable_run [OF reachable_creating s(1)] by blast
qed

text \<open>
  Two deployments of one instance that look it up before either is added both go on. The second
  fails on the directory of the first, and its revert removes that directory and the entry of the
  kill queue while the first machine runs.
\<close>

theorem concurrent_deploys_orphan:
  "\<exists>s. uk_reachable s \<and> uphase s 0 = UWaiting \<and> orphan 0 s \<and> host_of web_service \<notin> us_dirs s"
proof -
  define es where "es = [UkCheck web_service, UkCheck web_service, UkAdd web_service, UkAdd web_service,
    UkImage 0 True, UkLaunch 0 True, UkMonitor 0 True, UkPark 0, UkImage 1 False, UkRevert 1, UkAbort 1]"
  obtain s where s: "uk_run es us_init = Some s" "uphase s 0 = UWaiting" "orphan 0 s" "host_of web_service \<notin> us_dirs s"
    by (simp add: es_def uk_run_simps orphan_def)
  then show ?thesis using uk_reachable_run [OF uk_reachable.uk_init s(1)] by blast
qed

section \<open>The runtime comes to rest\<close>

text \<open>The steps the goroutines, pending deployments and a running undeployment have left at most.\<close>

fun urank :: "uphase \<Rightarrow> nat" where
  "urank UStarting = 8"
| "urank UImaged = 7"
| "urank UQemu = 6"
| "urank UStarted = 5"
| "urank UWaiting = 4"
| "urank UEnded = 3"
| "urank UReported = 2"
| "urank UUnqueued = 1"
| "urank (UReverting _) = 2"
| "urank (UAborting _) = 1"
| "urank (UFinished _) = 0"

fun lock_rank :: "(string \<times> nat \<times> ustage) option \<Rightarrow> nat" where
  "lock_rank None = 0"
| "lock_rank (Some (_, _, UReceiving)) = 1"
| "lock_rank (Some (_, _, USending)) = 2"

definition uwork :: "uk_state \<Rightarrow> nat" where
  "uwork s = sum_list (map (\<lambda>p. urank (snd p)) (us_gs s)) + 9 * length (us_pending s) + lock_rank (us_lock s)"

text \<open>The steps of the runtime itself; calls and the exit of a QEMU process come from outside.\<close>

fun uk_internal :: "uk_event \<Rightarrow> bool" where
  "uk_internal (UkCheck _) = False"
| "uk_internal (UkUndeploy _ _) = False"
| "uk_internal (UkQemuExit _) = False"
| "uk_internal _ = True"

definition quiet :: "uk_state \<Rightarrow> bool" where
  "quiet s \<longleftrightarrow> (\<forall>e. uk_internal e \<longrightarrow> uk_exec e s = None)"

lemma uwork_uset:
  assumes "urank p < urank (uphase s g)" "us_gs s' = us_gs s" "us_pending s' = us_pending s"
    and "lock_rank (us_lock s') \<le> lock_rank (us_lock s)"
  shows "uwork (uset g p s') < uwork s"
proof -
  have "g < length (us_gs s)" using assms(1) by (intro uphase_bound) auto
  then have "sum_list (map (\<lambda>p. urank (snd p)) ((us_gs s)[g := (fst (us_gs s ! g), p)])) <
      sum_list (map (\<lambda>p. urank (snd p)) (us_gs s))"
    using assms(1) by (intro sum_list_update_less) (simp_all add: uphase_def)
  then show ?thesis using assms(2-4) by (simp add: uwork_def uset_def)
qed

lemma uwork_add: "v \<in> set (us_pending s) \<Longrightarrow> uwork (uk_Deploy_add v s) < uwork s"
  using length_pos_if_in_set [of v "us_pending s"]
  by (cases "length (us_pending s)") (auto simp: uwork_def uk_Deploy_add_def length_remove1)

lemma uwork_exec: "uk_internal e \<Longrightarrow> uk_exec e s = Some s' \<Longrightarrow> uwork s' < uwork s"
  by (cases e)
     (auto simp: Let_def uwork_uset uwork_add answer_def split: if_splits option.splits ustage.splits uphase.splits,
      auto simp: uwork_def undeploy_returns_def)

lemma quiet_step: "quiet s \<Longrightarrow> uk_internal e \<Longrightarrow> uk_exec e s = None"
  by (simp add: quiet_def)

lemma quiet_free:
  assumes "uk_reachable s" "quiet s"
  shows "us_lock s = None"
proof (rule ccontr)
  assume "us_lock s \<noteq> None"
  then obtain h g st where l: "us_lock s = Some (h, g, st)" by auto
  have q: "uk_exec UkSend s = None" "uk_exec UkOwn s = None" "uk_exec UkTimeout s = None"
    using assms(2) by (intro quiet_step; simp)+
  have "st = USending \<Longrightarrow> us_tokens s g = None"
    using uk_invariant [OF assms(1)] l by (auto simp: lock_entry_def)
  with l q show False by (cases st) (auto split: if_splits)
qed

text \<open>
  C40: After the last call and the last process that ends, the runtime makes at most \<open>uwork s\<close> more steps.
  When it makes no more, no undeployment waits, and every machine runs or has been cleaned up.
\<close>

theorem machines_come_to_rest:
  assumes "uk_reachable s" "uk_run es s = Some s'" "list_all uk_internal es"
  shows "length es + uwork s' \<le> uwork s \<and>
    (quiet s' \<longrightarrow> us_lock s' = None \<and> us_pending s' = [] \<and>
      (\<forall>g < length (us_gs s'). uphase s' g = UWaiting \<and> g \<in> us_procs s' \<or> (\<exists>b. uphase s' g = UFinished b)))"
proof
  show "length es + uwork s' \<le> uwork s"
    using assms(2,3) by (induction es arbitrary: s) (auto simp: bind_eq_Some_conv dest!: uwork_exec, fastforce)
  have r: "uk_reachable s'" using uk_reachable_run [OF assms(1,2)] .
  show "quiet s' \<longrightarrow> us_lock s' = None \<and> us_pending s' = [] \<and>
      (\<forall>g < length (us_gs s'). uphase s' g = UWaiting \<and> g \<in> us_procs s' \<or> (\<exists>b. uphase s' g = UFinished b))"
  proof
    assume "quiet s'"
    then have q: "uk_internal e \<Longrightarrow> uk_exec e s' = None" for e by (simp add: quiet_def)
    have l: "us_lock s' = None" using quiet_free [OF r \<open>quiet s'\<close>] .
    have "us_pending s' = []"
      using q [of "UkAdd (hd (us_pending s'))"] l by (cases "us_pending s'") auto
    moreover have "uphase s' g = UWaiting \<and> g \<in> us_procs s' \<or> (\<exists>b. uphase s' g = UFinished b)" for g
      using q [of "UkImage g False"] q [of "UkLaunch g True"] q [of "UkMonitor g False"] q [of "UkRevert g"]
        q [of "UkAbort g"] q [of "UkPark g"] q [of "UkExit g"] q [of "UkReport g True"] q [of "UkUnqueue g"]
        q [of "UkFinish g True"] ended_send [OF r, of g] l
      by (cases "uphase s' g") (auto simp: Let_def split: if_splits)
    ultimately show "us_lock s' = None \<and> us_pending s' = [] \<and>
        (\<forall>g < length (us_gs s'). uphase s' g = UWaiting \<and> g \<in> us_procs s' \<or> (\<exists>b. uphase s' g = UFinished b))"
      using l by simp
  qed
qed

theorem machines_come_to_rest_witness:
  "\<exists>s. uk_run [UkImage 0 True, UkLaunch 0 True, UkMonitor 0 True, UkPark 0] creating = Some s \<and> 4 + uwork s \<le> 8"
proof -
  obtain s where s: "uk_run [UkImage 0 True, UkLaunch 0 True, UkMonitor 0 True, UkPark 0] creating = Some s"
    by (simp add: uk_run_simps creating_def)
  have "uwork creating = 8" by (simp add: uwork_def creating_def us_init_def)
  with machines_come_to_rest [OF reachable_creating s] s show ?thesis by simp
qed

lemma stopped_stays:
  "uk_exec e s = Some s' \<Longrightarrow> g < length (us_gs s) \<Longrightarrow> \<not> unstopped (uphase s g) \<Longrightarrow> \<not> unstopped (uphase s' g)"
  by (cases e) (auto simp: Let_def split: if_splits option.splits ustage.splits uphase.splits)

lemma stopped_run:
  "uk_run es s = Some s' \<Longrightarrow> g < length (us_gs s) \<Longrightarrow> \<not> unstopped (uphase s g) \<Longrightarrow>
   g < length (us_gs s') \<and> \<not> unstopped (uphase s' g)"
  by (induction es arbitrary: s) (auto simp: bind_eq_Some_conv dest: stopped_stays goroutine_stays)

text \<open>
  C11: The undeployment of a machine that waits reaches it: when the runtime has come to rest after it,
  the machine was cleaned up, was reported DEAD exactly once, and is not in the kill queue.
\<close>

theorem undeploy_stops_machine:
  assumes "uk_reachable s" "uphase s g = UWaiting" "us_killQueue s (Generate v i) = Some (Some g)" "us_lock s = None"
    and "uk_run (UkUndeploy v i # UkSend # es) s = Some s'" "quiet s'"
  shows "uphase s' g = UFinished True \<and> count_list (map fst (us_reports s')) g = 1 \<and>
    us_killQueue s' (Generate v i) \<noteq> Some (Some g)"
proof -
  have g: "g < length (us_gs s)" using assms(2) by (intro uphase_bound) simp
  define s1 where "s1 = s\<lparr>us_lock := Some (Generate v i, g, USending)\<rparr>"
  define s2 where "s2 = uset g UEnded (s1\<lparr>us_lock := Some (Generate v i, g, UReceiving)\<rparr>)"
  have "uk_exec (UkUndeploy v i) s = Some s1" using assms(3,4) by (simp add: uk_Undeploy_def s1_def)
  moreover have "uk_exec UkSend s1 = Some s2" using assms(2) by (simp add: s1_def s2_def)
  ultimately have run: "uk_run es s2 = Some s'" using assms(5) by simp
  have "g < length (us_gs s2)" "\<not> unstopped (uphase s2 g)" using g by (simp_all add: s2_def s1_def)
  from stopped_run [OF run this] have st: "g < length (us_gs s')" "\<not> unstopped (uphase s' g)" by simp_all
  have r: "uk_reachable s'" using uk_reachable_run [OF assms(1,5)] .
  have q: "uk_exec (UkReport g True) s' = None" "uk_exec (UkUnqueue g) s' = None" "uk_exec (UkFinish g True) s' = None"
    using assms(6) by (intro quiet_step; simp)+
  have f: "uphase s' g = UFinished True"
    using st q quiet_free [OF r assms(6)] ended_send [OF r] by (cases "uphase s' g") auto
  then show ?thesis
    using uk_invariant [OF r] entry_live [of s' "Generate v i" g] by (auto simp: signals_exact_def)
qed

definition running :: uk_state where
  "running = us_init\<lparr>us_gs := [(web_service, UWaiting)], us_killQueue := [host_of web_service \<mapsto> Some 0],
     us_domains := [host_of web_service \<mapsto> 0], us_dirs := {host_of web_service}, us_procs := {0},
     us_replies := [(0, True)]\<rparr>"

lemma reachable_running: "uk_reachable running"
proof -
  have "uk_run [UkImage 0 True, UkLaunch 0 True, UkMonitor 0 True, UkPark 0] creating = Some running"
    by (simp add: uk_run_simps creating_def running_def)
  then show ?thesis by (rule uk_reachable_run [OF reachable_creating])
qed

theorem machines_accounted_witness:
  "count_list (map fst (us_replies running)) 0 = 1 \<and> count_list (map fst (us_reports running)) 0 = 0"
  using machines_accounted [OF reachable_running, of 0] by (simp add: running_def us_init_def uphase_def)

theorem undeploy_stops_machine_witness:
  "\<exists>s. uk_run [UkUndeploy ''web'' 0, UkSend, UkReport 0 True, UkTimeout, UkUnqueue 0, UkFinish 0 True] running = Some s \<and>
     uphase s 0 = UFinished True \<and> count_list (map fst (us_reports s)) 0 = 1"
proof -
  obtain s where s: "uk_run [UkUndeploy ''web'' 0, UkSend, UkReport 0 True, UkTimeout, UkUnqueue 0, UkFinish 0 True]
        running = Some s" "us_gs s = [(web_service, UFinished True)]" "us_lock s = None" "us_pending s = []"
    by (simp add: uk_run_simps running_def)
  have "uphase s g = UFinished True \<or> uphase s g = UFinished False" for g by (simp add: uphase_def s(2))
  then have ph: "uphase s g \<noteq> UStarting" "uphase s g \<noteq> UImaged" "uphase s g \<noteq> UQemu" "uphase s g \<noteq> UStarted"
      "uphase s g \<noteq> UWaiting" "uphase s g \<noteq> UEnded" "uphase s g \<noteq> UReported" "uphase s g \<noteq> UUnqueued"
      "uphase s g \<noteq> UReverting b" "uphase s g \<noteq> UAborting b" for g b
    by (metis uphase.distinct)+
  have "uk_internal e \<Longrightarrow> uk_exec e s = None" for e
    using s(3,4) ph by (cases e) (auto split: uphase.splits)
  then have "quiet s" by (simp add: quiet_def)
  moreover have "uphase running 0 = UWaiting" "us_lock running = None"
      "us_killQueue running (Generate ''web'' 0) = Some (Some 0)"
    by (simp_all add: running_def uphase_def us_init_def web_task)
  ultimately show ?thesis
    using undeploy_stops_machine [OF reachable_running _ _ _ s(1)] s(1) by auto
qed

theorem undeploy_waits_for_timeout_witness:
  "\<exists>s s'. uk_run [UkUndeploy ''web'' 0, UkSend] running = Some s \<and>
     uk_run [UkReport 0 True] s = Some s' \<and> us_lock s' = Some (host_of web_service, 0, UReceiving)"
proof -
  obtain s s' where s: "uk_run [UkUndeploy ''web'' 0, UkSend] running = Some s"
      "uk_run [UkReport 0 True] s = Some s'" "us_lock s = Some (host_of web_service, 0, UReceiving)" "us_tokens s 0 = None"
    by (simp add: uk_run_simps running_def)
  then show ?thesis
    using undeploy_waits_for_timeout [OF uk_reachable_run [OF reachable_running s(1)] s(3,4,2)] by auto
qed

end
