(* ===== verification/IoTools.thy ===== *)
theory IoTools
  imports GoPath "HOL-Library.Sublist" "HOL-Library.AList"
begin

text \<open>
  The node engine's file tools (\<open>util/iotools\<close>): copying files and directories, JSON files, and the
  choice of the directories the engine works in. A file system is an association list from paths,
  as lists of their elements, to directories and files with their modes; there are no links.
\<close>

section \<open>Files\<close>

datatype fnode = FDir nat | FFile string nat

type_synonym files = "(string list \<times> fnode) list"

text \<open>
  Which operations fail, what a removal that fails leaves, how much a copy that fails has written,
  and the process's umask, as a function on modes.
\<close>

record fs_env =
  fe_fault :: "string \<Rightarrow> string list \<Rightarrow> string option"
  fe_left :: "string list \<Rightarrow> bool"
  fe_written :: "string list \<Rightarrow> nat"
  fe_mask :: "nat \<Rightarrow> nat"

definition is_dir :: "files \<Rightarrow> string list \<Rightarrow> bool" where
  "is_dir fs k \<longleftrightarrow> (case map_of fs k of Some (FDir _) \<Rightarrow> True | _ \<Rightarrow> False)"

definition fs_Stat :: "fs_env \<Rightarrow> string list \<Rightarrow> files \<Rightarrow> string + fnode" where
  "fs_Stat env k fs =
     (case fe_fault env ''stat'' k of
        Some e \<Rightarrow> Err e
      | None \<Rightarrow> (case map_of fs k of None \<Rightarrow> Err ''file does not exist'' | Some n \<Rightarrow> Ok n))"

definition fs_Mkdir :: "fs_env \<Rightarrow> string list \<Rightarrow> nat \<Rightarrow> files \<Rightarrow> string + files" where
  "fs_Mkdir env k mode fs =
     (case fe_fault env ''mkdir'' k of
        Some e \<Rightarrow> Err e
      | None \<Rightarrow>
          if map_of fs k \<noteq> None then Err ''file exists''
          else if k = [] \<or> \<not> is_dir fs (butlast k) then Err ''no such file or directory''
          else Ok (AList.update k (FDir (fe_mask env mode)) fs))"

definition fs_RemoveAll :: "fs_env \<Rightarrow> string list \<Rightarrow> files \<Rightarrow> string option \<times> files" where
  "fs_RemoveAll env k fs =
     (case fe_fault env ''removeall'' k of
        Some e \<Rightarrow> (Some e, filter (\<lambda>(k', _). prefix k k' \<longrightarrow> fe_left env k') fs)
      | None \<Rightarrow> (None, filter (\<lambda>(k', _). \<not> prefix k k') fs))"

text \<open>A file opened for writing, created with the mode or truncated.\<close>

definition fs_Truncate :: "fs_env \<Rightarrow> string list \<Rightarrow> nat \<Rightarrow> files \<Rightarrow> string + files" where
  "fs_Truncate env k perm fs =
     (case fe_fault env ''create'' k of
        Some e \<Rightarrow> Err e
      | None \<Rightarrow>
          (case map_of fs k of
             Some (FDir _) \<Rightarrow> Err ''is a directory''
           | Some (FFile _ mode) \<Rightarrow> Ok (AList.update k (FFile [] mode) fs)
           | None \<Rightarrow>
               if k = [] \<or> \<not> is_dir fs (butlast k) then Err ''no such file or directory''
               else Ok (AList.update k (FFile [] (fe_mask env perm)) fs)))"

definition fs_write :: "string list \<Rightarrow> string \<Rightarrow> files \<Rightarrow> files" where
  "fs_write k data fs =
     (case map_of fs k of Some (FFile _ mode) \<Rightarrow> AList.update k (FFile data mode) fs | _ \<Rightarrow> fs)"

section \<open>Copies\<close>

definition CopyFileInFs :: "fs_env \<Rightarrow> string list \<Rightarrow> string list \<Rightarrow> nat \<Rightarrow> files \<Rightarrow> string option \<times> files" where
  "CopyFileInFs env src dst perm fs =
     (case fe_fault env ''open'' src of
        Some e \<Rightarrow> (Some e, fs)
      | None \<Rightarrow>
          (case map_of fs src of
             None \<Rightarrow> (Some ''file does not exist'', fs)
           | Some n \<Rightarrow>
               (case fs_Truncate env dst perm fs of
                  Err e \<Rightarrow> (Some e, fs)
                | Ok fs1 \<Rightarrow>
                    (case map_of fs1 src of
                       Some (FFile data _) \<Rightarrow>
                         (case fe_fault env ''copy'' dst of
                            Some e \<Rightarrow> (Some e, fs_write dst (take (fe_written env dst) data) fs1)
                          | None \<Rightarrow> (None, fs_write dst data fs1))
                     | _ \<Rightarrow> (Some ''is a directory'', fs1)))))"

text \<open>The entries of a directory, in the order of their names.\<close>

fun insert_name :: "string \<Rightarrow> string list \<Rightarrow> string list" where
  "insert_name x [] = [x]"
| "insert_name x (y # ys) = (if strings_Compare y x < 0 then y # insert_name x ys else x # y # ys)"

definition dir_names :: "files \<Rightarrow> string list \<Rightarrow> string list" where
  "dir_names fs k =
     foldr insert_name (remdups (map last (filter (\<lambda>k'. k' \<noteq> [] \<and> butlast k' = k) (map fst fs)))) []"

definition fs_ReadDir :: "fs_env \<Rightarrow> string list \<Rightarrow> files \<Rightarrow> string + (string \<times> fnode) list" where
  "fs_ReadDir env k fs =
     (case fe_fault env ''readdir'' k of
        Some e \<Rightarrow> Err e
      | None \<Rightarrow> Ok (map (\<lambda>c. (c, the (map_of fs (k @ [c])))) (dir_names fs k)))"

text \<open>The loop over the entries: it ends at the first error. \<open>None\<close> stands for no end.\<close>

fun for_entries ::
    "(string \<times> fnode \<Rightarrow> files \<Rightarrow> (string option \<times> files) option) \<Rightarrow> (string \<times> fnode) list \<Rightarrow> files
      \<Rightarrow> (string option \<times> files) option" where
  "for_entries f [] fs = Some (None, fs)"
| "for_entries f (e # es) fs =
     (case f e fs of
        None \<Rightarrow> None
      | Some (Some err, fs1) \<Rightarrow> Some (Some err, fs1)
      | Some (None, fs1) \<Rightarrow> for_entries f es fs1)"

text \<open>\<open>copyDirInFsNoChecks\<close>, to a depth of recursion.\<close>

primrec copyDirInFsNoChecks ::
    "nat \<Rightarrow> fs_env \<Rightarrow> string list \<Rightarrow> nat \<Rightarrow> string list \<Rightarrow> files \<Rightarrow> (string option \<times> files) option" where
  "copyDirInFsNoChecks 0 env src srcMode dst fs = None"
| "copyDirInFsNoChecks (Suc n) env src srcMode dst fs =
     (case fs_Mkdir env dst srcMode fs of
        Err e \<Rightarrow> Some (Some e, fs)
      | Ok fs1 \<Rightarrow>
          (case fs_ReadDir env src fs1 of
             Err e \<Rightarrow> Some (Some e, fs1)
           | Ok entries \<Rightarrow>
               for_entries
                 (\<lambda>(name, node) fs. case node of
                    FDir mode \<Rightarrow> copyDirInFsNoChecks n env (src @ [name]) mode (dst @ [name]) fs
                  | FFile _ mode \<Rightarrow> Some (CopyFileInFs env (src @ [name]) (dst @ [name]) mode fs))
                 entries fs1))"

definition filepath_Abs :: "string + string \<Rightarrow> string \<Rightarrow> string + string" where
  "filepath_Abs cwd p =
     (if path_rooted p then Ok (Clean p)
      else (case cwd of Err e \<Rightarrow> Err e | Ok wd \<Rightarrow> Ok (path_Join [wd, p])))"

definition CopyDirInFs ::
    "nat \<Rightarrow> fs_env \<Rightarrow> string + string \<Rightarrow> string \<Rightarrow> string \<Rightarrow> files \<Rightarrow> (string option \<times> files) option" where
  "CopyDirInFs n env cwd srcPath dstPath fs =
     (case filepath_Abs cwd srcPath of
        Err e \<Rightarrow> Some (Some e, fs)
      | Ok absSrc \<Rightarrow>
          (case filepath_Abs cwd dstPath of
             Err e \<Rightarrow> Some (Some e, fs)
           | Ok absDst \<Rightarrow>
               if absSrc = absDst then Some (None, fs)
               else if HasPrefix absDst (absSrc @ ''/'') then Some (Some ''cannot copy into child'', fs)
               else if HasPrefix absSrc (absDst @ ''/'') then Some (Some ''cannot copy into parent'', fs)
               else
                 (case fs_Stat env (path_elements absSrc) fs of
                    Err e \<Rightarrow> Some (Some e, fs)
                  | Ok (FFile _ _) \<Rightarrow> Some (Some ''is not a directory'', fs)
                  | Ok (FDir mode) \<Rightarrow>
                      (case fs_RemoveAll env (path_elements absDst) fs of
                         (Some e, fs1) \<Rightarrow> Some (Some e, fs1)
                       | (None, fs1) \<Rightarrow>
                           copyDirInFsNoChecks n env (path_elements absSrc) mode (path_elements absDst) fs1))))"

section \<open>JSON files\<close>

text \<open>\<open>enc\<close> and \<open>dec\<close> are Go's encoder and decoder for the type of the value.\<close>

definition StoreJSONWithIndentInFs ::
    "fs_env \<Rightarrow> (string \<Rightarrow> 'a \<Rightarrow> string + string) \<Rightarrow> 'a \<Rightarrow> string list \<Rightarrow> nat \<Rightarrow> string \<Rightarrow> files
      \<Rightarrow> string option \<times> files" where
  "StoreJSONWithIndentInFs env enc v k perm indent fs =
     (case fs_Truncate env k perm fs of
        Err e \<Rightarrow> (Some e, fs)
      | Ok fs1 \<Rightarrow>
          (case enc indent v of
             Err e \<Rightarrow> (Some e, fs1)
           | Ok text \<Rightarrow>
               (case fe_fault env ''copy'' k of
                  Some e \<Rightarrow> (Some e, fs_write k (take (fe_written env k) text) fs1)
                | None \<Rightarrow> (None, fs_write k text fs1))))"

definition LoadJSONInFs :: "fs_env \<Rightarrow> (string \<Rightarrow> string + 'a) \<Rightarrow> string list \<Rightarrow> files \<Rightarrow> string + 'a" where
  "LoadJSONInFs env dec k fs =
     (case fe_fault env ''open'' k of
        Some e \<Rightarrow> Err e
      | None \<Rightarrow>
          (case map_of fs k of
             None \<Rightarrow> Err ''file does not exist''
           | Some (FDir _) \<Rightarrow> Err ''is a directory''
           | Some (FFile text _) \<Rightarrow> dec text))"

section \<open>Directories of the engine\<close>

text \<open>\<open>MkdirAll\<close>, from the first element down.\<close>

primrec mkdir_below :: "fs_env \<Rightarrow> nat \<Rightarrow> string list \<Rightarrow> string list \<Rightarrow> files \<Rightarrow> string option \<times> files" where
  "mkdir_below env perm k [] fs = (None, fs)"
| "mkdir_below env perm k (c # cs) fs =
     (case map_of fs (k @ [c]) of
        Some (FDir _) \<Rightarrow> mkdir_below env perm (k @ [c]) cs fs
      | Some (FFile _ _) \<Rightarrow> (Some ''not a directory'', fs)
      | None \<Rightarrow>
          (case fs_Mkdir env (k @ [c]) perm fs of
             Err e \<Rightarrow> (Some e, fs)
           | Ok fs1 \<Rightarrow> mkdir_below env perm (k @ [c]) cs fs1))"

definition fs_MkdirAll :: "fs_env \<Rightarrow> string list \<Rightarrow> nat \<Rightarrow> files \<Rightarrow> string option \<times> files" where
  "fs_MkdirAll env k perm fs = mkdir_below env perm [] k fs"

definition CreateSubDirInFs :: "fs_env \<Rightarrow> string \<Rightarrow> string \<Rightarrow> nat \<Rightarrow> files \<Rightarrow> (string + string) \<times> files" where
  "CreateSubDirInFs env basePath subName perm fs =
     (let subPath = path_Join [basePath, subName] in
      case fs_MkdirAll env (path_elements subPath) perm fs of
        (Some e, fs1) \<Rightarrow> (Err e, fs1)
      | (None, fs1) \<Rightarrow> (Ok subPath, fs1))"

text \<open>
  The process's environment, whether files are the operating system's, and \<open>afero.TempDir\<close>, which
  makes a directory with the prefix in the directory it is given, or in the system's own if that
  is empty.
\<close>

record dir_env =
  de_UserCacheDir :: "string + string"
  de_Getenv :: "string \<Rightarrow> string"
  de_OsFs :: bool
  de_TempDir :: "string \<Rightarrow> string \<Rightarrow> files \<Rightarrow> (string + string) \<times> files"

definition os_IsDir :: "fs_env \<Rightarrow> string \<Rightarrow> files \<Rightarrow> bool" where
  "os_IsDir env p fs = (case fs_Stat env (path_elements p) fs of Ok (FDir _) \<Rightarrow> True | _ \<Rightarrow> False)"

definition largeTempDirBase :: "fs_env \<Rightarrow> files \<Rightarrow> string" where
  "largeTempDirBase env fs = (if \<not> os_IsDir env ''/var/tmp'' fs then [] else ''/var/tmp'')"

definition CreateTempDirInFs :: "dir_env \<Rightarrow> string \<Rightarrow> files \<Rightarrow> (string + string) \<times> files" where
  "CreateTempDirInFs de tag fs = de_TempDir de [] (''oakestra-'' @ tag @ ''-'') fs"

definition CreateLargeTempDirInFs :: "fs_env \<Rightarrow> dir_env \<Rightarrow> string \<Rightarrow> files \<Rightarrow> (string + string) \<times> files" where
  "CreateLargeTempDirInFs env de tag fs =
     (if \<not> de_OsFs de then CreateTempDirInFs de tag fs
      else de_TempDir de (largeTempDirBase env fs) (''oakestra-'' @ tag @ ''-'') fs)"

definition CreateOakestraCacheDir :: "fs_env \<Rightarrow> dir_env \<Rightarrow> files \<Rightarrow> (string + string) \<times> files" where
  "CreateOakestraCacheDir env de fs =
     (case de_UserCacheDir de of
        Err _ \<Rightarrow>
          if \<not> os_IsDir env ''/var/cache'' fs then CreateLargeTempDirInFs env de ''cache'' fs
          else CreateSubDirInFs env ''/var/cache'' ''oakestra'' 448 fs
      | Ok basePath \<Rightarrow> CreateSubDirInFs env basePath ''oakestra'' 448 fs)"

definition CreateOakestraRuntimeDir :: "fs_env \<Rightarrow> dir_env \<Rightarrow> files \<Rightarrow> (string + string) \<times> files" where
  "CreateOakestraRuntimeDir env de fs =
     (let basePath = de_Getenv de ''XDG_RUNTIME_DIR'' in
      if basePath = [] then
        (if \<not> os_IsDir env ''/run'' fs then CreateTempDirInFs de ''runtime'' fs
         else CreateSubDirInFs env ''/run'' ''oakestra'' 448 fs)
      else CreateSubDirInFs env basePath ''oakestra'' 448 fs)"

definition CreateOakestraStateDir :: "fs_env \<Rightarrow> dir_env \<Rightarrow> files \<Rightarrow> (string + string) \<times> files" where
  "CreateOakestraStateDir env de fs =
     (let basePath = de_Getenv de ''XDG_STATE_HOME'' in
      if basePath = [] then
        (if \<not> os_IsDir env ''/var/lib'' fs then CreateLargeTempDirInFs env de ''state'' fs
         else CreateSubDirInFs env ''/var/lib'' ''oakestra'' 448 fs)
      else CreateSubDirInFs env basePath ''oakestra'' 448 fs)"

section \<open>Overlapping directories\<close>

lemma Join_append_sep:
  "as \<noteq> [] \<Longrightarrow> bs \<noteq> [] \<Longrightarrow> Join (as @ bs) sep = Join as sep @ sep @ Join bs sep"
  by (induction as rule: induct_list012) (auto simp: neq_Nil_conv)

lemma Clean_eq_iff:
  "path_rooted p \<Longrightarrow> path_rooted q \<Longrightarrow> Clean p = Clean q \<longleftrightarrow> path_elements p = path_elements q"
  by (metis (no_types) Clean_elements path_elements_Clean_rooted)

text \<open>The check on the strings is the one on the paths, except for the root directory.\<close>

lemma overlap_check:
  assumes "path_rooted p" "path_rooted q" "path_elements p \<noteq> []"
  shows "HasPrefix (Clean q) (Clean p @ ''/'') \<longleftrightarrow> strict_prefix (path_elements p) (path_elements q)"
proof -
  let ?as = "path_elements p" and ?bs = "path_elements q"
  have pl: "list_all plain ?as" "list_all plain ?bs"
    using assms by (simp_all add: path_elements_rooted_plain)
  then have no: "\<forall>w \<in> set ?as. CHR ''/'' \<notin> set w" "\<forall>w \<in> set ?bs. CHR ''/'' \<notin> set w"
    by (auto simp: list_all_iff plain_def)
  have cl: "Clean p = ''/'' @ Join ?as ''/''" "Clean q = ''/'' @ Join ?bs ''/''"
    using assms by (simp_all add: Clean_elements)
  show ?thesis
  proof
    assume "HasPrefix (Clean q) (Clean p @ ''/'')"
    then obtain rest where eq: "Join ?bs ''/'' = Join ?as ''/'' @ CHR ''/'' # rest"
      by (auto simp: cl HasPrefix_iff)
    then have ne: "?bs \<noteq> []" by auto
    have "?bs = Split (CHR ''/'') (Join ?bs ''/'')" using Split_Join [OF ne no(2)] by simp
    also have "\<dots> = ?as @ Split (CHR ''/'') rest"
      using Split_Join [OF assms(3) no(1)] by (simp add: eq Split_append_cons)
    finally show "strict_prefix ?as ?bs"
      by (metis Split_not_Nil prefix_def append_self_conv strict_prefix_def)
  next
    assume "strict_prefix ?as ?bs"
    then obtain c cs where "?bs = ?as @ c # cs" by (auto simp: strict_prefix_def prefix_def neq_Nil_conv)
    then show "HasPrefix (Clean q) (Clean p @ ''/'')"
      using Join_append_sep [OF assms(3), of "c # cs" "''/''"] by (simp add: cl HasPrefix_iff)
  qed
qed

section \<open>A copy is a copy\<close>

definition no_fault :: "fs_env \<Rightarrow> bool" where
  "no_fault env \<longleftrightarrow> (\<forall>op k. fe_fault env op k = None)"

fun masked :: "fs_env \<Rightarrow> fnode \<Rightarrow> fnode" where
  "masked env (FDir mode) = FDir (fe_mask env mode)"
| "masked env (FFile data mode) = FFile data (fe_mask env mode)"

text \<open>Whatever is in the file system is in a directory.\<close>

definition rooted_tree :: "files \<Rightarrow> bool" where
  "rooted_tree fs \<longleftrightarrow> (\<forall>k c. map_of fs (k @ [c]) \<noteq> None \<longrightarrow> is_dir fs k)"

lemma insert_name_props: "set (insert_name x ys) = insert x (set ys)"
  "distinct (insert_name x ys) \<longleftrightarrow> x \<notin> set ys \<and> distinct ys"
  by (induction ys) auto

lemma insert_names: "set (foldr insert_name xs []) = set xs \<and> (distinct xs \<longrightarrow> distinct (foldr insert_name xs []))"
  by (induction xs) (auto simp: insert_name_props)

lemma dir_names_distinct: "distinct (dir_names fs k)"
  using insert_names by (simp add: dir_names_def)

lemma dir_names_iff: "c \<in> set (dir_names fs k) \<longleftrightarrow> map_of fs (k @ [c]) \<noteq> None"
proof -
  have "c \<in> set (dir_names fs k) \<longleftrightarrow> k @ [c] \<in> fst ` set fs"
    using insert_names by (force simp: dir_names_def image_iff)
  then show ?thesis by (metis map_of_eq_None_iff)
qed

text \<open>Every subdirectory's copy is a copy, so the loop over the entries makes the directory one.\<close>

definition copied :: "fs_env \<Rightarrow> files \<Rightarrow> string list \<Rightarrow> string list \<Rightarrow> nat \<Rightarrow> string set \<Rightarrow> files \<Rightarrow> bool" where
  "copied env fs0 src dst dm seen fs \<longleftrightarrow>
     map_of fs dst = Some (FDir dm) \<and>
     (\<forall>c r. map_of fs (dst @ c # r) =
        (if c \<in> seen then map_option (masked env) (map_of fs0 (src @ c # r)) else None)) \<and>
     (\<forall>k. \<not> prefix dst k \<longrightarrow> map_of fs k = map_of fs0 k)"

lemma for_entries_copied:
  assumes "\<And>c node seen fs. (c, node) \<in> set es \<Longrightarrow> c \<notin> seen \<Longrightarrow> copied env fs0 src dst dm seen fs \<Longrightarrow>
      \<exists>fs1. f (c, node) fs = Some (None, fs1) \<and> copied env fs0 src dst dm (insert c seen) fs1"
    and "distinct (map fst es)" "fst ` set es \<inter> seen = {}" "copied env fs0 src dst dm seen fs"
  shows "\<exists>fs1. for_entries f es fs = Some (None, fs1) \<and> copied env fs0 src dst dm (seen \<union> fst ` set es) fs1"
  using assms
proof (induction es arbitrary: seen fs)
  case (Cons e es)
  obtain c node where e: "e = (c, node)" by (cases e)
  have "c \<notin> seen" using Cons.prems(3) e by auto
  then obtain fs1 where f: "f e fs = Some (None, fs1)" and c1: "copied env fs0 src dst dm (insert c seen) fs1"
    using Cons.prems(1) [of c node seen fs] Cons.prems(4) e by auto
  have "fst ` set es \<inter> insert c seen = {}" "distinct (map fst es)" using Cons.prems(2,3) e by auto
  then obtain fs2 where "for_entries f es fs1 = Some (None, fs2)"
    and "copied env fs0 src dst dm (insert c seen \<union> fst ` set es) fs2"
    using Cons.IH [of "insert c seen" fs1] Cons.prems(1) c1 by (metis list.set_intros(2))
  then show ?case using f e by (simp add: Un_commute)
qed simp

lemma append_dst: "\<not> prefix (dst @ [c]) (dst @ d # r) \<longleftrightarrow> c \<noteq> d"
  by auto

lemma not_prefix_child: "\<not> prefix dst k \<Longrightarrow> \<not> prefix (dst @ c) k"
  by (auto dest: append_prefixD)

lemma is_dir_def2: "is_dir fs k \<longleftrightarrow> (\<exists>mode. map_of fs k = Some (FDir mode))"
  by (auto simp: is_dir_def split: option.splits fnode.splits)

text \<open>Every parent of a directory is one, so making a directory in it makes nothing else.\<close>

lemma parents_are_dirs: "rooted_tree fs \<Longrightarrow> map_of fs (k @ r) \<noteq> None \<Longrightarrow> r \<noteq> [] \<Longrightarrow> is_dir fs k"
proof (induction r rule: rev_induct)
  case (snoc c r)
  have "is_dir fs (k @ r)" using snoc.prems(1,2) unfolding rooted_tree_def append_assoc [symmetric] by blast
  then show ?case using snoc by (cases "r = []") (auto simp: is_dir_def2)
qed simp

lemma mkdir_below_dirs:
  "(\<And>i. 0 < i \<Longrightarrow> i \<le> length cs \<Longrightarrow> is_dir fs (k @ take i cs)) \<Longrightarrow>
   mkdir_below env perm k (cs @ ds) fs = mkdir_below env perm (k @ cs) ds fs"
proof (induction cs arbitrary: k)
  case (Cons c cs)
  have "is_dir fs (k @ [c])" using Cons.prems [of 1] by simp
  moreover have "mkdir_below env perm (k @ [c]) (cs @ ds) fs = mkdir_below env perm ((k @ [c]) @ cs) ds fs"
    using Cons.prems [of "Suc _"] by (intro Cons.IH) simp
  ultimately show ?case by (auto simp: is_dir_def2)
qed simp

lemma MkdirAll_child:
  assumes "rooted_tree fs" "is_dir fs k"
  shows "fs_MkdirAll env (k @ [c]) perm fs =
    (case map_of fs (k @ [c]) of
       Some (FDir _) \<Rightarrow> (None, fs)
     | Some (FFile _ _) \<Rightarrow> (Some ''not a directory'', fs)
     | None \<Rightarrow> (case fs_Mkdir env (k @ [c]) perm fs of Err e \<Rightarrow> (Some e, fs) | Ok fs1 \<Rightarrow> (None, fs1)))"
proof -
  have "is_dir fs (take i k)" if "i \<le> length k" for i
    using parents_are_dirs [OF assms(1), of "take i k" "drop i k"] assms(2) that
    by (cases "drop i k = []") (auto simp: is_dir_def2)
  then have "mkdir_below env perm [] (k @ [c]) fs = mkdir_below env perm ([] @ k) [c] fs"
    by (intro mkdir_below_dirs) simp
  then show ?thesis by (simp add: fs_MkdirAll_def split: option.split fnode.split sum.split)
qed

text \<open>Below what is no directory there is nothing.\<close>

lemma nothing_below:
  assumes "\<And>r c. map_of fs (src @ r @ [c]) \<noteq> None \<Longrightarrow> is_dir fs (src @ r)" "\<not> is_dir fs (src @ r0)"
  shows "r \<noteq> [] \<Longrightarrow> map_of fs (src @ r0 @ r) = None"
proof (induction r rule: rev_induct)
  case (snoc c r)
  have "\<not> is_dir fs (src @ r0 @ r)"
    using snoc.IH assms(2) by (cases "r = []") (auto simp: is_dir_def2)
  then show ?case using assms(1) [of "r0 @ r" c] by (cases "map_of fs (src @ r0 @ r @ [c])") auto
qed simp

lemma CopyFile_ok:
  assumes "no_fault env" "map_of fs src = Some (FFile data mode)" "map_of fs dst = None" "dst \<noteq> []" "is_dir fs (butlast dst)"
  shows "\<exists>fs1. CopyFileInFs env src dst perm fs = (None, fs1) \<and>
    map_of fs1 = (map_of fs)(dst \<mapsto> FFile data (fe_mask env perm))"
proof -
  have "src \<noteq> dst" using assms(2,3) by auto
  then show ?thesis
    using assms by (simp add: CopyFileInFs_def fs_Truncate_def fs_write_def no_fault_def update_conv')
qed

lemma copyDir_copied:
  assumes "no_fault env"
    and "\<And>r c. map_of fs (src @ r @ [c]) \<noteq> None \<Longrightarrow> is_dir fs (src @ r)" "is_dir fs src"
    and "\<And>r. map_of fs (src @ r) \<noteq> None \<Longrightarrow> length r < n"
    and "\<And>r. map_of fs (dst @ r) = None" "dst \<noteq> []" "is_dir fs (butlast dst)"
    and "\<not> prefix src dst" "\<not> prefix dst src"
  shows "\<exists>fs'. copyDirInFsNoChecks n env src mode dst fs = Some (None, fs') \<and> copied env fs src dst (fe_mask env mode) UNIV fs'"
  using assms(2-)
proof (induction n arbitrary: src mode dst fs)
  case 0
  then show ?case using 0(3) [of "[]"] by (auto simp: is_dir_def2)
next
  case (Suc n)
  note tree = Suc.prems(1) and disj = Suc.prems(7,8)
  have apart: "\<not> prefix dst (src @ r)" for r
    using disj prefix_same_cases [of dst "src @ r" src] by auto
  define fs1 where "fs1 = AList.update dst (FDir (fe_mask env mode)) fs"
  have m1: "map_of fs1 = (map_of fs)(dst \<mapsto> FDir (fe_mask env mode))" by (simp add: fs1_def update_conv')
  have "map_of fs dst = None" using Suc.prems(4) [of "[]"] by simp
  then have mk: "fs_Mkdir env dst mode fs = Ok fs1"
    using Suc.prems(5,6) assms(1) by (simp add: fs_Mkdir_def fs1_def no_fault_def)
  have src1: "map_of fs1 (src @ r) = map_of fs (src @ r)" for r using apart [of r] by (auto simp: m1)
  define es where "es = map (\<lambda>c. (c, the (map_of fs1 (src @ [c])))) (dir_names fs1 src)"
  have rd: "fs_ReadDir env src fs1 = Ok es" using assms(1) by (simp add: fs_ReadDir_def es_def no_fault_def)
  have fst_es: "map fst es = dir_names fs1 src" by (simp add: es_def comp_def)
  have names: "fst ` set es = {c. map_of fs (src @ [c]) \<noteq> None}"
    using dir_names_iff [of _ fs1 src] src1 fst_es by (auto simp flip: list.set_map)
  have node: "(c, nd) \<in> set es \<Longrightarrow> map_of fs (src @ [c]) = Some nd" for c nd
    using dir_names_iff [of c fs1 src] src1 by (auto simp: es_def)
  define f where "f = (\<lambda>(name, node) fs. case node of
      FDir mode \<Rightarrow> copyDirInFsNoChecks n env (src @ [name]) mode (dst @ [name]) fs
    | FFile _ mode \<Rightarrow> Some (CopyFileInFs env (src @ [name]) (dst @ [name]) mode fs))"
  have step: "\<exists>fs3. f (c, nd) fs2 = Some (None, fs3) \<and> copied env fs src dst (fe_mask env mode) (insert c seen) fs3"
    if mem: "(c, nd) \<in> set es" and new: "c \<notin> seen" and cp: "copied env fs src dst (fe_mask env mode) seen fs2" for c nd seen fs2
  proof -
    have src2: "map_of fs2 (src @ r) = map_of fs (src @ r)" for r
      using cp apart [of r] by (simp add: copied_def)
    have dst2: "map_of fs2 (dst @ c # r) = None" for r using cp new by (simp add: copied_def)
    have dir2: "map_of fs2 dst = Some (FDir (fe_mask env mode))" using cp by (simp add: copied_def)
    show ?thesis
    proof (cases nd)
      case (FFile data fmode)
      obtain fs3 where cf: "CopyFileInFs env (src @ [c]) (dst @ [c]) fmode fs2 = (None, fs3)"
        and m3: "map_of fs3 = (map_of fs2)(dst @ [c] \<mapsto> FFile data (fe_mask env fmode))"
        using CopyFile_ok [OF assms(1), of fs2 "src @ [c]" data fmode "dst @ [c]" fmode]
          node [OF mem] FFile src2 [of "[c]"] dst2 [of "[]"] dir2 by (auto simp: is_dir_def2)
      have leaf: "r \<noteq> [] \<Longrightarrow> map_of fs (src @ c # r) = None" for r
        using nothing_below [of fs src "[c]" r] tree node [OF mem] FFile by (simp add: is_dir_def2)
      have "copied env fs src dst (fe_mask env mode) (insert c seen) fs3"
        unfolding copied_def
      proof (intro conjI allI)
        show "map_of fs3 dst = Some (FDir (fe_mask env mode))" using dir2 by (simp add: m3)
      next
        fix d r
        show "map_of fs3 (dst @ d # r) =
            (if d \<in> insert c seen then map_option (masked env) (map_of fs (src @ d # r)) else None)"
          using cp dst2 [of r] leaf [of r] node [OF mem] FFile
          by (cases "d = c \<and> r = []") (auto simp: m3 copied_def)
      next
        fix k show "\<not> prefix dst k \<longrightarrow> map_of fs3 k = map_of fs k"
          using cp by (auto simp: m3 copied_def)
      qed
      then show ?thesis using cf FFile by (simp add: f_def)
    next
      case (FDir dmode)
      have "\<exists>fs3. copyDirInFsNoChecks n env (src @ [c]) dmode (dst @ [c]) fs2 = Some (None, fs3) \<and>
          copied env fs2 (src @ [c]) (dst @ [c]) (fe_mask env dmode) UNIV fs3"
      proof (rule Suc.IH)
        fix r d assume "map_of fs2 ((src @ [c]) @ r @ [d]) \<noteq> None"
        then show "is_dir fs2 ((src @ [c]) @ r)"
          using tree [of "c # r" d] src2 [of "c # r @ [d]"] src2 [of "c # r"] by (simp add: is_dir_def2)
      next
        show "is_dir fs2 (src @ [c])" using src2 [of "[c]"] node [OF mem] FDir by (simp add: is_dir_def2)
      next
        fix r assume "map_of fs2 ((src @ [c]) @ r) \<noteq> None"
        then show "length r < n" using src2 [of "c # r"] Suc.prems(3) [of "c # r"] by simp
      next
        fix r show "map_of fs2 ((dst @ [c]) @ r) = None" using dst2 [of r] by simp
      next
        show "is_dir fs2 (butlast (dst @ [c]))" using dir2 by (simp add: is_dir_def2)
        show "\<not> prefix (src @ [c]) (dst @ [c])" using disj
          by (metis butlast_snoc prefix_snoc append_prefixD prefix_order.eq_iff)
        show "\<not> prefix (dst @ [c]) (src @ [c])" using apart [of "[c]"] append_prefixD by blast
      qed simp
      then obtain fs3 where cd: "copyDirInFsNoChecks n env (src @ [c]) dmode (dst @ [c]) fs2 = Some (None, fs3)"
        and c3: "copied env fs2 (src @ [c]) (dst @ [c]) (fe_mask env dmode) UNIV fs3" by blast
      have m3: "map_of fs3 (dst @ [c]) = Some (FDir (fe_mask env dmode))" using c3 by (simp add: copied_def)
      have out: "\<not> prefix (dst @ [c]) k \<Longrightarrow> map_of fs3 k = map_of fs2 k" for k
        using c3 by (simp add: copied_def)
      have sub: "map_of fs3 (dst @ c # d # r) = map_option (masked env) (map_of fs (src @ c # d # r))" for d r
        using c3 src2 [of "c # d # r"] by (simp add: copied_def)
      have "copied env fs src dst (fe_mask env mode) (insert c seen) fs3"
        unfolding copied_def
      proof (intro conjI allI)
        show "map_of fs3 dst = Some (FDir (fe_mask env mode))" using out [of dst] dir2 by simp
      next
        fix d r
        show "map_of fs3 (dst @ d # r) =
            (if d \<in> insert c seen then map_option (masked env) (map_of fs (src @ d # r)) else None)"
        proof (cases "d = c")
          case True
          then show ?thesis using m3 sub node [OF mem] FDir by (cases r) auto
        next
          case False
          then show ?thesis using out [of "dst @ d # r"] cp by (auto simp: copied_def)
        qed
      next
        fix k show "\<not> prefix dst k \<longrightarrow> map_of fs3 k = map_of fs k"
          using out [of k] cp not_prefix_child [of dst k "[c]"] by (auto simp: copied_def)
      qed
      then show ?thesis using cd FDir by (simp add: f_def)
    qed
  qed
  have "copied env fs src dst (fe_mask env mode) {} fs1"
    using Suc.prems(4) by (auto simp: copied_def m1 is_dir_def2)
  then obtain fs' where loop: "for_entries f es fs1 = Some (None, fs')"
    and cp: "copied env fs src dst (fe_mask env mode) (fst ` set es) fs'"
    using for_entries_copied [of es env fs src dst "fe_mask env mode" f "{}" fs1] step dir_names_distinct fst_es by auto
  have all: "(if c \<in> fst ` set es then map_option (masked env) (map_of fs (src @ c # r)) else None) =
      map_option (masked env) (map_of fs (src @ c # r))" for c r
  proof (cases "c \<in> fst ` set es")
    case False
    then have "map_of fs (src @ [c]) = None" using names by simp
    then show ?thesis
      using False nothing_below [of fs src "[c]" r] tree by (cases r) (auto simp: is_dir_def2)
  qed simp
  have "copied env fs src dst (fe_mask env mode) UNIV fs'"
    using cp all by (simp add: copied_def)
  moreover have "copyDirInFsNoChecks (Suc n) env src mode dst fs = Some (None, fs')"
    using mk rd loop by (simp add: f_def)
  ultimately show ?case by blast
qed

text \<open>No path is longer than the number of paths, and every file has one.\<close>

definition depth :: "files \<Rightarrow> nat" where
  "depth fs = Max (insert 0 (length ` fst ` set fs))"

lemma depth_bound: "map_of fs k \<noteq> None \<Longrightarrow> length k \<le> depth fs"
  by (auto simp: depth_def map_of_eq_None_iff intro!: Max_ge)

lemma map_of_filter_key: "map_of (filter (\<lambda>(k', _). P k') fs) k = (if P k then map_of fs k else None)"
  by (induction fs) auto

lemma RemoveAll_ok:
  "no_fault env \<Longrightarrow>
   \<exists>fs1. fs_RemoveAll env d fs = (None, fs1) \<and> map_of fs1 = (\<lambda>k. if prefix d k then None else map_of fs k)"
  by (auto simp: fs_RemoveAll_def no_fault_def map_of_filter_key fun_eq_iff)

lemma set_path_step: "set (path_step b stack e) \<subseteq> insert ''..'' (set stack) \<union> ({e} - {[]})"
  by (auto simp: path_step_def dest: in_set_butlastD)

lemma set_path_steps: "set (foldl (path_step b) stack els) \<subseteq> insert ''..'' (set stack) \<union> (set els - {[]})"
proof (induction els arbitrary: stack)
  case (Cons e es)
  then show ?case using set_path_step [of b stack e] by fastforce
qed auto

lemma Clean_rooted_only:
  assumes "path_rooted (Clean p)"
  shows "path_rooted p"
proof (rule ccontr)
  assume n: "\<not> path_rooted p"
  have els: "c \<in> set (path_elements p) \<Longrightarrow> c \<noteq> [] \<and> hd c \<noteq> CHR ''/''" for c
    using set_path_steps [of "path_rooted p" "[]" "Split (CHR ''/'') p"] Split_no_sep [of c "CHR ''/''" p]
    by (cases c) (auto simp: path_elements_def)
  show False
  proof (cases "path_elements p")
    case Nil
    then show False using assms n by (simp add: Clean_def path_rooted_def HasPrefix_def)
  next
    case (Cons c cs)
    have "c \<noteq> []" "hd c \<noteq> CHR ''/''" using els [of c] Cons by simp_all
    moreover obtain rest where "Join (path_elements p) ''/'' = c @ rest"
      using Cons by (cases cs) auto
    moreover have "path_rooted (Join (path_elements p) ''/'')"
      using assms n Cons calculation by (simp add: Clean_def Let_def)
    ultimately show False by (cases c) (auto simp: path_rooted_def HasPrefix_def)
  qed
qed

lemma Abs_clean:
  assumes "filepath_Abs cwd p = Ok a" "path_rooted a"
  shows "Clean a = a"
proof -
  have j: "path_Join ws = [] \<or> (\<exists>q. path_Join ws = Clean q)" for ws by (auto simp: path_Join_def Let_def)
  have "\<not> path_rooted []" by (simp add: path_rooted_def HasPrefix_def)
  then have "\<exists>q. a = Clean q"
    using assms j [of "[projr cwd, p]"] by (cases "path_rooted p"; cases cwd) (auto simp: filepath_Abs_def)
  then obtain q where q: "a = Clean q" by blast
  then have "path_rooted q" using assms(2) Clean_rooted_only [of q] by simp
  then show ?thesis by (simp add: q Clean_idem_rooted)
qed

text \<open>
  C21: A directory that is copied to a place that does not overlap with it, and whose parent is there:
  the destination holds exactly what the source holds, with the modes the umask leaves, and
  nothing else is changed. The recursion is no deeper than the file system.
\<close>

theorem copied_directory:
  assumes "no_fault env" "rooted_tree fs" "depth fs < n"
    and "filepath_Abs cwd src = Ok a" "filepath_Abs cwd dst = Ok d" "path_rooted a" "path_rooted d"
    and "sk = path_elements a" "dk = path_elements d" "\<not> prefix sk dk" "\<not> prefix dk sk"
    and "is_dir fs sk" "is_dir fs (butlast dk)"
  shows "\<exists>fs'. CopyDirInFs n env cwd src dst fs = Some (None, fs') \<and>
    (\<forall>r. map_of fs' (dk @ r) = map_option (masked env) (map_of fs (sk @ r))) \<and>
    (\<forall>k. \<not> prefix dk k \<longrightarrow> map_of fs' k = map_of fs k)"
proof -
  have clean: "Clean a = a" "Clean d = d"
    using assms(4-7) Abs_clean by blast+
  have ne: "sk \<noteq> []" "dk \<noteq> []" using assms(10,11) by auto
  have checks: "a \<noteq> d" "\<not> HasPrefix d (a @ ''/'')" "\<not> HasPrefix a (d @ ''/'')"
    using overlap_check [of a d] overlap_check [of d a] assms(6-11) ne clean by (auto simp: strict_prefix_def)
  obtain mode where sm: "map_of fs sk = Some (FDir mode)" using assms(12) by (auto simp: is_dir_def2)
  obtain fs1 where ra: "fs_RemoveAll env dk fs = (None, fs1)"
    and m1: "map_of fs1 = (\<lambda>k. if prefix dk k then None else map_of fs k)"
    using RemoveAll_ok [OF assms(1)] by blast
  have src1: "map_of fs1 (sk @ r) = map_of fs (sk @ r)" for r
    using assms(10,11) prefix_same_cases [of dk "sk @ r" sk] by (auto simp: m1)
  have par: "\<not> prefix dk (butlast dk)" using ne(2) by (metis append_butlast_last_id prefix_length_le length_append_singleton Suc_n_not_le_n)
  have "\<exists>fs'. copyDirInFsNoChecks n env sk mode dk fs1 = Some (None, fs') \<and>
      copied env fs1 sk dk (fe_mask env mode) UNIV fs'"
  proof (rule copyDir_copied [OF assms(1)])
    fix r c assume "map_of fs1 (sk @ r @ [c]) \<noteq> None"
    then have "map_of fs ((sk @ r) @ [c]) \<noteq> None" using src1 [of "r @ [c]"] by simp
    then have "is_dir fs (sk @ r)" using assms(2) unfolding rooted_tree_def by blast
    then show "is_dir fs1 (sk @ r)" using src1 by (simp add: is_dir_def2)
  next
    fix r assume "map_of fs1 (sk @ r) \<noteq> None"
    then show "length r < n" using depth_bound [of fs "sk @ r"] src1 [of r] assms(3) by simp
  next
    fix r show "map_of fs1 (dk @ r) = None" by (simp add: m1)
  next
    show "is_dir fs1 sk" using src1 [of "[]"] sm by (simp add: is_dir_def2)
    show "is_dir fs1 (butlast dk)" using assms(13) par by (simp add: is_dir_def2 m1)
  qed (use ne assms(10,11) in auto)
  then obtain fs' where cd: "copyDirInFsNoChecks n env sk mode dk fs1 = Some (None, fs')"
    and cp: "copied env fs1 sk dk (fe_mask env mode) UNIV fs'" by blast
  have "fs_Stat env sk fs = Ok (FDir mode)" using assms(1) sm by (simp add: fs_Stat_def no_fault_def)
  then have "CopyDirInFs n env cwd src dst fs = Some (None, fs')"
    using assms(4,5,8,9) checks ra cd by (simp add: CopyDirInFs_def)
  moreover have "map_of fs' (dk @ r) = map_option (masked env) (map_of fs (sk @ r))" for r
    using cp src1 [of r] sm by (cases r) (auto simp: copied_def)
  moreover have "\<not> prefix dk k \<Longrightarrow> map_of fs' k = map_of fs k" for k
    using cp by (simp add: copied_def m1)
  ultimately show ?thesis by blast
qed

definition ideal_env :: fs_env where
  "ideal_env = \<lparr>fe_fault = (\<lambda>op k. None), fe_left = (\<lambda>k. False), fe_written = (\<lambda>k. 0), fe_mask = (\<lambda>m. m)\<rparr>"

definition small_files :: files where
  "small_files =
     [([], FDir 493), ([''src''], FDir 493), ([''src'', ''sub''], FDir 448), ([''src'', ''sub'', ''f''], FFile ''hello'' 384),
      ([''dst''], FDir 493), ([''dst'', ''old''], FFile ''old'' 420)]"

lemma small_files_tree: "rooted_tree small_files"
proof -
  have "map_of small_files (k @ [c]) \<noteq> None \<Longrightarrow> k = [] \<or> k = [''src''] \<or> k = [''src'', ''sub''] \<or> k = [''dst'']" for k c
    by (auto simp: small_files_def append_eq_Cons_conv split: if_splits)
  then show ?thesis by (auto simp: rooted_tree_def is_dir_def small_files_def)
qed

theorem copied_directory_witness:
  "\<exists>fs'. CopyDirInFs 4 ideal_env (Ok ''/'') ''/src'' ''/dst'' small_files = Some (None, fs') \<and>
     map_of fs' [''dst'', ''sub'', ''f''] = Some (FFile ''hello'' 384) \<and> map_of fs' [''dst'', ''old''] = None"
proof -
  have p: "path_elements ''/src'' = [''src'']" "path_elements ''/dst'' = [''dst'']"
    "path_rooted ''/src''" "path_rooted ''/dst''"
    by (simp_all add: path_elements_def path_rooted_def HasPrefix_def path_step_def)
  have cl: "Clean ''/src'' = ''/src''" "Clean ''/dst'' = ''/dst''"
    by (simp_all add: Clean_elements p)
  have "depth small_files < 4" by (simp add: depth_def small_files_def)
  moreover have "no_fault ideal_env" by (simp add: no_fault_def ideal_env_def)
  moreover have "is_dir small_files [''src'']" "is_dir small_files (butlast [''dst''])"
    by (simp_all add: is_dir_def small_files_def)
  ultimately have "\<exists>fs'. CopyDirInFs 4 ideal_env (Ok ''/'') ''/src'' ''/dst'' small_files = Some (None, fs') \<and>
      (\<forall>r. map_of fs' ([''dst''] @ r) = map_option (masked ideal_env) (map_of small_files ([''src''] @ r))) \<and>
      (\<forall>k. \<not> prefix [''dst''] k \<longrightarrow> map_of fs' k = map_of small_files k)"
    using small_files_tree p cl
    by (intro copied_directory [where a = "''/src''" and d = "''/dst''"]) (simp_all add: filepath_Abs_def)
  then obtain fs' where "CopyDirInFs 4 ideal_env (Ok ''/'') ''/src'' ''/dst'' small_files = Some (None, fs')"
    and at: "\<And>r. map_of fs' ([''dst''] @ r) = map_option (masked ideal_env) (map_of small_files ([''src''] @ r))"
    by blast
  then show ?thesis
    using at [of "[''sub'', ''f'']"] at [of "[''old'']"] by (simp add: small_files_def ideal_env_def)
qed

text \<open>
  A copy into a child of the source would never end well: it finds its own destination among the
  entries. The check on the paths catches this, except when the source is the root directory.
\<close>

lemma for_entries_ok: "for_entries f es fs = Some (None, fs') \<Longrightarrow> e \<in> set es \<Longrightarrow> \<exists>fs1 fs2. f e fs1 = Some (None, fs2)"
  by (induction es arbitrary: fs) (auto split: option.splits prod.splits)

lemma copy_into_child_fails: "copyDirInFsNoChecks n env src mode (src @ [x]) fs \<noteq> Some (None, fs')"
proof (induction n arbitrary: src mode fs fs')
  case (Suc n)
  show ?case
  proof
    assume ok: "copyDirInFsNoChecks (Suc n) env src mode (src @ [x]) fs = Some (None, fs')"
    then obtain fs1 es where mk: "fs_Mkdir env (src @ [x]) mode fs = Ok fs1" and rd: "fs_ReadDir env src fs1 = Ok es"
      and loop: "for_entries (\<lambda>(name, node) fs. case node of
            FDir mode \<Rightarrow> copyDirInFsNoChecks n env (src @ [name]) mode ((src @ [x]) @ [name]) fs
          | FFile _ mode \<Rightarrow> Some (CopyFileInFs env (src @ [name]) ((src @ [x]) @ [name]) mode fs)) es fs1 = Some (None, fs')"
      by (auto split: sum.splits)
    have "map_of fs1 (src @ [x]) = Some (FDir (fe_mask env mode))"
      using mk by (auto simp: fs_Mkdir_def update_conv' split: option.splits if_splits)
    then have "(x, FDir (fe_mask env mode)) \<in> set es"
      using rd dir_names_iff [of x fs1 src] by (auto simp: fs_ReadDir_def image_iff split: option.splits)
    then show False
      using for_entries_ok [OF loop] Suc.IH [of "src @ [x]"] by fastforce
  qed
qed simp

theorem root_not_guarded:
  assumes "plain x"
  shows "CopyDirInFs n env cwd ''/'' (''/'' @ x) fs \<noteq> Some (None, fs')"
    and "\<And>mode. no_fault env \<Longrightarrow> map_of fs [x] = Some (FDir mode) \<Longrightarrow>
      \<exists>r fs2. CopyDirInFs (Suc n) env cwd (''/'' @ x) ''/'' fs = Some (r, fs2) \<and> map_of fs2 = Map.empty"
proof -
  have r: "path_elements ''/'' = []" "path_rooted ''/''" "Clean ''/'' = ''/''"
    by (simp_all add: path_elements_def path_rooted_def HasPrefix_def Clean_def Let_def)
  have x: "path_elements (''/'' @ x) = [x]" "path_rooted (''/'' @ x)"
    using assms by (simp_all add: path_elements_def path_rooted_def HasPrefix_def Split_single plain_def)
  then have cx: "Clean (''/'' @ x) = ''/'' @ x" by (simp add: Clean_elements)
  have ne: "x \<noteq> []" "CHR ''/'' \<notin> set x" using assms by (simp_all add: plain_def)
  have abs: "filepath_Abs cwd ''/'' = Ok ''/''" "filepath_Abs cwd (''/'' @ x) = Ok (''/'' @ x)"
    using r x cx by (simp_all add: filepath_Abs_def)
  show "CopyDirInFs n env cwd ''/'' (''/'' @ x) fs \<noteq> Some (None, fs')"
    using abs ne x(1) r(1) copy_into_child_fails [of n env "[]" _ x]
    by (auto simp: CopyDirInFs_def HasPrefix_iff split: sum.splits fnode.splits prod.splits option.splits)
  have "\<not> HasPrefix (''/'' @ x) (''/'' @ ''/'')" "\<not> HasPrefix ''/'' ((''/'' @ x) @ ''/'')"
    using ne by (auto simp: HasPrefix_iff Cons_eq_append_conv)
  then show "\<exists>r fs2. CopyDirInFs (Suc n) env cwd (''/'' @ x) ''/'' fs = Some (r, fs2) \<and> map_of fs2 = Map.empty"
    if "no_fault env" "map_of fs [x] = Some (FDir mode)" for mode
    using abs ne x(1) r(1) that
    by (simp add: CopyDirInFs_def fs_Stat_def fs_RemoveAll_def fs_Mkdir_def no_fault_def)
qed

text \<open>A value that was stored is loaded again; one that cannot be encoded empties the file.\<close>

theorem json_roundtrip:
  assumes "no_fault env" "k \<noteq> []" "is_dir fs (butlast k)" "\<not> is_dir fs k" "\<And>s. enc indent v = Ok s \<Longrightarrow> dec s = Ok v"
  shows "case StoreJSONWithIndentInFs env enc v k perm indent fs of
      (None, fs') \<Rightarrow> LoadJSONInFs env dec k fs' = Ok v
    | (Some e, fs') \<Rightarrow> enc indent v = Err e \<and> (\<exists>mode. map_of fs' k = Some (FFile [] mode))"
proof (cases "enc indent v")
  case (Inl e)
  then show ?thesis
    using assms(1-4) by (auto simp: StoreJSONWithIndentInFs_def fs_Truncate_def no_fault_def update_conv' is_dir_def
        split: option.splits fnode.splits)
next
  case (Inr s)
  then show ?thesis
    using assms by (auto simp: StoreJSONWithIndentInFs_def LoadJSONInFs_def fs_Truncate_def fs_write_def no_fault_def
        update_conv' is_dir_def split: option.splits fnode.splits)
qed

end
