(* ===== verification/FsImg.thy ===== *)
theory FsImg
  imports IoTools CrosvmVm
begin

text \<open>
  The images a virtual machine boots from (\<open>crosvm/internal/fsimg\<close>, \<open>cloudinit/nocloud.go\<close>): the
  programs that make and unpack them, what is kept of their output in an error, sparse files, the
  copy of a squashfs image into a mounted ext4 image, and the cloud-init image. The programs are
  an argument; so is the text of a JSON value.
\<close>

section \<open>The host and its programs\<close>

text \<open>
  The files of the host, what is mounted on which directory, the latest first, and the file
  system that each image file holds.
\<close>

record host =
  h_files :: files
  h_mounts :: "(string list \<times> string list) list"
  h_imgs :: "string list \<Rightarrow> files"

text \<open>A command's writes to its two outputs, and how it ended.\<close>

datatype run_error = ExitError string | StartError string

record outcome =
  oc_stdout :: "byte list list"
  oc_stderr :: "byte list list"
  oc_error :: "run_error option"

record tools =
  tl_LookPath :: "string \<Rightarrow> string + string"
  tl_run :: "string \<Rightarrow> string list \<Rightarrow> host \<Rightarrow> outcome \<times> host"

definition lookPathOrEmpty :: "tools \<Rightarrow> string \<Rightarrow> string" where
  "lookPathOrEmpty T file = (case tl_LookPath T file of Err _ \<Rightarrow> [] | Ok path \<Rightarrow> path)"

definition cmd_Run :: "tools \<Rightarrow> string \<Rightarrow> string list \<Rightarrow> host \<Rightarrow> run_error option \<times> host" where
  "cmd_Run T name args h = (case tl_run T name args h of (oc, h') \<Rightarrow> (oc_error oc, h'))"

primrec run_error_text :: "run_error \<Rightarrow> string" where
  "run_error_text (ExitError msg) = msg"
| "run_error_text (StartError msg) = msg"

section \<open>Output in errors\<close>

definition text_of :: "byte list \<Rightarrow> string" where
  "text_of bs = map (\<lambda>b. char_of (unat b)) bs"

text \<open>\<open>strings.Lines\<close>: the lines with their newlines.\<close>

fun string_Lines :: "string \<Rightarrow> string list" where
  "string_Lines [] = []"
| "string_Lines (c # s) =
     (if c = CHR 0x0A then [c] # string_Lines s
      else (case string_Lines s of [] \<Rightarrow> [[c]] | l # ls \<Rightarrow> (c # l) # ls))"

definition add_line :: "string \<Rightarrow> string \<Rightarrow> string" where
  "add_line builder line =
     (let trimmed = TrimSpace line in
      if length trimmed > 0 then builder @ CHR 0x0A # ''>   '' @ trimmed else builder)"

text \<open>What the builder holds after one stream's buffer, if there is one, has been added.\<close>

definition attach_stream :: "string \<Rightarrow> TailBuffer option \<Rightarrow> string \<Rightarrow> string option" where
  "attach_stream outName buf builder =
     (case buf of
        None \<Rightarrow> Some builder
      | Some t \<Rightarrow>
          let builder = builder @ CHR 0x0A # outName @ '' tail (max '' @ utoa (Capacity t) @ '' bytes):''
          in (case WriteToSkippingUntil t buffer_writer IsValidUTF8Start [] () of
                None \<Rightarrow> None
              | Some (_, out) \<Rightarrow> Some (foldl add_line builder (string_Lines (text_of out)))))"

definition attachOutputToExitError ::
    "run_error \<Rightarrow> TailBuffer option \<Rightarrow> TailBuffer option \<Rightarrow> run_error option" where
  "attachOutputToExitError err stdoutBuf stderrBuf =
     (if stdoutBuf = None \<and> stderrBuf = None then Some err
      else
        (case err of
           StartError _ \<Rightarrow> Some err
         | ExitError msg \<Rightarrow>
             (case attach_stream ''stdout'' stdoutBuf [] of
                None \<Rightarrow> None
              | Some builder \<Rightarrow>
                  (case attach_stream ''stderr'' stderrBuf builder of
                     None \<Rightarrow> None
                   | Some builder \<Rightarrow> Some (ExitError (msg @ builder))))))"

text \<open>
  A buffer that takes a stream's writes. Without a capacity the stream is a nil buffer, on which
  every write of bytes panics.
\<close>

definition capture :: "int \<Rightarrow> byte list list \<Rightarrow> TailBuffer option option" where
  "capture capacity written =
     (if capacity > 0 then map_option Some (tb_run (map CallWrite written) (NewTailBuffer (nat capacity)))
      else if concat written = [] then Some None else None)"

text \<open>The error, if any, after the command has ended; \<open>None\<close> is a panic.\<close>

definition runCapturingOutput ::
    "tools \<Rightarrow> int \<Rightarrow> int \<Rightarrow> string \<Rightarrow> string list \<Rightarrow> host \<Rightarrow> (run_error option \<times> host) option" where
  "runCapturingOutput T stdoutCapacity stderrCapacity name args h =
     (case tl_run T name args h of
        (oc, h') \<Rightarrow>
          (case (capture stdoutCapacity (oc_stdout oc), capture stderrCapacity (oc_stderr oc)) of
             (Some stdoutBuf, Some stderrBuf) \<Rightarrow>
               (case oc_error oc of
                  None \<Rightarrow> Some (None, h')
                | Some err \<Rightarrow>
                    (case attachOutputToExitError err stdoutBuf stderrBuf of
                       None \<Rightarrow> None
                     | Some err' \<Rightarrow> Some (Some err', h')))
           | _ \<Rightarrow> None))"

section \<open>Sparse files and ext4 images\<close>

text \<open>The answers of a system call, one per attempt: none, or an error's name.\<close>

partial_function (option) ignoringEINTR :: "(nat \<Rightarrow> string option) \<Rightarrow> nat \<Rightarrow> string option option" where
  "ignoringEINTR fn i = (if fn i \<noteq> Some ''EINTR'' then Some (fn i) else ignoringEINTR fn (Suc i))"

text \<open>
  The connection to the descriptor, the control of it, and the attempts, in \<open>sys\<close>; the file is
  cut, or filled up with zeros.
\<close>

record trunc_sys =
  ts_SyscallConn :: "string option"
  ts_Control :: "string option"
  ts_attempt :: "nat \<Rightarrow> string option"

definition resized :: "nat \<Rightarrow> string \<Rightarrow> string" where
  "resized n data = take n data @ replicate (n - length data) (CHR 0x00)"

definition ftruncate :: "trunc_sys \<Rightarrow> string list \<Rightarrow> go_int \<Rightarrow> files \<Rightarrow> (string option \<times> files) option" where
  "ftruncate sys k len fs =
     (case ts_SyscallConn sys of
        Some e \<Rightarrow> Some (Some e, fs)
      | None \<Rightarrow>
          (case ts_Control sys of
             Some e \<Rightarrow> Some (Some e, fs)
           | None \<Rightarrow>
               (case ignoringEINTR (\<lambda>i. if len <s 0 then Some ''EINVAL'' else ts_attempt sys i) 0 of
                  None \<Rightarrow> None
                | Some (Some e) \<Rightarrow> Some (Some e, fs)
                | Some None \<Rightarrow>
                    (case map_of fs k of
                       Some (FFile data _) \<Rightarrow> Some (None, fs_write k (resized (unat len) data) fs)
                     | _ \<Rightarrow> Some (None, fs)))))"

definition CreateSparseFile ::
    "fs_env \<Rightarrow> trunc_sys \<Rightarrow> string \<Rightarrow> nat \<Rightarrow> go_int \<Rightarrow> files \<Rightarrow> (string option \<times> files) option" where
  "CreateSparseFile env sys dstPath perm len fs =
     (case fs_Truncate env (path_elements dstPath) perm fs of
        Err e \<Rightarrow> Some (Some e, fs)
      | Ok fs1 \<Rightarrow> ftruncate sys (path_elements dstPath) len fs1)"

definition CreateExt4Img ::
    "fs_env \<Rightarrow> trunc_sys \<Rightarrow> tools \<Rightarrow> string \<Rightarrow> nat \<Rightarrow> go_int \<Rightarrow> host \<Rightarrow> (string option \<times> host) option" where
  "CreateExt4Img env sys T dstPath perm len h =
     (case CreateSparseFile env sys dstPath perm len (h_files h) of
        None \<Rightarrow> None
      | Some (Some e, fs1) \<Rightarrow> Some (Some e, h\<lparr>h_files := fs1\<rparr>)
      | Some (None, fs1) \<Rightarrow>
          let h1 = h\<lparr>h_files := fs1\<rparr>; execPath = lookPathOrEmpty T ''mkfs.ext4''
          in if execPath = [] then Some (Some ''missing mkfs.ext4 executable'', h1)
             else
               (case runCapturingOutput T 4096 4096 execPath [dstPath] h1 of
                  None \<Rightarrow> None
                | Some (None, h2) \<Rightarrow> Some (None, h2)
                | Some (Some err, h2) \<Rightarrow>
                    Some (Some (''failed to create ext4 image: '' @ run_error_text err), h2)))"

section \<open>Squashfs and iso images\<close>

definition PackIntoSquashFsImg :: "tools \<Rightarrow> string \<Rightarrow> string \<Rightarrow> host \<Rightarrow> string option \<times> host" where
  "PackIntoSquashFsImg T srcDirPath dstPath h =
     (let execPath = lookPathOrEmpty T ''mksquashfs'' in
      if execPath = [] then (Some ''missing mksquashfs executable'', h)
      else map_prod (map_option run_error_text) id (cmd_Run T execPath [srcDirPath, dstPath] h))"

definition UnpackFromSquashFsImg :: "tools \<Rightarrow> string \<Rightarrow> string \<Rightarrow> host \<Rightarrow> string option \<times> host" where
  "UnpackFromSquashFsImg T srcPath dstDirPath h =
     (let execPath = lookPathOrEmpty T ''unsquashfs'' in
      if execPath = [] then (Some ''missing unsquashfs executable'', h)
      else map_prod (map_option run_error_text) id (cmd_Run T execPath [''-d'', dstDirPath, srcPath] h))"

definition PackIntoIsoFsImg :: "tools \<Rightarrow> string \<Rightarrow> string \<Rightarrow> string \<Rightarrow> host \<Rightarrow> string option \<times> host" where
  "PackIntoIsoFsImg T volumeId srcDirPath dstPath h =
     (let execPath = lookPathOrEmpty T ''mkisofs'' in
      if execPath = [] then (Some ''missing mkisofs executable'', h)
      else map_prod (map_option run_error_text) id
        (cmd_Run T execPath [''-o'', dstPath, ''-V'', volumeId, ''-J'', ''-R'', srcDirPath] h))"

text \<open>
  \<open>os.Chmod\<close> and \<open>os.Remove\<close> of a directory: what is mounted there is what they reach, and a
  directory with something mounted on it, or with entries, stays.
\<close>

definition chmod_node :: "nat \<Rightarrow> fnode \<Rightarrow> fnode" where
  "chmod_node mode n = (case n of FDir _ \<Rightarrow> FDir mode | FFile data _ \<Rightarrow> FFile data mode)"

definition chmod_at :: "string list \<Rightarrow> nat \<Rightarrow> files \<Rightarrow> files" where
  "chmod_at k mode fs =
     (case map_of fs k of None \<Rightarrow> fs | Some n \<Rightarrow> AList.update k (chmod_node mode n) fs)"

definition host_Chmod :: "fs_env \<Rightarrow> string list \<Rightarrow> nat \<Rightarrow> host \<Rightarrow> string option \<times> host" where
  "host_Chmod env k mode h =
     (case fe_fault env ''chmod'' k of
        Some e \<Rightarrow> (Some e, h)
      | None \<Rightarrow>
          (case map_of (h_mounts h) k of
             Some img \<Rightarrow> (None, h\<lparr>h_imgs := (h_imgs h)(img := chmod_at [] mode (h_imgs h img))\<rparr>)
           | None \<Rightarrow>
               (case map_of (h_files h) k of
                  None \<Rightarrow> (Some ''file does not exist'', h)
                | Some _ \<Rightarrow> (None, h\<lparr>h_files := chmod_at k mode (h_files h)\<rparr>))))"

definition host_Remove :: "fs_env \<Rightarrow> string list \<Rightarrow> host \<Rightarrow> string option \<times> host" where
  "host_Remove env k h =
     (case fe_fault env ''remove'' k of
        Some e \<Rightarrow> (Some e, h)
      | None \<Rightarrow>
          if map_of (h_mounts h) k \<noteq> None then (Some ''device or resource busy'', h)
          else if map_of (h_files h) k = None then (Some ''file does not exist'', h)
          else if dir_names (h_files h) k \<noteq> [] then (Some ''directory not empty'', h)
          else (None, h\<lparr>h_files := AList.delete k (h_files h)\<rparr>))"

text \<open>The deferred calls run in the reverse order, whatever their outcome.\<close>

definition RemoveOrWarn :: "fs_env \<Rightarrow> string \<Rightarrow> host \<Rightarrow> host" where
  "RemoveOrWarn env name h = snd (host_Remove env (path_elements name) h)"

definition umount_deferred :: "tools \<Rightarrow> string \<Rightarrow> string \<Rightarrow> host \<Rightarrow> host" where
  "umount_deferred T umountExecPath mountDirPath h = snd (cmd_Run T umountExecPath [''-d'', mountDirPath] h)"

text \<open>The copy between the mount and the unmount.\<close>

definition copy_to_mount :: "fs_env \<Rightarrow> tools \<Rightarrow> string \<Rightarrow> string \<Rightarrow> host \<Rightarrow> string option \<times> host" where
  "copy_to_mount env T squashfsPath mountDirPath h =
     (case UnpackFromSquashFsImg T squashfsPath mountDirPath h of
        (Some e, h1) \<Rightarrow> (Some (''failed to unpack squashfs image: '' @ e), h1)
      | (None, h1) \<Rightarrow>
          (case host_Chmod env (path_elements mountDirPath) 493 h1 of
             (Some e, h2) \<Rightarrow> (Some (''failed to set root directory permissions in image: '' @ e), h2)
           | (None, h2) \<Rightarrow> (None, h2)))"

definition CopySquashFsIntoExt4Img ::
    "fs_env \<Rightarrow> tools \<Rightarrow> string \<Rightarrow> string \<Rightarrow> string \<Rightarrow> host \<Rightarrow> string option \<times> host" where
  "CopySquashFsIntoExt4Img env T squashfsPath ext4Path mountDirPath h =
     (let mountExecPath = lookPathOrEmpty T ''mount''; umountExecPath = lookPathOrEmpty T ''umount'' in
      if mountExecPath = [] then (Some ''missing mount executable'', h)
      else if umountExecPath = [] then (Some ''missing umount executable'', h)
      else
        (case fs_Stat env (path_elements squashfsPath) (h_files h) of
           Err e \<Rightarrow> (Some e, h)
         | Ok _ \<Rightarrow>
             (case fs_Stat env (path_elements ext4Path) (h_files h) of
                Err e \<Rightarrow> (Some e, h)
              | Ok _ \<Rightarrow>
                  (case fs_Mkdir env (path_elements mountDirPath) 448 (h_files h) of
                     Err e \<Rightarrow> (Some (''failed to create mount directory: '' @ e), h)
                   | Ok fs1 \<Rightarrow>
                       (case cmd_Run T mountExecPath [''-t'', ''ext4'', ''-o'', ''loop'', ext4Path, mountDirPath]
                               (h\<lparr>h_files := fs1\<rparr>) of
                          (Some e, h1) \<Rightarrow>
                            (Some (''failed to run mount command: '' @ run_error_text e),
                             RemoveOrWarn env mountDirPath h1)
                        | (None, h1) \<Rightarrow>
                            (case copy_to_mount env T squashfsPath mountDirPath h1 of
                               (res, h2) \<Rightarrow>
                                 (res, RemoveOrWarn env mountDirPath
                                         (umount_deferred T umountExecPath mountDirPath h2))))))))"

section \<open>The cloud-init image\<close>

definition json_strings :: "string list \<Rightarrow> jval" where
  "json_strings xs = JvArr (map JvStr xs)"

definition json_WriteFileConfig :: "WriteFileConfig \<Rightarrow> jval" where
  "json_WriteFileConfig w =
     JvObj ([(''path'', JvStr (wf_Path w)), (''content'', JvStr (wf_Content w))]
       @ opt_field ''owner'' JvStr (wf_Owner w)
       @ opt_field ''permissions'' JvStr (wf_Permissions w)
       @ opt_field ''append'' JvBool (wf_Append w))"

definition json_UserData :: "UserData \<Rightarrow> jval" where
  "json_UserData u =
     JvObj (opt_field ''cloud_init_modules'' json_strings (ud_CloudInitModules u)
       @ opt_field ''cloud_config_modules'' json_strings (ud_CloudConfigModules u)
       @ opt_field ''cloud_final_modules'' json_strings (ud_CloudFinalModules u)
       @ opt_field ''disable_root'' JvBool (ud_DisableRoot u)
       @ list_field ''write_files'' json_WriteFileConfig (ud_WriteFiles u))"

definition json_MetaData :: "MetaData \<Rightarrow> jval" where
  "json_MetaData m =
     JvObj ((''instance-id'', JvStr (md_InstanceId m)) # opt_field ''local-hostname'' JvStr (md_LocalHostname m))"

definition json_Ethernet :: "NetworkConfigEthernet \<Rightarrow> jval" where
  "json_Ethernet e =
     JvObj (opt_field ''match'' (\<lambda>mac. JvObj [(''macaddress'', JvStr mac)]) (eth_Macaddress e)
       @ opt_field ''dhcp4'' JvBool (eth_Dhcp4 e)
       @ opt_field ''dhcp6'' JvBool (eth_Dhcp6 e)
       @ list_field ''addresses'' JvStr (eth_Addresses e)
       @ opt_field ''gateway4'' JvStr (eth_Gateway4 e)
       @ opt_field ''gateway6'' JvStr (eth_Gateway6 e)
       @ opt_field ''nameservers'' (\<lambda>ns. JvObj (list_field ''addresses'' JvStr ns)) (eth_Nameservers e)
       @ opt_field ''link-local'' json_strings (eth_LinkLocal e))"

definition json_NetworkConfig :: "NetworkConfig \<Rightarrow> jval" where
  "json_NetworkConfig n =
     JvObj ((''version'', JvInt (sint (net_Version n)))
       # (if net_Ethernets n = [] then []
          else [(''ethernets'', JvObj (map (\<lambda>(name, e). (name, json_Ethernet e)) (net_Ethernets n)))]))"

definition storeUserData ::
    "fs_env \<Rightarrow> (string \<Rightarrow> jval \<Rightarrow> string + string) \<Rightarrow> UserData \<Rightarrow> string \<Rightarrow> files \<Rightarrow> string option \<times> files" where
  "storeUserData env enc userData dstPath fs =
     (let k = path_elements dstPath; header = ''#cloud-config'' @ [CHR 0x0A] in
      case fs_Truncate env k 384 fs of
        Err e \<Rightarrow> (Some e, fs)
      | Ok fs1 \<Rightarrow>
          (case fe_fault env ''write'' k of
             Some e \<Rightarrow> (Some e, fs_write k (take (fe_written env k) header) fs1)
           | None \<Rightarrow>
               (case enc ''  '' (json_UserData userData) of
                  Err e \<Rightarrow> (Some e, fs_write k header fs1)
                | Ok body \<Rightarrow>
                    (case fe_fault env ''copy'' k of
                       Some e \<Rightarrow> (Some e, fs_write k (header @ take (fe_written env k) body) fs1)
                     | None \<Rightarrow> (None, fs_write k (header @ body) fs1)))))"

text \<open>The three files, in order, and the image made of their directory.\<close>

definition write_seed ::
    "fs_env \<Rightarrow> (string \<Rightarrow> jval \<Rightarrow> string + string) \<Rightarrow> tools \<Rightarrow> UserData \<Rightarrow> MetaData \<Rightarrow> NetworkConfig
      \<Rightarrow> string \<Rightarrow> string \<Rightarrow> host \<Rightarrow> string option \<times> host" where
  "write_seed env enc T userData metaData networkConfig tmpDirPath dstPath h =
     (case storeUserData env enc userData (path_Join [tmpDirPath, ''user-data'']) (h_files h) of
        (Some e, fs1) \<Rightarrow> (Some e, h\<lparr>h_files := fs1\<rparr>)
      | (None, fs1) \<Rightarrow>
          (case StoreJSONWithIndentInFs env enc (json_MetaData metaData)
                  (path_elements (path_Join [tmpDirPath, ''meta-data''])) 384 ''  '' fs1 of
             (Some e, fs2) \<Rightarrow> (Some e, h\<lparr>h_files := fs2\<rparr>)
           | (None, fs2) \<Rightarrow>
               (case StoreJSONWithIndentInFs env enc (json_NetworkConfig networkConfig)
                       (path_elements (path_Join [tmpDirPath, ''network-config''])) 384 ''  '' fs2 of
                  (Some e, fs3) \<Rightarrow> (Some e, h\<lparr>h_files := fs3\<rparr>)
                | (None, fs3) \<Rightarrow> PackIntoIsoFsImg T ''CIDATA'' tmpDirPath dstPath (h\<lparr>h_files := fs3\<rparr>))))"

definition CreateNoCloudFsImg ::
    "fs_env \<Rightarrow> dir_env \<Rightarrow> (string \<Rightarrow> jval \<Rightarrow> string + string) \<Rightarrow> tools \<Rightarrow> UserData \<Rightarrow> MetaData \<Rightarrow> NetworkConfig
      \<Rightarrow> string \<Rightarrow> host \<Rightarrow> string option \<times> host" where
  "CreateNoCloudFsImg env de enc T userData metaData networkConfig dstPath h =
     (case CreateTempDirInFs de ''cloud-init'' (h_files h) of
        (Err e, fs1) \<Rightarrow> (Some e, h\<lparr>h_files := fs1\<rparr>)
      | (Ok tmpDirPath, fs1) \<Rightarrow>
          (case write_seed env enc T userData metaData networkConfig tmpDirPath dstPath (h\<lparr>h_files := fs1\<rparr>) of
             (res, h1) \<Rightarrow>
               (res, h1\<lparr>h_files := snd (fs_RemoveAll env (path_elements tmpDirPath) (h_files h1))\<rparr>)))"

section \<open>What an error tells\<close>

definition shown_lines :: "string \<Rightarrow> string" where
  "shown_lines s =
     concat (map (\<lambda>l. CHR 0x0A # ''>   '' @ l) (filter (\<lambda>l. l \<noteq> []) (map TrimSpace (string_Lines s))))"

text \<open>The last bytes of a stream, from the first that can start a character.\<close>

definition valid_tail :: "nat \<Rightarrow> byte list list \<Rightarrow> string" where
  "valid_tail n written = text_of (dropWhile (\<lambda>b. and b 0xC0 = 0x80) (recent n (concat written)))"

lemma drop_until_valid: "fst (drop_until IsValidUTF8Start () bs) = dropWhile (\<lambda>b. and b 0xC0 = 0x80) bs"
  by (induction bs) (auto simp: IsValidUTF8Start_def)

lemma foldl_add_line:
  "foldl add_line b ls = b @ concat (map (\<lambda>l. CHR 0x0A # ''>   '' @ l) (filter (\<lambda>l. l \<noteq> []) (map TrimSpace ls)))"
  by (induction ls arbitrary: b) (auto simp: add_line_def Let_def)

lemma attach_captured:
  assumes "0 < n" "n < 2 ^ 63" "length (concat written) < 2 ^ 63"
  shows "\<exists>t. capture (int n) written = Some (Some t) \<and>
    (\<forall>b. attach_stream nm (Some t) b =
       Some (b @ CHR 0x0A # nm @ '' tail (max '' @ utoa n @ '' bytes):'' @ shown_lines (valid_tail n written)))"
proof -
  obtain t where t: "tb_run (map CallWrite written) (NewTailBuffer n) = Some t" "holds t (concat written)" "Capacity t = n"
    using tb_run_holds [OF holds_New [OF assms(1,2)], of "map CallWrite written"] assms(3)
    by (auto simp: stream_CallWrite bytes_in_CallWrite Capacity_def NewTailBuffer_def)
  show ?thesis
    using t WriteToSkippingUntil_holds [OF t(2) refl, of IsValidUTF8Start "[]" "()"] assms(1)
    by (auto simp: capture_def attach_stream_def Let_def foldl_add_line drop_until_valid valid_tail_def shown_lines_def)
qed

text \<open>
  A program that makes an ext4 image and fails leaves in the error what it wrote last: of each of
  its two outputs the last 4096 bytes, cut where a character starts, line by line, without the
  empty lines and the space around the others.
\<close>

theorem captured_output:
  assumes "tl_run T name args h = (oc, h')" "oc_error oc = Some (ExitError msg)"
    and "length (concat (oc_stdout oc)) < 2 ^ 63" "length (concat (oc_stderr oc)) < 2 ^ 63"
  shows "runCapturingOutput T 4096 4096 name args h =
    Some (Some (ExitError (msg
      @ CHR 0x0A # ''stdout tail (max '' @ utoa 4096 @ '' bytes):'' @ shown_lines (valid_tail 4096 (oc_stdout oc))
      @ CHR 0x0A # ''stderr tail (max '' @ utoa 4096 @ '' bytes):'' @ shown_lines (valid_tail 4096 (oc_stderr oc)))), h')"
proof -
  obtain t1 t2 where "capture 4096 (oc_stdout oc) = Some (Some t1)" "capture 4096 (oc_stderr oc) = Some (Some t2)"
    and "\<And>b. attach_stream ''stdout'' (Some t1) b =
       Some (b @ CHR 0x0A # ''stdout'' @ '' tail (max '' @ utoa 4096 @ '' bytes):'' @ shown_lines (valid_tail 4096 (oc_stdout oc)))"
    and "\<And>b. attach_stream ''stderr'' (Some t2) b =
       Some (b @ CHR 0x0A # ''stderr'' @ '' tail (max '' @ utoa 4096 @ '' bytes):'' @ shown_lines (valid_tail 4096 (oc_stderr oc)))"
    using attach_captured [of 4096 "oc_stdout oc" "''stdout''"] attach_captured [of 4096 "oc_stderr oc" "''stderr''"] assms(3,4)
    by auto
  then show ?thesis
    using assms(1,2) by (simp add: runCapturingOutput_def attachOutputToExitError_def)
qed

definition failing_mkfs :: tools where
  "failing_mkfs =
     \<lparr>tl_LookPath = (\<lambda>f. Ok (''/sbin/'' @ f)),
      tl_run = (\<lambda>name args h.
        (\<lparr>oc_stdout = [[0x80, 104, 105, 10], [10, 32, 33]], oc_stderr = [], oc_error = Some (ExitError ''exit status 1'')\<rparr>, h))\<rparr>"

theorem captured_output_witness:
  "runCapturingOutput failing_mkfs 4096 4096 ''/sbin/mkfs.ext4'' [''/img''] h =
     Some (Some (ExitError (''exit status 1''
       @ CHR 0x0A # ''stdout tail (max '' @ utoa 4096 @ '' bytes):'' @ CHR 0x0A # ''>   hi'' @ CHR 0x0A # ''>   !''
       @ CHR 0x0A # ''stderr tail (max '' @ utoa 4096 @ '' bytes):'')), h)"
proof -
  have t: "recent 4096 ([0x80, 104, 105, 10, 10, 32, 33] :: byte list) = [0x80, 104, 105, 10, 10, 32, 33]"
    by (simp add: recent_def)
  have c: "map (\<lambda>b. char_of (unat b)) [104, 105, 10, 10, 32, 33 :: byte] = ''hi'' @ [CHR 0x0A, CHR 0x0A, CHR '' '', CHR ''!'']"
    by code_simp
  have s: "shown_lines (''hi'' @ [CHR 0x0A, CHR 0x0A, CHR '' '', CHR ''!'']) = CHR 0x0A # ''>   hi'' @ CHR 0x0A # ''>   !''"
    by code_simp
  have "valid_tail n [] = []" for n by (simp add: valid_tail_def text_of_def recent_def)
  moreover have "shown_lines [] = []" by (simp add: shown_lines_def)
  ultimately have e: "shown_lines (valid_tail n []) = []" for n by simp
  have v: "shown_lines (valid_tail 4096 [[0x80, 104, 105, 10], [10, 32, 33]]) = CHR 0x0A # ''>   hi'' @ CHR 0x0A # ''>   !''"
    using t c s by (simp add: valid_tail_def text_of_def)
  define oc where "oc = \<lparr>oc_stdout = [[0x80, 104, 105, 10], [10, 32, 33]], oc_stderr = [], oc_error = Some (ExitError ''exit status 1'')\<rparr>"
  have "tl_run failing_mkfs ''/sbin/mkfs.ext4'' [''/img''] h = (oc, h)" "oc_error oc = Some (ExitError ''exit status 1'')"
    "length (concat (oc_stdout oc)) < 2 ^ 63" "length (concat (oc_stderr oc)) < 2 ^ 63"
    by (simp_all add: failing_mkfs_def oc_def)
  note r = captured_output [OF this]
  have "oc_stdout oc = [[0x80, 104, 105, 10], [10, 32, 33]]" "oc_stderr oc = []"
    by (simp_all add: oc_def)
  then show ?thesis unfolding r by (simp only: v e append.simps append_assoc append_Nil2)
qed

text \<open>A stream without a capacity is a nil buffer: the first byte written to it panics.\<close>

lemma zero_capacity_panics:
  assumes "tl_run T name args h = (oc, h')" "concat (oc_stdout oc) \<noteq> []"
  shows "runCapturingOutput T 0 n name args h = None"
proof -
  have "capture 0 (oc_stdout oc) = None" using assms(2) by (simp only: capture_def) simp
  then show ?thesis by (simp add: runCapturingOutput_def assms(1))
qed

section \<open>Sparse files\<close>

text \<open>The system call is repeated while it is interrupted: it returns unless that never ends.\<close>

lemma ignoringEINTR_Suc: "fn i = Some ''EINTR'' \<Longrightarrow> ignoringEINTR fn i = ignoringEINTR fn (Suc i)"
  by (subst ignoringEINTR.simps) simp

lemma ignoringEINTR_first:
  "fn (i + n) \<noteq> Some ''EINTR'' \<Longrightarrow> (\<And>j. j < n \<Longrightarrow> fn (i + j) = Some ''EINTR'') \<Longrightarrow> ignoringEINTR fn i = Some (fn (i + n))"
proof (induction n arbitrary: i)
  case 0
  then show ?case by (subst ignoringEINTR.simps) simp
next
  case (Suc n)
  have "ignoringEINTR fn (Suc i) = Some (fn (Suc i + n))"
    using Suc.prems(1) Suc.prems(2) [of "Suc _"] by (intro Suc.IH) simp_all
  then show ?case using Suc.prems(2) [of 0] ignoringEINTR_Suc [of fn i] by simp
qed

lemma ignoringEINTR_result:
  assumes "ignoringEINTR fn i = Some r"
  shows "r \<noteq> Some ''EINTR'' \<and> (\<exists>j\<ge>i. r = fn j)"
proof (rule ignoringEINTR.raw_induct [OF _ assms])
  fix again :: "(nat \<Rightarrow> string option) \<Rightarrow> nat \<Rightarrow> string option option" and fn i r
  assume IH: "\<And>fn i r. again fn i = Some r \<Longrightarrow> r \<noteq> Some ''EINTR'' \<and> (\<exists>j\<ge>i. r = fn j)"
    and r: "(if fn i \<noteq> Some ''EINTR'' then Some (fn i) else again fn (Suc i)) = Some r"
  show "r \<noteq> Some ''EINTR'' \<and> (\<exists>j\<ge>i. r = fn j)"
    using r IH [of fn "Suc i" r] by (cases "fn i = Some ''EINTR''") (auto dest: Suc_leD)
qed

lemma sparse_file_created:
  assumes "no_fault env" "k = path_elements p" "k \<noteq> []" "is_dir fs (butlast k)" "\<not> is_dir fs k" "0 \<le>s len"
    and "ts_SyscallConn sys = None" "ts_Control sys = None" "ts_attempt sys n = None" "\<And>j. j < n \<Longrightarrow> ts_attempt sys j = Some ''EINTR''"
  shows "\<exists>fs' mode. CreateSparseFile env sys p perm len fs = Some (None, fs') \<and>
    map_of fs' = (map_of fs)(k \<mapsto> FFile (replicate (unat len) (CHR 0x00)) mode)"
proof -
  obtain fs1 mode where tr: "fs_Truncate env k perm fs = Ok fs1" and m1: "map_of fs1 = (map_of fs)(k \<mapsto> FFile [] mode)"
    using assms(1,3-5)
    by (cases "map_of fs k"; cases "the (map_of fs k)") (auto simp: fs_Truncate_def no_fault_def is_dir_def2 update_conv')
  have "\<not> len <s 0" using assms(6) by (simp add: word_sless_alt word_sle_eq)
  moreover have "ignoringEINTR (ts_attempt sys) 0 = Some None"
    using ignoringEINTR_first [of "ts_attempt sys" 0 n] assms(9,10) by simp
  ultimately show ?thesis
    using tr m1 assms(2,7,8)
    by (auto simp: CreateSparseFile_def ftruncate_def fs_write_def resized_def update_conv' intro!: exI [of _ mode])
qed

text \<open>An ext4 image needs its program only after the file is there: without it the file stays.\<close>

lemma missing_mkfs_leaves_file:
  assumes "CreateSparseFile env sys p perm len (h_files h) = Some (None, fs')" "tl_LookPath T ''mkfs.ext4'' = Err e"
  shows "CreateExt4Img env sys T p perm len h = Some (Some ''missing mkfs.ext4 executable'', h\<lparr>h_files := fs'\<rparr>)"
  using assms by (simp add: CreateExt4Img_def lookPathOrEmpty_def Let_def)

section \<open>Mounts are undone\<close>

text \<open>
  What the programs do to the host: \<open>mount\<close> puts the image over the directory, \<open>umount\<close> takes the
  latest mount away, and \<open>unsquashfs\<close> changes what is mounted on its directory, when it succeeds
  to what \<open>sq\<close> says. When they fail \<open>mount\<close> and \<open>umount\<close> change nothing.
\<close>

definition mount_law :: "tools \<Rightarrow> bool" where
  "mount_law T \<longleftrightarrow> (\<forall>img dir h.
     case cmd_Run T (lookPathOrEmpty T ''mount'') [''-t'', ''ext4'', ''-o'', ''loop'', img, dir] h of
       (None, h') \<Rightarrow> h' = h\<lparr>h_mounts := (path_elements dir, path_elements img) # h_mounts h\<rparr>
     | (Some _, h') \<Rightarrow> h' = h)"

definition umount_law :: "tools \<Rightarrow> bool" where
  "umount_law T \<longleftrightarrow> (\<forall>dir img ms h. h_mounts h = (path_elements dir, img) # ms \<longrightarrow>
     (case cmd_Run T (lookPathOrEmpty T ''umount'') [''-d'', dir] h of
        (None, h') \<Rightarrow> h' = h\<lparr>h_mounts := ms\<rparr>
      | (Some _, h') \<Rightarrow> h' = h))"

definition unsquashfs_law :: "(string \<Rightarrow> files \<Rightarrow> files) \<Rightarrow> tools \<Rightarrow> bool" where
  "unsquashfs_law sq T \<longleftrightarrow> (\<forall>src dir img h. map_of (h_mounts h) (path_elements dir) = Some img \<longrightarrow>
     (case cmd_Run T (lookPathOrEmpty T ''unsquashfs'') [''-d'', dir, src] h of
        (None, h') \<Rightarrow> h' = h\<lparr>h_imgs := (h_imgs h)(img := sq src (h_imgs h img))\<rparr>
      | (Some _, h') \<Rightarrow> \<exists>fs. h' = h\<lparr>h_imgs := (h_imgs h)(img := fs)\<rparr>))"

text \<open>The copy changes the image below the mount and nothing else.\<close>

lemma copy_to_mount_effect:
  assumes "unsquashfs_law sq T" "h_mounts h = (path_elements dir, img) # ms"
  shows "\<exists>fs. snd (copy_to_mount env T src dir h) = h\<lparr>h_imgs := (h_imgs h)(img := fs)\<rparr> \<and>
    (fst (copy_to_mount env T src dir h) = None \<longrightarrow> fs = chmod_at [] 493 (sq src (h_imgs h img)))"
proof -
  have at: "map_of (h_mounts h) (path_elements dir) = Some img" using assms(2) by simp
  then have law: "case cmd_Run T (lookPathOrEmpty T ''unsquashfs'') [''-d'', dir, src] h of
      (None, h') \<Rightarrow> h' = h\<lparr>h_imgs := (h_imgs h)(img := sq src (h_imgs h img))\<rparr>
    | (Some _, h') \<Rightarrow> \<exists>fs. h' = h\<lparr>h_imgs := (h_imgs h)(img := fs)\<rparr>"
    using assms(1) [unfolded unsquashfs_law_def, rule_format, of h dir img src] by simp
  obtain res h1 where u: "UnpackFromSquashFsImg T src dir h = (res, h1)" by fastforce
  show ?thesis
  proof (cases res)
    case (Some e)
    have "\<exists>fs. h1 = h\<lparr>h_imgs := (h_imgs h)(img := fs)\<rparr>"
    proof (cases "lookPathOrEmpty T ''unsquashfs'' = []")
      case True
      then have "h1 = h" using u by (simp add: UnpackFromSquashFsImg_def)
      then show ?thesis by (intro exI [of _ "h_imgs h img"]) simp
    next
      case False
      then obtain e' where "cmd_Run T (lookPathOrEmpty T ''unsquashfs'') [''-d'', dir, src] h = (Some e', h1)"
        using u Some
        by (cases "cmd_Run T (lookPathOrEmpty T ''unsquashfs'') [''-d'', dir, src] h") (auto simp: UnpackFromSquashFsImg_def)
      then show ?thesis using law by simp
    qed
    then show ?thesis using u Some by (auto simp: copy_to_mount_def)
  next
    case None
    have h1: "h1 = h\<lparr>h_imgs := (h_imgs h)(img := sq src (h_imgs h img))\<rparr>"
    proof -
      have "cmd_Run T (lookPathOrEmpty T ''unsquashfs'') [''-d'', dir, src] h = (None, h1)"
        using u None
        by (cases "cmd_Run T (lookPathOrEmpty T ''unsquashfs'') [''-d'', dir, src] h")
           (auto simp: UnpackFromSquashFsImg_def Let_def split: if_splits)
      then show ?thesis using law by simp
    qed
    have at1: "map_of (h_mounts h1) (path_elements dir) = Some img" using at by (simp add: h1)
    show ?thesis
    proof (cases "fe_fault env ''chmod'' (path_elements dir)")
      case None
      then show ?thesis using u \<open>res = None\<close> h1 at1 by (simp add: copy_to_mount_def host_Chmod_def)
    next
      case (Some e)
      then show ?thesis using u \<open>res = None\<close> h1 by (auto simp: copy_to_mount_def host_Chmod_def)
    qed
  qed
qed

lemma Remove_empty:
  assumes "fe_fault env ''remove'' k = None" "map_of (h_mounts h) k = None" "map_of (h_files h) k \<noteq> None"
    and "\<And>c. map_of (h_files h) (k @ [c]) = None"
  shows "host_Remove env k h = (None, h\<lparr>h_files := AList.delete k (h_files h)\<rparr>)"
proof -
  have "dir_names (h_files h) k = []" using dir_names_iff [of _ "h_files h" k] assms(4) by (metis last_in_set)
  then show ?thesis using assms by (simp add: host_Remove_def)
qed

text \<open>
  C20: However the copy of a squashfs image into an ext4 image ends, the host is left as it was: the
  image is not mounted any more, the directory it was mounted on is gone, and only the image has
  changed. If the copy succeeds the image holds what was unpacked, with an accessible root. This
  needs \<open>umount\<close> and the removal to succeed, whose failures are only logged.
\<close>

theorem mounts_undone:
  assumes "mount_law T" "umount_law T" "unsquashfs_law sq T"
    and "fe_fault env ''remove'' (path_elements dir) = None"
    and "\<And>h. fst (cmd_Run T (lookPathOrEmpty T ''umount'') [''-d'', dir] h) = None"
    and "rooted_tree (h_files h)" "\<And>k. map_of (h_mounts h) k \<noteq> None \<Longrightarrow> map_of (h_files h) k \<noteq> None"
  shows "case CopySquashFsIntoExt4Img env T src ext4 dir h of
    (res, h') \<Rightarrow>
      h_mounts h' = h_mounts h \<and> map_of (h_files h') = map_of (h_files h) \<and>
      (\<forall>i. h_imgs h' i \<noteq> h_imgs h i \<longrightarrow> i = path_elements ext4) \<and>
      (res = None \<longrightarrow> h_imgs h' (path_elements ext4) = chmod_at [] 493 (sq src (h_imgs h (path_elements ext4))))"
proof -
  let ?k = "path_elements dir" and ?i = "path_elements ext4"
  obtain res h' where c: "CopySquashFsIntoExt4Img env T src ext4 dir h = (res, h')" by fastforce
  show ?thesis
  proof (cases "res \<noteq> None \<and> h' = h")
    case True
    then show ?thesis using c by auto
  next
    case False
    obtain fs1 where mk: "fs_Mkdir env ?k 448 (h_files h) = Ok fs1"
      using c False by (auto simp: CopySquashFsIntoExt4Img_def Let_def split: if_splits sum.splits)
    have fresh: "map_of (h_files h) ?k = None" and m1: "map_of fs1 = (map_of (h_files h))(?k \<mapsto> FDir (fe_mask env 448))"
      using mk by (auto simp: fs_Mkdir_def update_conv' split: option.splits if_splits)
    have no_child: "map_of (h_files h) (?k @ [c]) = None" for c
      using assms(6) fresh unfolding rooted_tree_def is_dir_def2 by (metis option.distinct(1))
    have unmounted: "map_of (h_mounts h) ?k = None" using assms(7) fresh by blast
    have gone: "map_of (AList.delete ?k fs1) = map_of (h_files h)"
      using fresh by (auto simp: delete_conv' m1 fun_eq_iff)
    have rm: "host_Remove env ?k h2 = (None, h2\<lparr>h_files := AList.delete ?k fs1\<rparr>)"
      if "h_files h2 = fs1" "h_mounts h2 = h_mounts h" for h2 :: host
    proof -
      have "map_of (h_files h2) (?k @ [d]) = map_of (h_files h) (?k @ [d])" for d by (simp add: that(1) m1)
      then have "map_of (h_files h2) (?k @ [d]) = None" for d using no_child [of d] by simp
      then show ?thesis using Remove_empty [OF assms(4), of h2] that unmounted by (simp add: m1)
    qed
    obtain mres h1 where mo: "cmd_Run T (lookPathOrEmpty T ''mount'') [''-t'', ''ext4'', ''-o'', ''loop'', ext4, dir]
        (h\<lparr>h_files := fs1\<rparr>) = (mres, h1)" by fastforce
    have law: "case mres of None \<Rightarrow> h1 = h\<lparr>h_files := fs1, h_mounts := (?k, ?i) # h_mounts h\<rparr>
        | Some _ \<Rightarrow> h1 = h\<lparr>h_files := fs1\<rparr>"
      using assms(1) [unfolded mount_law_def, rule_format, of dir ext4 "h\<lparr>h_files := fs1\<rparr>"] mo by (simp split: option.splits)
    show ?thesis
    proof (cases mres)
      case (Some e)
      then have "res \<noteq> None" "h' = h\<lparr>h_files := AList.delete ?k fs1\<rparr>"
        using c False mk mo law rm [of "h\<lparr>h_files := fs1\<rparr>"]
        by (auto simp: CopySquashFsIntoExt4Img_def Let_def RemoveOrWarn_def split: if_splits sum.splits)
      then show ?thesis using c gone by auto
    next
      case None
      then have h1: "h1 = h\<lparr>h_files := fs1, h_mounts := (?k, ?i) # h_mounts h\<rparr>" using law by simp
      obtain fs2 where cp: "snd (copy_to_mount env T src dir h1) = h1\<lparr>h_imgs := (h_imgs h1)(?i := fs2)\<rparr>"
        and ok: "fst (copy_to_mount env T src dir h1) = None \<longrightarrow> fs2 = chmod_at [] 493 (sq src (h_imgs h1 ?i))"
        using copy_to_mount_effect [OF assms(3), of h1 dir ?i "h_mounts h" env src] h1 by auto
      have um: "umount_deferred T (lookPathOrEmpty T ''umount'') dir (h1\<lparr>h_imgs := im\<rparr>) = h\<lparr>h_files := fs1, h_imgs := im\<rparr>" for im
      proof -
        let ?h = "h1\<lparr>h_imgs := im\<rparr>"
        have "h_mounts ?h = (?k, ?i) # h_mounts h" by (simp add: h1)
        then have "case cmd_Run T (lookPathOrEmpty T ''umount'') [''-d'', dir] ?h of
            (None, h') \<Rightarrow> h' = ?h\<lparr>h_mounts := h_mounts h\<rparr> | (Some _, h') \<Rightarrow> h' = ?h"
          by (rule assms(2) [unfolded umount_law_def, rule_format])
        then show ?thesis
          using assms(5) [of ?h] by (auto simp: umount_deferred_def h1 split: prod.splits option.splits)
      qed
      have "res = fst (copy_to_mount env T src dir h1)"
        "h' = h\<lparr>h_imgs := (h_imgs h)(?i := fs2), h_files := AList.delete ?k fs1\<rparr>"
        using c False mk mo None cp um rm [of "h\<lparr>h_files := fs1, h_imgs := (h_imgs h)(?i := fs2)\<rparr>"]
        by (auto simp: CopySquashFsIntoExt4Img_def Let_def RemoveOrWarn_def h1 split: if_splits sum.splits prod.splits)
      then show ?thesis using c gone ok by (simp add: h1)
    qed
  qed
qed

definition working_tools :: "(string \<Rightarrow> files \<Rightarrow> files) \<Rightarrow> tools" where
  "working_tools sq =
     \<lparr>tl_LookPath = (\<lambda>f. Ok (''/bin/'' @ f)),
      tl_run = (\<lambda>name args h.
        (\<lparr>oc_stdout = [], oc_stderr = [], oc_error = None\<rparr>,
         if name = ''/bin/mount'' then h\<lparr>h_mounts := (path_elements (args ! 5), path_elements (args ! 4)) # h_mounts h\<rparr>
         else if name = ''/bin/umount'' then h\<lparr>h_mounts := tl (h_mounts h)\<rparr>
         else
           (case map_of (h_mounts h) (path_elements (args ! 1)) of
              None \<Rightarrow> h
            | Some img \<Rightarrow> h\<lparr>h_imgs := (h_imgs h)(img := sq (args ! 2) (h_imgs h img))\<rparr>)))\<rparr>"

lemma working_tools_laws:
  "mount_law (working_tools sq)" "umount_law (working_tools sq)" "unsquashfs_law sq (working_tools sq)"
  "fst (cmd_Run (working_tools sq) (lookPathOrEmpty (working_tools sq) ''umount'') [''-d'', dir] h) = None"
  by (simp_all add: mount_law_def umount_law_def unsquashfs_law_def working_tools_def cmd_Run_def lookPathOrEmpty_def)

definition image_host :: host where
  "image_host =
     \<lparr>h_files = [([], FDir 493), ([''sq''], FFile ''s'' 420), ([''img''], FFile ''e'' 420)],
      h_mounts = [], h_imgs = (\<lambda>_. [([], FDir 448)])\<rparr>"

theorem mounts_undone_witness:
  "\<exists>h'. CopySquashFsIntoExt4Img ideal_env (working_tools (\<lambda>src fs. ([''etc''], FDir 493) # fs)) ''/sq'' ''/img'' ''/mnt'' image_host
       = (None, h') \<and>
     h_mounts h' = [] \<and> map_of (h_files h') [''mnt''] = None \<and>
     h_imgs h' [''img''] = chmod_at [] 493 [([''etc''], FDir 493), ([], FDir 448)]"
proof -
  let ?sq = "\<lambda>src fs. ([''etc''], FDir 493) # fs"
  let ?T = "working_tools ?sq"
  have p: "path_elements ''/sq'' = [''sq'']" "path_elements ''/img'' = [''img'']" "path_elements ''/mnt'' = [''mnt'']"
    by (simp_all add: path_elements_def path_rooted_def HasPrefix_def path_step_def)
  have "k @ [c] \<in> fst ` set (h_files image_host) \<Longrightarrow> k = []" for k c
    by (auto simp: image_host_def append_eq_Cons_conv)
  then have top: "map_of (h_files image_host) (k @ [c]) \<noteq> None \<Longrightarrow> k = []" for k c
    by (simp add: map_of_eq_None_iff)
  have "is_dir (h_files image_host) []" by (simp add: is_dir_def image_host_def)
  then have tree: "rooted_tree (h_files image_host)"
    unfolding rooted_tree_def using top by blast
  have m: "map_of (h_mounts image_host) k \<noteq> None \<Longrightarrow> map_of (h_files image_host) k \<noteq> None" for k
    by (simp add: image_host_def)
  have e: "fe_fault ideal_env ''remove'' (path_elements ''/mnt'') = None" by (simp add: ideal_env_def)
  let ?h1 = "image_host\<lparr>h_files := AList.update [''mnt''] (FDir 448) (h_files image_host), h_mounts := [([''mnt''], [''img''])]\<rparr>"
  have lk: "lookPathOrEmpty ?T f = ''/bin/'' @ f" for f by (simp add: lookPathOrEmpty_def working_tools_def)
  have run: "fst (cmd_Run ?T nm args h) = None" for nm args h by (simp add: cmd_Run_def working_tools_def)
  have st: "fs_Stat ideal_env [''sq''] (h_files image_host) = Ok (FFile ''s'' 420)"
    "fs_Stat ideal_env [''img''] (h_files image_host) = Ok (FFile ''e'' 420)"
    "fs_Mkdir ideal_env [''mnt''] 448 (h_files image_host) = Ok (AList.update [''mnt''] (FDir 448) (h_files image_host))"
    by (simp_all add: fs_Stat_def fs_Mkdir_def is_dir_def ideal_env_def image_host_def)
  have mo: "cmd_Run ?T ''/bin/mount'' [''-t'', ''ext4'', ''-o'', ''loop'', ''/img'', ''/mnt'']
      (image_host\<lparr>h_files := AList.update [''mnt''] (FDir 448) (h_files image_host)\<rparr>) = (None, ?h1)"
    by (simp add: cmd_Run_def working_tools_def p) (simp add: image_host_def)
  obtain h2 where u: "UnpackFromSquashFsImg ?T ''/sq'' ''/mnt'' ?h1 = (None, h2)" "h_mounts h2 = [([''mnt''], [''img''])]"
    by (simp add: UnpackFromSquashFsImg_def lk cmd_Run_def) (simp add: working_tools_def p)
  have "fst (copy_to_mount ideal_env ?T ''/sq'' ''/mnt'' ?h1) = None"
    unfolding copy_to_mount_def u(1) using u(2) by (simp add: host_Chmod_def p ideal_env_def)
  then have "fst (CopySquashFsIntoExt4Img ideal_env ?T ''/sq'' ''/img'' ''/mnt'' image_host) = None"
    using st mo by (auto simp: CopySquashFsIntoExt4Img_def lk p split: prod.split)
  then obtain h' where c: "CopySquashFsIntoExt4Img ideal_env ?T ''/sq'' ''/img'' ''/mnt'' image_host = (None, h')"
    by (metis prod.collapse)
  show ?thesis
    using mounts_undone [of ?T ?sq ideal_env "''/mnt''" image_host "''/img''" "''/sq''", OF working_tools_laws(1-3) e working_tools_laws(4) tree m] c p
    by (simp add: image_host_def)
qed

text \<open>An \<open>umount\<close> that fails is not reported: the image is still mounted when the copy has succeeded.\<close>

lemma failed_umount_unnoticed:
  assumes "mount_law T" "umount_law T" "unsquashfs_law sq T" "lookPathOrEmpty T ''mount'' \<noteq> []" "lookPathOrEmpty T ''umount'' \<noteq> []"
    and "fs_Stat env (path_elements src) (h_files h) = Ok n1" "fs_Stat env (path_elements ext4) (h_files h) = Ok n2"
    and "fs_Mkdir env (path_elements dir) 448 (h_files h) = Ok fs1"
    and "\<And>h. fst (cmd_Run T (lookPathOrEmpty T ''mount'') [''-t'', ''ext4'', ''-o'', ''loop'', ext4, dir] h) = None"
    and "\<And>h. fst (cmd_Run T (lookPathOrEmpty T ''umount'') [''-d'', dir] h) \<noteq> None"
  shows "\<exists>h1 h'. CopySquashFsIntoExt4Img env T src ext4 dir h = (fst (copy_to_mount env T src dir h1), h') \<and>
    h_mounts h' = (path_elements dir, path_elements ext4) # h_mounts h \<and> h_files h' = fs1"
proof -
  let ?k = "path_elements dir" and ?i = "path_elements ext4"
  define h1 where "h1 = h\<lparr>h_files := fs1, h_mounts := (?k, ?i) # h_mounts h\<rparr>"
  have mo: "cmd_Run T (lookPathOrEmpty T ''mount'') [''-t'', ''ext4'', ''-o'', ''loop'', ext4, dir] (h\<lparr>h_files := fs1\<rparr>) = (None, h1)"
    using assms(1) [unfolded mount_law_def, rule_format, of dir ext4 "h\<lparr>h_files := fs1\<rparr>"] assms(9) [of "h\<lparr>h_files := fs1\<rparr>"]
    by (auto simp: h1_def split: prod.splits option.splits)
  obtain res h2 where cp: "copy_to_mount env T src dir h1 = (res, h2)" by fastforce
  have h2: "h_mounts h2 = (?k, ?i) # h_mounts h" "h_files h2 = fs1"
    using copy_to_mount_effect [OF assms(3), of h1 dir ?i "h_mounts h" env src] cp by (auto simp: h1_def)
  have "umount_deferred T (lookPathOrEmpty T ''umount'') dir h2 = h2"
    using assms(2) [unfolded umount_law_def, rule_format, OF h2(1)] assms(10) [of h2]
    by (auto simp: umount_deferred_def split: prod.splits option.splits)
  moreover have "RemoveOrWarn env dir h2 = h2"
    using h2(1) by (simp add: RemoveOrWarn_def host_Remove_def split: option.splits)
  ultimately have "CopySquashFsIntoExt4Img env T src ext4 dir h = (res, h2)"
    using assms(4-8) mo cp by (simp add: CopySquashFsIntoExt4Img_def)
  then show ?thesis using cp h2 by (metis fst_conv)
qed

section \<open>The seed of a machine\<close>

text \<open>A new file in a directory that is there.\<close>

lemma Truncate_new:
  assumes "no_fault env" "is_dir fs k" "map_of fs (k @ [c]) = None"
  shows "fs_Truncate env (k @ [c]) perm fs = Ok (AList.update (k @ [c]) (FFile [] (fe_mask env perm)) fs)"
  using assms by (simp add: fs_Truncate_def no_fault_def)

lemma write_new:
  "map_of (fs_write k data (AList.update k (FFile old mode) fs)) = (map_of fs)(k \<mapsto> FFile data mode)"
  by (simp add: fs_write_def update_conv')

lemma store_new:
  assumes "no_fault env" "is_dir fs k" "map_of fs (k @ [c]) = None" "enc ''  '' v = Ok body"
  shows "\<exists>fs'. StoreJSONWithIndentInFs env enc v (k @ [c]) perm ''  '' fs = (None, fs') \<and>
    map_of fs' = (map_of fs)(k @ [c] \<mapsto> FFile body (fe_mask env perm))"
  using Truncate_new [OF assms(1-3), of perm] assms(1,4)
  by (simp add: StoreJSONWithIndentInFs_def no_fault_def write_new)

text \<open>
  C23: The image a machine is configured from is made, under the volume name the machine looks for, of
  a temporary directory that holds exactly its user data, marked as such, its meta data and its
  network configuration, readable by the owner only; the directory is removed whatever the
  program answers.
\<close>

theorem seed_image:
  assumes "no_fault env" "\<And>v. enc ''  '' v = Ok (txt v)" "tl_LookPath T ''mkisofs'' = Ok mkisofs" "mkisofs \<noteq> []"
    and "CreateTempDirInFs de ''cloud-init'' (h_files h) = (Ok tmp, fs1)" "path_rooted tmp" "k = path_elements tmp"
    and "is_dir fs1 k" "\<And>c r. map_of fs1 (k @ c # r) = None"
  shows "\<exists>fs2 oc h2.
    map_of fs2 = (map_of fs1)
      (k @ [''user-data''] \<mapsto> FFile (''#cloud-config'' @ [CHR 0x0A] @ txt (json_UserData userData)) (fe_mask env 384),
       k @ [''meta-data''] \<mapsto> FFile (txt (json_MetaData metaData)) (fe_mask env 384),
       k @ [''network-config''] \<mapsto> FFile (txt (json_NetworkConfig netConf)) (fe_mask env 384)) \<and>
    tl_run T mkisofs [''-o'', dst, ''-V'', ''CIDATA'', ''-J'', ''-R'', tmp] (h\<lparr>h_files := fs2\<rparr>) = (oc, h2) \<and>
    CreateNoCloudFsImg env de enc T userData metaData netConf dst h =
      (map_option run_error_text (oc_error oc), h2\<lparr>h_files := filter (\<lambda>(k', _). \<not> prefix k k') (h_files h2)\<rparr>)"
proof -
  have el: "plain ''user-data''" "plain ''meta-data''" "plain ''network-config''" by (simp_all add: plain_def)
  note js = path_elements_child [OF assms(6) el(1)] path_elements_child [OF assms(6) el(2)] path_elements_child [OF assms(6) el(3)]
  define u where "u = ''#cloud-config'' @ [CHR 0x0A] @ txt (json_UserData userData)"
  define fsu where "fsu = fs_write (k @ [''user-data'']) u (AList.update (k @ [''user-data'']) (FFile [] (fe_mask env 384)) fs1)"
  have mu: "map_of fsu = (map_of fs1)(k @ [''user-data''] \<mapsto> FFile u (fe_mask env 384))"
    by (simp add: fsu_def write_new)
  have "fs_Truncate env (k @ [''user-data'']) 384 fs1 = Ok (AList.update (k @ [''user-data'']) (FFile [] (fe_mask env 384)) fs1)"
    using Truncate_new [OF assms(1,8)] assms(9) by simp
  then have su: "storeUserData env enc userData (path_Join [tmp, ''user-data'']) fs1 = (None, fsu)"
    using assms(1,2,7) js(1) by (simp add: storeUserData_def no_fault_def fsu_def u_def Let_def)
  have dir: "is_dir fsu k" "map_of fsu (k @ [''meta-data'']) = None"
    using assms(8,9) by (simp_all add: mu is_dir_def2)
  obtain fsm where sm: "StoreJSONWithIndentInFs env enc (json_MetaData metaData) (k @ [''meta-data'']) 384 ''  '' fsu = (None, fsm)"
    and mm: "map_of fsm = (map_of fsu)(k @ [''meta-data''] \<mapsto> FFile (txt (json_MetaData metaData)) (fe_mask env 384))"
    using store_new [OF assms(1) dir, of enc _ _ 384] assms(2) by blast
  have dir2: "is_dir fsm k" "map_of fsm (k @ [''network-config'']) = None"
    using assms(8,9) by (simp_all add: mu mm is_dir_def2)
  obtain fs2 where sn: "StoreJSONWithIndentInFs env enc (json_NetworkConfig netConf) (k @ [''network-config'']) 384 ''  '' fsm = (None, fs2)"
    and mn: "map_of fs2 = (map_of fsm)(k @ [''network-config''] \<mapsto> FFile (txt (json_NetworkConfig netConf)) (fe_mask env 384))"
    using store_new [OF assms(1) dir2, of enc _ _ 384] assms(2) by blast
  obtain oc h2 where run: "tl_run T mkisofs [''-o'', dst, ''-V'', ''CIDATA'', ''-J'', ''-R'', tmp] (h\<lparr>h_files := fs2\<rparr>) = (oc, h2)"
    by fastforce
  have "write_seed env enc T userData metaData netConf tmp dst (h\<lparr>h_files := fs1\<rparr>) = (map_option run_error_text (oc_error oc), h2)"
    using su sm sn run assms(3,4,7) js
    by (simp add: write_seed_def PackIntoIsoFsImg_def lookPathOrEmpty_def cmd_Run_def)
  then have "CreateNoCloudFsImg env de enc T userData metaData netConf dst h =
      (map_option run_error_text (oc_error oc), h2\<lparr>h_files := filter (\<lambda>(k', _). \<not> prefix k k') (h_files h2)\<rparr>)"
    using assms(1,5,7) by (simp add: CreateNoCloudFsImg_def fs_RemoveAll_def no_fault_def)
  then show ?thesis using mu mm mn run by (auto simp: u_def)
qed

definition temp_env :: dir_env where
  "temp_env =
     \<lparr>de_UserCacheDir = Err ''no home'', de_Getenv = (\<lambda>_. []), de_OsFs = True,
      de_TempDir = (\<lambda>dir pre fs. (Ok ''/t'', ([''t''], FDir 448) # fs))\<rparr>"

theorem seed_image_witness:
  "\<exists>h2. CreateNoCloudFsImg ideal_env temp_env (\<lambda>_ _. Ok ''{}'') (working_tools (\<lambda>_ fs. fs))
      \<lparr>ud_CloudInitModules = None, ud_CloudConfigModules = None, ud_CloudFinalModules = None, ud_DisableRoot = None, ud_WriteFiles = []\<rparr>
      \<lparr>md_InstanceId = ''a'', md_LocalHostname = None\<rparr> \<lparr>net_Version = 2, net_Ethernets = []\<rparr> ''/seed.iso''
      \<lparr>h_files = [([], FDir 493)], h_mounts = [], h_imgs = (\<lambda>_. [])\<rparr> = (None, h2) \<and>
    map_of (h_files h2) [''t''] = None"
proof -
  let ?h = "\<lparr>h_files = [([], FDir 493)], h_mounts = [], h_imgs = (\<lambda>_. [])\<rparr>"
  let ?T = "working_tools (\<lambda>_ fs. fs)" and ?fs1 = "[([''t''], FDir 448), ([], FDir 493)]"
  have k: "[''t''] = path_elements ''/t''"
    by (simp add: path_elements_def path_rooted_def HasPrefix_def path_step_def)
  have a: "no_fault ideal_env" by (simp add: no_fault_def ideal_env_def)
  have b: "tl_LookPath ?T ''mkisofs'' = Ok ''/bin/mkisofs''" "''/bin/mkisofs'' \<noteq> []" by (simp_all add: working_tools_def)
  have c: "CreateTempDirInFs temp_env ''cloud-init'' (h_files ?h) = (Ok ''/t'', ?fs1)" "path_rooted ''/t''"
    by (simp_all add: CreateTempDirInFs_def temp_env_def path_rooted_def HasPrefix_def)
  have d: "is_dir ?fs1 [''t'']" "\<And>c r. map_of ?fs1 ([''t''] @ c # r) = None" by (simp_all add: is_dir_def)
  obtain oc h2 fs2 where r: "tl_run ?T ''/bin/mkisofs'' [''-o'', ''/seed.iso'', ''-V'', ''CIDATA'', ''-J'', ''-R'', ''/t''] (?h\<lparr>h_files := fs2\<rparr>) = (oc, h2)"
    and e: "CreateNoCloudFsImg ideal_env temp_env (\<lambda>_ _. Ok ''{}'') ?T
      \<lparr>ud_CloudInitModules = None, ud_CloudConfigModules = None, ud_CloudFinalModules = None, ud_DisableRoot = None, ud_WriteFiles = []\<rparr>
      \<lparr>md_InstanceId = ''a'', md_LocalHostname = None\<rparr> \<lparr>net_Version = 2, net_Ethernets = []\<rparr> ''/seed.iso'' ?h
      = (map_option run_error_text (oc_error oc), h2\<lparr>h_files := filter (\<lambda>(k', _). \<not> prefix [''t''] k') (h_files h2)\<rparr>)"
    using seed_image [of ideal_env "\<lambda>_ _. Ok ''{}''" "\<lambda>_. ''{}''", OF a refl b c k d] by blast
  have "oc_error oc = None" using r by (auto simp: working_tools_def)
  then show ?thesis using e by (simp add: map_of_filter_key)
qed

end
