(* ===== verification/ContainersImage.thy ===== *)
theory ContainersImage
  imports FsImg KernelVersion
begin

text \<open>
  Virtual machine images made from container images (\<open>crosvm/internal/image/containers.go\<close>): the
  choice of the manifest, the concurrent retrieval of the layers, their application in order, and
  the kernel, the initial ramdisk and the squashfs image taken from the result. The container
  libraries and what they answer are arguments; a layer is applied below the directory it is
  applied to, which the library makes its root.
\<close>

section \<open>Images and their layers\<close>

record BlobInfo =
  bi_Digest :: string
  bi_MediaType :: string

text \<open>The media types of the OCI specification.\<close>

record media_types =
  mt_ImageLayer :: string
  mt_ImageLayerGzip :: string
  mt_ImageLayerZstd :: string
  mt_ImageManifest :: string
  mt_ImageIndex :: string

definition supportedLayerTypes :: "media_types \<Rightarrow> string list" where
  "supportedLayerTypes mt = [mt_ImageLayer mt, mt_ImageLayerGzip mt, mt_ImageLayerZstd mt]"

text \<open>
  What the libraries answer for one image source; an instance is the top level, or a digest. A
  blob is what its reader delivers, and the error it ends with, if any.
\<close>

record ('m, 'c) image_source =
  is_Manifest :: "string option \<Rightarrow> string + (string \<times> string)"
  is_FromUnparsedImage :: "string option \<Rightarrow> string option"
  is_LayerInfos :: "string option \<Rightarrow> BlobInfo list"
  is_OCIConfig :: "string option \<Rightarrow> string + 'c"
  is_OCI1FromManifest :: "string \<Rightarrow> string + 'm"
  is_OCI1IndexFromManifest :: "string \<Rightarrow> string option"
  is_ChooseInstance :: "string \<Rightarrow> string + string"
  is_GetBlob :: "BlobInfo \<Rightarrow> string + (string \<times> string option)"

text \<open>The parts of one instance, whose manifest is a single image's.\<close>

definition image_parts ::
    "('m, 'c) image_source \<Rightarrow> string option \<Rightarrow> string \<Rightarrow> string + ('m \<times> 'c \<times> BlobInfo list)" where
  "image_parts src chosen manifestBytes =
     (case is_FromUnparsedImage src chosen of
        Some e \<Rightarrow> Err e
      | None \<Rightarrow>
          (case is_OCI1FromManifest src manifestBytes of
             Err e \<Rightarrow> Err e
           | Ok chosenManifest \<Rightarrow>
               (case is_OCIConfig src chosen of
                  Err e \<Rightarrow> Err e
                | Ok chosenConfig \<Rightarrow> Ok (chosenManifest, chosenConfig, is_LayerInfos src chosen))))"

definition chooseImageParts ::
    "media_types \<Rightarrow> ('m, 'c) image_source \<Rightarrow> string + ('m \<times> 'c \<times> BlobInfo list)" where
  "chooseImageParts mt src =
     (case is_Manifest src None of
        Err e \<Rightarrow> Err e
      | Ok (topManifestBytes, topManifestType) \<Rightarrow>
          if topManifestType = mt_ImageManifest mt then image_parts src None topManifestBytes
          else if topManifestType = mt_ImageIndex mt then
            (case is_OCI1IndexFromManifest src topManifestBytes of
               Some e \<Rightarrow> Err e
             | None \<Rightarrow>
                 (case is_ChooseInstance src topManifestBytes of
                    Err e \<Rightarrow> Err e
                  | Ok chosenDigest \<Rightarrow>
                      (case is_Manifest src (Some chosenDigest) of
                         Err e \<Rightarrow> Err e
                       | Ok (chosenManifestBytes, chosenManifestType) \<Rightarrow>
                           if chosenManifestType \<noteq> mt_ImageManifest mt then Err ''unsupported manifest type''
                           else image_parts src (Some chosenDigest) chosenManifestBytes)))
          else Err ''unsupported manifest type'')"

section \<open>Fetching the layers\<close>

text \<open>
  One goroutine per layer: it gets the blob, opens the file, which it creates but does not empty,
  and copies the blob to it, some bytes at a time. Two layers with the same digest share the file.
\<close>

datatype phase = Starting | Copying nat | Finished

record fetch_state =
  ft_files :: files
  ft_phase :: "nat \<Rightarrow> phase"
  ft_errs :: "nat \<Rightarrow> string option"

definition fs_OpenCreate :: "fs_env \<Rightarrow> string list \<Rightarrow> nat \<Rightarrow> files \<Rightarrow> string + files" where
  "fs_OpenCreate env k perm fs =
     (case fe_fault env ''create'' k of
        Some e \<Rightarrow> Err e
      | None \<Rightarrow>
          (case map_of fs k of
             Some (FDir _) \<Rightarrow> Err ''is a directory''
           | Some (FFile _ _) \<Rightarrow> Ok fs
           | None \<Rightarrow>
               if k = [] \<or> \<not> is_dir fs (butlast k) then Err ''no such file or directory''
               else Ok (AList.update k (FFile [] (fe_mask env perm)) fs)))"

definition write_at :: "nat \<Rightarrow> string \<Rightarrow> string \<Rightarrow> string" where
  "write_at off chunk data =
     take off data @ replicate (off - length data) (CHR 0x00) @ chunk @ drop (off + length chunk) data"

definition blob_path :: "string \<Rightarrow> BlobInfo \<Rightarrow> string list" where
  "blob_path layersDirPath layer = path_elements (path_Join [layersDirPath, bi_Digest layer])"

definition finish_fetch :: "nat \<Rightarrow> string option \<Rightarrow> fetch_state \<Rightarrow> fetch_state" where
  "finish_fetch i err s = s\<lparr>ft_phase := (ft_phase s)(i := Finished), ft_errs := (ft_errs s)(i := err)\<rparr>"

text \<open>One step of goroutine \<open>i\<close>, which copies at most \<open>Suc n\<close> bytes.\<close>

definition fetch_step ::
    "fs_env \<Rightarrow> ('m, 'c) image_source \<Rightarrow> string \<Rightarrow> BlobInfo list \<Rightarrow> nat \<times> nat \<Rightarrow> fetch_state \<Rightarrow> fetch_state" where
  "fetch_step env src layersDirPath layers move s =
     (case move of (i, n) \<Rightarrow>
        if length layers \<le> i then s
        else
          let layer = layers ! i; k = blob_path layersDirPath layer in
          case ft_phase s i of
            Finished \<Rightarrow> s
          | Starting \<Rightarrow>
              (case is_GetBlob src layer of
                 Err e \<Rightarrow> finish_fetch i (Some e) s
               | Ok _ \<Rightarrow>
                   (case fs_OpenCreate env k 384 (ft_files s) of
                      Err e \<Rightarrow> finish_fetch i (Some e) s
                    | Ok fs1 \<Rightarrow> s\<lparr>ft_files := fs1, ft_phase := (ft_phase s)(i := Copying 0)\<rparr>))
          | Copying off \<Rightarrow>
              (case is_GetBlob src layer of
                 Err e \<Rightarrow> finish_fetch i (Some e) s
               | Ok (blob, readErr) \<Rightarrow>
                   if length blob \<le> off then finish_fetch i readErr s
                   else
                     (case fe_fault env ''write'' k of
                        Some e \<Rightarrow> finish_fetch i (Some e) s
                      | None \<Rightarrow>
                          let chunk = take (Suc n) (drop off blob) in
                          s\<lparr>ft_files :=
                              (case map_of (ft_files s) k of
                                 Some (FFile data _) \<Rightarrow> fs_write k (write_at off chunk data) (ft_files s)
                               | _ \<Rightarrow> ft_files s),
                            ft_phase := (ft_phase s)(i := Copying (off + length chunk))\<rparr>)))"

text \<open>The layers up to the first that is not supported, and the error for that one.\<close>

definition fetched_layers :: "media_types \<Rightarrow> BlobInfo list \<Rightarrow> BlobInfo list" where
  "fetched_layers mt layers = takeWhile (\<lambda>l. bi_MediaType l \<in> set (supportedLayerTypes mt)) layers"

definition first_error :: "string option list \<Rightarrow> string option" where
  "first_error errs = (case filter (\<lambda>e. e \<noteq> None) errs of [] \<Rightarrow> None | e # _ \<Rightarrow> e)"

text \<open>
  The steps in the order of \<open>sched\<close>; \<open>None\<close> while a goroutine still runs. Then the first error in
  the order of the layers.
\<close>

definition fetch_layers ::
    "fs_env \<Rightarrow> media_types \<Rightarrow> ('m, 'c) image_source \<Rightarrow> (nat \<times> nat) list \<Rightarrow> string \<Rightarrow> BlobInfo list \<Rightarrow> files
      \<Rightarrow> (string option \<times> files) option" where
  "fetch_layers env mt src sched layersDirPath imageLayers fs =
     (let layers = fetched_layers mt imageLayers; n = length layers;
          s = fold (fetch_step env src layersDirPath layers) sched
                \<lparr>ft_files = fs, ft_phase = (\<lambda>_. Starting), ft_errs = (\<lambda>_. None)\<rparr>
      in if list_all (\<lambda>i. ft_phase s i = Finished) [0..<n] then
           Some (first_error (map (ft_errs s) [0..<n]
                   @ (if n < length imageLayers then [Some ''unsupported layer type''] else [])),
                 ft_files s)
         else None)"

section \<open>Applying the layers\<close>

text \<open>What is below a directory, and a directory whose contents are replaced.\<close>

definition subtree :: "string list \<Rightarrow> files \<Rightarrow> files" where
  "subtree k fs = map (\<lambda>(k', n). (drop (length k) k', n)) (filter (\<lambda>(k', _). prefix k k') fs)"

definition graft :: "string list \<Rightarrow> files \<Rightarrow> files \<Rightarrow> files" where
  "graft k sub fs = map (\<lambda>(r, n). (k @ r, n)) sub @ filter (\<lambda>(k', _). \<not> prefix k k') fs"

text \<open>\<open>apply\<close> is the library's \<open>ApplyLayer\<close>, on what is below the directory.\<close>

primrec apply_layers ::
    "fs_env \<Rightarrow> (string \<Rightarrow> files \<Rightarrow> string option \<times> files) \<Rightarrow> string \<Rightarrow> string \<Rightarrow> BlobInfo list \<Rightarrow> files
      \<Rightarrow> string option \<times> files" where
  "apply_layers env ApplyLayer layersDirPath rootfsDirPath [] fs = (None, fs)"
| "apply_layers env ApplyLayer layersDirPath rootfsDirPath (layer # layers) fs =
     (let layerPath = blob_path layersDirPath layer; root = path_elements rootfsDirPath in
      case fe_fault env ''open'' layerPath of
        Some e \<Rightarrow> (Some e, fs)
      | None \<Rightarrow>
          (case map_of fs layerPath of
             None \<Rightarrow> (Some ''file does not exist'', fs)
           | Some (FDir _) \<Rightarrow> (Some ''is a directory'', fs)
           | Some (FFile data _) \<Rightarrow>
               (case ApplyLayer data (subtree root fs) of
                  (Some e, sub) \<Rightarrow> (Some e, graft root sub fs)
                | (None, sub) \<Rightarrow>
                    apply_layers env ApplyLayer layersDirPath rootfsDirPath layers (graft root sub fs))))"

section \<open>The files of an image\<close>

text \<open>\<open>filepath.Match\<close> and \<open>filepath.Glob\<close> on patterns whose only special character is the star.\<close>

fun Match :: "string \<Rightarrow> string \<Rightarrow> bool" where
  "Match [] s \<longleftrightarrow> s = []"
| "Match (a # p) s \<longleftrightarrow>
     (if a = CHR ''*'' then Match p s \<or> (case s of [] \<Rightarrow> False | c # s' \<Rightarrow> c \<noteq> CHR ''/'' \<and> Match (a # p) s')
      else (case s of [] \<Rightarrow> False | c # s' \<Rightarrow> c = a \<and> Match p s'))"

definition Glob_in :: "files \<Rightarrow> string \<Rightarrow> string + string list" where
  "Glob_in fs pattern =
     Ok (map (\<lambda>c. path_Join [Dir pattern, c])
           (filter (Match (Base pattern)) (dir_names fs (path_elements (Dir pattern)))))"

primrec pick_error_text :: "string pick_error \<Rightarrow> string" where
  "pick_error_text ErrNoKernelFound = ''no kernel found''"
| "pick_error_text (GlobError e) = e"

text \<open>The kernel, the initial ramdisk if there is one, and the image of the root file system.\<close>

definition take_files ::
    "fs_env \<Rightarrow> tools \<Rightarrow> string \<Rightarrow> string \<Rightarrow> host \<Rightarrow> string option \<times> host" where
  "take_files env T dstDirPath rootfsDirPath h =
     (case FindLinuxKernelFiles (Glob_in (h_files h)) rootfsDirPath of
        Err e \<Rightarrow> (Some (pick_error_text e), h)
      | Ok (relativeKernelPath, relativeInitrdPath) \<Rightarrow>
          (case CopyFileInFs env (path_elements relativeKernelPath)
                  (path_elements (path_Join [dstDirPath, KernelFileName])) 384 (h_files h) of
             (Some e, fs1) \<Rightarrow> (Some e, h\<lparr>h_files := fs1\<rparr>)
           | (None, fs1) \<Rightarrow>
               (case (if relativeInitrdPath \<noteq> []
                      then CopyFileInFs env (path_elements relativeInitrdPath)
                             (path_elements (path_Join [dstDirPath, InitrdFileName])) 384 fs1
                      else (None, fs1)) of
                  (Some e, fs2) \<Rightarrow> (Some e, h\<lparr>h_files := fs2\<rparr>)
                | (None, fs2) \<Rightarrow>
                    PackIntoSquashFsImg T rootfsDirPath (path_Join [dstDirPath, internalRootfsFileName])
                      (h\<lparr>h_files := fs2\<rparr>))))"

definition remove_all :: "fs_env \<Rightarrow> string \<Rightarrow> host \<Rightarrow> host" where
  "remove_all env p h = h\<lparr>h_files := snd (fs_RemoveAll env (path_elements p) (h_files h))\<rparr>"

text \<open>
  What happens between the creation of the two directories and their removal: the result, the
  host, and whether the layers have been removed already.
\<close>

definition make_image ::
    "fs_env \<Rightarrow> media_types \<Rightarrow> ('m, 'c) image_source \<Rightarrow> (string \<Rightarrow> files \<Rightarrow> string option \<times> files) \<Rightarrow> tools
      \<Rightarrow> (nat \<times> nat) list \<Rightarrow> string \<Rightarrow> string \<Rightarrow> string \<Rightarrow> BlobInfo list \<Rightarrow> host \<Rightarrow> (string option \<times> host \<times> bool) option" where
  "make_image env mt src ApplyLayer T sched dstDirPath layersDirPath rootfsDirPath imageLayers h =
     (case fetch_layers env mt src sched layersDirPath imageLayers (h_files h) of
        None \<Rightarrow> None
      | Some (Some e, fs1) \<Rightarrow> Some (Some e, h\<lparr>h_files := fs1\<rparr>, False)
      | Some (None, fs1) \<Rightarrow>
          (case apply_layers env ApplyLayer layersDirPath rootfsDirPath imageLayers fs1 of
             (Some e, fs2) \<Rightarrow> Some (Some e, h\<lparr>h_files := fs2\<rparr>, False)
           | (None, fs2) \<Rightarrow>
               (case take_files env T dstDirPath rootfsDirPath (remove_all env layersDirPath (h\<lparr>h_files := fs2\<rparr>)) of
                  (res, h1) \<Rightarrow> Some (res, h1, True))))"

text \<open>\<open>Retrieve\<close>; \<open>None\<close> while the layers are still being fetched.\<close>

definition ContainersSource_Retrieve ::
    "fs_env \<Rightarrow> media_types \<Rightarrow> (string \<Rightarrow> string + 'r) \<Rightarrow> ('r \<Rightarrow> string + ('m, 'c) image_source)
      \<Rightarrow> (string \<Rightarrow> files \<Rightarrow> string option \<times> files) \<Rightarrow> tools \<Rightarrow> (nat \<times> nat) list \<Rightarrow> string \<Rightarrow> string \<Rightarrow> host
      \<Rightarrow> (string option \<times> host) option" where
  "ContainersSource_Retrieve env mt ParseReference NewImageSource ApplyLayer T sched imageId dstDirPath h =
     (case ParseReference imageId of
        Err e \<Rightarrow> Some (Some e, h)
      | Ok imageRef \<Rightarrow>
          (case NewImageSource imageRef of
             Err e \<Rightarrow> Some (Some e, h)
           | Ok src \<Rightarrow>
               (case chooseImageParts mt src of
                  Err e \<Rightarrow> Some (Some e, h)
                | Ok (_, _, imageLayers) \<Rightarrow>
                    (case CreateSubDirInFs env dstDirPath ''layers'' 448 (h_files h) of
                       (Err e, fs1) \<Rightarrow> Some (Some e, h\<lparr>h_files := fs1\<rparr>)
                     | (Ok layersDirPath, fs1) \<Rightarrow>
                         (case CreateSubDirInFs env dstDirPath ''rootfs'' 448 fs1 of
                            (Err e, fs2) \<Rightarrow> Some (Some e, remove_all env layersDirPath (h\<lparr>h_files := fs2\<rparr>))
                          | (Ok rootfsDirPath, fs2) \<Rightarrow>
                              (case make_image env mt src ApplyLayer T sched dstDirPath layersDirPath rootfsDirPath
                                      imageLayers (h\<lparr>h_files := fs2\<rparr>) of
                                 None \<Rightarrow> None
                               | Some (res, h1, layersDirRemoved) \<Rightarrow>
                                   let h2 = remove_all env rootfsDirPath h1 in
                                   Some (res, if layersDirRemoved then h2 else remove_all env layersDirPath h2)))))))"

section \<open>The layers arrive\<close>

text \<open>
  Every goroutine that gets a turn for every byte, and two more, has ended, whatever fails and
  whatever the others do in between.
\<close>

definition turns_left :: "('m, 'c) image_source \<Rightarrow> BlobInfo list \<Rightarrow> nat \<Rightarrow> fetch_state \<Rightarrow> nat" where
  "turns_left src layers i s =
     (let n = (case is_GetBlob src (layers ! i) of Err _ \<Rightarrow> 0 | Ok (blob, _) \<Rightarrow> length blob) in
      case ft_phase s i of Starting \<Rightarrow> n + 2 | Copying off \<Rightarrow> n - off + 1 | Finished \<Rightarrow> 0)"

lemma turns_left_step:
  "i < length layers \<Longrightarrow>
   turns_left src layers i (fetch_step env src ld layers (j, n) s)
     \<le> turns_left src layers i s - (if j = i then 1 else 0)"
  by (cases "j = i"; cases "ft_phase s i")
     (auto simp: turns_left_def fetch_step_def finish_fetch_def Let_def split: sum.splits prod.splits phase.splits option.splits)

lemma turns_left_fold:
  "i < length layers \<Longrightarrow>
   turns_left src layers i (fold (fetch_step env src ld layers) sched s)
     \<le> turns_left src layers i s - count_list (map fst sched) i"
proof (induction sched arbitrary: s)
  case (Cons x sched)
  obtain j n where x: "x = (j, n)" by (cases x)
  show ?case
    using Cons.IH [OF Cons.prems, of "fetch_step env src ld layers x s"] turns_left_step [OF Cons.prems, of src env ld j n s]
    by (auto simp: x split: if_splits)
qed simp

definition blob_length :: "('m, 'c) image_source \<Rightarrow> BlobInfo \<Rightarrow> nat" where
  "blob_length src l = (case is_GetBlob src l of Err _ \<Rightarrow> 0 | Ok (blob, _) \<Rightarrow> length blob)"

lemma layers_fetched_eventually:
  assumes "layers = fetched_layers mt imageLayers"
    and "\<And>i. i < length layers \<Longrightarrow> blob_length src (layers ! i) + 2 \<le> count_list (map fst sched) i"
  shows "fetch_layers env mt src sched ld imageLayers fs \<noteq> None"
proof -
  let ?init = "\<lparr>ft_files = fs, ft_phase = (\<lambda>_. Starting), ft_errs = (\<lambda>_. None)\<rparr>"
  let ?fin = "fold (fetch_step env src ld layers) sched ?init"
  have "ft_phase ?fin i = Finished" if i: "i < length layers" for i
  proof -
    have "turns_left src layers i ?init \<le> count_list (map fst sched) i"
      using assms(2) [OF i] by (simp add: turns_left_def blob_length_def Let_def)
    then have "turns_left src layers i ?fin = 0"
      using turns_left_fold [OF i, of src env ld sched ?init] by simp
    then show ?thesis by (auto simp: turns_left_def Let_def split: phase.splits)
  qed
  then show ?thesis by (auto simp: fetch_layers_def Let_def list_all_iff simp flip: assms(1))
qed

text \<open>
  The file of a layer holds the beginning of its blob, at least as far as each goroutine that
  writes it has come, so when they have ended it holds the blob.
\<close>

definition reached :: "string \<Rightarrow> files \<Rightarrow> string list \<Rightarrow> nat \<Rightarrow> bool" where
  "reached blob fs k off \<longleftrightarrow> (\<exists>data mode. map_of fs k = Some (FFile data mode) \<and> prefix data blob \<and> off \<le> length data)"

lemma write_at_take:
  assumes "off \<le> length blob" "off \<le> m"
  shows "write_at off (take n (drop off blob)) (take m blob) = take (max m (off + n)) blob"
proof -
  have "write_at off (take n (drop off blob)) (take m blob)
      = take (off + n) blob @ drop (off + min n (length blob - off)) (take m blob)"
    using assms by (simp add: write_at_def take_add min.absorb1 min.commute)
  also have "\<dots> = take (max m (off + n)) blob"
  proof (cases "off + n < m \<and> off + n < length blob")
    case True
    then have "take m blob = take (off + n) blob @ take (m - (off + n)) (drop (off + n) blob)"
      using take_add [of "off + n" "m - (off + n)" blob] by simp
    then show ?thesis using True by (simp add: drop_take min_def max_def)
  next
    case False
    then show ?thesis using assms by (auto simp: max_def min_def)
  qed
  finally show ?thesis .
qed

lemma write_at_prefix:
  assumes "prefix data blob" "off \<le> length data" "n \<noteq> 0 \<or> off = length data"
  shows "prefix (write_at off (take n (drop off blob)) data) blob"
    and "length data \<le> length (write_at off (take n (drop off blob)) data)"
    and "off + length (take n (drop off blob)) \<le> length (write_at off (take n (drop off blob)) data)"
proof -
  have d: "data = take (length data) blob" "length data \<le> length blob"
    using assms(1) by (auto simp: prefix_def)
  have w: "write_at off (take n (drop off blob)) data = take (max (length data) (off + n)) blob"
    using write_at_take [of off blob "length data" n] assms(2) d by simp
  show "prefix (write_at off (take n (drop off blob)) data) blob" by (simp add: w take_is_prefix)
  show "length data \<le> length (write_at off (take n (drop off blob)) data)" using d(2) by (simp add: w)
  show "off + length (take n (drop off blob)) \<le> length (write_at off (take n (drop off blob)) data)"
    using d(2) assms(2) by (auto simp: w)
qed

lemma subtree_update: "\<not> prefix rk k \<Longrightarrow> subtree rk (AList.update k v fs) = subtree rk fs"
  by (induction fs) (auto simp: subtree_def)

lemma subtree_write: "\<not> prefix rk k \<Longrightarrow> subtree rk (fs_write k data fs) = subtree rk fs"
  by (auto simp: fs_write_def subtree_update split: option.split fnode.split)

text \<open>The file is not emptied when it is opened, so a longer file that is there already keeps its end.\<close>

lemma stale_tail_kept:
  assumes "no_fault env" "i < length layers" "is_GetBlob src (layers ! i) = Ok (blob, e)" "blob \<noteq> []" "length blob \<le> Suc n"
    and "k = blob_path ld (layers ! i)" "map_of (ft_files s) k = Some (FFile old mode)" "ft_phase s i = Starting"
  shows "map_of (ft_files (fetch_step env src ld layers (i, n) (fetch_step env src ld layers (i, 0) s))) k =
    Some (FFile (blob @ drop (length blob) old) mode)"
proof -
  have "fs_OpenCreate env k 384 (ft_files s) = Ok (ft_files s)"
    using assms(1,7) by (simp add: fs_OpenCreate_def no_fault_def)
  then have "fetch_step env src ld layers (i, 0) s = s\<lparr>ft_phase := (ft_phase s)(i := Copying 0)\<rparr>"
    using assms by (simp add: fetch_step_def Let_def)
  then show ?thesis
    using assms by (simp add: fetch_step_def Let_def no_fault_def fs_write_def update_conv' write_at_def)
qed

definition fetch_inv :: "(BlobInfo \<Rightarrow> string) \<Rightarrow> string list \<Rightarrow> BlobInfo list \<Rightarrow> files \<Rightarrow> fetch_state \<Rightarrow> bool" where
  "fetch_inv blob lk layers fs0 s \<longleftrightarrow>
     (\<forall>k. (\<forall>l \<in> set layers. k \<noteq> lk @ [bi_Digest l]) \<longrightarrow> map_of (ft_files s) k = map_of fs0 k) \<and>
     (\<forall>rk. (\<forall>l \<in> set layers. \<not> prefix rk (lk @ [bi_Digest l])) \<longrightarrow> subtree rk (ft_files s) = subtree rk fs0) \<and>
     (\<forall>l \<in> set layers. map_of (ft_files s) (lk @ [bi_Digest l]) = None \<or> reached (blob l) (ft_files s) (lk @ [bi_Digest l]) 0) \<and>
     (\<forall>i < length layers. ft_errs s i = None \<and>
        (case ft_phase s i of
           Starting \<Rightarrow> True
         | Copying off \<Rightarrow> reached (blob (layers ! i)) (ft_files s) (lk @ [bi_Digest (layers ! i)]) off
         | Finished \<Rightarrow> reached (blob (layers ! i)) (ft_files s) (lk @ [bi_Digest (layers ! i)]) (length (blob (layers ! i)))))"

text \<open>A file that has only grown is reached as before.\<close>

definition grown :: "(BlobInfo \<Rightarrow> string) \<Rightarrow> string list \<Rightarrow> BlobInfo \<Rightarrow> files \<Rightarrow> files \<Rightarrow> bool" where
  "grown blob lk l fs fs' \<longleftrightarrow>
     (\<forall>k. k \<noteq> lk @ [bi_Digest l] \<longrightarrow> map_of fs' k = map_of fs k) \<and>
     (\<forall>off. reached (blob l) fs (lk @ [bi_Digest l]) off \<longrightarrow> reached (blob l) fs' (lk @ [bi_Digest l]) off) \<and>
     (\<forall>rk. \<not> prefix rk (lk @ [bi_Digest l]) \<longrightarrow> subtree rk fs' = subtree rk fs) \<and>
     reached (blob l) fs' (lk @ [bi_Digest l]) 0"

lemma fetch_inv_grown:
  assumes "fetch_inv blob lk layers fs0 s" "i < length layers" "grown blob lk (layers ! i) (ft_files s) fs'"
    and "\<And>l l'. l \<in> set layers \<Longrightarrow> l' \<in> set layers \<Longrightarrow> bi_Digest l = bi_Digest l' \<Longrightarrow> blob l = blob l'"
    and "\<And>j. j \<noteq> i \<Longrightarrow> ft_phase s' j = ft_phase s j" "\<And>j. ft_errs s' j = ft_errs s j" "ft_files s' = fs'"
    and "case ft_phase s' i of Starting \<Rightarrow> True
         | Copying off \<Rightarrow> reached (blob (layers ! i)) fs' (lk @ [bi_Digest (layers ! i)]) off
         | Finished \<Rightarrow> reached (blob (layers ! i)) fs' (lk @ [bi_Digest (layers ! i)]) (length (blob (layers ! i)))"
  shows "fetch_inv blob lk layers fs0 s'"
proof -
  let ?l = "layers ! i"
  have l: "?l \<in> set layers" using assms(2) by simp
  have mono: "reached (blob l) (ft_files s) (lk @ [bi_Digest l]) off \<Longrightarrow> reached (blob l) fs' (lk @ [bi_Digest l]) off"
    if "l \<in> set layers" for l off
    using assms(3) assms(4) [OF that l] by (cases "bi_Digest l = bi_Digest ?l") (auto simp: grown_def reached_def)
  have "map_of fs' (lk @ [bi_Digest l]) = None \<or> reached (blob l) fs' (lk @ [bi_Digest l]) 0" if "l \<in> set layers" for l
    using assms(1,3) assms(4) [OF that l] mono [OF that, of 0] that
    by (cases "bi_Digest l = bi_Digest ?l") (auto simp: grown_def fetch_inv_def)
  moreover have "ft_errs s' j = None \<and> (case ft_phase s' j of
       Starting \<Rightarrow> True
     | Copying off \<Rightarrow> reached (blob (layers ! j)) fs' (lk @ [bi_Digest (layers ! j)]) off
     | Finished \<Rightarrow> reached (blob (layers ! j)) fs' (lk @ [bi_Digest (layers ! j)]) (length (blob (layers ! j))))"
    if "j < length layers" for j
    using assms(1,5,6,8) that mono [of "layers ! j"] by (cases "j = i") (auto simp: fetch_inv_def split: phase.splits)
  moreover have "map_of fs' k = map_of fs0 k" if "\<forall>l \<in> set layers. k \<noteq> lk @ [bi_Digest l]" for k
    using assms(1,3) l that by (auto simp: grown_def fetch_inv_def)
  moreover have "subtree rk fs' = subtree rk fs0" if "\<forall>l \<in> set layers. \<not> prefix rk (lk @ [bi_Digest l])" for rk
    using assms(1,3) l that by (auto simp: grown_def fetch_inv_def)
  ultimately show ?thesis unfolding fetch_inv_def assms(7) by blast
qed

lemma fetch_inv_step:
  assumes inv: "fetch_inv blob lk layers fs0 s"
    and env: "no_fault env" "path_rooted ld" "lk = path_elements ld" "is_dir fs0 lk"
    and layers: "\<And>l. l \<in> set layers \<Longrightarrow> plain (bi_Digest l) \<and> is_GetBlob src l = Ok (blob l, None)"
    and same: "\<And>l l'. l \<in> set layers \<Longrightarrow> l' \<in> set layers \<Longrightarrow> bi_Digest l = bi_Digest l' \<Longrightarrow> blob l = blob l'"
  shows "fetch_inv blob lk layers fs0 (fetch_step env src ld layers (i, n) s)"
proof (cases "i < length layers")
  case True
  define l k where "l = layers ! i" and "k = lk @ [bi_Digest l]"
  have l: "l \<in> set layers" using True by (simp add: l_def)
  have bp: "blob_path ld l = k" using path_elements_child [OF env(2)] layers [OF l] env(3) by (simp add: blob_path_def k_def)
  have gb: "is_GetBlob src l = Ok (blob l, None)" using layers [OF l] by simp
  have dir: "is_dir (ft_files s) lk" using inv env(4) by (simp add: fetch_inv_def is_dir_def)
  show ?thesis
  proof (cases "ft_phase s i")
    case Starting
    show ?thesis
    proof (cases "map_of (ft_files s) k")
      case None
      define fs1 where "fs1 = AList.update k (FFile [] (fe_mask env 384)) (ft_files s)"
      have "fs_OpenCreate env k 384 (ft_files s) = Ok fs1"
        using env(1) None dir by (simp add: fs_OpenCreate_def no_fault_def fs1_def k_def)
      then have st: "fetch_step env src ld layers (i, n) s = s\<lparr>ft_files := fs1, ft_phase := (ft_phase s)(i := Copying 0)\<rparr>"
        using True Starting bp gb by (simp add: fetch_step_def Let_def flip: l_def)
      have "reached (blob l) fs1 k 0" by (simp add: reached_def fs1_def update_conv')
      moreover have "grown blob lk l (ft_files s) fs1"
        using None calculation
        by (auto simp: grown_def fs1_def update_conv' reached_def subtree_update simp flip: k_def)
      ultimately show ?thesis
        by (intro fetch_inv_grown [OF inv True _ same, where fs' = fs1]) (simp_all add: st flip: l_def k_def)
    next
      case (Some node)
      have "map_of (ft_files s) k = None \<or> reached (blob l) (ft_files s) k 0"
        using inv l unfolding fetch_inv_def k_def by blast
      then have r0: "reached (blob l) (ft_files s) k 0" using Some by simp
      then obtain data mode where node: "node = FFile data mode" "reached (blob l) (ft_files s) k 0"
        using Some by (auto simp: reached_def)
      then have "fs_OpenCreate env k 384 (ft_files s) = Ok (ft_files s)"
        using env(1) Some by (simp add: fs_OpenCreate_def no_fault_def)
      then have st: "fetch_step env src ld layers (i, n) s = s\<lparr>ft_phase := (ft_phase s)(i := Copying 0)\<rparr>"
        using True Starting bp gb by (simp add: fetch_step_def Let_def flip: l_def)
      have "grown blob lk l (ft_files s) (ft_files s)" using node by (simp add: grown_def flip: k_def)
      then show ?thesis
        using node by (intro fetch_inv_grown [OF inv True _ same, where fs' = "ft_files s"]) (simp_all add: st flip: l_def k_def)
    qed
  next
    case (Copying off)
    then have r: "reached (blob l) (ft_files s) k off" using inv True by (auto simp: fetch_inv_def l_def k_def)
    then obtain data mode where f: "map_of (ft_files s) k = Some (FFile data mode)" "prefix data (blob l)" "off \<le> length data"
      by (auto simp: reached_def)
    have len: "length data \<le> length (blob l)" using f(2) by (simp add: prefix_length_le)
    show ?thesis
    proof (cases "length (blob l) \<le> off")
      case True2: True
      have st: "fetch_step env src ld layers (i, n) s = finish_fetch i None s"
        using True True2 Copying bp gb by (simp add: fetch_step_def Let_def flip: l_def)
      have "grown blob lk l (ft_files s) (ft_files s)" using r by (auto simp: grown_def reached_def simp flip: k_def)
      moreover have "reached (blob l) (ft_files s) k (length (blob l))" using f True2 by (simp add: reached_def)
      moreover have "ft_errs s i = None" using inv True by (simp add: fetch_inv_def)
      ultimately show ?thesis
        by (intro fetch_inv_grown [OF inv True _ same, where fs' = "ft_files s"])
           (simp_all add: st finish_fetch_def flip: l_def k_def)
    next
      case False
      let ?chunk = "take (Suc n) (drop off (blob l))"
      define fs1 where "fs1 = fs_write k (write_at off ?chunk data) (ft_files s)"
      have st: "fetch_step env src ld layers (i, n) s =
          s\<lparr>ft_files := fs1, ft_phase := (ft_phase s)(i := Copying (off + length ?chunk))\<rparr>"
        using True False Copying bp gb env(1) f
        by (simp add: fetch_step_def Let_def no_fault_def fs1_def flip: l_def)
      have m1: "map_of fs1 = (map_of (ft_files s))(k \<mapsto> FFile (write_at off ?chunk data) mode)"
        using f(1) by (simp add: fs1_def fs_write_def update_conv')
      note w = write_at_prefix [OF f(2,3), of "Suc n"]
      have "reached (blob l) fs1 k (off + length ?chunk)" using w(1,3) by (simp add: reached_def m1)
      moreover have "subtree rk fs1 = subtree rk (ft_files s)" if "\<not> prefix rk k" for rk
        using that by (simp add: fs1_def subtree_write)
      moreover have "grown blob lk l (ft_files s) fs1"
        using w(1,2) f calculation by (auto simp: grown_def m1 reached_def simp flip: k_def)
      ultimately show ?thesis
        by (intro fetch_inv_grown [OF inv True _ same, where fs' = fs1]) (simp_all add: st flip: l_def k_def)
    qed
  next
    case Finished
    then show ?thesis using inv True by (simp add: fetch_step_def Let_def)
  qed
next
  case False
  then show ?thesis using inv by (simp add: fetch_step_def)
qed

lemma fetch_inv_fold:
  assumes "fetch_inv blob lk layers fs0 s" "no_fault env" "path_rooted ld" "lk = path_elements ld" "is_dir fs0 lk"
    and "\<And>l. l \<in> set layers \<Longrightarrow> plain (bi_Digest l) \<and> is_GetBlob src l = Ok (blob l, None)"
    and "\<And>l l'. l \<in> set layers \<Longrightarrow> l' \<in> set layers \<Longrightarrow> bi_Digest l = bi_Digest l' \<Longrightarrow> blob l = blob l'"
  shows "fetch_inv blob lk layers fs0 (fold (fetch_step env src ld layers) sched s)"
  using assms(1)
proof (induction sched arbitrary: s)
  case (Cons x sched)
  obtain i n where x: "x = (i, n)" by (cases x)
  have "fetch_inv blob lk layers fs0 (fetch_step env src ld layers (i, n) s)"
    by (rule fetch_inv_step [OF Cons.prems assms(2-7)])
  then show ?case unfolding x fold_simps by (rule Cons.IH)
qed simp

lemma fetch_inv_finished:
  assumes "fetch_inv blob lk layers fs0 s" "i < length layers" "ft_phase s i = Finished"
  shows "ft_errs s i = None" "reached (blob (layers ! i)) (ft_files s) (lk @ [bi_Digest (layers ! i)]) (length (blob (layers ! i)))"
proof -
  have "ft_errs s i = None \<and> (case ft_phase s i of
       Starting \<Rightarrow> True
     | Copying off \<Rightarrow> reached (blob (layers ! i)) (ft_files s) (lk @ [bi_Digest (layers ! i)]) off
     | Finished \<Rightarrow> reached (blob (layers ! i)) (ft_files s) (lk @ [bi_Digest (layers ! i)]) (length (blob (layers ! i))))"
    using assms(1,2) unfolding fetch_inv_def by blast
  then show "ft_errs s i = None" "reached (blob (layers ! i)) (ft_files s) (lk @ [bi_Digest (layers ! i)]) (length (blob (layers ! i)))"
    using assms(3) by simp_all
qed

lemma layers_fetched:
  assumes "fetch_layers env mt src sched ld layers fs = Some (res, fs')" "fetched_layers mt layers = layers"
    and "no_fault env" "path_rooted ld" "lk = path_elements ld" "is_dir fs lk"
    and "\<forall>l \<in> set layers. plain (bi_Digest l) \<and> is_GetBlob src l = Ok (blob l, None)"
    and "\<forall>l l'. bi_Digest l = bi_Digest l' \<longrightarrow> blob l = blob l'"
    and "\<forall>l \<in> set layers. map_of fs (lk @ [bi_Digest l]) = None"
  shows "res = None" "\<And>l. l \<in> set layers \<Longrightarrow> \<exists>mode. map_of fs' (lk @ [bi_Digest l]) = Some (FFile (blob l) mode)"
    "\<And>k. \<not> strict_prefix lk k \<Longrightarrow> map_of fs' k = map_of fs k"
    "\<And>rk. \<not> prefix rk lk \<Longrightarrow> \<not> prefix lk rk \<Longrightarrow> subtree rk fs' = subtree rk fs"
proof -
  define s where "s = fold (fetch_step env src ld layers) sched \<lparr>ft_files = fs, ft_phase = (\<lambda>_. Starting), ft_errs = (\<lambda>_. None)\<rparr>"
  have "fetch_inv blob lk layers fs \<lparr>ft_files = fs, ft_phase = (\<lambda>_. Starting), ft_errs = (\<lambda>_. None)\<rparr>"
    using assms(9) by (simp add: fetch_inv_def)
  then have inv: "fetch_inv blob lk layers fs s"
    unfolding s_def by (rule fetch_inv_fold [OF _ assms(3-6) assms(7) [rule_format] assms(8) [rule_format]])
  have fin: "\<And>i. i < length layers \<Longrightarrow> ft_phase s i = Finished" and res: "res = first_error (map (ft_errs s) [0..<length layers])"
    and fs': "fs' = ft_files s"
    using assms(1) unfolding fetch_layers_def Let_def assms(2) s_def [symmetric]
    by (auto simp: list_all_iff split: if_splits)
  have "ft_errs s i = None" if "i < length layers" for i
    by (rule fetch_inv_finished(1) [OF inv that fin [OF that]])
  then have "map (ft_errs s) [0..<length layers] = replicate (length layers) None"
    by (intro nth_equalityI) simp_all
  then show "res = None" by (simp add: res first_error_def)
  show "\<exists>mode. map_of fs' (lk @ [bi_Digest l]) = Some (FFile (blob l) mode)" if l: "l \<in> set layers" for l
  proof -
    obtain i where i: "i < length layers" "layers ! i = l" using l by (auto simp: in_set_conv_nth)
    then have "reached (blob l) (ft_files s) (lk @ [bi_Digest l]) (length (blob l))"
      using fetch_inv_finished(2) [OF inv i(1) fin [OF i(1)]] by simp
    then show ?thesis by (auto simp: fs' reached_def prefix_def)
  qed
  show "map_of fs' k = map_of fs k" if "\<not> strict_prefix lk k" for k
  proof -
    have "\<forall>l \<in> set layers. k \<noteq> lk @ [bi_Digest l]" using that by (auto simp: strict_prefix_def)
    then show ?thesis using inv unfolding fetch_inv_def fs' by blast
  qed
  show "subtree rk fs' = subtree rk fs" if "\<not> prefix rk lk" "\<not> prefix lk rk" for rk
  proof -
    have "\<forall>l \<in> set layers. \<not> prefix rk (lk @ [bi_Digest l])" using that by auto
    then show ?thesis using inv unfolding fetch_inv_def fs' by blast
  qed
qed

section \<open>The layers are applied in order\<close>

lemma map_of_subtree: "map_of (subtree k fs) r = map_of fs (k @ r)"
proof (induction fs)
  case (Cons e fs)
  then show ?case by (cases e; cases "prefix k (fst e)") (auto simp: subtree_def elim: prefixE)
qed (simp add: subtree_def)

lemma subtree_graft: "subtree k (graft k sub fs) = sub"
proof -
  have "filter (\<lambda>(k', _). prefix k k') (graft k sub fs) = map (\<lambda>(r, n). (k @ r, n)) sub"
    by (auto simp: graft_def filter_map comp_def case_prod_beta intro: filter_True)
  then show ?thesis by (auto simp: subtree_def comp_def case_prod_beta)
qed

lemma map_of_graft_below: "map_of (graft k sub fs) (k @ r) = map_of sub r"
  using map_of_subtree [of k "graft k sub fs" r] by (simp add: subtree_graft)

lemma map_of_graft_outside: "\<not> prefix k k' \<Longrightarrow> map_of (graft k sub fs) k' = map_of fs k'"
proof -
  assume k': "\<not> prefix k k'"
  then have "map_of (map (\<lambda>(r, n). (k @ r, n)) sub) k' = None"
    by (auto simp: map_of_eq_None_iff)
  then show ?thesis using k' by (simp add: graft_def map_add_def map_of_filter_key split: option.split)
qed

text \<open>What applying layers one after the other makes of a file system.\<close>

primrec layered ::
    "(string \<Rightarrow> files \<Rightarrow> string option \<times> files) \<Rightarrow> (BlobInfo \<Rightarrow> string) \<Rightarrow> BlobInfo list \<Rightarrow> files \<Rightarrow> string option \<times> files" where
  "layered ApplyLayer blob [] sub = (None, sub)"
| "layered ApplyLayer blob (l # ls) sub =
     (case ApplyLayer (blob l) sub of
        (Some e, sub') \<Rightarrow> (Some e, sub')
      | (None, sub') \<Rightarrow> layered ApplyLayer blob ls sub')"

lemma layers_applied:
  assumes "no_fault env" "path_rooted ld" "lk = path_elements ld" "rk = path_elements rd" "\<not> prefix rk lk" "\<not> prefix lk rk"
    and "\<And>l. l \<in> set layers \<Longrightarrow> plain (bi_Digest l) \<and> (\<exists>mode. map_of fs (lk @ [bi_Digest l]) = Some (FFile (blob l) mode))"
    and "layered ApplyLayer blob layers (subtree rk fs) = (res, sub)"
  shows "\<exists>fs'. apply_layers env ApplyLayer ld rd layers fs = (res, fs') \<and> subtree rk fs' = sub \<and>
    (\<forall>k. \<not> prefix rk k \<longrightarrow> map_of fs' k = map_of fs k)"
  using assms(7,8)
proof (induction layers arbitrary: fs)
  case (Cons l ls)
  have out: "\<not> prefix rk (lk @ [c])" for c using assms(5,6) by auto
  obtain mode where "map_of fs (lk @ [bi_Digest l]) = Some (FFile (blob l) mode)" "plain (bi_Digest l)"
    using Cons.prems(1) [of l] by auto
  then have f: "map_of fs (blob_path ld l) = Some (FFile (blob l) mode)"
    using path_elements_child [OF assms(2)] assms(3) by (simp add: blob_path_def)
  obtain err sub1 where a: "ApplyLayer (blob l) (subtree rk fs) = (err, sub1)" by fastforce
  show ?case
  proof (cases err)
    case (Some e)
    then show ?thesis
      using a f Cons.prems(2) assms(1,4) by (auto simp: no_fault_def subtree_graft map_of_graft_outside)
  next
    case None
    have "\<exists>fs'. apply_layers env ApplyLayer ld rd ls (graft rk sub1 fs) = (res, fs') \<and> subtree rk fs' = sub \<and>
        (\<forall>k. \<not> prefix rk k \<longrightarrow> map_of fs' k = map_of (graft rk sub1 fs) k)"
      using Cons.prems a None out by (intro Cons.IH) (auto simp: map_of_graft_outside subtree_graft)
    then show ?thesis using a f None assms(1,4) by (auto simp: no_fault_def map_of_graft_outside)
  qed
qed simp

section \<open>The kernel is looked for in what the layers make\<close>

lemma dir_names_subtree: "dir_names fs (rk @ r) = dir_names (subtree rk fs) r"
proof -
  have "map last (filter (\<lambda>k'. k' \<noteq> [] \<and> butlast k' = rk @ r) (map fst fs)) =
      map last (filter (\<lambda>k'. k' \<noteq> [] \<and> butlast k' = r) (map fst (subtree rk fs)))"
  proof (induction fs)
    case (Cons e fs)
    obtain k n where e: "e = (k, n)" by (cases e)
    show ?case
    proof (cases "prefix rk k")
      case True
      then obtain zs where k: "k = rk @ zs" by (auto simp: prefix_def)
      have "rk = []" if "butlast rk = rk @ r"
        using arg_cong [OF that, of length] by (simp flip: length_0_conv)
      then show ?thesis
        using Cons.IH by (cases "zs = []") (auto simp: e k subtree_def butlast_append)
    next
      case False
      then have "\<not> (k \<noteq> [] \<and> butlast k = rk @ r)"
        by (metis append_butlast_last_id prefixI append_assoc)
      then show ?thesis using Cons.IH False by (simp add: e subtree_def)
    qed
  qed (simp add: subtree_def)
  then show ?thesis by (simp add: dir_names_def)
qed

lemma path_elements_Dir:
  assumes "path_rooted d" "plain c"
  shows "path_elements (Dir (path_Join [d, c])) = path_elements d"
proof -
  let ?els = "path_elements d"
  have pl: "list_all plain ?els" using assms(1) by (rule path_elements_rooted_plain)
  have c: "CHR ''/'' \<notin> set c" using assms(2) by (simp add: plain_def)
  obtain p where p: "path_Join [d, c] = p @ CHR ''/'' # c" "path_elements (p @ ''/'') = ?els" "path_rooted (p @ ''/'')"
  proof (cases "?els = []")
    case True
    then have "path_Join [d, c] = [] @ CHR ''/'' # c" by (simp add: path_Join_rooted_plain [OF assms])
    moreover have "path_elements ([] @ ''/'') = ?els" using True by (simp add: path_elements_def)
    ultimately show ?thesis using that [of "[]"] by simp
  next
    case False
    let ?p = "''/'' @ Join ?els ''/''"
    have "path_Join [d, c] = ?p @ CHR ''/'' # c"
      using False by (simp add: path_Join_rooted_plain [OF assms] Join_snoc)
    moreover have "path_elements (?p @ ''/'') = path_elements ?p"
      using Split_append_cons [of "CHR ''/''" ?p "[]"] by (simp add: path_elements_def)
    moreover have "path_elements ?p = ?els"
      using path_elements_Clean_rooted [OF assms(1)] by (simp add: Clean_elements [OF assms(1)])
    ultimately show ?thesis using that [of ?p] by simp
  qed
  have "Dir (path_Join [d, c]) = Clean (p @ ''/'')"
    using after_last_slash_append [OF c, of p] by (simp add: Dir_def p(1))
  then show ?thesis using p(2,3) by (simp add: path_elements_Clean_rooted)
qed

lemma Glob_in_subtree:
  assumes "path_rooted boot" "plain pat" "path_elements boot = rk @ r" "subtree rk fs = subtree rk fs'"
  shows "Glob_in fs (path_Join [boot, pat]) = Glob_in fs' (path_Join [boot, pat])"
  using assms dir_names_subtree [of fs rk r] dir_names_subtree [of fs' rk r]
  by (simp add: Glob_in_def path_elements_Dir)

lemma findFirstMatches_cong:
  "(\<And>p. p \<in> set patterns \<Longrightarrow> G (path_Join [dir, p]) = G' (path_Join [dir, p])) \<Longrightarrow>
   findFirstMatches G dir patterns = findFirstMatches G' dir patterns"
  by (induction patterns) (auto split: sum.split)

lemma patterns_plain: "p \<in> set kernelPatterns \<union> set initrdPatterns \<Longrightarrow> plain p"
  by (auto simp: kernelPatterns_def initrdPatterns_def plain_def)

lemma kernel_in_subtree:
  assumes "path_rooted rd" "subtree (path_elements rd) fs = subtree (path_elements rd) fs'"
  shows "FindLinuxKernelFiles (Glob_in fs) rd = FindLinuxKernelFiles (Glob_in fs') rd"
proof -
  have boot: "path_rooted (path_Join [rd, ''boot''])" "path_elements (path_Join [rd, ''boot'']) = path_elements rd @ [''boot'']"
    using assms(1) path_elements_child [OF assms(1), of "''boot''"] path_Join_rooted_plain [OF assms(1), of "''boot''"]
    by (simp_all add: plain_def)
  have eq: "findFirstMatches (Glob_in fs) (path_Join [rd, ''boot'']) ps = findFirstMatches (Glob_in fs') (path_Join [rd, ''boot'']) ps"
    if "set ps \<subseteq> set kernelPatterns \<union> set initrdPatterns" for ps
    using Glob_in_subtree [OF boot(1) _ boot(2) assms(2)] patterns_plain that
    by (intro findFirstMatches_cong) blast
  have "set kernelPatterns \<subseteq> set kernelPatterns \<union> set initrdPatterns" "set initrdPatterns \<subseteq> set kernelPatterns \<union> set initrdPatterns"
    by simp_all
  then show ?thesis unfolding FindLinuxKernelFiles_def Let_def by (subst (1 2) eq) simp_all
qed

section \<open>The image\<close>

text \<open>\<open>mksquashfs\<close> writes its destination only, and if it succeeds a new file holds \<open>pack\<close> of the source.\<close>

definition mksquashfs_law :: "(files \<Rightarrow> string) \<Rightarrow> tools \<Rightarrow> bool" where
  "mksquashfs_law pack T \<longleftrightarrow> (\<forall>src dst h.
     case cmd_Run T (lookPathOrEmpty T ''mksquashfs'') [src, dst] h of
       (err, h') \<Rightarrow>
         (\<forall>k. k \<noteq> path_elements dst \<longrightarrow> map_of (h_files h') k = map_of (h_files h) k) \<and>
         (err = None \<and> map_of (h_files h) (path_elements dst) = None \<longrightarrow>
           (\<exists>mode. map_of (h_files h') (path_elements dst) = Some (FFile (pack (subtree (path_elements src) (h_files h))) mode))))"

lemma no_keys: "(\<And>r. map_of fs (k @ r) = None) \<Longrightarrow> \<forall>e \<in> set fs. \<not> prefix k (fst e)"
proof (intro ballI notI)
  fix e assume none: "\<And>r. map_of fs (k @ r) = None" and e: "e \<in> set fs" "prefix k (fst e)"
  then obtain r where "fst e = k @ r" by (auto simp: prefix_def)
  then show False using none [of r] e(1) by (metis map_of_eq_None_iff image_eqI)
qed

lemma subtree_new:
  assumes "\<And>r. map_of fs (k @ r) = None"
  shows "subtree k (AList.update k v fs) = [([], v)]"
proof -
  have "\<forall>e \<in> set fs. \<not> prefix k (fst e) \<Longrightarrow> subtree k (AList.update k v fs) = [([], v)]"
    by (induction fs) (auto simp: subtree_def filter_empty_conv)
  then show ?thesis using no_keys [OF assms] by blast
qed

lemma subtree_removed:
  assumes "\<not> prefix rk lk" "\<not> prefix lk rk"
  shows "subtree rk (filter (\<lambda>(k', _). \<not> prefix lk k') fs) = subtree rk fs"
proof -
  have "filter (\<lambda>(k', _). prefix rk k') (filter (\<lambda>(k', _). \<not> prefix lk k') fs) = filter (\<lambda>(k', _). prefix rk k') fs"
  proof (induction fs)
    case (Cons e fs)
    then show ?case using assms prefix_same_cases [of rk "fst e" lk] by (cases e) auto
  qed simp
  then show ?thesis unfolding subtree_def by (rule arg_cong)
qed

lemma subtree_Truncate: "\<not> prefix rk k \<Longrightarrow> fs_Truncate env k perm fs = Ok fs1 \<Longrightarrow> subtree rk fs1 = subtree rk fs"
  unfolding fs_Truncate_def by (auto simp: subtree_update split: option.splits fnode.splits if_splits)

lemma subtree_copy:
  assumes "\<not> prefix rk dst"
  shows "subtree rk (snd (CopyFileInFs env src dst perm fs)) = subtree rk fs"
proof (cases "fs_Truncate env dst perm fs")
  case (Inr fs1)
  then have "subtree rk fs1 = subtree rk fs" "subtree rk (fs_write dst data fs1) = subtree rk fs" for data
    using subtree_Truncate [OF assms Inr] subtree_write [OF assms] by simp_all
  then show ?thesis
    unfolding CopyFileInFs_def Inr by (simp split: option.split fnode.split)
qed (simp add: CopyFileInFs_def split: option.split)

lemma file_names_plain: "plain KernelFileName" "plain InitrdFileName" "plain internalRootfsFileName"
  "plain ''layers''" "plain ''rootfs''"
  by (simp_all add: plain_def KernelFileName_def InitrdFileName_def internalRootfsFileName_def)

lemma file_names_differ [simp]:
  "KernelFileName \<noteq> InitrdFileName" "InitrdFileName \<noteq> KernelFileName"
  "KernelFileName \<noteq> internalRootfsFileName" "internalRootfsFileName \<noteq> KernelFileName"
  "InitrdFileName \<noteq> internalRootfsFileName" "internalRootfsFileName \<noteq> InitrdFileName"
  "KernelFileName \<noteq> ''layers''" "InitrdFileName \<noteq> ''layers''" "internalRootfsFileName \<noteq> ''layers''"
  "KernelFileName \<noteq> ''rootfs''" "InitrdFileName \<noteq> ''rootfs''" "internalRootfsFileName \<noteq> ''rootfs''"
  "''layers'' \<noteq> KernelFileName" "''layers'' \<noteq> InitrdFileName" "''layers'' \<noteq> internalRootfsFileName"
  "''rootfs'' \<noteq> KernelFileName" "''rootfs'' \<noteq> InitrdFileName" "''rootfs'' \<noteq> internalRootfsFileName"
  by (simp_all add: KernelFileName_def InitrdFileName_def internalRootfsFileName_def)

text \<open>The files taken from a root file system \<open>R\<close> below the destination.\<close>

lemma files_taken:
  assumes "no_fault env" "path_rooted dst" "dk = path_elements dst" "is_dir (h_files h) dk" "rd = path_Join [dst, ''rootfs'']"
    and "\<And>c. c \<in> {KernelFileName, InitrdFileName, internalRootfsFileName} \<Longrightarrow> map_of (h_files h) (dk @ [c]) = None"
    and "subtree (dk @ [''rootfs'']) (h_files h) = R"
    and "FindLinuxKernelFiles (Glob_in (graft (dk @ [''rootfs'']) R [])) rd = Ok (kp, ip)"
    and "map_of (graft (dk @ [''rootfs'']) R []) (path_elements kp) = Some (FFile kimg km)"
    and "ip \<noteq> [] \<Longrightarrow> map_of (graft (dk @ [''rootfs'']) R []) (path_elements ip) = Some (FFile ramdisk im)"
    and "mksquashfs_law pack T" "lookPathOrEmpty T ''mksquashfs'' \<noteq> []"
    and "\<And>h. fst (cmd_Run T (lookPathOrEmpty T ''mksquashfs'') [rd, path_Join [dst, internalRootfsFileName]] h) = None"
  shows "\<exists>h' mode. take_files env T dst rd h = (None, h') \<and>
    (\<forall>k. map_of (h_files h') k =
       (if k = dk @ [KernelFileName] then Some (FFile kimg (fe_mask env 384))
        else if k = dk @ [InitrdFileName] \<and> ip \<noteq> [] then Some (FFile ramdisk (fe_mask env 384))
        else if k = dk @ [internalRootfsFileName] then Some (FFile (pack R) mode)
        else map_of (h_files h) k))"
proof -
  let ?rk = "dk @ [''rootfs'']"
  note names = file_names_plain [THEN path_elements_child [OF assms(2)], folded assms(3)]
  have rd: "path_elements rd = ?rk" "path_rooted rd"
    using names(5) assms(2,5) path_Join_rooted_plain [OF assms(2) file_names_plain(5)] by simp_all
  have same: "map_of (h_files h) k = map_of (graft ?rk R []) k" if "prefix ?rk k" for k
    using that map_of_subtree [of ?rk "h_files h"] map_of_graft_below [of ?rk R "[]"] assms(7) by (auto simp: prefix_def)
  have inR: "prefix ?rk k" if "map_of (graft ?rk R []) k = Some x" for k x
    using that map_of_graft_outside [of ?rk k R "[]"] by (cases "prefix ?rk k") auto
  have find: "FindLinuxKernelFiles (Glob_in (h_files h)) rd = Ok (kp, ip)"
    using kernel_in_subtree [OF rd(2), of "h_files h" "graft ?rk R []"] assms(7,8) rd(1) by (simp add: subtree_graft)
  have ksrc: "map_of (h_files h) (path_elements kp) = Some (FFile kimg km)"
    using same [OF inR [OF assms(9)]] assms(9) by simp
  obtain fs1 where c1: "CopyFileInFs env (path_elements kp) (dk @ [KernelFileName]) 384 (h_files h) = (None, fs1)"
    and m1: "map_of fs1 = (map_of (h_files h))(dk @ [KernelFileName] \<mapsto> FFile kimg (fe_mask env 384))"
    using CopyFile_ok [OF assms(1) ksrc, of "dk @ [KernelFileName]" 384] assms(4,6) by auto
  have nd: "\<not> prefix ?rk (dk @ [KernelFileName])" "\<not> prefix ?rk (dk @ [InitrdFileName])"
    by auto
  have s1: "subtree ?rk fs1 = R"
    using subtree_copy [OF nd(1), of env "path_elements kp" 384 "h_files h"] c1 assms(7) by simp
  obtain fs2 where c2: "(if ip \<noteq> [] then CopyFileInFs env (path_elements ip) (dk @ [InitrdFileName]) 384 fs1 else (None, fs1)) = (None, fs2)"
    and m2: "map_of fs2 = (if ip \<noteq> [] then (map_of fs1)(dk @ [InitrdFileName] \<mapsto> FFile ramdisk (fe_mask env 384)) else map_of fs1)"
    and s2: "subtree ?rk fs2 = R"
  proof (cases "ip = []")
    case True
    then show ?thesis using that s1 by simp
  next
    case False
    have "path_elements ip \<noteq> dk @ [KernelFileName]"
      using inR [OF assms(10) [OF False]] nd(1) by auto
    then have "map_of fs1 (path_elements ip) = Some (FFile ramdisk im)"
      using same [OF inR [OF assms(10) [OF False]]] assms(10) [OF False] by (simp add: m1)
    then obtain fs2 where c: "CopyFileInFs env (path_elements ip) (dk @ [InitrdFileName]) 384 fs1 = (None, fs2)"
      and m: "map_of fs2 = (map_of fs1)(dk @ [InitrdFileName] \<mapsto> FFile ramdisk (fe_mask env 384))"
      using CopyFile_ok [OF assms(1), of fs1 "path_elements ip" ramdisk im "dk @ [InitrdFileName]" 384] assms(4,6)
      by (auto simp: m1 is_dir_def2)
    have "subtree ?rk fs2 = R"
      using subtree_copy [OF nd(2), of env "path_elements ip" 384 fs1] c s1 by simp
    then show ?thesis using that [of fs2] c m False by simp
  qed
  let ?dstImg = "path_Join [dst, internalRootfsFileName]"
  obtain h' where run: "cmd_Run T (lookPathOrEmpty T ''mksquashfs'') [rd, ?dstImg] (h\<lparr>h_files := fs2\<rparr>) = (None, h')"
    using assms(13) [of "h\<lparr>h_files := fs2\<rparr>"] by (metis prod.collapse)
  have img: "map_of fs2 (dk @ [internalRootfsFileName]) = None"
    using assms(6) [of internalRootfsFileName] by (simp add: m1 m2)
  have law: "(\<forall>k. k \<noteq> dk @ [internalRootfsFileName] \<longrightarrow> map_of (h_files h') k = map_of fs2 k) \<and>
      (\<exists>mode. map_of (h_files h') (dk @ [internalRootfsFileName]) = Some (FFile (pack R) mode))"
    using assms(11) [unfolded mksquashfs_law_def, THEN spec, of rd, THEN spec, of ?dstImg, THEN spec, of "h\<lparr>h_files := fs2\<rparr>"] run img s2 rd(1) names(3)
    by simp
  then obtain mode where mode: "map_of (h_files h') (dk @ [internalRootfsFileName]) = Some (FFile (pack R) mode)" by blast
  have "take_files env T dst rd h = (None, h')"
    unfolding take_files_def names(1,2) find using c1 c2 run assms(12)
    by (simp add: PackIntoSquashFsImg_def split del: if_split)
  moreover have "map_of (h_files h') k =
      (if k = dk @ [KernelFileName] then Some (FFile kimg (fe_mask env 384))
       else if k = dk @ [InitrdFileName] \<and> ip \<noteq> [] then Some (FFile ramdisk (fe_mask env 384))
       else if k = dk @ [internalRootfsFileName] then Some (FFile (pack R) mode)
       else map_of (h_files h) k)" for k
    using law mode by (cases "k = dk @ [internalRootfsFileName]") (auto simp: m1 m2)
  ultimately show ?thesis by blast
qed

lemma CreateSubDir_new:
  assumes "no_fault env" "rooted_tree fs" "path_rooted p" "k = path_elements p" "is_dir fs k" "plain c" "map_of fs (k @ [c]) = None"
  shows "CreateSubDirInFs env p c perm fs = (Ok (path_Join [p, c]), AList.update (k @ [c]) (FDir (fe_mask env perm)) fs)"
    and "rooted_tree (AList.update (k @ [c]) (FDir (fe_mask env perm)) fs)"
proof -
  have "fs_Mkdir env (k @ [c]) perm fs = Ok (AList.update (k @ [c]) (FDir (fe_mask env perm)) fs)"
    using assms(1,5,7) by (simp add: fs_Mkdir_def no_fault_def)
  then show "CreateSubDirInFs env p c perm fs = (Ok (path_Join [p, c]), AList.update (k @ [c]) (FDir (fe_mask env perm)) fs)"
    using path_elements_child [OF assms(3,6)] MkdirAll_child [OF assms(2,5), of env c perm] assms(4,7)
    by (simp add: CreateSubDirInFs_def Let_def)
  show "rooted_tree (AList.update (k @ [c]) (FDir (fe_mask env perm)) fs)"
    using assms(2,5) by (auto simp: rooted_tree_def is_dir_def2 update_conv')
qed

text \<open>
  C15: From a container image whose layers arrive and can be applied, and whose root file system \<open>R\<close>
  holds a kernel, the directory gets the kernel that the search prefers, its ramdisk if there is
  one, and the image of exactly \<open>R\<close>; nothing else is left, and nothing else changes. This holds
  for every interleaving of the goroutines that fetch the layers in which each has enough turns,
  and when layers share a file.
\<close>

theorem image_made:
  assumes "no_fault env" "rooted_tree (h_files h)" "path_rooted dst" "dk = path_elements dst" "is_dir (h_files h) dk"
    and "\<And>c r. map_of (h_files h) (dk @ c # r) = None"
    and "ParseReference imageId = Ok ref" "NewImageSource ref = Ok src" "chooseImageParts mt src = Ok (manifest, config, layers)"
    and "fetched_layers mt layers = layers"
    and "\<And>l. l \<in> set layers \<Longrightarrow> plain (bi_Digest l) \<and> is_GetBlob src l = Ok (blob (bi_Digest l), None)"
    and "\<And>i. i < length layers \<Longrightarrow> length (blob (bi_Digest (layers ! i))) + 2 \<le> count_list (map fst sched) i"
    and "layered ApplyLayer (blob \<circ> bi_Digest) layers [([], FDir (fe_mask env 448))] = (None, R)"
    and "rk = dk @ [''rootfs'']" "rd = path_Join [dst, ''rootfs'']" "FindLinuxKernelFiles (Glob_in (graft rk R [])) rd = Ok (kp, ip)"
    and "map_of (graft rk R []) (path_elements kp) = Some (FFile kimg km)"
    and "ip \<noteq> [] \<Longrightarrow> map_of (graft rk R []) (path_elements ip) = Some (FFile ramdisk im)"
    and "mksquashfs_law pack T" "lookPathOrEmpty T ''mksquashfs'' \<noteq> []"
    and "\<And>h. fst (cmd_Run T (lookPathOrEmpty T ''mksquashfs'') [rd, path_Join [dst, internalRootfsFileName]] h) = None"
  shows "\<exists>h' mode.
    ContainersSource_Retrieve env mt ParseReference NewImageSource ApplyLayer T sched imageId dst h = Some (None, h') \<and>
    (\<forall>k. map_of (h_files h') k =
       (if k = dk @ [KernelFileName] then Some (FFile kimg (fe_mask env 384))
        else if k = dk @ [InitrdFileName] \<and> ip \<noteq> [] then Some (FFile ramdisk (fe_mask env 384))
        else if k = dk @ [internalRootfsFileName] then Some (FFile (pack R) mode)
        else map_of (h_files h) k))"
proof -
  let ?lk = "dk @ [''layers'']" and ?ld = "path_Join [dst, ''layers'']" and ?m = "fe_mask env 448"
  have fresh: "map_of (h_files h) (dk @ [c]) = None" for c using assms(6) [of c "[]"] by simp
  have lk: "path_elements ?ld = ?lk" "path_rooted ?ld" and rk: "path_elements rd = rk" "path_rooted rd"
    using file_names_plain(4,5) [THEN path_elements_child [OF assms(3)], folded assms(4)] assms(14,15)
      path_Join_rooted_plain [OF assms(3) file_names_plain(4)] path_Join_rooted_plain [OF assms(3) file_names_plain(5)]
    by simp_all
  have apart: "\<not> prefix rk ?lk" "\<not> prefix ?lk rk" using assms(14) by auto
  define fs1 fs2 where "fs1 = AList.update ?lk (FDir ?m) (h_files h)" and "fs2 = AList.update rk (FDir ?m) fs1"
  have m1: "map_of fs1 = (map_of (h_files h))(?lk \<mapsto> FDir ?m)" and m2: "map_of fs2 = (map_of fs1)(rk \<mapsto> FDir ?m)"
    by (simp_all add: fs1_def fs2_def update_conv')
  note d1 = CreateSubDir_new [OF assms(1,2,3,4,5) file_names_plain(4) fresh, of 448]
  have dir1: "is_dir fs1 dk" and new1: "map_of fs1 (dk @ [''rootfs'']) = None"
    using assms(5) fresh [of "''rootfs''"] by (simp_all add: m1 is_dir_def2)
  note d2 = CreateSubDir_new [OF assms(1) d1(2) [folded fs1_def] assms(3,4) dir1 file_names_plain(5) new1, of 448]
  have sub2: "subtree rk fs2 = [([], FDir ?m)]"
    unfolding fs2_def by (rule subtree_new) (use assms(6) [of "''rootfs''"] assms(14) in \<open>simp add: m1\<close>)
  have "fetch_layers env mt src sched ?ld layers fs2 \<noteq> None"
    using layers_fetched_eventually [of layers mt layers src sched env ?ld fs2] assms(10,11,12) by (simp add: blob_length_def)
  then obtain ferr fs3 where f: "fetch_layers env mt src sched ?ld layers fs2 = Some (ferr, fs3)" by auto
  have dlk: "is_dir fs2 ?lk" using apart by (auto simp: m1 m2 is_dir_def2)
  have none2: "\<forall>l \<in> set layers. map_of fs2 (?lk @ [bi_Digest l]) = None"
    using assms(6) [of "''layers''"] assms(14) by (simp add: m1 m2)
  have blobs: "\<forall>l \<in> set layers. plain (bi_Digest l) \<and> is_GetBlob src l = Ok ((blob \<circ> bi_Digest) l, None)"
    "\<forall>l l'. bi_Digest l = bi_Digest l' \<longrightarrow> (blob \<circ> bi_Digest) l = (blob \<circ> bi_Digest) l'"
    using assms(11) by simp_all
  note fetched = layers_fetched [OF f assms(10,1) lk(2) lk(1) [symmetric] dlk blobs none2]
  have sub3: "subtree rk fs3 = [([], FDir ?m)]" using fetched(4) [OF apart] sub2 by simp
  have blobs3: "plain (bi_Digest l) \<and> (\<exists>mode. map_of fs3 (?lk @ [bi_Digest l]) = Some (FFile ((blob \<circ> bi_Digest) l) mode))"
    if "l \<in> set layers" for l using fetched(2) [OF that] blobs(1) that by blast
  obtain fs4 where ap: "apply_layers env ApplyLayer ?ld rd layers fs3 = (None, fs4)" and sub4: "subtree rk fs4 = R"
    and m4: "\<forall>k. \<not> prefix rk k \<longrightarrow> map_of fs4 k = map_of fs3 k"
    using layers_applied [OF assms(1) lk(2) lk(1) [symmetric] rk(1) [symmetric] apart blobs3 assms(13) [folded sub3]] by blast
  define h5 where "h5 = h\<lparr>h_files := filter (\<lambda>(k', _). \<not> prefix ?lk k') fs4\<rparr>"
  have m5: "map_of (h_files h5) k = (if prefix ?lk k then None else map_of fs4 k)" for k
    by (simp add: h5_def map_of_filter_key)
  have old: "map_of (h_files h5) k = map_of (h_files h) k" if "\<not> prefix ?lk k" "\<not> prefix rk k" for k
    using that m4 fetched(3) [of k] by (auto simp: m5 m1 m2 strict_prefix_def)
  have ndk: "\<not> prefix ?lk (dk @ [c])" "\<not> prefix rk (dk @ [c])" if "c \<in> {KernelFileName, InitrdFileName, internalRootfsFileName}" for c
    using that assms(14) by auto
  have "\<not> prefix ?lk dk" "\<not> prefix rk dk" using assms(14) by (auto dest: prefix_length_le)
  then have "is_dir (h_files h5) dk" using old [of dk] assms(5) by (simp add: is_dir_def2)
  moreover have "map_of (h_files h5) (dk @ [c]) = None" if "c \<in> {KernelFileName, InitrdFileName, internalRootfsFileName}" for c
    using old [OF ndk [OF that]] fresh by simp
  moreover have "subtree (dk @ [''rootfs'']) (h_files h5) = R"
    using subtree_removed [OF apart, of fs4] sub4 assms(14) by (simp add: h5_def)
  ultimately obtain h6 mode where tk: "take_files env T dst rd h5 = (None, h6)"
    and m6: "\<forall>k. map_of (h_files h6) k =
       (if k = dk @ [KernelFileName] then Some (FFile kimg (fe_mask env 384))
        else if k = dk @ [InitrdFileName] \<and> ip \<noteq> [] then Some (FFile ramdisk (fe_mask env 384))
        else if k = dk @ [internalRootfsFileName] then Some (FFile (pack R) mode)
        else map_of (h_files h5) k)"
    using files_taken [OF assms(1,3,4) _ assms(15) _ _ assms(16,17,18) [unfolded assms(14)] assms(19,20,21), of h5] by blast
  have "make_image env mt src ApplyLayer T sched dst ?ld rd layers (h\<lparr>h_files := fs2\<rparr>) = Some (None, h6, True)"
    using f fetched(1) ap tk assms(1) lk(1)
    by (simp add: make_image_def remove_all_def fs_RemoveAll_def no_fault_def h5_def)
  then have ret: "ContainersSource_Retrieve env mt ParseReference NewImageSource ApplyLayer T sched imageId dst h =
      Some (None, remove_all env rd h6)"
    using assms(7-9,15) d1(1) d2(1) assms(14)
    by (simp add: ContainersSource_Retrieve_def fs1_def fs2_def)
  have fin: "map_of (h_files (remove_all env rd h6)) k = (if prefix rk k then None else map_of (h_files h6) k)" for k
    using assms(1) rk(1) by (simp add: remove_all_def fs_RemoveAll_def no_fault_def map_of_filter_key)
  have gone: "map_of (h_files h) k = None" if "prefix rk k \<or> prefix ?lk k" for k
    using that assms(6) [of "''rootfs''"] assms(6) [of "''layers''"] assms(14) by (auto simp: prefix_def)
  have nk: "k \<noteq> dk @ [KernelFileName] \<and> k \<noteq> dk @ [InitrdFileName] \<and> k \<noteq> dk @ [internalRootfsFileName]"
    if "prefix rk k \<or> prefix ?lk k" for k
    using that ndk by blast
  have "map_of (h_files (remove_all env rd h6)) k =
       (if k = dk @ [KernelFileName] then Some (FFile kimg (fe_mask env 384))
        else if k = dk @ [InitrdFileName] \<and> ip \<noteq> [] then Some (FFile ramdisk (fe_mask env 384))
        else if k = dk @ [internalRootfsFileName] then Some (FFile (pack R) mode)
        else map_of (h_files h) k)" for k
  proof (cases "prefix rk k \<or> prefix ?lk k")
    case True
    have "map_of (h_files h6) k = map_of (h_files h5) k" using m6 nk [OF True] by simp
    then have "map_of (h_files (remove_all env rd h6)) k = None" using True m5 [of k] by (auto simp: fin)
    then show ?thesis using gone [OF True] nk [OF True] by simp
  next
    case False
    then show ?thesis using m6 [rule_format, of k] old [of k] by (simp add: fin)
  qed
  then show ?thesis using ret by blast
qed

definition packing_tools :: tools where
  "packing_tools =
     \<lparr>tl_LookPath = (\<lambda>f. Ok (''/bin/'' @ f)),
      tl_run = (\<lambda>name args h.
        (\<lparr>oc_stdout = [], oc_stderr = [], oc_error = None\<rparr>,
         h\<lparr>h_files := AList.update (path_elements (args ! 1)) (FFile ''img'' 420) (h_files h)\<rparr>))\<rparr>"

lemma packing_tools_law: "mksquashfs_law (\<lambda>_. ''img'') packing_tools"
  by (simp add: mksquashfs_law_def packing_tools_def cmd_Run_def lookPathOrEmpty_def update_conv')

definition one_blob_source :: "(unit, unit) image_source" where
  "one_blob_source =
     \<lparr>is_Manifest = (\<lambda>_. Ok (''m'', ''manifest'')), is_FromUnparsedImage = (\<lambda>_. None),
      is_LayerInfos = (\<lambda>_. replicate 2 \<lparr>bi_Digest = ''a'', bi_MediaType = ''tar''\<rparr>), is_OCIConfig = (\<lambda>_. Ok ()),
      is_OCI1FromManifest = (\<lambda>_. Ok ()), is_OCI1IndexFromManifest = (\<lambda>_. None), is_ChooseInstance = (\<lambda>_. Err ''index''),
      is_GetBlob = (\<lambda>_. Ok (''k'', None))\<rparr>"

definition small_types :: media_types where
  "small_types =
     \<lparr>mt_ImageLayer = ''tar'', mt_ImageLayerGzip = ''gzip'', mt_ImageLayerZstd = ''zstd'',
      mt_ImageManifest = ''manifest'', mt_ImageIndex = ''index''\<rparr>"

definition add_kernel :: "string \<Rightarrow> files \<Rightarrow> string option \<times> files" where
  "add_kernel data sub =
     (None, AList.update [''boot''] (FDir 493) (AList.update [''boot'', ''vmlinuz-1''] (FFile data 420) sub))"

definition empty_dst :: host where
  "empty_dst = \<lparr>h_files = [([], FDir 493), ([''d''], FDir 448)], h_mounts = [], h_imgs = (\<lambda>_. [])\<rparr>"

theorem image_made_witness:
  "\<exists>h'. ContainersSource_Retrieve ideal_env small_types (Ok :: string \<Rightarrow> string + string) (\<lambda>_. Ok one_blob_source)
      add_kernel packing_tools [(0, 0), (1, 0), (1, 0), (0, 0), (1, 0), (0, 0)] ''x'' ''/d'' empty_dst = Some (None, h') \<and>
    map_of (h_files h') [''d'', KernelFileName] = Some (FFile ''k'' 384) \<and>
    map_of (h_files h') [''d'', ''rootfs'', ''boot''] = None"
proof -
  let ?R = "[([], FDir 448), ([''boot'', ''vmlinuz-1''], FFile ''k'' 420), ([''boot''], FDir 493)]"
  let ?layers = "replicate 2 \<lparr>bi_Digest = ''a'', bi_MediaType = ''tar''\<rparr>"
  let ?sched = "[(0, 0), (1, 0), (1, 0), (0, 0), (1, 0), (0, 0)] :: (nat \<times> nat) list"
  have d: "[''d''] = path_elements ''/d''" "path_rooted ''/d''"
    by (simp_all add: path_elements_def path_rooted_def HasPrefix_def path_step_def)
  have "k @ [c] \<in> fst ` set (h_files empty_dst) \<Longrightarrow> k = []" for k c
    by (auto simp: empty_dst_def append_eq_Cons_conv)
  then have top: "map_of (h_files empty_dst) (k @ [c]) \<noteq> None \<Longrightarrow> k = []" for k c
    by (simp add: map_of_eq_None_iff)
  have dirs: "is_dir (h_files empty_dst) []" "is_dir (h_files empty_dst) [''d'']"
    by (simp_all add: is_dir_def empty_dst_def)
  have tree: "rooted_tree (h_files empty_dst)"
    unfolding rooted_tree_def using top dirs(1) by blast
  have none: "\<And>c r. map_of (h_files empty_dst) ([''d''] @ c # r) = None" by (simp add: empty_dst_def)
  have parts: "chooseImageParts small_types one_blob_source = Ok ((), (), ?layers)"
    by (simp add: chooseImageParts_def image_parts_def one_blob_source_def small_types_def)
  have sup: "fetched_layers small_types ?layers = ?layers"
    by (simp add: fetched_layers_def small_types_def supportedLayerTypes_def eval_nat_numeral)
  have blobs: "\<And>l. l \<in> set ?layers \<Longrightarrow> plain (bi_Digest l) \<and> is_GetBlob one_blob_source l = Ok ((\<lambda>_. ''k'') (bi_Digest l), None)"
    by (simp add: one_blob_source_def plain_def)
  have turns: "length ((\<lambda>_. ''k'') (bi_Digest (?layers ! i))) + 2 \<le> count_list (map fst ?sched) i" if "i < length ?layers" for i
    using that by (cases "i = 0") (auto simp: less_Suc_eq eval_nat_numeral)
  have lay: "layered add_kernel ((\<lambda>_. ''k'') \<circ> bi_Digest) ?layers [([], FDir (fe_mask ideal_env 448))] = (None, ?R)"
    by (simp add: add_kernel_def ideal_env_def eval_nat_numeral)
  have find: "FindLinuxKernelFiles (Glob_in (graft [''d'', ''rootfs''] ?R [])) (path_Join [''/d'', ''rootfs'']) = Ok (''/d/rootfs/boot/vmlinuz-1'', [])"
    by code_simp
  have kp: "map_of (graft [''d'', ''rootfs''] ?R []) (path_elements ''/d/rootfs/boot/vmlinuz-1'') = Some (FFile ''k'' 420)"
    by code_simp
  have tool: "lookPathOrEmpty packing_tools ''mksquashfs'' \<noteq> []" "\<And>args h. fst (cmd_Run packing_tools nm args h) = None" for nm
    by (simp_all add: packing_tools_def lookPathOrEmpty_def cmd_Run_def)
  have env: "no_fault ideal_env" by (simp add: no_fault_def ideal_env_def)
  obtain h' mode where r: "ContainersSource_Retrieve ideal_env small_types (Ok :: string \<Rightarrow> string + string) (\<lambda>_. Ok one_blob_source)
      add_kernel packing_tools ?sched ''x'' ''/d'' empty_dst = Some (None, h')"
    and m: "\<forall>k. map_of (h_files h') k =
       (if k = [''d''] @ [KernelFileName] then Some (FFile ''k'' (fe_mask ideal_env 384))
        else if k = [''d''] @ [InitrdFileName] \<and> [] \<noteq> ([] :: string) then Some (FFile [] (fe_mask ideal_env 384))
        else if k = [''d''] @ [internalRootfsFileName] then Some (FFile ''img'' mode)
        else map_of (h_files empty_dst) k)"
    using image_made [where ParseReference = "Ok :: string \<Rightarrow> string + string" and NewImageSource = "\<lambda>_. Ok one_blob_source",
        OF env tree d(2,1) dirs(2) none refl refl parts sup blobs turns lay _ refl find [folded append_Cons] kp _ packing_tools_law tool(1) tool(2)]
    by (simp split del: if_split) blast
  show ?thesis
    using r m by (simp add: ideal_env_def empty_dst_def KernelFileName_def InitrdFileName_def internalRootfsFileName_def)
qed

section \<open>Nothing is left behind\<close>

lemma Truncate_outside: "fs_Truncate env dst perm fs = Ok fs1 \<Longrightarrow> k \<noteq> dst \<Longrightarrow> map_of fs1 k = map_of fs k"
  unfolding fs_Truncate_def by (auto simp: update_conv' split: option.splits fnode.splits if_splits)

lemma write_outside: "k \<noteq> dst \<Longrightarrow> map_of (fs_write dst data fs) k = map_of fs k"
  by (auto simp: fs_write_def update_conv' split: option.split fnode.split)

lemma CopyFile_outside:
  assumes "k \<noteq> dst"
  shows "map_of (snd (CopyFileInFs env src dst perm fs)) k = map_of fs k"
proof (cases "fs_Truncate env dst perm fs")
  case (Inr fs1)
  then have "map_of fs1 k = map_of fs k" "map_of (fs_write dst data fs1) k = map_of fs k" for data
    using Truncate_outside [OF Inr assms] write_outside [OF assms] by simp_all
  then show ?thesis unfolding CopyFileInFs_def Inr by (simp split: option.split fnode.split)
qed (simp add: CopyFileInFs_def split: option.split)

lemma take_files_outside:
  assumes "mksquashfs_law pack T" "path_rooted dst"
    and "k \<noteq> path_elements dst @ [KernelFileName]" "k \<noteq> path_elements dst @ [InitrdFileName]"
      "k \<noteq> path_elements dst @ [internalRootfsFileName]"
  shows "map_of (h_files (snd (take_files env T dst rd h))) k = map_of (h_files h) k"
proof -
  note names = file_names_plain [THEN path_elements_child [OF assms(2)]]
  have pack: "map_of (h_files (snd (PackIntoSquashFsImg T rd (path_Join [dst, internalRootfsFileName]) h))) k = map_of (h_files h) k" for h
    using assms(1) [unfolded mksquashfs_law_def, THEN spec, of rd, THEN spec, of "path_Join [dst, internalRootfsFileName]", THEN spec, of h]
      assms(5) names(3)
    by (cases "cmd_Run T (lookPathOrEmpty T ''mksquashfs'') [rd, path_Join [dst, internalRootfsFileName]] h")
       (simp add: PackIntoSquashFsImg_def Let_def)
  show ?thesis
  proof (cases "FindLinuxKernelFiles (Glob_in (h_files h)) rd")
    case (Inr found)
    obtain kp ip where found: "found = (kp, ip)" by (cases found)
    obtain r1 fs1 where c1: "CopyFileInFs env (path_elements kp) (path_elements dst @ [KernelFileName]) 384 (h_files h) = (r1, fs1)" by fastforce
    obtain r2 fs2 where c2: "(if ip \<noteq> [] then CopyFileInFs env (path_elements ip) (path_elements dst @ [InitrdFileName]) 384 fs1
        else (None, fs1)) = (r2, fs2)" by fastforce
    have "map_of fs1 k = map_of (h_files h) k"
      using CopyFile_outside [OF assms(3)] c1 by (metis snd_conv)
    moreover have "map_of fs2 k = map_of fs1 k"
      using CopyFile_outside [OF assms(4)] c2 by (metis snd_conv)
    ultimately show ?thesis
      unfolding take_files_def Inr found names(1,2) using c1 c2 pack [of "h\<lparr>h_files := fs2\<rparr>"]
      by (auto split: option.split split del: if_split)
  qed (simp add: take_files_def)
qed

lemma fetch_step_outside:
  assumes "\<forall>l \<in> set layers. k \<noteq> blob_path ld l"
  shows "map_of (ft_files (fetch_step env src ld layers (i, n) s)) k = map_of (ft_files s) k"
proof (cases "i < length layers")
  case True
  then have "k \<noteq> blob_path ld (layers ! i)" using assms by simp
  moreover have "map_of fs1 k' = map_of fs k'" if "fs_OpenCreate env p 384 fs = Ok fs1" "k' \<noteq> p" for p fs fs1 k'
    using that unfolding fs_OpenCreate_def by (auto simp: update_conv' split: option.splits fnode.splits if_splits)
  ultimately show ?thesis
    by (auto simp: fetch_step_def Let_def finish_fetch_def write_outside split: phase.split sum.split prod.split option.split fnode.split)
qed (simp add: fetch_step_def)

lemma fetch_layers_outside:
  assumes "fetch_layers env mt src sched ld layers fs = Some (res, fs')" "\<forall>l \<in> set layers. k \<noteq> blob_path ld l"
  shows "map_of fs' k = map_of fs k"
proof -
  let ?ls = "fetched_layers mt layers"
  have "\<forall>l \<in> set ?ls. k \<noteq> blob_path ld l" using assms(2) by (auto simp: fetched_layers_def dest: set_takeWhileD)
  then have "map_of (ft_files (fold (fetch_step env src ld ?ls) sched s)) k = map_of (ft_files s) k" for s
  proof (induction sched arbitrary: s)
    case (Cons x sched)
    then show ?case using fetch_step_outside by (cases x) simp
  qed simp
  then show ?thesis using assms(1) by (auto simp: fetch_layers_def Let_def split: if_splits)
qed

lemma apply_layers_outside:
  "\<not> prefix (path_elements rd) k \<Longrightarrow> map_of (snd (apply_layers env ApplyLayer ld rd layers fs)) k = map_of fs k"
  by (induction layers arbitrary: fs) (auto simp: Let_def map_of_graft_outside split: option.split fnode.split prod.split)

lemma rooted_tree_mkdir:
  assumes "rooted_tree fs" "is_dir fs k" "map_of fs1 = (map_of fs)(k @ [c] \<mapsto> FDir m)"
  shows "rooted_tree fs1"
  unfolding rooted_tree_def
proof (intro allI impI)
  fix k' c' assume new: "map_of fs1 (k' @ [c']) \<noteq> None"
  have "is_dir fs k'"
  proof (cases "k' @ [c'] = k @ [c]")
    case False
    then have "map_of fs (k' @ [c']) \<noteq> None" using new assms(3) by (auto split: if_splits)
    then show ?thesis using assms(1) unfolding rooted_tree_def by blast
  qed (use assms(2) in simp)
  then show "is_dir fs1 k'" by (auto simp: is_dir_def2 assms(3))
qed

lemma CreateSubDir_effect:
  assumes "rooted_tree fs" "path_rooted p" "is_dir fs (path_elements p)" "plain c" "CreateSubDirInFs env p c perm fs = (r, fs1)"
  shows "rooted_tree fs1" "is_dir fs1 (path_elements p)"
    and "\<And>k. k \<noteq> path_elements p @ [c] \<Longrightarrow> map_of fs1 k = map_of fs k"
    and "case r of Err _ \<Rightarrow> fs1 = fs | Ok d \<Rightarrow> d = path_Join [p, c]"
proof -
  let ?k = "path_elements p @ [c]"
  have mk: "CreateSubDirInFs env p c perm fs =
      (case fs_MkdirAll env ?k perm fs of (Some e, fs1) \<Rightarrow> (Err e, fs1) | (None, fs1) \<Rightarrow> (Ok (path_Join [p, c]), fs1))"
    by (simp add: CreateSubDirInFs_def Let_def path_elements_child [OF assms(2,4)])
  have "(\<exists>e. r = Err e \<and> fs1 = fs) \<or> r = Ok (path_Join [p, c]) \<and> (fs1 = fs \<or> map_of fs ?k = None \<and> fs_Mkdir env ?k perm fs = Ok fs1)"
    using assms(5) unfolding mk MkdirAll_child [OF assms(1,3)]
    by (auto split: option.splits fnode.splits sum.splits)
  then have eff: "fs1 = fs \<or> (\<exists>m. map_of fs ?k = None \<and> map_of fs1 = (map_of fs)(?k \<mapsto> FDir m))"
    and "case r of Err _ \<Rightarrow> fs1 = fs | Ok d \<Rightarrow> d = path_Join [p, c]"
    by (auto simp: fs_Mkdir_def update_conv' split: option.splits if_splits)
  then show "case r of Err _ \<Rightarrow> fs1 = fs | Ok d \<Rightarrow> d = path_Join [p, c]" by simp
  show "rooted_tree fs1" "is_dir fs1 (path_elements p)" "\<And>k. k \<noteq> path_elements p @ [c] \<Longrightarrow> map_of fs1 k = map_of fs k"
    using eff assms(1,3) rooted_tree_mkdir [OF assms(1,3)] by (auto simp: is_dir_def2)
qed

lemma remove_all_effect:
  assumes "fe_fault env ''removeall'' (path_elements p) = None"
  shows "map_of (h_files (remove_all env p h)) k = (if prefix (path_elements p) k then None else map_of (h_files h) k)"
  using assms by (simp add: remove_all_def fs_RemoveAll_def map_of_filter_key)



end
