(* ===== verification/Machined.thy ===== *)
theory Machined
  imports CrosvmVm "HOL-Library.Sublist"
begin

text \<open>
  How a virtual machine gets its own control group (\<open>crosvm/internal/cgroup\<close>): the registration of
  a machine with systemd over D-Bus, and the process that registers itself, moves into a group
  below the machine's, enables its controllers and then becomes the machine's command. The answers
  of systemd, of the files in the cgroup file system and of the kernel are arguments.
\<close>

section \<open>Machines\<close>

text \<open>Properties are strings or something else.\<close>

record machined_env =
  sd_Connect :: "string option"
  sd_CreateMachine :: "string \<Rightarrow> string \<Rightarrow> string \<Rightarrow> 32 word \<Rightarrow> string + string"
  sd_Unit :: "string \<Rightarrow> string + string option"
  sd_ControlGroup :: "string \<Rightarrow> string + string option"
  px_Getpid :: go_int
  px_Mkdir :: "string \<Rightarrow> string option"
  px_Open :: "string \<Rightarrow> string option"
  px_Write :: "string \<Rightarrow> string option"
  px_ReadAll :: "string \<Rightarrow> string + string"
  px_LookPath :: "string \<Rightarrow> string + string"
  px_Exec :: "string option"

datatype exec_effect =
    MachineCreated string "32 word" string
  | CgroupCreated string nat
  | ProcMoved string string
  | ControllersEnabled string string
  | Execed string "string list"

definition serviceName :: string where
  "serviceName = ''oakestra''"

definition CreateMachine :: "machined_env \<Rightarrow> string \<Rightarrow> go_int \<Rightarrow> string \<Rightarrow> exec_effect list \<times> (string + string)" where
  "CreateMachine env name pid machineType =
     (case sd_CreateMachine env name serviceName machineType (ucast pid) of
        Err e \<Rightarrow> ([], Err (''failed to create machine: '' @ e))
      | Ok machinePath \<Rightarrow>
          let eff = [MachineCreated name (ucast pid) machineType] in
          (case sd_Unit env machinePath of
             Err e \<Rightarrow> (eff, Err (''failed to get machine unit name: '' @ e))
           | Ok None \<Rightarrow> (eff, Err ''got invalid machine unit name'')
           | Ok (Some unitPath) \<Rightarrow>
               let safeUnitPath = escapeObjectPath (unescapeSystemdName unitPath) in
               (case sd_ControlGroup env (''/org/freedesktop/systemd1/unit/'' @ safeUnitPath) of
                  Err e \<Rightarrow> (eff, Err (''failed to get unit cgroup: '' @ e))
                | Ok None \<Rightarrow> (eff, Err ''got invalid cgroup'')
                | Ok (Some cgroup) \<Rightarrow>
                    if cgroup = [] then (eff, Err ''got invalid cgroup'')
                    else (eff, Ok (path_Join [''/sys/fs/cgroup'', cgroup])))))"

section \<open>The process\<close>

text \<open>The end of the process: a panic, the command in its place, or a return.\<close>

datatype exec_end = Panicked string | Replaced

definition createMachineFromArgs :: "machined_env \<Rightarrow> string list \<Rightarrow> exec_effect list \<times> (string + string)" where
  "createMachineFromArgs env osArgs =
     (case sd_Connect env of
        Some e \<Rightarrow> ([], Err e)
      | None \<Rightarrow> CreateMachine env (osArgs ! 1) (px_Getpid env) (osArgs ! 2))"

text \<open>Moving the process into the group below the machine's.\<close>

definition move_process :: "machined_env \<Rightarrow> string \<Rightarrow> exec_effect list \<times> string option" where
  "move_process env cgroupPath =
     (let subCgroupPath = path_Join [cgroupPath, ''instance'']; pid = Itoa (sint (px_Getpid env)) @ [CHR 0x0A] in
      case px_Mkdir env subCgroupPath of
        Some e \<Rightarrow> ([], Some e)
      | None \<Rightarrow>
          let eff = [CgroupCreated subCgroupPath 493]; subCgroupProcsPath = path_Join [subCgroupPath, ''cgroup.procs''] in
          (case px_Open env subCgroupProcsPath of
             Some e \<Rightarrow> (eff, Some e)
           | None \<Rightarrow>
               (case px_Write env subCgroupProcsPath of
                  Some e \<Rightarrow> (eff, Some e)
                | None \<Rightarrow> (eff @ [ProcMoved subCgroupProcsPath pid], None))))"

text \<open>Enabling the machine's controllers for the groups below it.\<close>

definition enable_controllers :: "machined_env \<Rightarrow> string \<Rightarrow> exec_effect list \<times> string option" where
  "enable_controllers env cgroupPath =
     (let controllersPath = path_Join [cgroupPath, ''cgroup.controllers''] in
      case px_Open env controllersPath of
        Some e \<Rightarrow> ([], Some e)
      | None \<Rightarrow>
          (case px_ReadAll env controllersPath of
             Err e \<Rightarrow> ([], Some e)
           | Ok controllers \<Rightarrow>
               let controlPath = path_Join [cgroupPath, ''cgroup.subtree_control''] in
               (case px_Open env controlPath of
                  Some e \<Rightarrow> ([], Some e)
                | None \<Rightarrow>
                    (case px_Write env controlPath of
                       Some e \<Rightarrow> ([], Some e)
                     | None \<Rightarrow> ([ControllersEnabled controlPath (convertControllersToSubtreeControlCommand controllers)], None)))))"

definition exec_command :: "machined_env \<Rightarrow> string list \<Rightarrow> exec_effect list \<times> exec_end" where
  "exec_command env osArgs =
     (case px_LookPath env (osArgs ! 3) of
        Err e \<Rightarrow> ([], Panicked e)
      | Ok execBin \<Rightarrow>
          (case px_Exec env of
             Some e \<Rightarrow> ([], Panicked e)
           | None \<Rightarrow> ([Execed execBin (drop 3 osArgs)], Replaced)))"

definition machinedExec :: "machined_env \<Rightarrow> string list \<Rightarrow> exec_effect list \<times> exec_end" where
  "machinedExec env osArgs =
     (if length osArgs < 4 then ([], Panicked ''expected at least 4 arguments'')
      else
        (case createMachineFromArgs env osArgs of
           (eff, Err e) \<Rightarrow> (eff, Panicked e)
         | (eff, Ok cgroupPath) \<Rightarrow>
             (case move_process env cgroupPath of
                (eff2, Some e) \<Rightarrow> (eff @ eff2, Panicked e)
              | (eff2, None) \<Rightarrow>
                  (case enable_controllers env cgroupPath of
                     (eff3, Some e) \<Rightarrow> (eff @ eff2 @ eff3, Panicked e)
                   | (eff3, None) \<Rightarrow>
                       (case exec_command env osArgs of (eff4, result) \<Rightarrow> (eff @ eff2 @ eff3 @ eff4, result))))))"

section \<open>The command runs in its group\<close>

text \<open>The effects of a run in which nothing fails, in order.\<close>

definition all_effects :: "machined_env \<Rightarrow> string list \<Rightarrow> string \<Rightarrow> string \<Rightarrow> string \<Rightarrow> exec_effect list" where
  "all_effects env osArgs cgroupPath controllers execBin =
     (let sub = path_Join [cgroupPath, ''instance''] in
      [MachineCreated (osArgs ! 1) (ucast (px_Getpid env)) (osArgs ! 2),
       CgroupCreated sub 493,
       ProcMoved (path_Join [sub, ''cgroup.procs'']) (Itoa (sint (px_Getpid env)) @ [CHR 0x0A]),
       ControllersEnabled (path_Join [cgroupPath, ''cgroup.subtree_control'']) (convertControllersToSubtreeControlCommand controllers),
       Execed execBin (drop 3 osArgs)])"

lemma CreateMachine_effects:
  assumes "createMachineFromArgs env osArgs = (eff, r)"
  shows "eff = [] \<or> eff = [MachineCreated (osArgs ! 1) (ucast (px_Getpid env)) (osArgs ! 2)]"
    and "r = Ok p \<Longrightarrow> eff = [MachineCreated (osArgs ! 1) (ucast (px_Getpid env)) (osArgs ! 2)]"
  using assms
  by (auto simp: createMachineFromArgs_def CreateMachine_def Let_def split: option.splits sum.splits if_splits)

lemma move_process_effects:
  assumes "move_process env p = (eff, r)"
  shows "\<exists>n. eff = take n [CgroupCreated (path_Join [p, ''instance'']) 493,
      ProcMoved (path_Join [path_Join [p, ''instance''], ''cgroup.procs'']) (Itoa (sint (px_Getpid env)) @ [CHR 0x0A])]"
    and "r = None \<Longrightarrow> eff = [CgroupCreated (path_Join [p, ''instance'']) 493,
      ProcMoved (path_Join [path_Join [p, ''instance''], ''cgroup.procs'']) (Itoa (sint (px_Getpid env)) @ [CHR 0x0A])]"
proof -
  let ?all = "[CgroupCreated (path_Join [p, ''instance'']) 493,
      ProcMoved (path_Join [path_Join [p, ''instance''], ''cgroup.procs'']) (Itoa (sint (px_Getpid env)) @ [CHR 0x0A])]"
  have "eff = take 0 ?all \<and> r \<noteq> None \<or> eff = take 1 ?all \<and> r \<noteq> None \<or> eff = take 2 ?all"
    using assms by (auto simp: move_process_def Let_def split: option.splits dest!: sym [of "Some _"])
  then show "\<exists>n. eff = take n ?all" "r = None \<Longrightarrow> eff = ?all" by (blast, auto)
qed

lemma enable_controllers_effects:
  assumes "enable_controllers env p = (eff, r)"
  shows "eff = [] \<and> r \<noteq> None \<or> r = None \<and>
    (\<exists>controllers. px_ReadAll env (path_Join [p, ''cgroup.controllers'']) = Ok controllers \<and>
      eff = [ControllersEnabled (path_Join [p, ''cgroup.subtree_control'']) (convertControllersToSubtreeControlCommand controllers)])"
  using assms by (auto simp: enable_controllers_def Let_def split: option.splits sum.splits dest!: sym [of "Some _"])


text \<open>Without a failure, the whole sequence.\<close>

lemma machinedExec_ok:
  assumes "sd_Connect env = None" "sd_CreateMachine env name serviceName typ (ucast (px_Getpid env)) = Ok path"
    and "sd_Unit env path = Ok (Some unit)"
    and "sd_ControlGroup env (''/org/freedesktop/systemd1/unit/'' @ escapeObjectPath (unescapeSystemdName unit)) = Ok (Some cgroup)"
    and "cgroup \<noteq> []" "\<And>p. px_Mkdir env p = None" "\<And>p. px_Open env p = None" "\<And>p. px_Write env p = None"
    and "\<And>p. px_ReadAll env p = Ok controllers" "px_LookPath env c = Ok bin" "px_Exec env = None"
    and "osArgs = MachinedExecCommand name typ (c # args)"
  shows "machinedExec env osArgs = (all_effects env osArgs (path_Join [''/sys/fs/cgroup'', cgroup]) controllers bin, Replaced)"
  using assms
  by (simp add: machinedExec_def MachinedExecCommand_def createMachineFromArgs_def CreateMachine_def move_process_def
      enable_controllers_def exec_command_def all_effects_def Let_def)

lemma machine_cgroup:
  assumes "CHR ''/'' \<notin> set name"
  shows "path_Join [path_Join [''/sys/fs/cgroup'', ''/machine.slice/machine-'' @ name @ ''.scope''], ''instance'']
    = GetMachineCgroupPath name"
proof -
  let ?d = "''machine-'' @ name @ ''.scope''"
  have d: "plain ?d" "plain ''instance''" using assms by (simp_all add: plain_def)
  have els: "path_elements ''/sys/fs/cgroup//machine.slice'' = [''sys'', ''fs'', ''cgroup'', ''machine.slice'']"
    "path_elements ''/sys/fs/cgroup/machine.slice/'' = [''sys'', ''fs'', ''cgroup'', ''machine.slice'']"
    by (simp_all add: path_elements_def path_rooted_def HasPrefix_def path_step_def)
  let ?p = "''/sys/fs/cgroup//machine.slice'' @ ''/'' @ ?d"
  have p: "path_elements ?p = [''sys'', ''fs'', ''cgroup'', ''machine.slice''] @ [?d]" "path_rooted ?p"
    using path_elements_append_plain [OF _ d(1), of "''/sys/fs/cgroup//machine.slice''"] els(1) by simp_all
  have j: "path_Join [''/sys/fs/cgroup'', ''/machine.slice/machine-'' @ name @ ''.scope''] = Clean ?p"
    by (simp add: path_Join_def Let_def)
  have "path_Join [Clean ?p, ''instance''] = ''/'' @ Join ([''sys'', ''fs'', ''cgroup'', ''machine.slice''] @ [?d] @ [''instance'']) ''/''"
    using path_Join_rooted_plain [of "Clean ?p" "''instance''"] p d(2) by (simp add: path_elements_Clean_rooted)
  moreover have "GetMachineCgroupPath name = ''/'' @ Join ([''sys'', ''fs'', ''cgroup'', ''machine.slice''] @ [?d] @ [''instance'']) ''/''"
  proof -
    let ?q = "''/sys/fs/cgroup/machine.slice/'' @ ''/'' @ ?d"
    have q: "path_elements (?q @ ''/'' @ ''instance'') = [''sys'', ''fs'', ''cgroup'', ''machine.slice''] @ [?d] @ [''instance'']"
      using path_elements_append_plain [OF _ d(1), of "''/sys/fs/cgroup/machine.slice/''"]
        path_elements_append_plain [OF _ d(2), of ?q] els(2) by simp
    have "GetMachineCgroupPath name = Clean (?q @ ''/'' @ ''instance'')"
      by (simp add: GetMachineCgroupPath_def path_Join_def Let_def)
    also have "\<dots> = ''/'' @ Join (path_elements (?q @ ''/'' @ ''instance'')) ''/''"
      by (rule Clean_elements) simp
    finally show ?thesis unfolding q .
  qed
  ultimately show ?thesis by (simp only: j)
qed

text \<open>
  A machine that is started as an instance starts it, and for which systemd answers with the scope
  of its name, runs the instance's command with all its arguments, in exactly the control group
  whose files the instance's statistics are read from.
\<close>

theorem machine_in_its_group:
  assumes "sd_Connect env = None" "sd_CreateMachine env name serviceName typ (ucast (px_Getpid env)) = Ok path"
    and "sd_Unit env path = Ok (Some unit)"
    and "sd_ControlGroup env (''/org/freedesktop/systemd1/unit/'' @ escapeObjectPath (unescapeSystemdName unit))
      = Ok (Some (''/machine.slice/machine-'' @ name @ ''.scope''))"
    and "CHR ''/'' \<notin> set name" "\<And>p. px_Mkdir env p = None" "\<And>p. px_Open env p = None" "\<And>p. px_Write env p = None"
    and "\<And>p. px_ReadAll env p = Ok controllers" "px_LookPath env c = Ok bin" "px_Exec env = None"
  shows "case machinedExec env (MachinedExecCommand name typ (c # args)) of (effs, result) \<Rightarrow>
    result = Replaced \<and> last effs = Execed bin (c # args) \<and>
    CgroupCreated (GetMachineCgroupPath name) 493 \<in> set effs \<and>
    ProcMoved (path_Join [GetMachineCgroupPath name, ''cgroup.procs'']) (Itoa (sint (px_Getpid env)) @ [CHR 0x0A]) \<in> set effs"
proof -
  define os where "os = MachinedExecCommand name typ (c # args)"
  have ne: "''/machine.slice/machine-'' @ name @ ''.scope'' \<noteq> []" by simp
  note ok = machinedExec_ok [OF assms(1-4) ne assms(6-11) os_def]
  have "drop 3 os = c # args" by (simp add: os_def MachinedExecCommand_def)
  then show ?thesis
    unfolding os_def [symmetric] ok all_effects_def Let_def machine_cgroup [OF assms(5)] by simp
qed

definition answering_systemd :: machined_env where
  "answering_systemd =
     \<lparr>sd_Connect = None, sd_CreateMachine = (\<lambda>_ _ _ _. Ok ''/m''), sd_Unit = (\<lambda>_. Ok (Some ''machine-a.scope'')),
      sd_ControlGroup = (\<lambda>_. Ok (Some (''/machine.slice/machine-'' @ ''a'' @ ''.scope''))), px_Getpid = 7, px_Mkdir = (\<lambda>_. None),
      px_Open = (\<lambda>_. None), px_Write = (\<lambda>_. None), px_ReadAll = (\<lambda>_. Ok ''cpu memory''),
      px_LookPath = (\<lambda>_. Ok ''/bin/crosvm''), px_Exec = None\<rparr>"

theorem machine_in_its_group_witness:
  "snd (machinedExec answering_systemd (MachinedExecCommand ''a'' ''vm'' [''crosvm'', ''run''])) = Replaced \<and>
   last (fst (machinedExec answering_systemd (MachinedExecCommand ''a'' ''vm'' [''crosvm'', ''run''])))
     = Execed ''/bin/crosvm'' [''crosvm'', ''run'']"
proof -
  let ?e = answering_systemd
  have h: "sd_Connect ?e = None" "sd_CreateMachine ?e ''a'' serviceName ''vm'' (ucast (px_Getpid ?e)) = Ok ''/m''"
    "sd_Unit ?e ''/m'' = Ok (Some ''machine-a.scope'')"
    "sd_ControlGroup ?e (''/org/freedesktop/systemd1/unit/'' @ escapeObjectPath (unescapeSystemdName ''machine-a.scope''))
      = Ok (Some (''/machine.slice/machine-'' @ ''a'' @ ''.scope''))"
    "CHR ''/'' \<notin> set ''a''" "\<And>p. px_Mkdir ?e p = None" "\<And>p. px_Open ?e p = None" "\<And>p. px_Write ?e p = None"
    "\<And>p. px_ReadAll ?e p = Ok ''cpu memory''" "px_LookPath ?e ''crosvm'' = Ok ''/bin/crosvm''" "px_Exec ?e = None"
    by (simp_all add: answering_systemd_def)
  show ?thesis
    using machine_in_its_group [OF h, of "[''run'']"] by (simp split: prod.splits)
qed

end
