(* ===== verification/Commands.thy ===== *)
theory Commands
  imports Config "HOL-Library.Sublist"
begin

text \<open>
  The command line of the node engine (\<open>cmd\<close>): the tree of commands, what each of them does with
  the configuration, the service and its log, and what a session of commands leaves.

  The library \<open>cobra\<close>, which finds the command, parses its flags and checks the number of its
  arguments, is an argument. The messages that confirm a change of the CSI drivers are left out.
\<close>

section \<open>The tree of commands\<close>

datatype command =
    RootCmd | LogsCmd | StatusCmd | StopCmd | VersionCmd
  | ConfigCmd | DefaultConfigCmd | AddClusterCmd | LogsConfCommand
  | SetVirtualizationCmd | EnableUnikernel | EnableCrosvm
  | SetAddonCmd | EnableBuilder | EnableFlops
  | SetCni | ExplainNetManager | EnableNetwork | EnableManualNetwork | DisableNetwork
  | VisibilityCmd | PublicIP | PrivateIP | PredefinedPublicIP
  | SetCsiCmd | AddCsiDriverCmd | RemoveCsiDriverCmd
  | SetAuth

fun subcommands :: "command \<Rightarrow> command list" where
  "subcommands RootCmd = [ConfigCmd, LogsCmd, StatusCmd, StopCmd, VersionCmd]"
| "subcommands ConfigCmd =
     [AddClusterCmd, LogsConfCommand, SetVirtualizationCmd, DefaultConfigCmd, SetCni, VisibilityCmd,
      SetAuth, SetAddonCmd, SetCsiCmd]"
| "subcommands SetVirtualizationCmd = [EnableUnikernel, EnableCrosvm]"
| "subcommands SetCni = [ExplainNetManager, EnableNetwork, DisableNetwork, EnableManualNetwork]"
| "subcommands VisibilityCmd = [PublicIP, PrivateIP, PredefinedPublicIP]"
| "subcommands SetAddonCmd = [EnableBuilder, EnableFlops]"
| "subcommands SetCsiCmd = [AddCsiDriverCmd, RemoveCsiDriverCmd]"
| "subcommands _ = []"

text \<open>The variables of the flags, with their defaults, and the commands that declare them.\<close>

record cli_flags =
  fl_clusterAddress :: string
  fl_clusterPort :: go_int
  fl_clusterSSL :: bool
  fl_detatched :: bool
  fl_certFile :: string
  fl_keyFile :: string

definition default_flags :: cli_flags where
  "default_flags = \<lparr>fl_clusterAddress = [], fl_clusterPort = 10100, fl_clusterSSL = False,
     fl_detatched = False, fl_certFile = [], fl_keyFile = []\<rparr>"

fun declared_flags :: "command \<Rightarrow> cli_flags \<Rightarrow> cli_flags" where
  "declared_flags RootCmd fl =
     default_flags\<lparr>fl_clusterAddress := fl_clusterAddress fl, fl_clusterPort := fl_clusterPort fl,
       fl_detatched := fl_detatched fl\<rparr>"
| "declared_flags AddClusterCmd fl =
     default_flags\<lparr>fl_clusterPort := fl_clusterPort fl, fl_clusterSSL := fl_clusterSSL fl\<rparr>"
| "declared_flags SetAuth fl =
     default_flags\<lparr>fl_certFile := fl_certFile fl, fl_keyFile := fl_keyFile fl\<rparr>"
| "declared_flags _ fl = default_flags"

text \<open>The commands whose \<open>Args\<close> is \<open>ExactArgs n\<close>; the others leave the check to \<open>cobra\<close>'s default.\<close>

fun command_Args :: "command \<Rightarrow> nat option" where
  "command_Args AddClusterCmd = Some 1"
| "command_Args LogsConfCommand = Some 1"
| "command_Args PredefinedPublicIP = Some 1"
| "command_Args AddCsiDriverCmd = Some 2"
| "command_Args RemoveCsiDriverCmd = Some 1"
| "command_Args _ = None"

section \<open>Programs, the log and the console\<close>

record prog_result =
  pr_stdout :: string
  pr_stderr :: string
  pr_err :: "string option"

text \<open>
  One pass of the loop that follows the log: whether seeking fails, the contents of the file at
  that moment, and the error of reading. The passes end when the process gets its signal.
\<close>

datatype read_error = EOF | ReadError string

record log_pass =
  lp_Seek :: "string option"
  lp_content :: string
  lp_Read :: "read_error option"

record log_file =
  lf_Stat :: "string + nat"
  lf_passes :: "log_pass list"

record cli_env =
  ev_stat :: bool
  ev_read :: conf_env
  ev_write :: conf_env
  ev_run :: "string list \<Rightarrow> prog_result"
  ev_log :: "string + log_file"

record cli_world =
  cw_conf :: conf_data
  cw_out :: string
  cw_calls :: "string list list"

datatype cli_end =
    Returned "string option"
  | Exited
  | Fatal
  | IndexPanic

type_synonym action = "cli_env \<Rightarrow> cli_world \<Rightarrow> cli_end \<times> cli_world"

definition LF :: string where "LF = [CHR 0x0A]"

definition print_out :: "string \<Rightarrow> cli_world \<Rightarrow> cli_world" where
  "print_out s w = w\<lparr>cw_out := cw_out w @ s\<rparr>"

definition Println :: "string \<Rightarrow> cli_world \<Rightarrow> cli_world" where
  "Println s = print_out (s @ LF)"

definition exec_Command :: "cli_env \<Rightarrow> string list \<Rightarrow> cli_world \<Rightarrow> prog_result \<times> cli_world" where
  "exec_Command env args w = (ev_run env args, w\<lparr>cw_calls := cw_calls w @ [args]\<rparr>)"

text \<open>A command that only changes the configuration.\<close>

definition conf_action :: "conf_cmd \<Rightarrow> action" where
  "conf_action c env w =
     (case c (ev_read env) (ev_write env) (cw_conf w) of
        (err, data) \<Rightarrow> (Returned err, w\<lparr>cw_conf := data\<rparr>))"

text \<open>A command that reads the configuration and goes on with it.\<close>

definition reading :: "(ConfFile \<Rightarrow> action) \<Rightarrow> action" where
  "reading k env w =
     (case conf_Read (ev_read env) (cw_conf w) of
        ((_, Some e), data) \<Rightarrow> (Returned (Some e), w\<lparr>cw_conf := data\<rparr>)
      | ((conf, None), data) \<Rightarrow> k conf env (w\<lparr>cw_conf := data\<rparr>))"

section \<open>Commands that show\<close>

definition status_mark :: "bool \<Rightarrow> string" where
  "status_mark active =
     (if active then [CHR 0xF0, CHR 0x9F, CHR 0x9F, CHR 0xA2] @ '' Active''
      else [CHR 0xE2, CHR 0x9D, CHR 0x8C] @ '' Disabled'')"

definition entry_line :: "string \<Rightarrow> bool \<Rightarrow> string" where
  "entry_line name active = [CHR 0x09] @ '' - '' @ name @ '': '' @ status_mark active"

definition virtualization_lines :: "Virtualization list \<Rightarrow> string list" where
  "virtualization_lines vs =
     ''Virtualization Runtimes:'' # map (\<lambda>virt. entry_line (vt_Name virt) (vt_Active virt)) vs @
     (if vs = [] then [''No Virtualization Runtime Configured.''] else [])"

definition addon_lines :: "Addon list \<Rightarrow> string list" where
  "addon_lines as =
     ''Configured Addons:'' # map (\<lambda>add. entry_line (ad_Name add) (ad_Active add)) as @
     (if as = [] then [''No Addons Configured.''] else [])"

definition csi_lines :: "CSIDriverType list \<Rightarrow> string list" where
  "csi_lines ds =
     ''Registered CSI Drivers:'' #
     (if ds = [] then [''  No CSI drivers configured.'']
      else concat (map (\<lambda>d. [''  - '' @ cd_Name d, ''      endpoint: '' @ cd_Endpoint d]) ds))"

definition show_lines :: "(ConfFile \<Rightarrow> string list) \<Rightarrow> action" where
  "show_lines f = reading (\<lambda>conf env w. (Returned None, foldl (\<lambda>w line. Println line w) w (f conf)))"

definition showVirtualization :: action where
  "showVirtualization = show_lines (\<lambda>conf. virtualization_lines (cf_Virtualizations conf))"

definition showAddons :: action where
  "showAddons = show_lines (\<lambda>conf. addon_lines (cf_Addons conf))"

definition showCsiDrivers :: action where
  "showCsiDrivers = show_lines (\<lambda>conf. csi_lines (cf_CSIDrivers conf))"

section \<open>The service and its log\<close>

definition execCommandWithOutput :: "string list \<Rightarrow> cli_env \<Rightarrow> cli_world \<Rightarrow> cli_world" where
  "execCommandWithOutput args env w =
     (let (r, w) = exec_Command env args w;
          w = (if pr_stderr r \<noteq> [] then Println (pr_stderr r) w else w)
      in Println (pr_stdout r) w)"

definition statusNodeEngine :: action where
  "statusNodeEngine = reading (\<lambda>confFile env w.
     let w = execCommandWithOutput [''systemctl'', ''status'', ''nodeengine'', ''--no-pager''] env w;
         w = (if cf_OverlayNetwork confFile = AutoOakNetwork
              then execCommandWithOutput [''NetManager'', ''status''] env w else w)
     in (Returned None, w))"

text \<open>Both services are stopped, whatever the first program answers; failures are only logged.\<close>

definition stopNodeEngine :: "cli_env \<Rightarrow> cli_world \<Rightarrow> cli_world" where
  "stopNodeEngine env w =
     (let (r, w) = exec_Command env [''systemctl'', ''stop'', ''nodeengine'', ''--no-pager''] w;
          w = (if pr_stderr r \<noteq> [] then Println (pr_stderr r) w else w);
          w = Println (pr_stdout r) w
      in snd (exec_Command env [''systemctl'', ''stop'', ''netmanager'', ''--no-pager''] w))"

text \<open>
  The loop that follows the log from an offset: what it prints, and how it ends, with an error or
  with the signal that comes after the last pass.
\<close>

primrec follow_log :: "nat \<Rightarrow> log_pass list \<Rightarrow> string \<times> cli_end" where
  "follow_log offset [] = ([], Exited)"
| "follow_log offset (p # ps) =
     (case lp_Seek p of
        Some e \<Rightarrow> ([], Returned (Some e))
      | None \<Rightarrow>
          (case lp_Read p of
             Some (ReadError e) \<Rightarrow> ([], Returned (Some e))
           | _ \<Rightarrow>
               let data = drop offset (lp_content p);
                   (out, r) = follow_log (offset + length data) ps
               in (data @ out, r)))"

definition log_error :: string where
  "log_error = ''Error opening log file, is the NodeEngine running? Use 'NodeEngine status' to check.''"

text \<open>
  The two commands that follow the log differ in what the signal does: \<open>logs\<close> only ends, while the
  process that started the engine stops it. What the loop still prints meanwhile is left out.
\<close>

definition open_log :: "(cli_env \<Rightarrow> cli_world \<Rightarrow> cli_world) \<Rightarrow> action" where
  "open_log on_signal env w =
     (case ev_log env of
        Err e \<Rightarrow> (Returned (Some e), Println log_error w)
      | Ok logFile \<Rightarrow>
          (case lf_Stat logFile of
             Err e \<Rightarrow> (Returned (Some e), w)
           | Ok offset \<Rightarrow>
               (case follow_log offset (lf_passes logFile) of
                  (out, Exited) \<Rightarrow> (Exited, on_signal env (print_out out w))
                | (out, r) \<Rightarrow> (r, print_out out w))))"

definition logsNodeEngine :: action where
  "logsNodeEngine = open_log (\<lambda>env w. Println (LF @ ''Detatching...'') w)"

definition attach :: action where
  "attach = open_log (\<lambda>env w. stopNodeEngine env (Println (LF @ ''Exiting...'') w))"

text \<open>\<open>NodeEngine\<close> itself: the settings of the flags, the start of the service, and its log.\<close>

definition start_engine :: "cli_flags \<Rightarrow> action" where
  "start_engine fl env w =
     (case nodeEngineDaemonManager (ev_stat env) (fl_clusterAddress fl) (fl_clusterPort fl)
             (fl_clusterSSL fl) (fl_certFile fl) (fl_keyFile fl) (ev_read env) (ev_write env) (cw_conf w) of
        (Some e, data) \<Rightarrow> (Returned (Some e), w\<lparr>cw_conf := data\<rparr>)
      | (None, data) \<Rightarrow>
          let (r, w) = exec_Command env [''systemctl'', ''start'', ''nodeengine''] (w\<lparr>cw_conf := data\<rparr>)
          in case pr_err r of
               Some e \<Rightarrow> (Returned (Some e), w)
             | None \<Rightarrow>
                 let w = Println (''NodeEngine started  '' @ [CHR 0xF0, CHR 0x9F, CHR 0x9F, CHR 0xA2]) w
                 in if fl_detatched fl then (Returned None, w) else attach env w)"

section \<open>What the commands run\<close>

text \<open>\<open>args[0]\<close> panics when there is no argument.\<close>

definition with_arg0 :: "(string \<Rightarrow> action) \<Rightarrow> string list \<Rightarrow> action" where
  "with_arg0 k args = (case args of [] \<Rightarrow> (\<lambda>env w. (IndexPanic, w)) | a # _ \<Rightarrow> k a)"

definition with_arg1 :: "(string \<Rightarrow> string \<Rightarrow> action) \<Rightarrow> string list \<Rightarrow> action" where
  "with_arg1 k args = (case args of a # b # _ \<Rightarrow> k a b | _ \<Rightarrow> (\<lambda>env w. (IndexPanic, w)))"

definition one_arg :: "string \<Rightarrow> (string \<Rightarrow> action) \<Rightarrow> string list \<Rightarrow> action" where
  "one_arg msg k args =
     (if length args \<noteq> 1 then (\<lambda>env w. (Returned (Some msg), w)) else with_arg0 k args)"

definition default_RunE :: action where
  "default_RunE = conf_action (\<lambda>er ew data. defaultConfig ew data)"

definition cluster_RunE :: "cli_flags \<Rightarrow> string list \<Rightarrow> action" where
  "cluster_RunE fl = one_arg ''cluster command needs exactly one parameter: [url]''
     (\<lambda>a. conf_action (configCluster (fl_clusterPort fl) (fl_clusterSSL fl) a))"

definition applogs_RunE :: "string list \<Rightarrow> action" where
  "applogs_RunE = one_arg ''applogs command needs exactly one parameter: [path]''
     (\<lambda>a. conf_action (configLogs a))"

definition unikernel_RunE :: "string list \<Rightarrow> action" where
  "unikernel_RunE = one_arg ''unikernel command needs exactly one parameter: [on/off]''
     (\<lambda>a. conf_action (setUnikernel a))"

definition crosvm_RunE :: "string list \<Rightarrow> action" where
  "crosvm_RunE = one_arg ''crosvm command needs exactly one parameter: [on/off]''
     (\<lambda>a. conf_action (setCrosvm a))"

text \<open>The output of \<open>dpkg\<close>, as \<open>cmd.Output\<close> returns it.\<close>

definition dpkg_Output :: "cli_env \<Rightarrow> string + string" where
  "dpkg_Output env =
     (let r = ev_run env [''dpkg'', ''-s'', ''qemu-user-static'']
      in case pr_err r of Some e \<Rightarrow> Err e | None \<Rightarrow> Ok (pr_stdout r))"

definition builder_action :: "string \<Rightarrow> action" where
  "builder_action trigger env w =
     (let (_, w) = exec_Command env [''dpkg'', ''-s'', ''qemu-user-static''] w
      in case setBuilder (dpkg_Output env) trigger (ev_read env) (ev_write env) (cw_conf w) of
           None \<Rightarrow> (Fatal, w)
         | Some (err, data) \<Rightarrow> (Returned err, w\<lparr>cw_conf := data\<rparr>))"

definition builder_RunE :: "string list \<Rightarrow> action" where
  "builder_RunE = one_arg ''imageBuilder needs exactly one parameter: [on/off]'' builder_action"

definition flops_RunE :: "string list \<Rightarrow> action" where
  "flops_RunE = one_arg ''FLOps needs exactly one parameter: [on/off]'' (\<lambda>a. conf_action (setFLOps a))"

definition manual_RunE :: "string list \<Rightarrow> action" where
  "manual_RunE args = conf_action (enableManualNetwork args)"

definition public_RunE :: action where
  "public_RunE = conf_action (setPublicIp PublicIPAuto)"

definition private_RunE :: action where
  "private_RunE = conf_action (setPublicIp PublicIPFalse)"

definition predefined_RunE :: "string list \<Rightarrow> action" where
  "predefined_RunE = with_arg0 (\<lambda>a. conf_action (setPublicIp (ParsePublicIPMode a)))"

definition csi_add_RunE :: "string list \<Rightarrow> action" where
  "csi_add_RunE = with_arg1 (\<lambda>name endpoint. conf_action (addCsiDriver name endpoint))"

definition csi_remove_RunE :: "string list \<Rightarrow> action" where
  "csi_remove_RunE = with_arg0 (\<lambda>name. conf_action (removeCsiDriver name))"

definition auth_RunE :: "cli_flags \<Rightarrow> action" where
  "auth_RunE fl = conf_action (setMqttAuth (fl_certFile fl) (fl_keyFile fl))"

definition cmd_Version :: string where "cmd_Version = ''None''"

definition versionCmd :: action where
  "versionCmd env w = (Returned None, Println cmd_Version w)"

definition stopCmd :: action where
  "stopCmd env w = (Returned None, stopNodeEngine env w)"

text \<open>The function of a command; \<open>None\<close> for one that only groups others.\<close>

fun RunE :: "command \<Rightarrow> cli_flags \<Rightarrow> string list \<Rightarrow> action option" where
  "RunE RootCmd fl args = Some (start_engine fl)"
| "RunE LogsCmd fl args = Some logsNodeEngine"
| "RunE StatusCmd fl args = Some statusNodeEngine"
| "RunE StopCmd fl args = Some stopCmd"
| "RunE VersionCmd fl args = Some versionCmd"
| "RunE ConfigCmd fl args = None"
| "RunE DefaultConfigCmd fl args = Some default_RunE"
| "RunE AddClusterCmd fl args = Some (cluster_RunE fl args)"
| "RunE LogsConfCommand fl args = Some (applogs_RunE args)"
| "RunE SetVirtualizationCmd fl args = Some showVirtualization"
| "RunE EnableUnikernel fl args = Some (unikernel_RunE args)"
| "RunE EnableCrosvm fl args = Some (crosvm_RunE args)"
| "RunE SetAddonCmd fl args = Some showAddons"
| "RunE EnableBuilder fl args = Some (builder_RunE args)"
| "RunE EnableFlops fl args = Some (flops_RunE args)"
| "RunE SetCni fl args = None"
| "RunE ExplainNetManager fl args = None"
| "RunE EnableNetwork fl args = Some (conf_action enableNetwork)"
| "RunE EnableManualNetwork fl args = Some (manual_RunE args)"
| "RunE DisableNetwork fl args = Some (conf_action disableNetwork)"
| "RunE VisibilityCmd fl args = None"
| "RunE PublicIP fl args = Some public_RunE"
| "RunE PrivateIP fl args = Some private_RunE"
| "RunE PredefinedPublicIP fl args = Some (predefined_RunE args)"
| "RunE SetCsiCmd fl args = Some showCsiDrivers"
| "RunE AddCsiDriverCmd fl args = Some (csi_add_RunE args)"
| "RunE RemoveCsiDriverCmd fl args = Some (csi_remove_RunE args)"
| "RunE SetAuth fl args = Some (auth_RunE fl)"

text \<open>
  \<open>cobra\<close>: how a command line is resolved, with the values of the flags, the check of a number of
  arguments and the default check, and the help of a command that runs nothing.
\<close>

record cobra =
  cb_Find :: "string list \<Rightarrow> string + command \<times> cli_flags \<times> string list"
  cb_ExactArgs :: "nat \<Rightarrow> string list \<Rightarrow> string option"
  cb_defaultArgs :: "command \<Rightarrow> string list \<Rightarrow> string option"
  cb_help :: "command \<Rightarrow> string"

definition ValidateArgs :: "cobra \<Rightarrow> command \<Rightarrow> string list \<Rightarrow> string option" where
  "ValidateArgs cb cmd args =
     (case command_Args cmd of Some n \<Rightarrow> cb_ExactArgs cb n args | None \<Rightarrow> cb_defaultArgs cb cmd args)"

definition Execute :: "cobra \<Rightarrow> string list \<Rightarrow> action" where
  "Execute cb line env w =
     (case cb_Find cb line of
        Err e \<Rightarrow> (Returned (Some e), w)
      | Ok (cmd, fl, args) \<Rightarrow>
          (case RunE cmd (declared_flags cmd fl) args of
             None \<Rightarrow> (Returned None, print_out (cb_help cb cmd) w)
           | Some run \<Rightarrow>
               (case ValidateArgs cb cmd args of
                  Some e \<Rightarrow> (Returned (Some e), w)
                | None \<Rightarrow> run env w)))"

text \<open>A session: command lines one after the other, each in its own process.\<close>

primrec run_session :: "cobra \<Rightarrow> (cli_env \<times> string list) list \<Rightarrow> cli_world \<Rightarrow> cli_world" where
  "run_session cb [] w = w"
| "run_session cb (x # xs) w = run_session cb xs (snd (Execute cb (snd x) (fst x) w))"

section \<open>No command line panics\<close>

lemmas action_defs = default_RunE_def cluster_RunE_def applogs_RunE_def unikernel_RunE_def crosvm_RunE_def
  builder_RunE_def flops_RunE_def manual_RunE_def public_RunE_def private_RunE_def predefined_RunE_def
  csi_add_RunE_def csi_remove_RunE_def auth_RunE_def versionCmd_def stopCmd_def
  showVirtualization_def showAddons_def showCsiDrivers_def statusNodeEngine_def

lemma conf_action_end [simp]: "fst (conf_action c env w) \<noteq> IndexPanic"
  by (simp add: conf_action_def split: prod.split)

lemma reading_end:
  assumes "\<And>conf w. fst (k conf env w) \<noteq> IndexPanic"
  shows "fst (reading k env w) \<noteq> IndexPanic"
  using assms by (auto simp: reading_def split: prod.split option.split)

lemma show_lines_end [simp]: "fst (show_lines f env w) \<noteq> IndexPanic"
  unfolding show_lines_def by (rule reading_end) simp

lemma builder_end [simp]: "fst (builder_action a env w) \<noteq> IndexPanic"
  by (auto simp: builder_action_def exec_Command_def Let_def split: option.split)

lemma follow_log_end: "snd (follow_log n ps) = Exited \<or> (\<exists>e. snd (follow_log n ps) = Returned (Some e))"
  by (induction ps arbitrary: n) (auto simp: Let_def split_beta split: option.split read_error.split)

lemma open_log_end [simp]: "fst (open_log f env w) \<noteq> IndexPanic"
proof -
  have "r \<noteq> IndexPanic" if "follow_log n ps = (out, r)" for n ps out r
    using that follow_log_end [of n ps] by auto
  then show ?thesis
    by (auto simp: open_log_def split: sum.split prod.split cli_end.split)
qed

lemma start_engine_end [simp]: "fst (start_engine fl env w) \<noteq> IndexPanic"
  by (auto simp: start_engine_def attach_def exec_Command_def Let_def split: prod.split option.split)

lemma one_arg_end [simp]:
  "(\<And>a w. fst (k a env w) \<noteq> IndexPanic) \<Longrightarrow> fst (one_arg msg k args env w) \<noteq> IndexPanic"
  by (auto simp: one_arg_def with_arg0_def split: list.split)

text \<open>
  The access to an argument never panics: whatever is typed, and whatever the flags, the files
  and the programs are, a command returns, exits or ends with the fatal error of a missing package,
  as long as \<open>ExactArgs\<close> accepts only lists of the given length. The commands that look at their
  arguments without counting them all declare their number.
\<close>

theorem no_index_panic:
  assumes "\<And>n args. cb_ExactArgs cb n args = None \<Longrightarrow> length args = n"
  shows "fst (Execute cb line env w) \<noteq> IndexPanic"
proof (cases "cb_Find cb line")
  case (Inr r)
  obtain cmd fl args where r: "r = (cmd, fl, args)"
    by (cases r) auto
  have "fst (run env w) \<noteq> IndexPanic"
    if run: "RunE cmd fl' args = Some run" and valid: "ValidateArgs cb cmd args = None" for run fl'
  proof -
    have len: "length args = n" if "command_Args cmd = Some n" for n
      using valid assms that by (simp add: ValidateArgs_def)
    show ?thesis
      using run len
      by (cases cmd)
         (auto simp: action_defs with_arg0_def with_arg1_def logsNodeEngine_def Let_def length_Suc_conv
           numeral_2_eq_2 intro!: reading_end)
  qed
  then show ?thesis
    by (auto simp: Execute_def Inr r split: option.split)
qed (simp add: Execute_def)

definition plain_cobra :: "(string list \<Rightarrow> string + command \<times> cli_flags \<times> string list) \<Rightarrow> cobra" where
  "plain_cobra lookup = \<lparr>cb_Find = lookup,
     cb_ExactArgs = (\<lambda>n args. if length args = n then None else Some ''accepts a number of args''),
     cb_defaultArgs = (\<lambda>cmd args. None), cb_help = (\<lambda>cmd. [])\<rparr>"

definition quiet_env :: cli_env where
  "quiet_env = \<lparr>ev_stat = True, ev_read = env_ok, ev_write = env_ok,
     ev_run = (\<lambda>args. \<lparr>pr_stdout = [], pr_stderr = [], pr_err = None\<rparr>), ev_log = Err ''no file''\<rparr>"

definition fresh_world :: cli_world where
  "fresh_world = \<lparr>cw_conf = ConfMissing, cw_out = [], cw_calls = []\<rparr>"

theorem no_index_panic_witness:
  "fst (Execute (plain_cobra (\<lambda>line. Ok (AddCsiDriverCmd, default_flags, line))) [''one''] quiet_env fresh_world)
     \<noteq> IndexPanic"
  by (rule no_index_panic) (simp add: plain_cobra_def split: if_splits)

section \<open>Following the log\<close>

text \<open>
  The log grows from one pass to the next: nothing is taken away or changed.
\<close>

fun grows :: "string \<Rightarrow> log_pass list \<Rightarrow> bool" where
  "grows c [] \<longleftrightarrow> True"
| "grows c (p # ps) \<longleftrightarrow> prefix c (lp_content p) \<and> grows (lp_content p) ps"

fun last_content :: "string \<Rightarrow> log_pass list \<Rightarrow> string" where
  "last_content c [] = c"
| "last_content c (p # ps) = last_content (lp_content p) ps"

definition readable_pass :: "log_pass \<Rightarrow> bool" where
  "readable_pass p \<longleftrightarrow> lp_Seek p = None \<and> lp_Read p = None"

lemma grows_prefix: "grows c ps \<Longrightarrow> prefix c (last_content c ps)"
  by (induction c ps rule: grows.induct) (auto intro: prefix_order.trans)

lemma follow_log_grows:
  "grows c ps \<Longrightarrow> list_all readable_pass ps \<Longrightarrow>
   follow_log (length c) ps = (drop (length c) (last_content c ps), Exited)"
proof (induction c ps rule: grows.induct)
  case (2 c p ps)
  then obtain z where z: "lp_content p = c @ z"
    by (auto elim: prefixE)
  obtain y where "last_content (lp_content p) ps = lp_content p @ y"
    using grows_prefix [of "lp_content p" ps] 2(2) by (auto elim: prefixE)
  with 2 z show ?case
    by (simp add: readable_pass_def)
qed simp

text \<open>
  What \<open>NodeEngine logs\<close> prints of a log that grows, up to the signal that ends it, is what is
  appended after it was started: every byte once and in order, however the writing and the passes
  interleave, nothing of what was there before. The started engine stays as it is.
\<close>

theorem log_followed:
  assumes "ev_log env = Ok \<lparr>lf_Stat = Ok (length c), lf_passes = ps\<rparr>"
    and "grows c ps" "list_all readable_pass ps"
  shows "\<exists>new. last_content c ps = c @ new \<and>
     logsNodeEngine env w = (Exited, w\<lparr>cw_out := cw_out w @ new @ LF @ ''Detatching...'' @ LF\<rparr>)"
proof -
  obtain new where new: "last_content c ps = c @ new"
    using grows_prefix [OF assms(2)] by (auto elim: prefixE)
  then have "follow_log (length c) ps = (new, Exited)"
    using follow_log_grows [OF assms(2,3)] by simp
  then show ?thesis
    using new by (simp add: logsNodeEngine_def open_log_def assms(1) Println_def print_out_def)
qed

definition pass :: "string \<Rightarrow> log_pass" where
  "pass c = \<lparr>lp_Seek = None, lp_content = c, lp_Read = None\<rparr>"

theorem log_followed_witness:
  "cw_out (snd (logsNodeEngine (quiet_env\<lparr>ev_log := Ok \<lparr>lf_Stat = Ok 2,
       lf_passes = [pass ''ab'', pass ''abcd'', pass ''abcde'']\<rparr>\<rparr>) fresh_world)) =
     ''cde'' @ LF @ ''Detatching...'' @ LF"
  using log_followed [of "quiet_env\<lparr>ev_log := Ok \<lparr>lf_Stat = Ok 2,
       lf_passes = [pass ''ab'', pass ''abcd'', pass ''abcde'']\<rparr>\<rparr>" "''ab''" _ fresh_world]
  by (auto simp: pass_def readable_pass_def fresh_world_def)

text \<open>
  The rotation of the log copies and truncates it: after that nothing is printed as long as the
  file is not longer than it was when it was read last, however much is written to it.
\<close>

theorem truncated_log_silent:
  assumes "list_all readable_pass ps" "\<forall>p \<in> set ps. length (lp_content p) \<le> n"
  shows "follow_log n ps = ([], Exited)"
  using assms by (induction ps) (auto simp: readable_pass_def)

theorem truncated_log_silent_witness:
  "follow_log 5 [pass ''new'', pass ''new12''] = ([], Exited)"
  by (rule truncated_log_silent) (simp_all add: pass_def readable_pass_def)

section \<open>The settings a session leaves\<close>

text \<open>
  What a configuration says, as a map of settings: the runtimes by name, the addons and the CSI
  drivers are settings of their own.
\<close>

datatype setting =
    SVersion | SAddress | SPort | SSSL | SLogs | SNetwork | SPublicIp | SNetPort | SCert | SKey
  | SRuntime string | SAddon string | SDriver string

datatype setting_value = VStr string | VInt go_int | VBool bool

type_synonym settings = "setting \<Rightarrow> setting_value option"

definition runtime_map :: "Virtualization list \<Rightarrow> string \<rightharpoonup> bool" where
  "runtime_map vs = map_of (map (\<lambda>v. (vt_Runtime v, vt_Active v)) vs)"

definition addon_map :: "Addon list \<Rightarrow> string \<rightharpoonup> bool" where
  "addon_map as = map_of (map (\<lambda>a. (ad_Name a, ad_Active a)) as)"

definition driver_map :: "CSIDriverType list \<Rightarrow> string \<rightharpoonup> string" where
  "driver_map ds = map_of (map (\<lambda>d. (cd_Name d, cd_Endpoint d)) ds)"

primrec setting_of :: "ConfFile \<Rightarrow> settings" where
  "setting_of c SVersion = Some (VStr (cf_ConfVersion c))"
| "setting_of c SAddress = Some (VStr (cf_ClusterAddress c))"
| "setting_of c SPort = Some (VInt (cf_ClusterPort c))"
| "setting_of c SSSL = Some (VBool (cf_ClusterSSL c))"
| "setting_of c SLogs = Some (VStr (cf_AppLogs c))"
| "setting_of c SNetwork = Some (VStr (cf_OverlayNetwork c))"
| "setting_of c SPublicIp = Some (VStr (Value (cf_PublicIp c)))"
| "setting_of c SNetPort = Some (VInt (cf_NetPort c))"
| "setting_of c SCert = Some (VStr (cf_CertFile c))"
| "setting_of c SKey = Some (VStr (cf_KeyFile c))"
| "setting_of c (SRuntime r) = map_option VBool (runtime_map (cf_Virtualizations c) r)"
| "setting_of c (SAddon a) = map_option VBool (addon_map (cf_Addons c) a)"
| "setting_of c (SDriver d) = map_option VStr (driver_map (cf_CSIDrivers c) d)"

text \<open>What a command is documented to do to the settings.\<close>

definition set_if :: "bool \<Rightarrow> setting \<Rightarrow> setting_value \<Rightarrow> settings \<Rightarrow> settings" where
  "set_if b s v m = (if b then m(s \<mapsto> v) else m)"

definition single :: "string list \<Rightarrow> (string \<Rightarrow> settings \<Rightarrow> settings) \<Rightarrow> settings \<Rightarrow> settings" where
  "single args f = (case args of [a] \<Rightarrow> f a | _ \<Rightarrow> (\<lambda>m. m))"

definition has_qemu :: "cli_env \<Rightarrow> bool" where
  "has_qemu env \<longleftrightarrow>
     (case dpkg_Output env of Err _ \<Rightarrow> False | Ok out \<Rightarrow> Contains out ''ok installed'')"

fun effect :: "cli_env \<Rightarrow> command \<Rightarrow> cli_flags \<Rightarrow> string list \<Rightarrow> settings \<Rightarrow> settings" where
  "effect env RootCmd fl args m =
     set_if (fl_clusterPort fl \<noteq> 10100) SPort (VInt (fl_clusterPort fl))
      (set_if (fl_clusterAddress fl \<noteq> []) SAddress (VStr (fl_clusterAddress fl))
        (if ev_stat env then m else setting_of conf_Default))"
| "effect env DefaultConfigCmd fl args m = setting_of conf_Default"
| "effect env AddClusterCmd fl args m =
     single args (\<lambda>a m. m(SAddress \<mapsto> VStr a, SPort \<mapsto> VInt (fl_clusterPort fl), SSSL \<mapsto> VBool (fl_clusterSSL fl))) m"
| "effect env LogsConfCommand fl args m = single args (\<lambda>a m. m(SLogs \<mapsto> VStr a)) m"
| "effect env EnableUnikernel fl args m =
     single args (\<lambda>a m. m(SRuntime UNIKERNEL_RUNTIME \<mapsto> VBool (is_on a))) m"
| "effect env EnableCrosvm fl args m = single args (\<lambda>a m. m(SRuntime CROSVM_RUNTIME \<mapsto> VBool (is_on a))) m"
| "effect env EnableBuilder fl args m =
     single args (\<lambda>a. set_if (has_qemu env) (SAddon IMAGE_BUILDER) (VBool (is_on a))) m"
| "effect env EnableFlops fl args m = single args (\<lambda>a m. m(SAddon FLOPS_LEARNER \<mapsto> VBool (is_on a))) m"
| "effect env EnableNetwork fl args m = m(SNetwork \<mapsto> VStr AutoOakNetwork)"
| "effect env EnableManualNetwork fl args m =
     m(SNetwork \<mapsto> VStr (''custom:'' @ (case args of [p] \<Rightarrow> p | _ \<Rightarrow> ''/etc/netmanager/netmanager.sock'')))"
| "effect env DisableNetwork fl args m = m(SNetwork \<mapsto> VStr [])"
| "effect env PublicIP fl args m = m(SPublicIp \<mapsto> VStr (Value PublicIPAuto))"
| "effect env PrivateIP fl args m = m(SPublicIp \<mapsto> VStr (Value PublicIPFalse))"
| "effect env PredefinedPublicIP fl args m =
     (case args of [] \<Rightarrow> m | a # _ \<Rightarrow> m(SPublicIp \<mapsto> VStr (Value a)))"
| "effect env AddCsiDriverCmd fl args m =
     (case args of name # endpoint # _ \<Rightarrow> m(SDriver name \<mapsto> VStr endpoint) | _ \<Rightarrow> m)"
| "effect env RemoveCsiDriverCmd fl args m =
     (case args of [] \<Rightarrow> m | name # _ \<Rightarrow> m(SDriver name := None))"
| "effect env SetAuth fl args m =
     set_if (fl_keyFile fl \<noteq> []) SKey (VStr (fl_keyFile fl))
      (set_if (fl_certFile fl \<noteq> []) SCert (VStr (fl_certFile fl)) m)"
| "effect env cmd fl args m = m"

definition line_effect :: "cobra \<Rightarrow> cli_env \<Rightarrow> string list \<Rightarrow> settings \<Rightarrow> settings" where
  "line_effect cb env line m =
     (case cb_Find cb line of
        Err _ \<Rightarrow> m
      | Ok (cmd, fl, args) \<Rightarrow> if ValidateArgs cb cmd args = None then effect env cmd (declared_flags cmd fl) args m else m)"

primrec session_effect :: "cobra \<Rightarrow> (cli_env \<times> string list) list \<Rightarrow> settings \<Rightarrow> settings" where
  "session_effect cb [] m = m"
| "session_effect cb (x # xs) m = session_effect cb xs (line_effect cb (fst x) (snd x) m)"

text \<open>The file holds a configuration with these settings, or is missing and they are the default ones.\<close>

definition represents :: "conf_data \<Rightarrow> settings \<Rightarrow> bool" where
  "represents data m \<longleftrightarrow>
     (\<exists>c. data = ConfJson (json_ConfFile c) \<and> setting_of c = m) \<or>
     (data = ConfMissing \<and> m = setting_of conf_Default)"

definition env_writes :: "cli_env \<Rightarrow> bool" where
  "env_writes env \<longleftrightarrow> writes (ev_read env) \<and> writes (ev_write env)"

lemma setting_of_canonical [simp]: "setting_of (canonical_conf c) = setting_of c"
proof
  fix s show "setting_of (canonical_conf c) s = setting_of c s"
    by (cases s) (simp_all add: canonical_conf_def)
qed

lemma represents_json [simp]: "represents (ConfJson (json_ConfFile c)) (setting_of c)"
  by (auto simp: represents_def)

lemma represents_Read:
  assumes "represents data m" "writes er"
  obtains c data1 where "conf_Read er data = ((c, None), data1)" "setting_of c = m" "represents data1 m"
proof (cases "data = ConfMissing")
  case True
  then have "m = setting_of conf_Default"
    using assms(1) by (simp add: represents_def)
  moreover have "conf_Read er data = ((conf_Default, None), ConfJson (json_ConfFile conf_Default))"
    using True assms(2) by (simp add: conf_Read_def writeLocked_def writes_def)
  ultimately show ?thesis
    using that by simp
next
  case False
  then obtain c where "data = ConfJson (json_ConfFile c)" "setting_of c = m"
    using assms(1) by (auto simp: represents_def)
  then show ?thesis
    using that [of "canonical_conf c" data] by (auto simp: represents_def)
qed

lemma represents_update:
  assumes "represents data m" "writes er" "writes ew" "\<And>c. setting_of c = m \<Longrightarrow> setting_of (f c) = m'"
  shows "fst (update_conf f er ew data) = None \<and> represents (snd (update_conf f er ew data)) m'"
proof -
  obtain c data1 where "conf_Read er data = ((c, None), data1)" "setting_of c = m"
    using assms(1,2) by (rule represents_Read)
  then show ?thesis
    using update_conf_ok [of er data c data1 ew f] assms(3) assms(4) [of c] by (auto simp: represents_def)
qed

lemma represents_default:
  "writes ew \<Longrightarrow> fst (defaultConfig ew data) = None \<and>
     represents (snd (defaultConfig ew data)) (setting_of conf_Default)"
  by (simp add: defaultConfig_def Write_ok)

lemma map_of_set_entry:
  assumes "\<And>x. k (upd x) = k x" "\<And>x. v (upd x) = b"
  shows "map_of (map (\<lambda>x. (k x, v x)) (map (\<lambda>x. if k x = key then upd x else x) xs)) =
     (if list_ex (\<lambda>x. k x = key) xs then (map_of (map (\<lambda>x. (k x, v x)) xs))(key \<mapsto> b)
      else map_of (map (\<lambda>x. (k x, v x)) xs))"
  using assms by (induction xs) (auto simp: fun_eq_iff)

lemma not_list_ex_map_of: "\<not> list_ex (\<lambda>x. k x = key) xs \<Longrightarrow> map_of (map (\<lambda>x. (k x, v x)) xs) key = None"
  by (induction xs) auto

lemma runtime_map_set_virt: "runtime_map (set_virt name r b vs) = (runtime_map vs)(r \<mapsto> b)"
  using map_of_set_entry [of vt_Runtime "\<lambda>v. v\<lparr>vt_Active := b\<rparr>" vt_Active b r vs]
    not_list_ex_map_of [of vt_Runtime r vs vt_Active] map_add_absent [of "runtime_map vs" r b]
  by (simp add: set_virt_def runtime_map_def Let_def)

lemma addon_map_set_addon: "addon_map (set_addon name b as) = (addon_map as)(name \<mapsto> b)"
  using map_of_set_entry [of ad_Name "\<lambda>a. a\<lparr>ad_Active := b\<rparr>" ad_Active b name as]
    not_list_ex_map_of [of ad_Name name as ad_Active] map_add_absent [of "addon_map as" name b]
  by (simp add: set_addon_def addon_map_def Let_def)

lemma driver_map_set_endpoint:
  "driver_map (case set_endpoint name ep ds of Some ds' \<Rightarrow> ds' | None \<Rightarrow> ds @ [\<lparr>cd_Name = name, cd_Endpoint = ep\<rparr>]) =
     (driver_map ds)(name \<mapsto> ep)"
proof (cases "set_endpoint name ep ds")
  case None
  then have "driver_map ds name = None"
    by (simp add: set_endpoint_None driver_map_def map_of_eq_None_iff image_image)
  then show ?thesis
    using None map_add_absent [of "driver_map ds" name ep] by (simp add: driver_map_def)
next
  case (Some ds')
  then show ?thesis
    using set_endpoint_Some [OF Some] by (simp add: driver_map_def)
qed

lemma driver_map_filter: "driver_map (filter (\<lambda>d. cd_Name d \<noteq> name) ds) = (driver_map ds)(name := None)"
  by (induction ds) (auto simp: driver_map_def fun_eq_iff)

lemma driver_map_absent: "\<not> list_ex (\<lambda>d. cd_Name d = name) ds \<Longrightarrow> driver_map ds name = None"
  by (induction ds) (auto simp: driver_map_def)

text \<open>How each change of the configuration shows in the settings.\<close>

lemma setting_of_updates:
  "setting_of (c\<lparr>cf_ClusterAddress := a\<rparr>) = (setting_of c)(SAddress \<mapsto> VStr a)"
  "setting_of (c\<lparr>cf_ClusterPort := p\<rparr>) = (setting_of c)(SPort \<mapsto> VInt p)"
  "setting_of (c\<lparr>cf_ClusterSSL := b\<rparr>) = (setting_of c)(SSSL \<mapsto> VBool b)"
  "setting_of (c\<lparr>cf_AppLogs := a\<rparr>) = (setting_of c)(SLogs \<mapsto> VStr a)"
  "setting_of (c\<lparr>cf_OverlayNetwork := a\<rparr>) = (setting_of c)(SNetwork \<mapsto> VStr a)"
  "setting_of (c\<lparr>cf_PublicIp := a\<rparr>) = (setting_of c)(SPublicIp \<mapsto> VStr (Value a))"
  "setting_of (c\<lparr>cf_CertFile := a\<rparr>) = (setting_of c)(SCert \<mapsto> VStr a)"
  "setting_of (c\<lparr>cf_KeyFile := a\<rparr>) = (setting_of c)(SKey \<mapsto> VStr a)"
  subgoal by (rule ext, case_tac x) simp_all
  subgoal by (rule ext, case_tac x) simp_all
  subgoal by (rule ext, case_tac x) simp_all
  subgoal by (rule ext, case_tac x) simp_all
  subgoal by (rule ext, case_tac x) simp_all
  subgoal by (rule ext, case_tac x) simp_all
  subgoal by (rule ext, case_tac x) simp_all
  subgoal by (rule ext, case_tac x) simp_all
  done

lemma setting_of_list_updates:
  "runtime_map vs = (runtime_map (cf_Virtualizations c))(r \<mapsto> b) \<Longrightarrow>
     setting_of (c\<lparr>cf_Virtualizations := vs\<rparr>) = (setting_of c)(SRuntime r \<mapsto> VBool b)"
  "addon_map as = (addon_map (cf_Addons c))(r \<mapsto> b) \<Longrightarrow>
     setting_of (c\<lparr>cf_Addons := as\<rparr>) = (setting_of c)(SAddon r \<mapsto> VBool b)"
  "driver_map ds = (driver_map (cf_CSIDrivers c))(r := e) \<Longrightarrow>
     setting_of (c\<lparr>cf_CSIDrivers := ds\<rparr>) = (setting_of c)(SDriver r := map_option VStr e)"
  subgoal by (rule ext, case_tac x) simp_all
  subgoal by (rule ext, case_tac x) simp_all
  subgoal by (rule ext, case_tac x) simp_all
  done

text \<open>Commands that change the configuration, one lemma per way of changing it.\<close>

lemma represents_conf_action:
  assumes "represents (cw_conf w) m" "env_writes env" "\<And>c. setting_of c = m \<Longrightarrow> setting_of (f c) = m'"
  shows "represents (cw_conf (snd (conf_action (update_conf f) env w))) m'"
  using represents_update [OF assms(1), of "ev_read env" "ev_write env" f m'] assms(2,3)
  by (simp add: conf_action_def env_writes_def split_beta)

lemma represents_remove:
  assumes "represents data m" "writes er" "writes ew"
  shows "represents (snd (removeCsiDriver name er ew data)) (m(SDriver name := None))"
proof -
  obtain c data1 where c: "conf_Read er data = ((c, None), data1)" "setting_of c = m" "represents data1 m"
    using assms(1,2) by (rule represents_Read)
  show ?thesis
  proof (cases "list_ex (\<lambda>d. cd_Name d = name) (cf_CSIDrivers c)")
    case True
    moreover have "setting_of (c\<lparr>cf_CSIDrivers := filter (\<lambda>d. cd_Name d \<noteq> name) (cf_CSIDrivers c)\<rparr>) =
        m(SDriver name := None)"
      by (subst setting_of_list_updates(3) [OF driver_map_filter]) (simp add: c(2))
    ultimately show ?thesis
      using c represents_json [of "c\<lparr>cf_CSIDrivers := filter (\<lambda>d. cd_Name d \<noteq> name) (cf_CSIDrivers c)\<rparr>"]
      by (simp add: removeCsiDriver_def Write_ok [OF assms(3)])
  next
    case False
    have "m (SDriver name) = None"
      using driver_map_absent [OF False] c(2) by auto
    then have "m(SDriver name := None) = m"
      by auto
    with False c show ?thesis
      by (simp add: removeCsiDriver_def)
  qed
qed

lemma represents_remove_action:
  assumes "represents (cw_conf w) m" "env_writes env"
  shows "represents (cw_conf (snd (conf_action (removeCsiDriver name) env w))) (m(SDriver name := None))"
  using represents_remove [OF assms(1), of "ev_read env" "ev_write env" name] assms(2)
  by (simp add: conf_action_def env_writes_def split_beta)

lemma represents_default_action:
  "env_writes env \<Longrightarrow> represents (cw_conf (snd (default_RunE env w))) (setting_of conf_Default)"
  using represents_default [of "ev_write env" "cw_conf w"]
  by (simp add: default_RunE_def conf_action_def env_writes_def split_beta)

text \<open>Commands that only read it.\<close>

lemma cw_conf_print [simp]: "cw_conf (print_out s w) = cw_conf w" "cw_conf (Println s w) = cw_conf w"
  by (simp_all add: Println_def print_out_def)

lemma cw_conf_exec [simp]: "cw_conf (snd (exec_Command env args w)) = cw_conf w"
  by (simp add: exec_Command_def)

lemma cw_conf_output [simp]: "cw_conf (execCommandWithOutput args env w) = cw_conf w"
  by (simp add: execCommandWithOutput_def exec_Command_def)

lemma cw_conf_stop [simp]: "cw_conf (stopNodeEngine env w) = cw_conf w"
  by (simp add: stopNodeEngine_def exec_Command_def Let_def)

lemma cw_conf_lines [simp]: "cw_conf (foldl (\<lambda>w line. Println line w) w ls) = cw_conf w"
  by (induction ls arbitrary: w) simp_all

lemma cw_conf_open_log:
  "(\<And>w. cw_conf (f env w) = cw_conf w) \<Longrightarrow> cw_conf (snd (open_log f env w)) = cw_conf w"
  by (auto simp: open_log_def split: sum.split prod.split cli_end.split)

lemma represents_reading:
  assumes "represents (cw_conf w) m" "env_writes env" "\<And>c w. cw_conf (snd (k c env w)) = cw_conf w"
  shows "represents (cw_conf (snd (reading k env w))) m"
proof -
  obtain c data1 where "conf_Read (ev_read env) (cw_conf w) = ((c, None), data1)" "represents data1 m"
    using assms(1) assms(2) [unfolded env_writes_def, THEN conjunct1] by (rule represents_Read)
  then show ?thesis
    by (simp add: reading_def assms(3))
qed

lemma represents_builder:
  assumes "represents (cw_conf w) m" "env_writes env"
  shows "represents (cw_conf (snd (builder_action a env w)))
     (set_if (has_qemu env) (SAddon IMAGE_BUILDER) (VBool (is_on a)) m)"
proof (cases "has_qemu env")
  case True
  then obtain out where out: "dpkg_Output env = Ok out" "Contains out ''ok installed''"
    by (auto simp: has_qemu_def split: sum.splits)
  let ?f = "\<lambda>c. c\<lparr>cf_Addons := set_addon IMAGE_BUILDER (is_on a) (cf_Addons c)\<rparr>"
  have "represents (cw_conf (snd (conf_action (update_conf ?f) env w))) (m(SAddon IMAGE_BUILDER \<mapsto> VBool (is_on a)))"
    by (rule represents_conf_action [OF assms])
       (use setting_of_list_updates(2) [OF addon_map_set_addon] in simp)
  with True out show ?thesis
    by (simp add: builder_action_def setBuilder_def exec_Command_def conf_action_def set_if_def split_beta)
next
  case False
  then have "setBuilder (dpkg_Output env) a er ew d = None" for er ew d
    by (auto simp: has_qemu_def setBuilder_def split: sum.splits)
  with False assms(1) show ?thesis
    by (simp add: builder_action_def exec_Command_def set_if_def)
qed

lemma represents_update_if:
  assumes "represents data m" "writes er" "writes ew" "\<And>c. setting_of (f c) = (setting_of c)(s \<mapsto> v)"
  shows "\<exists>data'. (if b then update_conf f er ew data else (None, data)) = (None, data') \<and>
     represents data' (set_if b s v m)"
  using represents_update [OF assms(1-3), of f "m(s \<mapsto> v)"] assms(1,4)
  by (cases "update_conf f er ew data") (auto simp: set_if_def)

lemma represents_start:
  assumes "represents (cw_conf w) m" "env_writes env"
  shows "represents (cw_conf (snd (start_engine (declared_flags RootCmd fl) env w)))
     (effect env RootCmd (declared_flags RootCmd fl) args m)"
proof -
  let ?er = "ev_read env" and ?ew = "ev_write env" and ?d = "cw_conf w"
  note writes = assms(2) [unfolded env_writes_def, THEN conjunct1] assms(2) [unfolded env_writes_def, THEN conjunct2]
  define m0 where "m0 = (if ev_stat env then m else setting_of conf_Default)"
  define m1 where "m1 = set_if (fl_clusterAddress fl \<noteq> []) SAddress (VStr (fl_clusterAddress fl)) m0"
  define m2 where "m2 = set_if (fl_clusterPort fl \<noteq> 10100) SPort (VInt (fl_clusterPort fl)) m1"
  obtain d0 where d0: "(if ev_stat env then (None, ?d) else defaultConfig ?ew ?d) = (None, d0)" "represents d0 m0"
    using represents_default [OF writes(2), of ?d] assms(1)
    by (cases "ev_stat env"; cases "defaultConfig ?ew ?d") (auto simp: m0_def)
  obtain d1 where d1: "(if fl_clusterAddress fl \<noteq> [] then configAddress (fl_clusterAddress fl) ?er ?ew d0
      else (None, d0)) = (None, d1)" "represents d1 m1"
    using represents_update_if [OF d0(2) writes setting_of_updates(1)] unfolding configAddress_def m1_def by blast
  obtain d2 where d2: "(if fl_clusterPort fl \<noteq> 10100 then configPort (fl_clusterPort fl) ?er ?ew d1
      else (None, d1)) = (None, d2)" "represents d2 m2"
    using represents_update_if [OF d1(2) writes setting_of_updates(2)] unfolding configPort_def m2_def by blast
  have "nodeEngineDaemonManager (ev_stat env) (fl_clusterAddress fl) (fl_clusterPort fl) False [] [] ?er ?ew ?d = (None, d2)"
    unfolding nodeEngineDaemonManager_def d0(1) by (simp add: after_def d1(1) d2(1))
  moreover have "effect env RootCmd (declared_flags RootCmd fl) args m = m2"
    by (simp add: default_flags_def m0_def m1_def m2_def)
  ultimately show ?thesis
    using d2(2)
    by (auto simp: start_engine_def default_flags_def exec_Command_def attach_def cw_conf_open_log Let_def
        split: option.split)
qed

text \<open>Every command has the effect it is specified to have.\<close>

lemma conf_commands_effect:
  assumes "represents (cw_conf w) m" "env_writes env"
  shows "represents (cw_conf (snd (cluster_RunE fl args env w))) (effect env AddClusterCmd fl args m)"
    and "represents (cw_conf (snd (applogs_RunE args env w))) (effect env LogsConfCommand fl args m)"
    and "represents (cw_conf (snd (unikernel_RunE args env w))) (effect env EnableUnikernel fl args m)"
    and "represents (cw_conf (snd (crosvm_RunE args env w))) (effect env EnableCrosvm fl args m)"
    and "represents (cw_conf (snd (builder_RunE args env w))) (effect env EnableBuilder fl args m)"
    and "represents (cw_conf (snd (flops_RunE args env w))) (effect env EnableFlops fl args m)"
    and "represents (cw_conf (snd (conf_action enableNetwork env w))) (effect env EnableNetwork fl args m)"
    and "represents (cw_conf (snd (manual_RunE args env w))) (effect env EnableManualNetwork fl args m)"
    and "represents (cw_conf (snd (conf_action disableNetwork env w))) (effect env DisableNetwork fl args m)"
    and "represents (cw_conf (snd (public_RunE env w))) (effect env PublicIP fl args m)"
    and "represents (cw_conf (snd (private_RunE env w))) (effect env PrivateIP fl args m)"
    and "represents (cw_conf (snd (predefined_RunE args env w))) (effect env PredefinedPublicIP fl args m)"
    and "represents (cw_conf (snd (csi_add_RunE args env w))) (effect env AddCsiDriverCmd fl args m)"
    and "represents (cw_conf (snd (csi_remove_RunE args env w))) (effect env RemoveCsiDriverCmd fl args m)"
    and "represents (cw_conf (snd (auth_RunE fl env w))) (effect env SetAuth fl args m)"
proof -
  note conf_action = represents_conf_action [OF assms]
  have single: "represents (cw_conf (snd (one_arg msg k args env w))) (single args f m)"
    if "\<And>a. represents (cw_conf (snd (k a env w))) (f a m)" for msg k f
    using that assms(1) by (auto simp: one_arg_def with_arg0_def single_def length_Suc_conv split: list.split)
  show "represents (cw_conf (snd (cluster_RunE fl args env w))) (effect env AddClusterCmd fl args m)"
    unfolding cluster_RunE_def effect.simps configCluster_def
    by (rule single, rule conf_action) (simp add: setting_of_updates)
  show "represents (cw_conf (snd (applogs_RunE args env w))) (effect env LogsConfCommand fl args m)"
    unfolding applogs_RunE_def effect.simps configLogs_def
    by (rule single, rule conf_action) (simp add: setting_of_updates)
  show "represents (cw_conf (snd (unikernel_RunE args env w))) (effect env EnableUnikernel fl args m)"
    unfolding unikernel_RunE_def effect.simps setUnikernel_def
    by (rule single, rule conf_action) (simp add: setting_of_list_updates(1) runtime_map_set_virt)
  show "represents (cw_conf (snd (crosvm_RunE args env w))) (effect env EnableCrosvm fl args m)"
    unfolding crosvm_RunE_def effect.simps setCrosvm_def
    by (rule single, rule conf_action) (simp add: setting_of_list_updates(1) runtime_map_set_virt)
  show "represents (cw_conf (snd (builder_RunE args env w))) (effect env EnableBuilder fl args m)"
    unfolding builder_RunE_def effect.simps
    by (rule single, rule represents_builder [OF assms])
  show "represents (cw_conf (snd (flops_RunE args env w))) (effect env EnableFlops fl args m)"
    unfolding flops_RunE_def effect.simps setFLOps_def
    by (rule single, rule conf_action) (simp add: setting_of_list_updates(2) addon_map_set_addon)
  show "represents (cw_conf (snd (conf_action enableNetwork env w))) (effect env EnableNetwork fl args m)"
    unfolding enableNetwork_def setNetwork_def by (rule conf_action) (simp add: setting_of_updates)
  show "represents (cw_conf (snd (manual_RunE args env w))) (effect env EnableManualNetwork fl args m)"
    unfolding manual_RunE_def enableManualNetwork_def setNetwork_def
    by (rule conf_action) (simp add: setting_of_updates split: list.split)
  show "represents (cw_conf (snd (conf_action disableNetwork env w))) (effect env DisableNetwork fl args m)"
    unfolding disableNetwork_def setNetwork_def by (rule conf_action) (simp add: setting_of_updates)
  show "represents (cw_conf (snd (public_RunE env w))) (effect env PublicIP fl args m)"
    unfolding public_RunE_def setPublicIp_def by (rule conf_action) (simp add: setting_of_updates)
  show "represents (cw_conf (snd (private_RunE env w))) (effect env PrivateIP fl args m)"
    unfolding private_RunE_def setPublicIp_def by (rule conf_action) (simp add: setting_of_updates)
  show "represents (cw_conf (snd (predefined_RunE args env w))) (effect env PredefinedPublicIP fl args m)"
  proof (cases args)
    case (Cons a as)
    then show ?thesis
      unfolding predefined_RunE_def setPublicIp_def with_arg0_def Cons list.case effect.simps
      by (intro conf_action) (simp add: setting_of_updates ParsePublicIPMode_eq)
  qed (simp add: predefined_RunE_def with_arg0_def assms(1))
  show "represents (cw_conf (snd (csi_add_RunE args env w))) (effect env AddCsiDriverCmd fl args m)"
  proof (cases "\<exists>name endpoint rest. args = name # endpoint # rest")
    case True
    then obtain name endpoint rest where args: "args = name # endpoint # rest"
      by auto
    show ?thesis
      unfolding csi_add_RunE_def addCsiDriver_def with_arg1_def args list.case effect.simps
      by (intro conf_action)
         (simp add: setting_of_list_updates(3) [where e = "Some endpoint"] driver_map_set_endpoint)
  qed (auto simp: csi_add_RunE_def with_arg1_def assms(1) split: list.split)
  show "represents (cw_conf (snd (csi_remove_RunE args env w))) (effect env RemoveCsiDriverCmd fl args m)"
    using assms(1) represents_remove_action [OF assms]
    by (cases args) (simp_all add: csi_remove_RunE_def with_arg0_def)
  show "represents (cw_conf (snd (auth_RunE fl env w))) (effect env SetAuth fl args m)"
    unfolding auth_RunE_def setMqttAuth_def
    by (rule conf_action) (auto simp: Let_def setting_of_updates set_if_def)
qed

lemma reading_commands_effect:
  assumes "represents (cw_conf w) m" "env_writes env"
  shows "represents (cw_conf (snd (showVirtualization env w))) m"
    and "represents (cw_conf (snd (showAddons env w))) m"
    and "represents (cw_conf (snd (showCsiDrivers env w))) m"
    and "represents (cw_conf (snd (statusNodeEngine env w))) m"
    and "represents (cw_conf (snd (logsNodeEngine env w))) m"
  using assms
  by (auto simp: showVirtualization_def showAddons_def showCsiDrivers_def show_lines_def statusNodeEngine_def
      logsNodeEngine_def Let_def cw_conf_open_log intro!: represents_reading)

lemma represents_RunE:
  assumes "represents (cw_conf w) m" "env_writes env" "RunE cmd (declared_flags cmd fl) args = Some run"
  shows "represents (cw_conf (snd (run env w))) (effect env cmd (declared_flags cmd fl) args m)"
proof (cases "cmd = RootCmd")
  case True
  then show ?thesis
    using represents_start [OF assms(1,2), of fl args] assms(3) by auto
next
  case False
  note conf = conf_commands_effect [OF assms(1,2), where fl = "declared_flags cmd fl" and args = args]
    reading_commands_effect [OF assms(1,2)] represents_default_action [OF assms(2)] assms(1)
  show ?thesis
    using assms(3) False conf
    by (cases cmd)
       (simp_all add: versionCmd_def stopCmd_def)
qed

lemma represents_Execute:
  assumes "represents (cw_conf w) m" "env_writes env"
  shows "represents (cw_conf (snd (Execute cb line env w))) (line_effect cb env line m)"
proof (cases "cb_Find cb line")
  case (Inr r)
  obtain cmd fl args where r: "r = (cmd, fl, args)"
    by (cases r) auto
  show ?thesis
  proof (cases "RunE cmd (declared_flags cmd fl) args")
    case None
    then have "effect env cmd (declared_flags cmd fl) args m = m"
      by (cases cmd) simp_all
    with None assms(1) show ?thesis
      by (simp add: Execute_def line_effect_def Inr r)
  next
    case (Some run)
    then show ?thesis
      using represents_RunE [OF assms Some] assms(1)
      by (simp add: Execute_def line_effect_def Inr r split: option.split)
  qed
qed (simp add: Execute_def line_effect_def assms(1))

text \<open>
  C17: The configuration file refines a map of settings: after a session of any command lines,
  accepted or refused, on a node whose files can be written, the file holds, setting by setting,
  what the last command that names the setting gave it, and every setting that no command names is
  as it was. The runtimes, addons and CSI drivers are settings of their own; a machine without a file
  starts from the default ones, and the commands that show, follow or stop something change none.
\<close>

theorem session_refines_settings:
  assumes "represents (cw_conf w) m" "\<forall>x \<in> set session. env_writes (fst x)"
  shows "represents (cw_conf (run_session cb session w)) (session_effect cb session m)"
  using assms by (induction session arbitrary: w m) (simp_all add: represents_Execute)

definition line_cobra :: cobra where
  "line_cobra = plain_cobra (\<lambda>line.
     case line of
       [_, ''csi'', ''add'', name, ep] \<Rightarrow> Ok (AddCsiDriverCmd, default_flags, [name, ep])
     | [_, ''csi'', ''remove'', name] \<Rightarrow> Ok (RemoveCsiDriverCmd, default_flags, [name])
     | [_, ''virtualization'', ''crosvm'', a] \<Rightarrow> Ok (EnableCrosvm, default_flags, [a])
     | _ \<Rightarrow> Err ''unknown command'')"

theorem session_refines_settings_witness:
  "\<exists>c. cw_conf (run_session line_cobra
         [(quiet_env, [''config'', ''csi'', ''add'', ''d'', ''/a.sock'']),
          (quiet_env, [''config'', ''virtualization'', ''crosvm'', ''on'']),
          (quiet_env, [''config'', ''csi'', ''remove'', ''e'']), (quiet_env, [''confg''])] fresh_world) =
       ConfJson (json_ConfFile c) \<and>
     setting_of c (SDriver ''d'') = Some (VStr ''/a.sock'') \<and>
     setting_of c (SRuntime CROSVM_RUNTIME) = Some (VBool True) \<and>
     setting_of c (SRuntime CONTAINER_RUNTIME) = Some (VBool True)"
  (is "\<exists>c. cw_conf (run_session _ ?s _) = _ \<and> _")
proof -
  let ?m = "session_effect line_cobra ?s (setting_of conf_Default)"
  have m: "?m (SDriver ''d'') = Some (VStr ''/a.sock'') \<and> ?m (SRuntime CROSVM_RUNTIME) = Some (VBool True) \<and>
      ?m (SRuntime CONTAINER_RUNTIME) = Some (VBool True)"
    by (simp add: line_effect_def line_cobra_def plain_cobra_def ValidateArgs_def single_def is_on_def
        conf_Default_def runtime_map_def CROSVM_RUNTIME_def CONTAINER_RUNTIME_def numeral_2_eq_2)
  have "represents (cw_conf (run_session line_cobra ?s fresh_world)) ?m"
    by (rule session_refines_settings)
       (simp_all add: represents_def fresh_world_def env_writes_def quiet_env_def writes_def env_ok_def)
  moreover have "?m \<noteq> setting_of conf_Default"
  proof
    assume "?m = setting_of conf_Default"
    then have "setting_of conf_Default (SDriver ''d'') = Some (VStr ''/a.sock'')"
      using m by metis
    then show False
      by (simp add: conf_Default_def zero_ConfFile_def driver_map_def)
  qed
  ultimately obtain c where "cw_conf (run_session line_cobra ?s fresh_world) = ConfJson (json_ConfFile c)"
      "setting_of c = ?m"
    unfolding represents_def by blast
  with m show ?thesis
    by metis
qed

section \<open>The service\<close>

definition sc_start :: "string list" where "sc_start = [''systemctl'', ''start'', ''nodeengine'']"
definition sc_stop :: "string list list" where
  "sc_stop = [[''systemctl'', ''stop'', ''nodeengine'', ''--no-pager''],
     [''systemctl'', ''stop'', ''netmanager'', ''--no-pager'']]"

lemma cw_calls_print [simp]: "cw_calls (print_out s w) = cw_calls w" "cw_calls (Println s w) = cw_calls w"
  by (simp_all add: Println_def print_out_def)

lemma stop_calls: "cw_calls (stopNodeEngine env w) = cw_calls w @ sc_stop"
  by (simp add: stopNodeEngine_def exec_Command_def sc_stop_def Let_def)

lemma open_log_calls:
  assumes "\<And>w. cw_calls (f env w) = cw_calls w @ xs"
  shows "cw_calls (snd (open_log f env w)) = cw_calls w @ (if fst (open_log f env w) = Exited then xs else [])"
proof -
  show ?thesis
  proof (cases "\<exists>c offset. ev_log env = Ok c \<and> lf_Stat c = Ok offset")
    case True
    then obtain c offset where c: "ev_log env = Ok c" "lf_Stat c = Ok offset"
      by auto
    obtain out r where r: "follow_log offset (lf_passes c) = (out, r)"
      by fastforce
    then have "r = Exited \<or> (\<exists>e. r = Returned (Some e))"
      using follow_log_end [of offset "lf_passes c"] by simp
    then show ?thesis
      using assms by (auto simp: open_log_def c r print_out_def)
  next
    case False
    then show ?thesis
      by (auto simp: open_log_def Println_def print_out_def split: sum.split)
  qed
qed

text \<open>
  \<open>NodeEngine\<close> runs the service manager as follows: it runs nothing when a setting of the flags
  could not be written; otherwise it starts the service, once; and both services are stopped again
  exactly when it was attached to the log and ended by a signal, never because of an error.
\<close>

theorem engine_service_calls:
  "\<exists>calls. cw_calls (snd (start_engine fl env w)) = cw_calls w @ calls \<and>
     (calls = []) = (fst (nodeEngineDaemonManager (ev_stat env) (fl_clusterAddress fl) (fl_clusterPort fl)
        (fl_clusterSSL fl) (fl_certFile fl) (fl_keyFile fl) (ev_read env) (ev_write env) (cw_conf w)) \<noteq> None) \<and>
     calls \<in> {[], [sc_start], sc_start # sc_stop} \<and>
     (calls = sc_start # sc_stop) = (fst (start_engine fl env w) = Exited)"
proof -
  obtain err data where c: "nodeEngineDaemonManager (ev_stat env) (fl_clusterAddress fl) (fl_clusterPort fl)
        (fl_clusterSSL fl) (fl_certFile fl) (fl_keyFile fl) (ev_read env) (ev_write env) (cw_conf w) = (err, data)"
    by (cases "nodeEngineDaemonManager (ev_stat env) (fl_clusterAddress fl) (fl_clusterPort fl)
        (fl_clusterSSL fl) (fl_certFile fl) (fl_keyFile fl) (ev_read env) (ev_write env) (cw_conf w)")
  have att: "cw_calls (snd (attach env w)) = cw_calls w @ (if fst (attach env w) = Exited then sc_stop else [])" for w
    unfolding attach_def by (rule open_log_calls) (simp add: stop_calls)
  show ?thesis
  proof (cases err)
    case (Some e)
    then show ?thesis
      by (auto simp: start_engine_def c)
  next
    case None
    let ?r = "ev_run env sc_start" and ?w = "w\<lparr>cw_conf := data, cw_calls := cw_calls w @ [sc_start]\<rparr>"
    let ?w' = "Println (''NodeEngine started  '' @ [CHR 0xF0, CHR 0x9F, CHR 0x9F, CHR 0xA2]) ?w"
    have run: "start_engine fl env w =
        (case pr_err ?r of Some e \<Rightarrow> (Returned (Some e), ?w)
         | None \<Rightarrow> if fl_detatched fl then (Returned None, ?w') else attach env ?w')"
      by (simp add: start_engine_def c None exec_Command_def sc_start_def Let_def split: option.split)
    consider (failed) e where "pr_err ?r = Some e" | (detached) "pr_err ?r = None" "fl_detatched fl"
      | (attached) "pr_err ?r = None" "\<not> fl_detatched fl"
      by (cases "pr_err ?r") auto
    then show ?thesis
    proof cases
      case attached
      then show ?thesis
        using att [of ?w'] by (cases "fst (attach env ?w') = Exited") (simp_all add: run c None sc_stop_def)
    qed (simp_all add: run c None sc_stop_def)
  qed
qed

end
