(* ===== verification/Daemon.thy ===== *)
theory Daemon
  imports Dispatch Commands
begin

text \<open>
  The daemon from its start to its end (\<open>internal/daemon/nodeengined.go\<close>): the settings read, the
  runtimes, plugins and addons started, the handshake with the cluster, the overlay network, the
  message client and the monitors, with every early end and what is stopped then; the FLOps addon
  (\<open>addons\<close>); and the subscriptions of the message client (\<open>mqtt/MqttClient.go\<close>).

  Every \<open>GetNodeInfo\<close> measures the node anew; the start sends the node first in the handshake, so
  the model measures it there. Log output is left out.
\<close>

section \<open>Addons\<close>

definition ml_data_server_image :: string where
  "ml_data_server_image = ''ghcr.io/oakestra/addon-flops/ml-data-server:latest''"

definition ml_container_name :: string where
  "ml_container_name = ''ml_data_server''"

definition docker_ps :: "string list" where
  "docker_ps = [''docker'', ''ps'', ''-a'', ''--format'', ''{{.Names}}'']"

definition docker_pull :: "string list" where
  "docker_pull = [''docker'', ''pull'', ml_data_server_image]"

definition docker_run :: "string list" where
  "docker_run = [''docker'', ''run'', ''--rm'', ''-d'', ''-p'', ''11027:11027'', ''-v'',
     ''ml_data_server_volume:/ml_data_server_volume'', ''--name=ml_data_server'', ml_data_server_image]"

text \<open>The programs run, and whether the process goes on or ends fatally.\<close>

definition HandleFLOpsDataManager :: "(string list \<Rightarrow> prog_result) \<Rightarrow> string list list \<times> bool" where
  "HandleFLOpsDataManager run =
     (case pr_err (run docker_ps) of
        Some e \<Rightarrow> ([docker_ps], False)
      | None \<Rightarrow>
          if list_ex (\<lambda>line. line \<noteq> [] \<and> line = ml_container_name) (Split (CHR 0x0A) (pr_stdout (run docker_ps)))
          then ([docker_ps], True)
          else (case pr_err (run docker_pull) of
                  Some e \<Rightarrow> ([docker_ps, docker_pull], False)
                | None \<Rightarrow> ([docker_ps, docker_pull, docker_run], pr_err (run docker_run) = None)))"

section \<open>The state of the daemon\<close>

datatype daemon_event =
    EvRan "string list"
  | EvHandshake Node
  | EvStopPlugins
  | EvStop string

record daemon =
  dm_engine :: engine
  dm_registry :: Registry
  dm_mqtt :: mqtt_client
  dm_events :: "daemon_event list"

text \<open>What the start meets: the files, the plugins, the programs, the cluster, the net manager.\<close>

record daemon_env =
  dn_reexec :: bool
  dn_conf :: "string + ConfFile"
  dn_dirs :: "string option"
  dn_rw :: runtime_world
  dn_probe :: "CSIDriverType \<Rightarrow> probe_env"
  dn_run :: "string list \<Rightarrow> prog_result"
  dn_measure :: "Node \<Rightarrow> Node"
  dn_enc :: "Node \<Rightarrow> string"
  dn_conf_again :: "string + ConfFile"
  dn_cluster :: "string \<Rightarrow> string \<Rightarrow> string + int \<times> (string + jval)"
  dn_dial :: "string option \<Rightarrow> http_post"
  dn_port :: go_int

datatype daemon_end = DaemonChild | DaemonFatal | DaemonPanic | DaemonWaits

definition add_events :: "daemon_event list \<Rightarrow> daemon \<Rightarrow> daemon" where
  "add_events es d = d\<lparr>dm_events := dm_events d @ es\<rparr>"

definition upd_node :: "(Node \<Rightarrow> Node) \<Rightarrow> daemon \<Rightarrow> daemon" where
  "upd_node f d = d\<lparr>dm_engine := (dm_engine d)\<lparr>en_node := f (en_node (dm_engine d))\<rparr>\<rparr>"

abbreviation dm_node :: "daemon \<Rightarrow> Node" where
  "dm_node d \<equiv> en_node (dm_engine d)"

definition SetLogDirectory :: "string \<Rightarrow> Node \<Rightarrow> Node" where
  "SetLogDirectory dir n = n\<lparr>nd_LogDirectory := dir\<rparr>"

definition SetClusterAddress :: "string \<Rightarrow> Node \<Rightarrow> Node" where
  "SetClusterAddress addr n = n\<lparr>nd_ClusterAddress := addr\<rparr>"

definition SetOverlaySocket :: "string \<Rightarrow> Node \<Rightarrow> Node" where
  "SetOverlaySocket socket n = n\<lparr>nd_OverlaySocket := socket\<rparr>"

definition EnableOverlay :: "Node \<Rightarrow> Node" where
  "EnableOverlay n = n\<lparr>nd_Overlay := True\<rparr>"

definition SetNodeId :: "string \<Rightarrow> Node \<Rightarrow> Node" where
  "SetNodeId nid n = n\<lparr>nd_Id := nid\<rparr>"

text \<open>\<open>StartupAddon\<close>: only FLOps is registered with something to start.\<close>

definition registeredAddons :: "string list" where
  "registeredAddons = [FLOPS_LEARNER]"

definition StartupAddon :: "daemon_env \<Rightarrow> string \<Rightarrow> daemon \<Rightarrow> bool \<times> daemon" where
  "StartupAddon env name d =
     (let d = upd_node (AddSupportedAddons name) d in
      if name \<in> set registeredAddons
      then (case HandleFLOpsDataManager (dn_run env) of
              (calls, goes_on) \<Rightarrow> (goes_on, add_events (map EvRan calls) d))
      else (True, d))"

primrec start_addons :: "daemon_env \<Rightarrow> Addon list \<Rightarrow> daemon \<Rightarrow> bool \<times> daemon" where
  "start_addons env [] d = (True, d)"
| "start_addons env (a # as) d =
     (if ad_Active a
      then (case StartupAddon env (ad_Name a) d of
              (False, d') \<Rightarrow> (False, d')
            | (True, d') \<Rightarrow> start_addons env as d')
      else start_addons env as d)"

section \<open>The start\<close>

text \<open>The runtimes whose \<open>Stop\<close> is deferred: the active ones up to the first unknown name.\<close>

definition active_runtimes :: "ConfFile \<Rightarrow> string list" where
  "active_runtimes conf = map vt_Runtime (filter vt_Active (cf_Virtualizations conf))"

definition started_runtimes :: "daemon_env \<Rightarrow> ConfFile \<Rightarrow> string list" where
  "started_runtimes env conf =
     takeWhile (\<lambda>r. r \<in> set (registered_runtimes (dn_rw env))) (active_runtimes conf)"

text \<open>The deferred calls of \<open>main\<close>, the last one first; a fatal end skips them.\<close>

definition run_deferred :: "daemon_env \<Rightarrow> ConfFile \<Rightarrow> daemon \<Rightarrow> daemon" where
  "run_deferred env conf d =
     (add_events (EvStopPlugins # map EvStop (rev (started_runtimes env conf))) d)
       \<lparr>dm_registry := snd (StopAll (dm_registry d))\<rparr>"

text \<open>The overlay network, as \<open>main\<close> switches on the setting.\<close>

definition enable_overlay :: "ConfFile \<Rightarrow> daemon \<Rightarrow> daemon" where
  "enable_overlay conf d =
     (case choose_overlay (cf_OverlayNetwork conf) of
        OverlayDefault \<Rightarrow>
          upd_node EnableOverlay (add_events [EvRan [''systemctl'', ''start'', ''netmanager'']] d)
      | OverlayCustom socket \<Rightarrow> upd_node EnableOverlay (upd_node (SetOverlaySocket socket) d)
      | _ \<Rightarrow> d)"

definition start_services :: "daemon_env \<Rightarrow> ConfFile \<Rightarrow> string \<times> string \<Rightarrow> daemon \<Rightarrow> daemon_end \<times> daemon" where
  "start_services env conf answer d =
     (let d = d\<lparr>dm_mqtt := InitMqtt (snd answer) (cf_ClusterAddress conf) (fst answer) (cf_CertFile conf) (dm_mqtt d)\<rparr>
      in case StartServicesMonitoring (dn_rw env) (dm_engine d) of
           None \<Rightarrow> (DaemonPanic, run_deferred env conf d)
         | Some en \<Rightarrow> (DaemonWaits, d\<lparr>dm_engine := en\<rparr>))"

definition clusterHandshake :: "daemon_env \<Rightarrow> ConfFile \<Rightarrow> daemon \<Rightarrow> (string \<times> string) option \<times> daemon" where
  "clusterHandshake env conf d =
     (let d = upd_node (dn_measure env) d;
          d = add_events [EvHandshake (dm_node d)] d
      in case ClusterHandshake (dn_cluster env) (dn_enc env) (dn_conf_again env)
                (cf_ClusterAddress conf) (cf_ClusterPort conf) (dm_node d) of
           None \<Rightarrow> (None, d)
         | Some answer \<Rightarrow> (Some answer, upd_node (SetNodeId (snd answer)) d))"

definition join_cluster :: "daemon_env \<Rightarrow> ConfFile \<Rightarrow> daemon \<Rightarrow> daemon_end \<times> daemon" where
  "join_cluster env conf d =
     (case clusterHandshake env conf d of
        (None, d) \<Rightarrow> (DaemonFatal, d)
      | (Some answer, d) \<Rightarrow>
          let d = enable_overlay conf d
          in if nd_Overlay (dm_node d) \<and>
                RegisterSelfToNetworkComponent (dn_dial env) (dn_port env) conf (dm_node d) \<noteq> None
             then (DaemonFatal, d)
             else start_services env conf answer d)"

definition daemon_start :: "daemon_env \<Rightarrow> daemon \<Rightarrow> daemon_end \<times> daemon" where
  "daemon_start env d =
     (if dn_reexec env then (DaemonChild, d)
      else
        (case dn_conf env of
           Err e \<Rightarrow> (DaemonFatal, d)
         | Ok conf \<Rightarrow>
             let d = upd_node (SetLogDirectory (cf_AppLogs conf)) d;
                 d = upd_node (SetClusterAddress (cf_ClusterAddress conf)) d
             in case dn_dirs env of
                  Some e \<Rightarrow> (DaemonFatal, d)
                | None \<Rightarrow>
                    (case start_virtualizations (dn_rw env) (cf_Virtualizations conf) (dm_engine d) of
                       None \<Rightarrow> (DaemonPanic, add_events (map EvStop (rev (started_runtimes env conf))) d)
                     | Some en \<Rightarrow>
                         let reg = InitFromConfig (dn_probe env) conf (dm_registry d);
                             d = d\<lparr>dm_engine := register_drivers (reg_List reg) en, dm_registry := reg\<rparr>
                         in case start_addons env (cf_Addons conf) d of
                              (False, d) \<Rightarrow> (DaemonFatal, d)
                            | (True, d) \<Rightarrow> join_cluster env conf d)))"

text \<open>The whole life: a signal ends the wait, and the deferred calls run.\<close>

definition daemon_main :: "daemon_env \<Rightarrow> daemon \<Rightarrow> daemon_end \<times> daemon" where
  "daemon_main env d =
     (case daemon_start env d of
        (DaemonWaits, d') \<Rightarrow>
          (case dn_conf env of
             Ok conf \<Rightarrow> (DaemonWaits, run_deferred env conf d')
           | Err e \<Rightarrow> (DaemonWaits, d'))
      | r \<Rightarrow> r)"

section \<open>The message client\<close>

text \<open>
  The connection: whether it is up, the topics subscribed with their quality of service, and the
  handlers called, \<open>True\<close> for the one of deployments, with the topic of the message.
\<close>

record mqtt_conn =
  mn_client :: mqtt_client
  mn_up :: bool
  mn_subs :: "(string \<times> nat) list"
  mn_calls :: "(string \<times> bool) list"

datatype conn_event = Connected | ConnectionLost | Arrives string

definition connectHandler :: "mqtt_conn \<Rightarrow> mqtt_conn" where
  "connectHandler c = c\<lparr>mn_up := True, mn_subs := map (\<lambda>(key, _). (key, 1)) (mc_TOPICS (mn_client c))\<rparr>"

fun conn_step :: "mqtt_conn \<Rightarrow> conn_event \<Rightarrow> mqtt_conn" where
  "conn_step c Connected = connectHandler c"
| "conn_step c ConnectionLost = c\<lparr>mn_up := False, mn_subs := []\<rparr>"
| "conn_step c (Arrives topic) =
     (if mn_up c \<and> topic \<in> fst ` set (mn_subs c)
      then c\<lparr>mn_calls := mn_calls c @ map (Pair topic) (subscribeHandlerDispatcher (mn_client c) topic)\<rparr>
      else c)"

text \<open>\<open>runMqttClient\<close>: a first connection that fails is a panic.\<close>

definition runMqttClient :: "string option \<Rightarrow> mqtt_client \<Rightarrow> mqtt_conn option" where
  "runMqttClient connect_error client =
     (case connect_error of
        Some e \<Rightarrow> None
      | None \<Rightarrow> Some (connectHandler \<lparr>mn_client = client, mn_up = False, mn_subs = [], mn_calls = []\<rparr>))"

section \<open>What the node announces\<close>

text \<open>The part of the node that its start fills, and the measurements leave alone.\<close>

definition announced :: "Node \<Rightarrow> string list \<times> string list \<times> CSIDriverType list \<times> string \<times> string" where
  "announced n = (nd_Technology n, nd_SupportedAddons n, nd_CSIDrivers n, nd_LogDirectory n, nd_ClusterAddress n)"

lemma updateDynamicInfo_announced: "updateDynamicInfo nv (n, c) = Some (n', c') \<Longrightarrow> announced n' = announced n"
  by (auto simp: updateDynamicInfo_def announced_def split: option.splits)

lemma foldl_AddSupportedTechnology:
  "foldl (\<lambda>n name. AddSupportedTechnology name n) n names = n\<lparr>nd_Technology := nd_Technology n @ names\<rparr>"
  by (induction names arbitrary: n) (simp_all add: AddSupportedTechnology_def)

lemma foldl_AddCSIDriver: "foldl (\<lambda>n d. AddCSIDriver d n) n ds = n\<lparr>nd_CSIDrivers := nd_CSIDrivers n @ ds\<rparr>"
  by (induction ds arbitrary: n) (simp_all add: AddCSIDriver_def)

lemma register_drivers_node:
  "en_node (register_drivers ds en) = (en_node en)\<lparr>nd_CSIDrivers := nd_CSIDrivers (en_node en) @ ds\<rparr>"
  by (simp add: register_drivers_def foldl_AddCSIDriver)

lemma GetRuntime_node:
  "GetRuntime rw name en = Some en' \<Longrightarrow> name \<in> set (registered_runtimes rw) \<and>
     (\<exists>ts. en_node en' = (en_node en)\<lparr>nd_Technology := nd_Technology (en_node en) @ ts\<rparr> \<and>
        set ts \<subseteq> set (rw_additional rw))"
  by (cases "en_node en")
     (auto simp: GetRuntime_def newContainerdRuntime_def foldl_AddSupportedTechnology split: if_splits
       intro: exI [of _ "[]"])

lemma start_virtualizations_node:
  "start_virtualizations rw vs en = Some en' \<Longrightarrow>
   set (map vt_Runtime (filter vt_Active vs)) \<subseteq> set (registered_runtimes rw) \<and>
   (\<exists>ts. en_node en' = (en_node en)\<lparr>nd_Technology := nd_Technology (en_node en) @ ts\<rparr> \<and>
      subseq (map vt_Runtime (filter vt_Active vs)) ts \<and>
      set ts \<subseteq> set (map vt_Runtime (filter vt_Active vs)) \<union> set (rw_additional rw))"
proof (induction vs arbitrary: en)
  case Nil
  then show ?case
    by (cases "en_node en") (auto intro: exI [of _ "[]"])
next
  case (Cons v vs)
  show ?case
  proof (cases "vt_Active v")
    case True
    then obtain en1 where en1: "GetRuntime rw (vt_Runtime v) en = Some en1"
        "start_virtualizations rw vs (en1\<lparr>en_node := AddSupportedTechnology (vt_Runtime v) (en_node en1)\<rparr>) = Some en'"
      using Cons.prems by (auto split: option.splits)
    obtain ts1 where ts1: "en_node en1 = (en_node en)\<lparr>nd_Technology := nd_Technology (en_node en) @ ts1\<rparr>"
        "set ts1 \<subseteq> set (rw_additional rw)" "vt_Runtime v \<in> set (registered_runtimes rw)"
      using GetRuntime_node [OF en1(1)] by auto
    obtain ts where ts: "en_node en' = (en_node en)\<lparr>nd_Technology := nd_Technology (en_node en) @ ts1 @ vt_Runtime v # ts\<rparr>"
        "subseq (map vt_Runtime (filter vt_Active vs)) ts"
        "set ts \<subseteq> set (map vt_Runtime (filter vt_Active vs)) \<union> set (rw_additional rw)"
        "set (map vt_Runtime (filter vt_Active vs)) \<subseteq> set (registered_runtimes rw)"
      using Cons.IH [OF en1(2)] by (auto simp: ts1(1) AddSupportedTechnology_def)
    have "subseq (vt_Runtime v # map vt_Runtime (filter vt_Active vs)) (ts1 @ vt_Runtime v # ts)"
      using ts(2) by (simp add: list_emb_append2)
    with True ts ts1 show ?thesis
      by (intro conjI exI [of _ "ts1 @ vt_Runtime v # ts"]) auto
  next
    case False
    then show ?thesis
      using Cons.IH [of en] Cons.prems by simp
  qed
qed

lemma dm_node_simps [simp]:
  "dm_node (upd_node f d) = f (dm_node d)" "dm_node (add_events es d) = dm_node d"
  "dm_events (upd_node f d) = dm_events d" "dm_events (add_events es d) = dm_events d @ es"
  "dm_registry (upd_node f d) = dm_registry d" "dm_registry (add_events es d) = dm_registry d"
  by (simp_all add: upd_node_def add_events_def)

lemma start_addons_node:
  "start_addons env as d = (ok, d') \<Longrightarrow>
   (\<exists>calls. dm_events d' = dm_events d @ map EvRan calls) \<and>
   (ok \<longrightarrow> dm_node d' = (dm_node d)\<lparr>nd_SupportedAddons :=
      nd_SupportedAddons (dm_node d) @ map ad_Name (filter ad_Active as)\<rparr>)"
proof (induction as arbitrary: d)
  case Nil
  then show ?case
    by (auto intro: exI [of _ "[]"])
next
  case (Cons a as)
  show ?case
  proof (cases "ad_Active a")
    case True
    obtain ok1 d1 where d1: "StartupAddon env (ad_Name a) d = (ok1, d1)"
      by fastforce
    obtain calls where calls: "dm_events d1 = dm_events d @ map EvRan calls"
      using d1 by (auto simp: StartupAddon_def Let_def split: if_splits prod.splits intro: that [of "[]"])
    have node: "dm_node d1 = AddSupportedAddons (ad_Name a) (dm_node d)"
      using d1 by (auto simp: StartupAddon_def Let_def split: if_splits prod.splits)
    show ?thesis
    proof (cases ok1)
      case True
      then have "start_addons env as d1 = (ok, d')"
        using Cons.prems \<open>ad_Active a\<close> d1 by simp
      from Cons.IH [OF this] obtain calls' where "dm_events d' = dm_events d1 @ map EvRan calls'"
          "ok \<longrightarrow> dm_node d' = (dm_node d1)\<lparr>nd_SupportedAddons :=
            nd_SupportedAddons (dm_node d1) @ map ad_Name (filter ad_Active as)\<rparr>"
        by auto
      then show ?thesis
        using calls node \<open>ad_Active a\<close>
        by (auto simp: AddSupportedAddons_def intro!: exI [of _ "calls @ calls'"])
    next
      case False
      then show ?thesis
        using Cons.prems \<open>ad_Active a\<close> d1 calls by auto
    qed
  next
    case False
    then show ?thesis
      using Cons by simp
  qed
qed

lemma dm_deferred [simp]: "EvHandshake n \<in> set (dm_events (run_deferred env conf d)) \<longleftrightarrow> EvHandshake n \<in> set (dm_events d)"
  by (auto simp: run_deferred_def add_events_def)

lemma dm_overlay [simp]: "EvHandshake n \<in> set (dm_events (enable_overlay conf d)) \<longleftrightarrow> EvHandshake n \<in> set (dm_events d)"
  by (auto simp: enable_overlay_def split: overlay_choice.split)

lemma start_services_handshake [simp]:
  "EvHandshake n \<in> set (dm_events (snd (start_services env conf answer d))) \<longleftrightarrow> EvHandshake n \<in> set (dm_events d)"
  by (auto simp: start_services_def Let_def split: option.split)

lemma join_cluster_handshake:
  "EvHandshake n \<in> set (dm_events (snd (join_cluster env conf d))) \<Longrightarrow>
   n = dn_measure env (dm_node d) \<or> EvHandshake n \<in> set (dm_events d)"
  by (auto simp: join_cluster_def clusterHandshake_def Let_def split: option.splits if_splits)

lemma daemon_main_handshake:
  "EvHandshake n \<in> set (dm_events (snd (daemon_main env d))) \<longleftrightarrow> EvHandshake n \<in> set (dm_events (snd (daemon_start env d)))"
  by (auto simp: daemon_main_def split: prod.split daemon_end.split sum.split)

definition fresh_daemon :: "daemon \<Rightarrow> bool" where
  "fresh_daemon d \<longleftrightarrow> dm_events d = [] \<and> dm_registry d = [] \<and> nd_Technology (dm_node d) = [] \<and>
     nd_SupportedAddons (dm_node d) = [] \<and> nd_CSIDrivers (dm_node d) = []"

lemma handshake_node:
  assumes "fresh_daemon d" "dn_conf env = Ok conf" "\<And>n. announced (dn_measure env n) = announced n"
    and "EvHandshake n \<in> set (dm_events (snd (daemon_main env d)))"
  shows "subseq (active_runtimes conf) (nd_Technology n) \<and>
     set (nd_Technology n) \<subseteq> set (active_runtimes conf) \<union> set (rw_additional (dn_rw env)) \<and>
     nd_SupportedAddons n = map ad_Name (filter ad_Active (cf_Addons conf)) \<and>
     nd_CSIDrivers n = reg_List (InitFromConfig (dn_probe env) conf []) \<and>
     nd_LogDirectory n = cf_AppLogs conf \<and> nd_ClusterAddress n = cf_ClusterAddress conf"
proof -
  define d1 where "d1 = upd_node (SetClusterAddress (cf_ClusterAddress conf)) (upd_node (SetLogDirectory (cf_AppLogs conf)) d)"
  have fresh: "dm_events d1 = []" "dm_registry d1 = []" "nd_Technology (dm_node d1) = []"
      "nd_SupportedAddons (dm_node d1) = []" "nd_CSIDrivers (dm_node d1) = []"
      "nd_LogDirectory (dm_node d1) = cf_AppLogs conf" "nd_ClusterAddress (dm_node d1) = cf_ClusterAddress conf"
    using assms(1) by (simp_all add: fresh_daemon_def d1_def SetLogDirectory_def SetClusterAddress_def)
  have hs: "EvHandshake n \<in> set (dm_events (snd (daemon_start env d)))"
    using assms(4) daemon_main_handshake by blast
  have start: "daemon_start env d =
      (if dn_reexec env then (DaemonChild, d)
       else case dn_dirs env of
         Some e \<Rightarrow> (DaemonFatal, d1)
       | None \<Rightarrow>
           (case start_virtualizations (dn_rw env) (cf_Virtualizations conf) (dm_engine d1) of
              None \<Rightarrow> (DaemonPanic, add_events (map EvStop (rev (started_runtimes env conf))) d1)
            | Some en \<Rightarrow>
                (case start_addons env (cf_Addons conf) (d1\<lparr>dm_engine := register_drivers
                    (reg_List (InitFromConfig (dn_probe env) conf [])) en,
                    dm_registry := InitFromConfig (dn_probe env) conf []\<rparr>) of
                   (False, d) \<Rightarrow> (DaemonFatal, d)
                 | (True, d) \<Rightarrow> join_cluster env conf d)))"
    using assms(1)
    by (simp add: daemon_start_def assms(2) Let_def d1_def fresh_daemon_def split: option.split)
  have "dm_events d = []"
    using assms(1) by (simp add: fresh_daemon_def)
  then obtain en where en: "start_virtualizations (dn_rw env) (cf_Virtualizations conf) (dm_engine d1) = Some en"
    using hs fresh(1) by (auto simp: start split: if_splits option.splits)
  let ?d2 = "d1\<lparr>dm_engine := register_drivers (reg_List (InitFromConfig (dn_probe env) conf [])) en,
       dm_registry := InitFromConfig (dn_probe env) conf []\<rparr>"
  obtain ok d3 where d3: "start_addons env (cf_Addons conf) ?d2 = (ok, d3)"
    by fastforce
  have no_reexec: "\<not> dn_reexec env" "dn_dirs env = None"
    using hs fresh(1) \<open>dm_events d = []\<close> by (auto simp: start split: if_splits option.splits)
  have ev3: "EvHandshake n \<notin> set (dm_events d3)"
    using start_addons_node [OF d3] fresh(1) by auto
  then have ok: ok and "EvHandshake n \<in> set (dm_events (snd (join_cluster env conf d3)))"
    using hs by (auto simp: start no_reexec en d3 split: if_splits bool.splits)
  then have n: "announced n = announced (dm_node d3)"
    using join_cluster_handshake ev3 assms(3) by metis
  have "dm_node d3 = (en_node (register_drivers (reg_List (InitFromConfig (dn_probe env) conf [])) en))
      \<lparr>nd_SupportedAddons := nd_SupportedAddons (en_node en) @ map ad_Name (filter ad_Active (cf_Addons conf))\<rparr>"
    using start_addons_node [OF d3] ok by (simp add: register_drivers_node)
  then show ?thesis
    using n start_virtualizations_node [OF en] fresh
    by (auto simp: announced_def register_drivers_node active_runtimes_def)
qed

text \<open>
  C18: What the cluster learns of a node in its handshake is what its configuration says and what was
  started: every active runtime, in order, besides those only further runtimes that containers are
  configured with; exactly the active addons; exactly the drivers whose plugins answered; and the
  configured log directory and cluster address. So the cluster never hears of a node before all of
  this runs, whatever fails on the way.
\<close>

theorem handshake_announces:
  assumes "fresh_daemon d" "dn_conf env = Ok conf" "\<And>n. announced (dn_measure env n) = announced n"
    and "EvHandshake n \<in> set (dm_events (snd (daemon_main env d)))"
  shows "subseq (active_runtimes conf) (nd_Technology n) \<and>
     set (nd_Technology n) \<subseteq> set (active_runtimes conf) \<union> set (rw_additional (dn_rw env)) \<and>
     nd_SupportedAddons n = map ad_Name (filter ad_Active (cf_Addons conf)) \<and>
     nd_CSIDrivers n = reg_List (InitFromConfig (dn_probe env) conf []) \<and>
     nd_LogDirectory n = cf_AppLogs conf \<and> nd_ClusterAddress n = cf_ClusterAddress conf"
  by (rule handshake_node [OF assms])

definition start_conf :: ConfFile where
  "start_conf = conf_Default\<lparr>
     cf_Virtualizations := [\<lparr>vt_Name = ''crosvm'', vt_Runtime = CROSVM_RUNTIME, vt_Active = True, vt_Config = []\<rparr>],
     cf_Addons := [\<lparr>ad_Name = IMAGE_BUILDER, ad_Active = True, ad_Config = []\<rparr>]\<rparr>"

definition start_env :: daemon_env where
  "start_env = \<lparr>dn_reexec = False, dn_conf = Ok start_conf, dn_dirs = None,
     dn_rw = \<lparr>rw_client = True, rw_ctd = (\<lambda>_. quiet_ctd), rw_additional = []\<rparr>,
     dn_probe = (\<lambda>d. \<lparr>pe_Dial = (\<lambda>t. None), pe_Probe = None, pe_GetPluginInfo = Ok (''d'', ''1''),
       pe_NodeGetCapabilities = Ok []\<rparr>),
     dn_run = (\<lambda>args. \<lparr>pr_stdout = [], pr_stderr = [], pr_err = None\<rparr>),
     dn_measure = (\<lambda>n. n\<lparr>nd_CpuCores := 4\<rparr>), dn_enc = (\<lambda>n. []), dn_conf_again = Ok start_conf,
     dn_cluster = (\<lambda>url body. Err ''no route''), dn_dial = (\<lambda>socket url body. Ok 200), dn_port = 0\<rparr>"

definition start_daemon :: daemon where
  "start_daemon = \<lparr>dm_engine = \<lparr>en_node = zero_Node, en_ctd = \<lparr>cs_containers = [], cs_tasks = [], cs_snapshots = []\<rparr>,
     en_runtimes = [], en_monitors = []\<rparr>, dm_registry = [],
     dm_mqtt = \<lparr>mc_clientID = [], mc_TOPICS = [], mc_brokers = []\<rparr>, dm_events = []\<rparr>"

lemma fresh_start_daemon: "fresh_daemon start_daemon"
  by (simp add: fresh_daemon_def start_daemon_def zero_Node_def)

theorem handshake_announces_witness:
  "\<exists>n. EvHandshake n \<in> set (dm_events (snd (daemon_main start_env start_daemon))) \<and>
     nd_SupportedAddons n = [IMAGE_BUILDER] \<and> set (nd_Technology n) \<subseteq> {CROSVM_RUNTIME} \<and>
     nd_LogDirectory n = ''/tmp''"
proof -
  have virt: "cf_Virtualizations start_conf = [\<lparr>vt_Name = ''crosvm'', vt_Runtime = CROSVM_RUNTIME, vt_Active = True, vt_Config = []\<rparr>]"
      "cf_Addons start_conf = [\<lparr>ad_Name = IMAGE_BUILDER, ad_Active = True, ad_Config = []\<rparr>]"
      "cf_CSIDrivers start_conf = []" "cf_AppLogs start_conf = ''/tmp''"
    by (simp_all add: start_conf_def conf_Default_def zero_ConfFile_def DefaultLogDir_def)
  have "\<exists>n. EvHandshake n \<in> set (dm_events (snd (daemon_start start_env start_daemon)))"
    by (simp add: daemon_start_def start_env_def virt GetRuntime_def registered_runtimes_def StartupAddon_def
        registeredAddons_def IMAGE_BUILDER_def FLOPS_LEARNER_def join_cluster_def clusterHandshake_def ClusterHandshake_def Let_def
        split: option.split) (simp add: upd_node_def start_daemon_def container_name_def CROSVM_RUNTIME_def
        CONTAINER_RUNTIME_def)
  then obtain n where n: "EvHandshake n \<in> set (dm_events (snd (daemon_main start_env start_daemon)))"
    using daemon_main_handshake by blast
  have "announced (dn_measure start_env m) = announced m" for m
    by (simp add: start_env_def announced_def)
  moreover have "dn_conf start_env = Ok start_conf" "rw_additional (dn_rw start_env) = []"
    by (simp_all add: start_env_def)
  ultimately show ?thesis
    using handshake_announces [OF fresh_start_daemon _ _ n, of start_conf] n virt
    by (intro exI [of _ n]) (simp add: active_runtimes_def)
qed

section \<open>When the daemon panics\<close>

lemma GetRuntime_None: "GetRuntime rw name en = None \<longleftrightarrow> name \<notin> set (registered_runtimes rw)"
  by (simp add: GetRuntime_def)

lemma start_virtualizations_None:
  "start_virtualizations rw vs en = None \<longleftrightarrow>
     (\<exists>v \<in> set vs. vt_Active v \<and> vt_Runtime v \<notin> set (registered_runtimes rw))"
  by (induction vs arbitrary: en) (auto simp: GetRuntime_None split: option.split dest: GetRuntime_node)

lemma start_monitors_Some:
  "set names \<subseteq> set (registered_runtimes rw) \<Longrightarrow> start_monitors rw names en \<noteq> None"
  by (induction names arbitrary: en) (auto simp: GetRuntime_None split: option.split)

lemma enable_overlay_node:
  "nd_Technology (dm_node (enable_overlay conf d)) = nd_Technology (dm_node d)"
  by (auto simp: enable_overlay_def EnableOverlay_def SetOverlaySocket_def split: overlay_choice.split)

lemma start_services_no_panic:
  "set (nd_Technology (dm_node d)) \<subseteq> set (registered_runtimes (dn_rw env)) \<Longrightarrow>
   fst (start_services env conf answer d) \<noteq> DaemonPanic"
  using start_monitors_Some [of "nd_Technology (dm_node d)" "dn_rw env" "dm_engine d"]
  by (auto simp: start_services_def StartServicesMonitoring_def)

lemma join_cluster_no_panic:
  assumes "set (nd_Technology (dn_measure env (dm_node d))) \<subseteq> set (registered_runtimes (dn_rw env))"
  shows "fst (join_cluster env conf d) \<noteq> DaemonPanic"
proof -
  let ?d = "\<lambda>b. enable_overlay conf (upd_node (SetNodeId b)
      (add_events [EvHandshake (dn_measure env (dm_node d))] (upd_node (dn_measure env) d)))"
  have "fst (start_services env conf (a, b) (?d b)) \<noteq> DaemonPanic" for a b
    by (rule start_services_no_panic) (use assms in \<open>simp add: enable_overlay_node SetNodeId_def\<close>)
  then show ?thesis
    by (simp add: join_cluster_def clusterHandshake_def Let_def split: option.split)
qed

text \<open>
  A daemon whose configuration can be read panics exactly when an active runtime of the
  configuration is unknown, at its start and before the cluster hears of it; everything it starts
  later, the monitors of every runtime it announces included, finds its runtime.
\<close>

theorem daemon_panics_iff:
  assumes "fresh_daemon d" "\<not> dn_reexec env" "dn_conf env = Ok conf" "dn_dirs env = None"
    and "\<And>n. announced (dn_measure env n) = announced n"
  shows "(fst (daemon_main env d) = DaemonPanic) =
     (\<exists>v \<in> set (cf_Virtualizations conf). vt_Active v \<and> vt_Runtime v \<notin> set (registered_runtimes (dn_rw env)))"
proof -
  define d1 where "d1 = upd_node (SetClusterAddress (cf_ClusterAddress conf)) (upd_node (SetLogDirectory (cf_AppLogs conf)) d)"
  have main: "fst (daemon_main env d) = fst (daemon_start env d)"
    by (auto simp: daemon_main_def split: prod.split daemon_end.split sum.split)
  show ?thesis
  proof (cases "start_virtualizations (dn_rw env) (cf_Virtualizations conf) (dm_engine d1)")
    case None
    then show ?thesis
      using start_virtualizations_None [of "dn_rw env" "cf_Virtualizations conf" "dm_engine d1"]
      by (simp add: main daemon_start_def assms d1_def Let_def)
  next
    case (Some en)
    let ?reg = "InitFromConfig (dn_probe env) conf (dm_registry d1)"
    let ?d2 = "d1\<lparr>dm_engine := register_drivers (reg_List ?reg) en, dm_registry := ?reg\<rparr>"
    obtain ok d3 where d3: "start_addons env (cf_Addons conf) ?d2 = (ok, d3)"
      by fastforce
    have "nd_Technology (dm_node d1) = []"
      using assms(1) by (simp add: d1_def fresh_daemon_def SetLogDirectory_def SetClusterAddress_def)
    moreover have "set (rw_additional (dn_rw env)) \<subseteq> set (registered_runtimes (dn_rw env))"
      by (auto simp: registered_runtimes_def)
    ultimately have "set (nd_Technology (en_node en)) \<subseteq> set (registered_runtimes (dn_rw env))"
      using start_virtualizations_node [OF Some] by (elim conjE exE) (simp, blast)
    moreover have "nd_Technology (dn_measure env (dm_node d3)) = nd_Technology (en_node en)" if ok
      using start_addons_node [OF d3] that assms(5) [of "dm_node d3"] by (auto simp: announced_def register_drivers_node)
    ultimately have "fst (join_cluster env conf d3) \<noteq> DaemonPanic" if ok
      using join_cluster_no_panic that by metis
    then have "fst (daemon_start env d) \<noteq> DaemonPanic"
      using Some d3 by (cases ok) (simp_all add: daemon_start_def assms d1_def [symmetric] Let_def)
    then show ?thesis
      using start_virtualizations_None [of "dn_rw env" "cf_Virtualizations conf" "dm_engine d1"] Some main by simp
  qed
qed

theorem daemon_panics_iff_witness:
  "fst (daemon_main (start_env\<lparr>dn_conf := Ok (start_conf\<lparr>cf_Virtualizations :=
      [\<lparr>vt_Name = ''kata'', vt_Runtime = ''kata'', vt_Active = True, vt_Config = []\<rparr>]\<rparr>)\<rparr>) start_daemon) = DaemonPanic"
  using daemon_panics_iff [OF fresh_start_daemon, of "start_env\<lparr>dn_conf := Ok (start_conf\<lparr>cf_Virtualizations :=
      [\<lparr>vt_Name = ''kata'', vt_Runtime = ''kata'', vt_Active = True, vt_Config = []\<rparr>]\<rparr>)\<rparr>"]
  by (simp add: start_env_def announced_def registered_runtimes_def CONTAINER_RUNTIME_def UNIKERNEL_RUNTIME_def
      CROSVM_RUNTIME_def)

section \<open>The drivers that are announced\<close>

text \<open>The plugin behind a configured driver calls itself what the configuration calls it, if anything.\<close>

definition names_agree :: "(CSIDriverType \<Rightarrow> probe_env) \<Rightarrow> CSIDriverType \<Rightarrow> bool" where
  "names_agree probe d \<longleftrightarrow>
     (case pe_GetPluginInfo (probe d) of
        Err e \<Rightarrow> True
      | Ok (name, version) \<Rightarrow> cd_Name d = [] \<or> cd_Name d = name)"

definition keyed :: "Registry \<Rightarrow> bool" where
  "keyed reg \<longleftrightarrow> (\<forall>(name, p) \<in> set reg. cd_Name (pl_Config p) = name)"

lemma Register_keyed:
  "keyed reg \<Longrightarrow> names_agree probe d \<Longrightarrow> keyed (snd (Register (probe d) d reg))"
  by (auto simp: Register_def keyed_def names_agree_def Let_def split: option.split sum.splits prod.splits
      dest!: set_update_subset [THEN subsetD])

lemma InitFromConfig_keyed:
  assumes "\<forall>d \<in> set (cf_CSIDrivers conf). names_agree probe d"
  shows "keyed (InitFromConfig probe conf [])"
proof -
  have fold: "keyed (foldl (\<lambda>r d. snd (Register (probe d) d r)) reg ds)"
    if "keyed reg" "\<forall>d \<in> set ds. names_agree probe d" for reg ds
    using that by (induction ds arbitrary: reg) (simp_all add: Register_keyed)
  show ?thesis
    unfolding InitFromConfig_def by (rule fold [OF _ assms]) (simp add: keyed_def)
qed

text \<open>
  C29: Every driver a node announces to the cluster, so every driver the scheduler may count on when it
  places a service there, is found when the volumes of the service are mounted, as long as the
  plugins report the names they are configured with.
\<close>

theorem announced_drivers_found:
  assumes "fresh_daemon d" "dn_conf env = Ok conf" "\<And>n. announced (dn_measure env n) = announced n"
    and "EvHandshake n \<in> set (dm_events (snd (daemon_main env d)))"
    and "\<forall>c \<in> set (cf_CSIDrivers conf). names_agree (dn_probe env) c"
    and "HasCSIDriver name n"
  shows "\<exists>p. reg_Get (InitFromConfig (dn_probe env) conf []) name = Ok p"
proof -
  let ?reg = "InitFromConfig (dn_probe env) conf []"
  have "nd_CSIDrivers n = reg_List ?reg"
    using handshake_node [OF assms(1-4)] by simp
  then obtain key p where p: "(key, p) \<in> set ?reg" "cd_Name (pl_Config p) = name"
    using assms(6) by (auto simp: HasCSIDriver_def list_ex_iff reg_List_def)
  then have "key = name"
    using InitFromConfig_keyed [OF assms(5)] by (auto simp: keyed_def)
  then obtain q where "map_of ?reg name = Some q"
    using p(1) by (metis map_of_eq_None_iff fst_conv image_eqI not_None_eq)
  then show ?thesis
    by (simp add: reg_Get_def)
qed

definition disk_conf :: ConfFile where
  "disk_conf = start_conf\<lparr>cf_Virtualizations := [], cf_Addons := [],
     cf_CSIDrivers := [\<lparr>cd_Name = [], cd_Endpoint = ''/d.sock''\<rparr>]\<rparr>"

definition disk_env :: daemon_env where
  "disk_env = start_env\<lparr>dn_conf := Ok disk_conf\<rparr>"

theorem announced_drivers_found_witness:
  "\<exists>n p. EvHandshake n \<in> set (dm_events (snd (daemon_main disk_env start_daemon))) \<and> HasCSIDriver ''d'' n \<and>
     reg_Get (InitFromConfig (dn_probe disk_env) disk_conf []) ''d'' = Ok p"
proof -
  have conf: "cf_Virtualizations disk_conf = []" "cf_Addons disk_conf = []"
      "cf_CSIDrivers disk_conf = [\<lparr>cd_Name = [], cd_Endpoint = ''/d.sock''\<rparr>]"
    by (simp_all add: disk_conf_def)
  have hs: "EvHandshake ((dm_node start_daemon)\<lparr>nd_LogDirectory := cf_AppLogs disk_conf,
      nd_ClusterAddress := cf_ClusterAddress disk_conf, nd_CpuCores := 4,
      nd_CSIDrivers := [\<lparr>cd_Name = ''d'', cd_Endpoint = ''/d.sock''\<rparr>]\<rparr>) \<in> set (dm_events (snd (daemon_main disk_env start_daemon)))"
    unfolding daemon_main_handshake
    by (simp add: daemon_start_def disk_env_def start_env_def conf InitFromConfig_def Register_def reg_List_def
        join_cluster_def clusterHandshake_def ClusterHandshake_def Let_def register_drivers_def AddCSIDriver_def SetLogDirectory_def
        SetClusterAddress_def start_daemon_def zero_Node_def upd_node_def add_events_def split: option.split)
  have "HasCSIDriver ''d'' ((dm_node start_daemon)\<lparr>nd_LogDirectory := cf_AppLogs disk_conf,
      nd_ClusterAddress := cf_ClusterAddress disk_conf, nd_CpuCores := 4,
      nd_CSIDrivers := [\<lparr>cd_Name = ''d'', cd_Endpoint = ''/d.sock''\<rparr>]\<rparr>)"
    by (simp add: HasCSIDriver_def)
  moreover have "announced (dn_measure disk_env m) = announced m" for m
    by (simp add: disk_env_def start_env_def announced_def)
  moreover have "dn_conf disk_env = Ok disk_conf" "\<forall>c \<in> set (cf_CSIDrivers disk_conf). names_agree (dn_probe disk_env) c"
    by (simp_all add: disk_env_def start_env_def conf names_agree_def)
  ultimately show ?thesis
    using announced_drivers_found [OF fresh_start_daemon _ _ hs, of disk_conf "''d''"] hs by blast
qed

text \<open>
  With a name of its own in the configuration the driver is announced under this name, and never
  found: its plugin is registered under the name it reports.
\<close>

theorem announced_driver_not_found:
  assumes "cf_CSIDrivers conf = [c]" "cd_Name c \<noteq> []" "fst (Register (probe c) c []) = None"
    and "pe_GetPluginInfo (probe c) = Ok (name, version)" "name \<noteq> cd_Name c"
  shows "reg_List (InitFromConfig probe conf []) = [c] \<and>
     reg_Get (InitFromConfig probe conf []) (cd_Name c) = Err ''not registered''"
  using assms by (auto simp: InitFromConfig_def Register_def reg_List_def reg_Get_def Let_def split: option.splits sum.splits)

theorem announced_driver_not_found_witness:
  "reg_Get (InitFromConfig (dn_probe start_env)
     (conf_Default\<lparr>cf_CSIDrivers := [\<lparr>cd_Name = ''disk'', cd_Endpoint = ''/d.sock''\<rparr>]\<rparr>) []) ''disk'' = Err ''not registered''"
  using announced_driver_not_found [of "conf_Default\<lparr>cf_CSIDrivers := [\<lparr>cd_Name = ''disk'', cd_Endpoint = ''/d.sock''\<rparr>]\<rparr>"
      "\<lparr>cd_Name = ''disk'', cd_Endpoint = ''/d.sock''\<rparr>" "dn_probe start_env" "''d''" "''1''"]
  by (simp add: start_env_def Register_def)

section \<open>Messages\<close>

lemma Contains_same_length:
  assumes "length s = length p"
  shows "Contains s p \<longleftrightarrow> s = p"
proof -
  have "Index s p = None" if "length s < length p" for s
    using that by (induction s) (auto simp: HasPrefix_def)
  then show ?thesis
    using assms by (cases s) (auto simp: Contains_def HasPrefix_def)
qed

definition deploy_topic :: "string \<Rightarrow> string" where
  "deploy_topic nid = node_topic nid ''control/deploy''"

definition delete_topic :: "string \<Rightarrow> string" where
  "delete_topic nid = node_topic nid ''control/delete''"

lemma topics_differ: "deploy_topic nid \<noteq> delete_topic nid" "length (deploy_topic nid) = length (delete_topic nid)"
  by (simp_all add: deploy_topic_def delete_topic_def node_topic_def)

text \<open>The messages that arrive on the node's topics while the connection is up, with their handlers.\<close>

fun delivered :: "string \<Rightarrow> bool \<Rightarrow> conn_event list \<Rightarrow> (string \<times> bool) list" where
  "delivered nid up [] = []"
| "delivered nid up (Connected # es) = delivered nid True es"
| "delivered nid up (ConnectionLost # es) = delivered nid False es"
| "delivered nid up (Arrives topic # es) =
     (if up \<and> topic = deploy_topic nid then [(topic, True)]
      else if up \<and> topic = delete_topic nid then [(topic, False)] else []) @ delivered nid up es"

definition node_client :: "string \<Rightarrow> mqtt_conn \<Rightarrow> bool" where
  "node_client nid c \<longleftrightarrow> mc_TOPICS (mn_client c) = [(deploy_topic nid, True), (delete_topic nid, False)] \<and>
     (mn_up c \<longrightarrow> mn_subs c = [(deploy_topic nid, 1), (delete_topic nid, 1)])"

lemma dispatch_topics:
  assumes "mc_TOPICS c = [(deploy_topic nid, True), (delete_topic nid, False)]"
  shows "subscribeHandlerDispatcher c (deploy_topic nid) = [True]"
    and "subscribeHandlerDispatcher c (delete_topic nid) = [False]"
  using topics_differ [of nid] assms
  by (auto simp: subscribeHandlerDispatcher_def Contains_same_length)

lemma conn_step_delivered:
  "node_client nid c \<Longrightarrow>
   mn_calls (foldl conn_step c es) = mn_calls c @ delivered nid (mn_up c) es"
proof (induction es arbitrary: c)
  case (Cons e es)
  show ?case
  proof (cases e)
    case (Arrives topic)
    have "node_client nid (conn_step c (Arrives topic))" "mn_up (conn_step c (Arrives topic)) = mn_up c"
      using Cons.prems by (auto simp: node_client_def)
    then show ?thesis
      using Cons.IH [of "conn_step c (Arrives topic)"] Cons.prems topics_differ [of nid] dispatch_topics [of "mn_client c" nid]
      by (auto simp: Arrives node_client_def)
  next
    case Connected
    have "node_client nid (connectHandler c)" "mn_up (connectHandler c)" "mn_calls (connectHandler c) = mn_calls c"
      using Cons.prems by (auto simp: node_client_def connectHandler_def)
    then show ?thesis
      using Cons.IH [of "connectHandler c"] by (simp add: Connected)
  next
    case ConnectionLost
    have "node_client nid (c\<lparr>mn_up := False, mn_subs := []\<rparr>)"
      using Cons.prems by (simp add: node_client_def)
    then show ?thesis
      using Cons.IH [of "c\<lparr>mn_up := False, mn_subs := []\<rparr>"] by (simp add: ConnectionLost)
  qed
qed simp

text \<open>
  C19: Whatever the id the cluster gave the node, and however often the connection is lost and comes
  back: every message that arrives on the node's deploy or delete topic while it is connected is
  handled once, by the handler of its topic, in the order of arrival, and no other message is.
\<close>

theorem messages_dispatched:
  assumes "mc_clientID c0 = []" "mc_TOPICS c0 = []"
  shows "map_option (\<lambda>conn. mn_calls (foldl conn_step conn es)) (runMqttClient None (InitMqtt nid url port cert c0)) =
     Some (delivered nid True es)"
proof -
  have client: "mc_TOPICS (InitMqtt nid url port cert c0) = [(deploy_topic nid, True), (delete_topic nid, False)]"
    using assms(1,2) topics_differ(1) [of nid] by (simp add: InitMqtt_def deploy_topic_def delete_topic_def)
  let ?conn = "connectHandler \<lparr>mn_client = InitMqtt nid url port cert c0, mn_up = False, mn_subs = [], mn_calls = []\<rparr>"
  have "node_client nid ?conn" "mn_up ?conn" "mn_calls ?conn = []"
    using client by (auto simp: connectHandler_def node_client_def)
  then show ?thesis
    using conn_step_delivered [of nid ?conn es] by (simp add: runMqttClient_def)
qed

theorem messages_dispatched_witness:
  "map_option (\<lambda>conn. mn_calls (foldl conn_step conn
       [Arrives ''nodes/n1/control/delete'', ConnectionLost, Arrives ''nodes/n1/control/deploy'', Connected,
        Arrives ''nodes/n1/control/deploy'', Arrives ''nodes/n2/control/deploy'']))
     (runMqttClient None (InitMqtt ''n1'' ''10.0.0.1'' ''10003'' [] (dm_mqtt start_daemon))) =
   Some [(''nodes/n1/control/delete'', False), (''nodes/n1/control/deploy'', True)]"
  using messages_dispatched [of "dm_mqtt start_daemon" "[Arrives ''nodes/n1/control/delete'', ConnectionLost, Arrives ''nodes/n1/control/deploy'', Connected,
        Arrives ''nodes/n1/control/deploy'', Arrives ''nodes/n2/control/deploy'']" "''n1''" "''10.0.0.1''" "''10003''" "[]"]
  by (simp add: start_daemon_def deploy_topic_def delete_topic_def node_topic_def)

section \<open>The FLOps addon\<close>

text \<open>
  The addon goes on only with a data manager that Docker lists under its name or has just started,
  and starts one exactly when none is listed; one that is listed as stopped counts as running.
\<close>

theorem data_manager_runs:
  "snd (HandleFLOpsDataManager run) =
     (pr_err (run docker_ps) = None \<and>
      (ml_container_name \<in> set (Split (CHR 0x0A) (pr_stdout (run docker_ps))) \<or>
       pr_err (run docker_pull) = None \<and> pr_err (run docker_run) = None)) \<and>
   (docker_run \<in> set (fst (HandleFLOpsDataManager run))) =
     (pr_err (run docker_ps) = None \<and> ml_container_name \<notin> set (Split (CHR 0x0A) (pr_stdout (run docker_ps))) \<and>
      pr_err (run docker_pull) = None)"
proof -
  have "list_ex (\<lambda>line. line \<noteq> [] \<and> line = ml_container_name) ls \<longleftrightarrow> ml_container_name \<in> set ls" for ls
    by (auto simp: list_ex_iff ml_container_name_def)
  moreover have "docker_run \<noteq> docker_ps" "docker_run \<noteq> docker_pull"
    by (simp_all add: docker_run_def docker_ps_def docker_pull_def)
  ultimately show ?thesis
    by (auto simp: HandleFLOpsDataManager_def split: option.split)
qed

section \<open>The end of the container runtime\<close>

text \<open>
  \<open>StopContainerdClient\<close> after every task was told to stop: the wait ends with the goroutines, or
  with the timeout, after which whatever is left is removed.
\<close>

definition await_tasks :: "bool \<Rightarrow> (string \<Rightarrow> ctd_env) \<Rightarrow> ctd_state \<Rightarrow> ctd_state" where
  "await_tasks waitDone env s = (if waitDone then s else forceContainerCleanup env s)"

lemma timeout_removes_containers:
  "(\<And>cid. removals_ok (env cid)) \<Longrightarrow> cs_containers (await_tasks False env s) = []"
  by (simp add: await_tasks_def forceContainerCleanup_all)

end
