(* ===== verification/HostPathMain.thy ===== *)
theory HostPathMain
  imports CsiManager
begin

text \<open>
  The hostpath plugin as a process (\<open>csi/hostpath/main.go\<close>, \<open>server.go\<close>, \<open>identity.go\<close>): the
  endpoint, the start with its fatal ends, the requests served, the shutdown; and its identity, as
  the node engine's registry probes it. gRPC is left out: a request is an operation of the service.
\<close>

section \<open>The identity service\<close>

definition driverName :: string where "driverName = ''csi.oakestra.io/hostpath''"
definition driverVersion :: string where "driverVersion = ''0.1.0''"

definition GetPluginInfo :: "string \<times> string" where
  "GetPluginInfo = (driverName, driverVersion)"

definition GetPluginCapabilities :: "string list" where
  "GetPluginCapabilities = []"

definition Probe :: "string option" where
  "Probe = None"

section \<open>The process\<close>

definition stateDir :: string where
  "stateDir = ''/var/lib/oakestra/csi/state''"

definition default_endpoint :: string where
  "default_endpoint = ''unix:///var/lib/oakestra/csi/hostpath.sock''"

text \<open>
  What the process meets: the flags, making directories and listening, the system while orphaned
  mounts are cleaned up, and the state file when the tracker is closed.
\<close>

record plugin_env =
  pn_endpoint :: string
  pn_nodeID :: string
  pn_MkdirAll :: "string \<Rightarrow> string option"
  pn_Listen :: "string \<Rightarrow> string \<Rightarrow> string option"
  pn_start :: sys_env
  pn_close :: sys_env

datatype plugin_event =
    PnMkdirAll string
  | PnCleanup
  | PnRemove string
  | PnListen string string
  | PnServe hp_op
  | PnShutdown

datatype plugin_end = PluginFatal string | PluginStopped

text \<open>The socket: its directory is made and a stale one removed, whether there is one or not.\<close>

definition prepare_socket :: "plugin_env \<Rightarrow> string \<Rightarrow> string \<Rightarrow> string option \<times> plugin_event list" where
  "prepare_socket pn network addr =
     (if network = ''unix''
      then (case pn_MkdirAll pn (Dir addr) of
              Some e \<Rightarrow> (Some e, [PnMkdirAll (Dir addr)])
            | None \<Rightarrow> (None, [PnMkdirAll (Dir addr), PnRemove addr]))
      else (None, []))"

text \<open>
  \<open>main\<close>, for the operations that are served until the signal: how it ends, what it did in which
  order, and the tracker and the host it leaves, no tracker before there is one.
\<close>

definition plugin_main :: "plugin_env \<Rightarrow> hp_op list \<Rightarrow> host \<Rightarrow>
    plugin_end \<times> plugin_event list \<times> MountTracker option \<times> host" where
  "plugin_main pn ops h =
     (let (addr, network) = parseEndpoint (pn_endpoint pn) in
      case pn_MkdirAll pn stateDir of
        Some e \<Rightarrow> (PluginFatal e, [PnMkdirAll stateDir], None, h)
      | None \<Rightarrow>
          let (mt, h) = hostpath_start (pn_start pn) h;
              (err, es) = prepare_socket pn network addr;
              es = [PnMkdirAll stateDir, PnCleanup] @ es
          in case err of
               Some e \<Rightarrow> (PluginFatal e, es, Some mt, h)
             | None \<Rightarrow>
                 let es = es @ [PnListen network addr]
                 in case pn_Listen pn network addr of
                      Some e \<Rightarrow> (PluginFatal e, es, Some mt, h)
                    | None \<Rightarrow>
                        let (mt, h) = mt_Close (pn_close pn) (foldl hp_exec (mt, h) ops)
                        in (PluginStopped, es @ map PnServe ops @ [PnShutdown], Some mt, h))"

section \<open>What a run leaves to the next one\<close>

lemma plugin_main_stopped:
  assumes "plugin_main pn ops h = (PluginStopped, es, Some mt, h')"
  shows "(mt, h') = mt_Close (pn_close pn) (foldl hp_exec (NewMountTracker h, h) (OpRestart (pn_start pn) # ops))"
proof -
  obtain mt0 h0 where "hostpath_start (pn_start pn) h = (mt0, h0)"
    by fastforce
  then show ?thesis
    using assms by (auto simp: plugin_main_def Let_def split: prod.splits option.splits)
qed

text \<open>
  A plugin that was stopped by a signal hands its mounts to the next one: whatever it served and
  whatever failed, when the state file could be written the next start finds exactly the records
  the plugin had, and every path that is still mounted, other than by the host itself, is among them,
  so that the next start tries to unmount it.
\<close>

theorem restart_remembers:
  assumes "plugin_main pn ops h = (PluginStopped, es, Some mt, h')"
    and "tracks F (NewMountTracker h, h)" "persisted (NewMountTracker h, h)" "safe h"
    and "ops_ok (OpRestart (pn_start pn) # ops) (NewMountTracker h, h)"
    and "writable (pn_start pn)" "\<forall>a \<in> set ops. writes_ok a" "writable (pn_close pn)"
  shows "mt_mounts (NewMountTracker h') = mt_mounts mt \<and>
     (\<forall>t. mounted h' t \<longrightarrow> t \<in> F \<or> IsMounted (NewMountTracker h') t)"
proof -
  let ?s = "foldl hp_exec (NewMountTracker h, h) (OpRestart (pn_start pn) # ops)"
  obtain mt1 h1 where s: "?s = (mt1, h1)"
    by fastforce
  have "\<forall>a \<in> set (OpRestart (pn_start pn) # ops). writes_ok a"
    using assms(6,7) by (simp add: writable_def)
  then have tracks: "tracks F (mt1, h1)"
    using hp_run_tracks [OF assms(2,3) _ assms(5)] assms(4) s by simp
  have "mt = mt1" and h': "h' = mt_save (pn_close pn) mt1 h1"
    using plugin_main_stopped [OF assms(1)] s by (simp_all add: mt_Close_def)
  have "ho_state_file h' = Records (map snd (mt_mounts mt1))"
    using assms(8) by (simp add: h' mt_save_def writable_def)
  moreover have "keys_ok (mt_mounts mt1)"
    using tracks by (simp add: tracks_def)
  ultimately have mounts: "mt_mounts (NewMountTracker h') = mt_mounts mt"
    using \<open>mt = mt1\<close> by (simp add: NewMountTracker_def load_saved)
  have "mounted h' t \<longleftrightarrow> mounted h1 t" for t
    by (simp add: h' mt_save_def mounted_def)
  then show ?thesis
    using mounts tracks \<open>mt = mt1\<close> by (simp add: tracks_def IsMounted_def)
qed

definition quiet_plugin :: plugin_env where
  "quiet_plugin = \<lparr>pn_endpoint = default_endpoint, pn_nodeID = [], pn_MkdirAll = (\<lambda>p. None),
     pn_Listen = (\<lambda>network addr. None), pn_start = env_start, pn_close = env_start\<rparr>"

theorem restart_remembers_witness:
  "\<exists>es mt h. plugin_main quiet_plugin [OpPublish env_start req_start] host_start = (PluginStopped, es, Some mt, h) \<and>
     IsMounted (NewMountTracker h) ''/p/v''"
proof -
  have start: "hostpath_start env_start host_start = (NewMountTracker host_start, host_start)"
    by (simp add: hostpath_start_def CleanupOrphanedMounts_def NewMountTracker_def host_start_def mt_load_def)
  obtain mt h where pub: "NodePublishVolume env_start req_start (Some (NewMountTracker host_start), host_start) = (None, Some mt, h)"
      "ho_mounts h = (''/p/v'', ''/data'', False) # ho_mounts host_start"
    using publish_start by auto
  let ?h = "mt_save env_start mt h"
  have quiet: "pn_MkdirAll quiet_plugin p = None" "pn_Listen quiet_plugin network addr = None"
      "pn_start quiet_plugin = env_start" "pn_close quiet_plugin = env_start" for p network addr
    by (simp_all add: quiet_plugin_def)
  obtain addr network where ep: "parseEndpoint (pn_endpoint quiet_plugin) = (addr, network)"
    by fastforce
  have "fst (prepare_socket quiet_plugin network addr) = None"
    by (simp add: prepare_socket_def quiet)
  then obtain socket where prep: "prepare_socket quiet_plugin network addr = (None, socket)"
    by (cases "prepare_socket quiet_plugin network addr") simp
  obtain es where main: "plugin_main quiet_plugin [OpPublish env_start req_start] host_start = (PluginStopped, es, Some mt, ?h)"
    by (simp add: plugin_main_def quiet ep prep start pub(1) mt_Close_def Let_def)
  have "mounted ?h ''/p/v''" "''/p/v'' \<notin> {''/''}"
    using pub(2) by (simp_all add: mounted_def mt_save_def)
  moreover have "\<forall>t. mounted ?h t \<longrightarrow> t \<in> {''/''} \<or> IsMounted (NewMountTracker ?h) t"
  proof (rule restart_remembers [OF main, THEN conjunct2])
    show "tracks {''/''} (NewMountTracker host_start, host_start)" "persisted (NewMountTracker host_start, host_start)"
      by (simp_all add: tracks_def persisted_def NewMountTracker_def host_start_def mounted_def mt_load_def keys_ok_def)
    show "ops_ok (OpRestart (pn_start quiet_plugin) # [OpPublish env_start req_start]) (NewMountTracker host_start, host_start)"
      using start_ok by (simp add: quiet start req_start_def) (simp add: enoent_ok_def env_start_def)
  qed (use start_ok in \<open>simp_all add: quiet_plugin_def writable_def env_start_simps\<close>)
  ultimately show ?thesis
    using main by blast
qed

text \<open>No request is served, and no socket removed, before the mounts of an earlier run were tried.\<close>

theorem cleanup_before_serving:
  "plugin_main pn ops h = (PluginStopped, es, mt, h') \<Longrightarrow>
   \<exists>before. es = [PnMkdirAll stateDir, PnCleanup] @ before @
       [PnListen (snd (parseEndpoint (pn_endpoint pn))) (fst (parseEndpoint (pn_endpoint pn)))] @
       map PnServe ops @ [PnShutdown] \<and>
     PnRemove (fst (parseEndpoint (pn_endpoint pn))) \<in> set before =
       (snd (parseEndpoint (pn_endpoint pn)) = ''unix'')"
  by (auto simp: plugin_main_def prepare_socket_def Let_def split: prod.splits option.splits if_splits)

section \<open>The plugin in the node engine's registry\<close>

definition capability :: "string \<Rightarrow> node_capability" where
  "capability s = (if s = ''STAGE_UNSTAGE_VOLUME'' then STAGE_UNSTAGE_VOLUME else OtherCapability 0)"

definition hostpath_probe :: "(string \<Rightarrow> string option) \<Rightarrow> probe_env" where
  "hostpath_probe dial = \<lparr>pe_Dial = dial, pe_Probe = Probe, pe_GetPluginInfo = Ok GetPluginInfo,
     pe_NodeGetCapabilities = Ok (map capability NodeGetCapabilities)\<rparr>"

text \<open>
  A hostpath plugin that can be reached is found in the registry under its driver name, without
  staging, whatever name the configuration gives it.
\<close>

theorem hostpath_registered:
  assumes "dial (dial_target (cd_Endpoint cfg)) = None"
  shows "\<exists>p reg'. Register (hostpath_probe dial) cfg reg = (None, reg') \<and>
     reg_Get reg' driverName = Ok p \<and> \<not> pl_StageUnstageRequired p \<and> pl_DriverName p = driverName"
  using assms
  by (auto simp: Register_def hostpath_probe_def Probe_def GetPluginInfo_def NodeGetCapabilities_def reg_Get_def
      update_conv' Let_def)

end
