(* ===== verification/Spec2Isabelle.thy ===== *)
theory Spec2Isabelle
  imports Scheduling KernelVersion CrosvmRuntime UnikernelRuntime ContainersImage Machined Daemon HostPathMain
begin

text \<open>
  Verification of the Go services of Oakestra.

  The program. Oakestra places services on worker nodes. A cluster's scheduler
  (\<open>src/scheduler\<close>) takes a job from a task queue, fetches the candidate nodes or clusters from
  the resource abstractor, chooses one and posts the choice to the manager. On every worker the
  node engine (\<open>src/go_node_engine\<close>) receives deploy and delete messages over MQTT, runs services
  in one of its runtimes (containers, crosvm virtual machines, unikernels), mounts their CSI
  volumes through plugins such as the hostpath plugin (\<open>src/csi/hostpath\<close>), and reports the
  status of services and node.

  Conventions. Go's \<open>int\<close> and \<open>uint64\<close> are 64-bit words, strings are byte lists, \<open>float64\<close> is the
  exact type \<open>f64\<close> of multiples of the smallest double. A function that returns an error gives a
  sum (\<open>Err\<close>, \<open>Ok\<close>) or an optional error; a panic or a fatal end is \<open>None\<close>. What a library, the
  kernel, a plugin or another service answers is an argument, in records named after the calls;
  a state they change (mount table, containers, files) is part of the state. A lock that is held
  from the start of an operation to its end makes it one function; where goroutines meet in
  between, each part is a step and the theorems are about all orders of the steps.

  Theories.
  \<^item> \<open>Prelude\<close>, \<open>GoStrings\<close>, \<open>GoPath\<close>, \<open>GoFloat\<close>, \<open>GoHash\<close>, \<open>Json\<close>: the parts of Go's library the code
    uses, with the lemmas on them that the components share.
  \<^item> \<open>Model\<close>: services, task ids and the registry of instantiating services
    (\<open>model/Service.go\<close>, \<open>util/taskid\<close>, \<open>model/InstantiatingServices.go\<close>): task ids parse back, the
    registry holds exactly what was tracked last.
  \<^item> \<open>Placement\<close>, \<open>Scheduling\<close>: the two algorithms (\<open>scheduler/calculate\<close>) and the handling of a
    request from the queue's payload to the post (\<open>scheduler/api\<close>, \<open>cmd\<close>, \<open>requests\<close>): the best
    feasible candidate is chosen and the manager is told so, once.
  \<^item> \<open>TailBuf\<close>: the ring buffer of a machine's output refines the list of its last bytes.
  \<^item> \<open>KernelVersion\<close>: version comparison is a linear order, and the newest kernel is found.
  \<^item> \<open>Names\<close>: container, machine and cgroup names are valid, bounded and injective where they
    have to be.
  \<^item> \<open>ImageStore\<close>: the crosvm image cache and its size.
  \<^item> \<open>CrosvmInstance\<close>: the life cycle of a virtual machine as a step relation on its lock, status
    and exit channel; no exit is lost, a close is final, every start is accounted for.
  \<^item> \<open>CrosvmConfig\<close>, \<open>CrosvmVm\<close>: the machine's configuration, its creation and its command line.
  \<^item> \<open>Machined\<close>: the control group of a machine and the process that becomes its command: it runs
    in the group whose statistics are read, whatever fails before.
  \<^item> \<open>IoTools\<close>, \<open>FsImg\<close>, \<open>ContainersImage\<close>: file systems as maps from paths, copies and JSON files;
    the external programs that make images, mounts that are undone, the cloud-init image; and the
    image of a machine from a container image, for every order in which the layers arrive.
  \<^item> \<open>Stats\<close>, \<open>CrosvmRuntime\<close>: metrics, and the table of instances over the interface
    \<open>vm_lifecycle\<close>, which \<open>CrosvmRuntime\<close> interprets with the operations of an instance.
  \<^item> \<open>HostPath\<close>: the hostpath plugin: mounts, the tracker with its state file and its retrying
    worker, over the kernel's mount table; user data is never removed, mounts stay tracked.
  \<^item> \<open>Config\<close>: the configuration file, the commands that change it and what the daemon makes of
    it; writing and reading round-trip.
  \<^item> \<open>CsiManager\<close>: the plugin registry and the mounting of a service's volumes over the interface
    \<open>csi_plugins\<close>, interpreted with the hostpath plugin.
  \<^item> \<open>Containerd\<close>: a container's options, GPU selection, start, end and report, with what every
    early return leaves behind.
  \<^item> \<open>ContainerRuntime\<close>: how container tasks interleave: the kill queue is exact, answers and
    reports come once, the runtime settles, stopping ends everything.
  \<^item> \<open>NodeInfo\<close>: the node's metrics and addresses.
  \<^item> \<open>Dispatch\<close>: runtimes by name, the start of the engine, the MQTT handlers and their reports,
    the requests to the network manager and the cluster.
  \<^item> \<open>Commands\<close>: the command line (\<open>cmd\<close>): the tree of commands and what each does with the
    configuration, the service manager and the log; a session of command lines refines a map of
    settings, the log is followed without loss while it grows, no argument is missed.
  \<^item> \<open>Daemon\<close>: the daemon from its start to its end (\<open>internal/daemon\<close>), the FLOps addon and the
    message client: the cluster learns what was started, announced drivers are found, messages
    reach the handler of their topic once.
  \<^item> \<open>HostPathMain\<close>: the hostpath plugin as a process: what a stopped plugin leaves to the next one.
  \<^item> \<open>Unikernel\<close>, \<open>UnikernelVm\<close>, \<open>UnikernelRuntime\<close>: the unikernel runtime: the kernel archive in the
    node's file system, the addresses of a namespace and the command line of QEMU; one machine with
    what every early return leaves; and the interleaving of machines with the lock that an
    undeployment holds while it waits.

  The components meet in \<open>Containerd\<close>, which mounts volumes with \<open>CsiManager\<close>, whose plugin is
  \<open>HostPath\<close>; in \<open>ContainerRuntime\<close>, whose goroutines end with the statuses of \<open>Containerd\<close>; and in
  \<open>Dispatch\<close>, which reads \<open>Config\<close>, starts the runtimes and reports with \<open>Model\<close> and \<open>NodeInfo\<close>.
  \<open>Daemon\<close> composes \<open>Config\<close>, \<open>CsiManager\<close> and \<open>Dispatch\<close> in the order of \<open>main\<close>.

  Bounds and fuel. Loops are structural recursions or functions with a measure. The copy of a
  directory takes the depth of recursion as fuel, for which the depth of the file system is enough;
  a system call that is repeated while it is interrupted is a partial function.
  Sizes enter as hypotheses where a word could wrap: an output below \<open>2^63\<close> bytes for the tail
  buffer, integers below \<open>2^53\<close> where a double has to be exact. The worker of the hostpath plugin
  is followed for the 20 ticks after which it gives up; the container runtime makes at most
  \<open>work\<close> steps after the last call, a sum over the phases of its goroutines.

  Simplifications. Log output is left out. The answers of \<open>nvidia-smi\<close> stay the same during one
  update of the node. A map is an association list in the order in which Go ranges over it, or a
  function where the order does not matter. Timers fire or do not; durations are not counted,
  except as ticks. A report and the release of the registry entry after it are one step. The daemon
  measures its node once, before the handshake. The loop that follows the log sees the file at each
  of its passes, and ends with the signal.

  Not modelled. Loggers, the constructors of servers and the tickers around the reports call a
  library and do nothing else; the confirmations that two CSI commands print are left out. The orchestrators, the resource
  abstractor and the addon services are written in Python; the Go code meets them only as
  payloads, which the handlers here take for any content.
\<close>

end
